(* ===== verification/Prelude.thy ===== *)
theory Prelude
  imports Main "HOL-Library.Word" "HOL-Library.Signed_Division" "HOL-Library.Sublist"
begin

text \<open>
  Shared vocabulary of the development.

  \<^item> The part of the C library the sources call on text: character classes, \<open>strchr\<close>,
    \<open>strrchr\<close>, \<open>strstr\<close>, \<open>atoi\<close>, \<open>snprintf\<close> with
    truncation, decimal conversion. A C string is the list of its characters before the NUL; a
    pointer into a string is the suffix that starts there.
  \<^item> \<open>ucommon\<close>: the operations of the GNU uCommon library that the sources call. The
    library is not part of the repository, so they are the fields of a record that every
    definition using them takes as its argument; \<open>ucommon_ok\<close> collects the documented
    behaviour the code relies on.
  \<^item> The collections of simplification rules that the component theories extend.
\<close>

unbundle bit_operations_syntax

section \<open>Characters and C strings\<close>

definition c_islower :: "char \<Rightarrow> bool" where
  "c_islower c \<longleftrightarrow> 97 \<le> (of_char c :: nat) \<and> (of_char c :: nat) \<le> 122"

definition c_isdigit :: "char \<Rightarrow> bool" where
  "c_isdigit c \<longleftrightarrow> 48 \<le> (of_char c :: nat) \<and> (of_char c :: nat) \<le> 57"

definition c_isspace :: "char \<Rightarrow> bool" where
  "c_isspace c \<longleftrightarrow> (of_char c :: nat) = 32 \<or> (9 \<le> (of_char c :: nat) \<and> (of_char c :: nat) \<le> 13)"

fun strchr :: "string \<Rightarrow> char \<Rightarrow> string option" where
  "strchr [] c = None"
| "strchr (x # xs) c = (if x = c then Some (x # xs) else strchr xs c)"

fun strrchr :: "string \<Rightarrow> char \<Rightarrow> string option" where
  "strrchr [] c = None"
| "strrchr (x # xs) c =
     (case strrchr xs c of Some s \<Rightarrow> Some s | None \<Rightarrow> if x = c then Some (x # xs) else None)"

fun strstr :: "string \<Rightarrow> string \<Rightarrow> string option" where
  "strstr [] pat = (if pat = [] then Some [] else None)"
| "strstr (x # xs) pat = (if prefix pat (x # xs) then Some (x # xs) else strstr xs pat)"

text \<open>\<open>*strchr(buf, c) = 0\<close>: the text before the first \<open>c\<close>.\<close>

definition cut_at :: "char \<Rightarrow> string \<Rightarrow> string" where
  "cut_at c s = takeWhile (\<lambda>x. x \<noteq> c) s"

text \<open>\<open>snprintf(buf, size, ...)\<close>: at most \<open>size - 1\<close> characters are stored.\<close>

definition fit :: "nat \<Rightarrow> string \<Rightarrow> string" where
  "fit sz s = take (sz - 1) s"

text \<open>
  \<open>atoi\<close>, as the C library computes it: \<open>strtol\<close> in base 10 saturates at the
  range of a 64-bit \<open>long\<close>, and the result is narrowed to a 32-bit \<open>int\<close>.
\<close>

definition digit_value :: "char \<Rightarrow> nat" where
  "digit_value c = of_char c - 48"

fun digits_value :: "nat \<Rightarrow> string \<Rightarrow> nat" where
  "digits_value acc [] = acc"
| "digits_value acc (c # cs) =
     (if c_isdigit c then digits_value (10 * acc + digit_value c) cs else acc)"

definition strtol10 :: "string \<Rightarrow> int" where
  "strtol10 s =
     (let t = dropWhile c_isspace s;
          neg = (case t of c # _ \<Rightarrow> c = CHR ''-'' | [] \<Rightarrow> False);
          ds = (case t of c # cs \<Rightarrow> if c = CHR ''-'' \<or> c = CHR ''+'' then cs else t | [] \<Rightarrow> []);
          v = int (digits_value 0 ds)
      in max (- (2 ^ 63)) (min (2 ^ 63 - 1) (if neg then - v else v)))"

definition atoi :: "string \<Rightarrow> 32 word" where
  "atoi s = word_of_int (strtol10 s)"

text \<open>\<open>%u\<close> and \<open>%d\<close> of a non-negative value.\<close>

definition digit_char :: "nat \<Rightarrow> char" where
  "digit_char d = char_of (d + 48)"

fun show_nat :: "nat \<Rightarrow> string" where
  "show_nat n = (if n < 10 then [digit_char n] else show_nat (n div 10) @ [digit_char (n mod 10)])"

declare show_nat.simps [simp del]

subsection \<open>Searching\<close>

lemma strchr_None_iff [simp]: "strchr s c = None \<longleftrightarrow> c \<notin> set s"
  by (induction s) auto

lemma strchr_notin [simp]: "c \<notin> set s \<Longrightarrow> strchr s c = None"
  by simp

lemma strchr_append_notin: "c \<notin> set a \<Longrightarrow> strchr (a @ c # b) c = Some (c # b)"
  by (induction a) auto

lemma strchr_eq_dropWhile: "c \<in> set s \<Longrightarrow> strchr s c = Some (dropWhile (\<lambda>x. x \<noteq> c) s)"
  by (induction s) auto

lemma strrchr_None_iff [simp]: "strrchr s c = None \<longleftrightarrow> c \<notin> set s"
  by (induction s) (auto split: option.splits)

lemma strrchr_append: "strrchr (a @ b) c =
    (case strrchr b c of Some s \<Rightarrow> Some s | None \<Rightarrow> map_option (\<lambda>s. s @ b) (strrchr a c))"
proof (induction a)
  case Nil
  show ?case by (cases "strrchr b c") (simp_all del: strrchr_None_iff)
next
  case (Cons x a)
  then show ?case
    by (cases "strrchr b c"; cases "strrchr a c") (simp_all del: strrchr_None_iff)
qed

lemma strrchr_notin [simp]: "c \<notin> set s \<Longrightarrow> strrchr s c = None"
  by simp

lemma strrchr_append_notin: "c \<notin> set b \<Longrightarrow> strrchr (a @ c # b) c = Some (c # b)"
proof -
  assume "c \<notin> set b"
  then have "strrchr b c = None" by simp
  then show ?thesis by (simp add: strrchr_append del: strrchr_None_iff)
qed

lemma cut_at_append [simp]: "c \<notin> set a \<Longrightarrow> cut_at c (a @ c # b) = a"
  by (induction a) (auto simp: cut_at_def)

lemma cut_at_notin [simp]: "c \<notin> set a \<Longrightarrow> cut_at c a = a"
  by (induction a) (auto simp: cut_at_def)

lemma length_fit: "0 < sz \<Longrightarrow> length (fit sz s) < sz"
  by (simp add: fit_def)

lemma fit_id [simp]: "length s < sz \<Longrightarrow> fit sz s = s"
  by (simp add: fit_def)

subsection \<open>Decimal conversion\<close>

lemma digit_char_numeral [simp]:
  "digit_char 0 = CHR ''0''" "digit_char (Suc 0) = CHR ''1''" "digit_char 1 = CHR ''1''"
  "digit_char 2 = CHR ''2''" "digit_char 3 = CHR ''3''" "digit_char 4 = CHR ''4''"
  "digit_char 5 = CHR ''5''" "digit_char 6 = CHR ''6''" "digit_char 7 = CHR ''7''"
  "digit_char 8 = CHR ''8''" "digit_char 9 = CHR ''9''"
  by (simp_all add: digit_char_def char_of_def bit_0)

lemma of_char_digit_char: "d < 10 \<Longrightarrow> (of_char (digit_char d) :: nat) = d + 48"
  by (simp add: digit_char_def)

lemma c_isdigit_digit_char [simp]: "d < 10 \<Longrightarrow> c_isdigit (digit_char d)"
  by (simp add: c_isdigit_def of_char_digit_char)

lemma digit_value_digit_char [simp]: "d < 10 \<Longrightarrow> digit_value (digit_char d) = d"
  by (simp add: digit_value_def of_char_digit_char)

lemma show_nat_digits: "list_all c_isdigit (show_nat n)"
proof (induction n rule: show_nat.induct)
  case (1 n)
  then show ?case by (cases "n < 10") (simp_all add: show_nat.simps [of n])
qed

lemma show_nat_nonempty [simp]: "show_nat n \<noteq> []"
  by (simp add: show_nat.simps [of n])

lemma digits_value_append:
  "list_all c_isdigit a \<Longrightarrow> digits_value acc (a @ b) = digits_value (digits_value acc a) b"
  by (induction a arbitrary: acc) auto

lemma digits_value_show_nat [simp]: "digits_value 0 (show_nat n) = n"
proof (induction n rule: show_nat.induct)
  case (1 n)
  show ?case
  proof (cases "n < 10")
    case True
    then show ?thesis by (simp add: show_nat.simps [of n])
  next
    case False
    with 1 have "digits_value 0 (show_nat (n div 10)) = n div 10" by simp
    with False show ?thesis
      by (simp add: show_nat.simps [of n] digits_value_append show_nat_digits)
  qed
qed

lemma digits_value_stop: "list_all c_isdigit a \<Longrightarrow> \<not> c_isdigit c \<Longrightarrow>
    digits_value acc (a @ c # b) = digits_value acc a"
  by (simp add: digits_value_append)

lemma c_isdigit_not_special:
  "c_isdigit c \<Longrightarrow> \<not> c_isspace c \<and> c \<noteq> CHR ''-'' \<and> c \<noteq> CHR ''+'' \<and> c \<noteq> CHR '':''
     \<and> c \<noteq> CHR ''@'' \<and> c \<noteq> CHR ''/'' \<and> c \<noteq> CHR ''['' \<and> c \<noteq> CHR '']'' \<and> \<not> c_islower c"
  by (auto simp: c_isdigit_def c_isspace_def c_islower_def)

lemma strtol10_digits:
  assumes "list_all c_isdigit s" "s \<noteq> []"
  shows "strtol10 s = min (2 ^ 63 - 1) (int (digits_value 0 s))"
proof -
  obtain c cs where s: "s = c # cs" using assms(2) by (cases s) auto
  with assms(1) have c: "c_isdigit c" by simp
  with c_isdigit_not_special [OF c] have "dropWhile c_isspace s = s" by (simp add: s)
  with c_isdigit_not_special [OF c] show ?thesis
    by (simp add: strtol10_def s Let_def)
qed

lemma atoi_digits:
  assumes "list_all c_isdigit s" "s \<noteq> []" "digits_value 0 s < 2 ^ 32"
  shows "unat (atoi s) = digits_value 0 s"
proof -
  have "min (2 ^ 63 - 1) (int (digits_value 0 s)) = int (digits_value 0 s)"
    using assms(3) by simp
  then have "atoi s = of_nat (digits_value 0 s)"
    by (simp add: atoi_def strtol10_digits [OF assms(1,2)])
  with assms(3) show ?thesis by (simp add: unat_of_nat)
qed

lemma atoi_show_nat [simp]: "n < 2 ^ 32 \<Longrightarrow> unat (atoi (show_nat n)) = n"
  by (simp add: atoi_digits show_nat_digits)

subsection \<open>Machine integers\<close>

lemma unat16_less: "unat (x :: 16 word) < 65536"
proof -
  have "unat x < 2 ^ LENGTH(16)" by (rule unsigned_less)
  then show ?thesis by simp
qed

lemma unat16_sum: "unat (x :: 16 word) + unat (y :: 16 word) < 4294967296"
  using unat16_less [of x] unat16_less [of y] by simp

lemma unat_ucast_16_32 [simp]: "unat (ucast (x :: 16 word) :: 32 word) = unat x"
  by (simp add: unsigned_ucast_eq take_bit_nat_eq_self order_less_trans [OF unat16_less])

lemma unat_minus_1_16 [simp]: "unat (- 1 :: 16 word) = 65535"
  by (simp add: unsigned_minus_1_eq_mask mask_eq_exp_minus_1)

lemma unat_inc: "unat (x :: 'a::len word) < 2 ^ LENGTH('a) - 1 \<Longrightarrow> unat (x + 1) = unat x + 1"
  by (simp add: unat_word_ariths)

lemma unat_dec: "0 < unat (x :: 'a::len word) \<Longrightarrow> unat (x - 1) = unat x - 1"
  by (simp add: unat_sub word_le_nat_alt)

section \<open>The uCommon library\<close>

text \<open>
  \<open>u_eq\<close>, \<open>u_eqn\<close>: \<open>eq(a, b)\<close> and \<open>eq(a, b, n)\<close>.
  \<open>u_set\<close>: what a buffer of the given size holds after \<open>String::set\<close>.
  \<open>u_strip\<close>: \<open>String::strip(text, chars)\<close>.
  \<open>u_tokens\<close>: the texts that repeated calls of \<open>String::token(text, &last, clist,
  quote)\<close> return before it returns \<open>NULL\<close>.
  \<open>u_enlist\<close>, \<open>u_delist\<close>: a linked list (the objects from its root on) after
  \<open>enlist\<close> and \<open>delist\<close> of an object.
\<close>

record ucommon =
  u_eq :: "string \<Rightarrow> string \<Rightarrow> bool"
  u_eqn :: "string \<Rightarrow> string \<Rightarrow> nat \<Rightarrow> bool"
  u_set :: "nat \<Rightarrow> string \<Rightarrow> string"
  u_strip :: "string \<Rightarrow> string \<Rightarrow> string"
  u_tokens :: "string \<Rightarrow> string \<Rightarrow> string \<Rightarrow> string list"
  u_enlist :: "nat \<Rightarrow> nat list \<Rightarrow> nat list"
  u_delist :: "nat \<Rightarrow> nat list \<Rightarrow> nat list"

definition strip_chars :: "string \<Rightarrow> string \<Rightarrow> string" where
  "strip_chars s cs = rev (dropWhile (\<lambda>c. c \<in> set cs) (rev (dropWhile (\<lambda>c. c \<in> set cs) s)))"

text \<open>
  The documented behaviour: equality and bounded equality of texts, \<open>String::set\<close> stores a
  terminated copy that fits its size, \<open>strip\<close> removes the given characters from both ends,
  \<open>enlist\<close> makes the object the head of the list, \<open>delist\<close> unlinks it if it is
  found. Nothing is assumed of \<open>token\<close>.
\<close>

definition ucommon_ok :: "ucommon \<Rightarrow> bool" where
  "ucommon_ok u \<longleftrightarrow>
     (\<forall>a b. u_eq u a b \<longleftrightarrow> a = b) \<and>
     (\<forall>a b n. u_eqn u a b n \<longleftrightarrow> take n a = take n b) \<and>
     (\<forall>n s. u_set u n s = take (n - 1) s) \<and>
     (\<forall>s cs. u_strip u s cs = strip_chars s cs) \<and>
     (\<forall>x l. u_enlist u x l = x # l) \<and>
     (\<forall>x l. u_delist u x l = remove1 x l)"

lemma ucommon_okD [simp]:
  assumes "ucommon_ok u"
  shows ucommon_eq: "u_eq u a b \<longleftrightarrow> a = b"
    and ucommon_eqn: "u_eqn u a b n \<longleftrightarrow> take n a = take n b"
    and ucommon_set: "u_set u n s = take (n - 1) s"
    and ucommon_strip: "u_strip u s cs = strip_chars s cs"
    and ucommon_enlist: "u_enlist u x l = x # l"
    and ucommon_delist: "u_delist u x l = remove1 x l"
  using assms by (simp_all add: ucommon_ok_def)

text \<open>An instance with that behaviour, on which the theorems are exercised.\<close>

definition ucommon_ref :: "ucommon" where
  "ucommon_ref = \<lparr>u_eq = (=), u_eqn = (\<lambda>a b n. take n a = take n b), u_set = (\<lambda>n s. take (n - 1) s),
     u_strip = strip_chars, u_tokens = (\<lambda>s cl q. []), u_enlist = (#), u_delist = remove1\<rparr>"

lemma ucommon_ref_ok [simp]: "ucommon_ok ucommon_ref"
  by (simp add: ucommon_ok_def ucommon_ref_def)

section \<open>Running a machine\<close>

text \<open>A run is the fold of a step function over the operations; what every step keeps, a run keeps.\<close>

definition run_ops :: "('s \<Rightarrow> 'op \<Rightarrow> 's) \<Rightarrow> 's \<Rightarrow> 'op list \<Rightarrow> 's" where
  "run_ops step s ops = foldl step s ops"

lemma run_ops_simps [simp]:
  "run_ops step s [] = s"
  "run_ops step s (x # xs) = run_ops step (step s x) xs"
  "run_ops step s (xs @ ys) = run_ops step (run_ops step s xs) ys"
  by (simp_all add: run_ops_def)

text \<open>The operations of a run that are admitted, each in the state it meets.\<close>

fun guarded_ops :: "('s \<Rightarrow> 'op \<Rightarrow> 's) \<Rightarrow> ('s \<Rightarrow> 'op \<Rightarrow> bool) \<Rightarrow> 's \<Rightarrow> 'op list \<Rightarrow> bool" where
  "guarded_ops step guard s [] = True"
| "guarded_ops step guard s (x # xs) = (guard s x \<and> guarded_ops step guard (step s x) xs)"

locale machine =
  fixes step :: "'s \<Rightarrow> 'op \<Rightarrow> 's"
    and guard :: "'s \<Rightarrow> 'op \<Rightarrow> bool"
    and inv :: "'s \<Rightarrow> bool"
  assumes step_inv: "inv s \<Longrightarrow> guard s x \<Longrightarrow> inv (step s x)"
begin

lemma run_inv: "inv s \<Longrightarrow> guarded_ops step guard s xs \<Longrightarrow> inv (run_ops step s xs)"
  by (induction xs arbitrary: s) (auto intro: step_inv)

lemma run_inv_total: "inv s \<Longrightarrow> (\<And>t x. guard t x) \<Longrightarrow> inv (run_ops step s xs)"
  by (induction xs arbitrary: s) (auto intro: step_inv)

end

section \<open>Runs of a specification\<close>

inductive spec_run :: "('op \<Rightarrow> 'a \<Rightarrow> 'a \<Rightarrow> bool) \<Rightarrow> 'op list \<Rightarrow> 'a \<Rightarrow> 'a \<Rightarrow> bool" for spec where
  spec_run_Nil: "spec_run spec [] a a"
| spec_run_Cons: "spec x a b \<Longrightarrow> spec_run spec xs b c \<Longrightarrow> spec_run spec (x # xs) a c"

lemma spec_run_keeps:
  assumes "spec_run spec xs a b" and "\<And>x a b. x \<in> set xs \<Longrightarrow> spec x a b \<Longrightarrow> P a \<Longrightarrow> P b"
  shows "P a \<Longrightarrow> P b"
  using assms by (induction rule: spec_run.induct) auto

text \<open>A machine whose steps, seen through \<open>view\<close>, are steps of a specification.\<close>

locale simulation = machine step guard inv
  for step :: "'s \<Rightarrow> 'op \<Rightarrow> 's" and guard :: "'s \<Rightarrow> 'op \<Rightarrow> bool" and inv :: "'s \<Rightarrow> bool" +
  fixes view :: "'s \<Rightarrow> 'a" and spec :: "'op \<Rightarrow> 'a \<Rightarrow> 'a \<Rightarrow> bool"
  assumes step_sim: "inv s \<Longrightarrow> guard s x \<Longrightarrow> spec x (view s) (view (step s x))"
begin

lemma run_sim: "inv s \<Longrightarrow> guarded_ops step guard s xs \<Longrightarrow> spec_run spec xs (view s) (view (run_ops step s xs))"
  by (induction xs arbitrary: s) (auto intro: spec_run.intros step_sim step_inv)

lemma run_view_keeps:
  "inv s \<Longrightarrow> guarded_ops step guard s xs \<Longrightarrow> P (view s) \<Longrightarrow>
     (\<And>x a b. x \<in> set xs \<Longrightarrow> spec x a b \<Longrightarrow> P a \<Longrightarrow> P b) \<Longrightarrow> P (view (run_ops step s xs))"
  by (rule spec_run_keeps [OF run_sim]) blast+

end

end
