(* ===== verification/Threads.thy ===== *)
theory Threads
  imports Prelude
begin

text \<open>
  The threads of the SIP driver (\<open>sipw/thread.cpp\<close>): how \<open>activate\<close> starts one thread for
  each context and waits for all of them, how each thread runs its loop, and how \<open>shutdown\<close>
  stops them. \<open>SipThread\<close> says what one turn of the loop does with an event; here only
  the order of the accesses to the four shared variables matters.

  The counters are plain \<open>unsigned\<close>s without a lock. \<open>++n\<close> is therefore a read and a
  write, between which the other threads may run: every step of the system is one access.
\<close>

section \<open>The shared variables\<close>

record counters =
  ct_flag :: bool
  ct_startup :: "32 word"
  ct_active :: "32 word"
  ct_stopped :: "32 word"

text \<open>
  Where a thread is. The value carried by a constructor is the one that has been read by the
  increment or decrement in progress.

  \<^item> \<open>TNew\<close>: not started; \<open>TStart\<close>, \<open>TStart1\<close>: \<open>++startup_count\<close>
  \<^item> \<open>TLoop\<close>: at the first test of \<open>shutdown_flag\<close>; \<open>TPoll\<close>: in \<open>get_event\<close>
  \<^item> \<open>TTest\<close>: at the second test, with or without an event
  \<^item> \<open>TEnter\<close>, \<open>TEnter1\<close>: \<open>++active_count\<close>; \<open>TWork\<close>: the event is treated
  \<^item> \<open>TLeave\<close>, \<open>TLeave1\<close>: \<open>--active_count\<close>
  \<^item> \<open>TStop\<close>, \<open>TStop1\<close>: \<open>++shutdown_count\<close>; \<open>TGone\<close>: the thread has returned
\<close>

datatype tpc =
    TNew | TStart | TStart1 "32 word" | TLoop | TPoll | TTest bool
  | TEnter | TEnter1 "32 word" | TWork | TLeave | TLeave1 "32 word"
  | TStop | TStop1 "32 word" | TGone

text \<open>One access of a thread; \<open>ev\<close> tells whether \<open>get_event\<close> returns an event.\<close>

fun thread_run :: "bool \<Rightarrow> tpc \<Rightarrow> counters \<Rightarrow> tpc \<times> counters" where
  "thread_run ev TNew c = (TNew, c)"
| "thread_run ev TStart c = (TStart1 (ct_startup c), c)"
| "thread_run ev (TStart1 v) c = (TLoop, c\<lparr>ct_startup := v + 1\<rparr>)"
| "thread_run ev TLoop c = (if ct_flag c then TTest False else TPoll, c)"
| "thread_run ev TPoll c = (TTest ev, c)"
| "thread_run ev (TTest sevent) c = (if ct_flag c then TStop else if sevent then TEnter else TLoop, c)"
| "thread_run ev TEnter c = (TEnter1 (ct_active c), c)"
| "thread_run ev (TEnter1 v) c = (TWork, c\<lparr>ct_active := v + 1\<rparr>)"
| "thread_run ev TWork c = (TLeave, c)"
| "thread_run ev TLeave c = (TLeave1 (ct_active c), c)"
| "thread_run ev (TLeave1 v) c = (TLoop, c\<lparr>ct_active := v - 1\<rparr>)"
| "thread_run ev TStop c = (TStop1 (ct_stopped c), c)"
| "thread_run ev (TStop1 v) c = (TGone, c\<lparr>ct_stopped := v + 1\<rparr>)"
| "thread_run ev TGone c = (TGone, c)"

section \<open>The main thread\<close>

text \<open>
  The thread that runs \<open>activate\<close> and later \<open>shutdown\<close>: \<open>MStart k\<close> has started
  \<open>k\<close> threads; \<open>MAwaitStart\<close>, \<open>MAwaitIdle\<close>, \<open>MAwaitStop\<close> are the three loops that
  sleep; \<open>MUp\<close> is between the two functions, \<open>MDown\<close> after both.
\<close>

datatype mpc = MStart nat | MAwaitStart | MUp | MAwaitIdle | MAwaitStop | MDown

record tsys =
  th_main :: mpc
  th_pcs :: "tpc list"
  th_cnt :: counters
  th_released :: bool

definition thread_activate :: "tsys \<Rightarrow> tsys" where
  "thread_activate s =
     (case th_main s of
        MStart k \<Rightarrow>
          if k < length (th_pcs s) then s\<lparr>th_pcs := (th_pcs s)[k := TStart], th_main := MStart (k + 1)\<rparr>
          else s\<lparr>th_main := MAwaitStart\<rparr>
      | MAwaitStart \<Rightarrow>
          if ct_startup (th_cnt s) < of_nat (length (th_pcs s)) then s else s\<lparr>th_main := MUp\<rparr>
      | _ \<Rightarrow> s)"

definition thread_shutdown :: "tsys \<Rightarrow> tsys" where
  "thread_shutdown s =
     (case th_main s of
        MUp \<Rightarrow> s\<lparr>th_cnt := (th_cnt s)\<lparr>ct_flag := True\<rparr>, th_main := MAwaitIdle\<rparr>
      | MAwaitIdle \<Rightarrow>
          if ct_active (th_cnt s) \<noteq> 0 then s else s\<lparr>th_released := True, th_main := MAwaitStop\<rparr>
      | MAwaitStop \<Rightarrow>
          if ct_stopped (th_cnt s) < ct_startup (th_cnt s) then s else s\<lparr>th_main := MDown\<rparr>
      | _ \<Rightarrow> s)"

definition thread_access :: "nat \<Rightarrow> bool \<Rightarrow> tsys \<Rightarrow> tsys" where
  "thread_access i ev s =
     (case thread_run ev (th_pcs s ! i) (th_cnt s) of
        (p, c) \<Rightarrow> s\<lparr>th_pcs := (th_pcs s)[i := p], th_cnt := c\<rparr>)"

text \<open>All interleavings of the accesses.\<close>

inductive tsys_step :: "tsys \<Rightarrow> tsys \<Rightarrow> bool" where
  activate: "tsys_step s (thread_activate s)"
| shutdown: "tsys_step s (thread_shutdown s)"
| access: "i < length (th_pcs s) \<Longrightarrow> tsys_step s (thread_access i ev s)"

inductive_cases tsys_stepE: "tsys_step s t"

definition tsys_init :: "nat \<Rightarrow> tsys" where
  "tsys_init n = \<lparr>th_main = MStart 0, th_pcs = replicate n TNew,
     th_cnt = \<lparr>ct_flag = False, ct_startup = 0, ct_active = 0, ct_stopped = 0\<rparr>, th_released = False\<rparr>"

inductive tsys_reach :: "tsys \<Rightarrow> tsys \<Rightarrow> bool" for s0 where
  start: "tsys_reach s0 s0"
| step: "tsys_reach s0 s \<Longrightarrow> tsys_step s t \<Longrightarrow> tsys_reach s0 t"

section \<open>What the counters say about the threads\<close>

definition count_of :: "('a \<Rightarrow> bool) \<Rightarrow> 'a list \<Rightarrow> nat" where
  "count_of P xs = length (filter P xs)"

lemma count_of_update:
  "i < length xs \<Longrightarrow>
     count_of P (xs[i := y]) + (if P (xs ! i) then 1 else 0) = count_of P xs + (if P y then 1 else 0)"
proof (induction xs arbitrary: i)
  case (Cons x xs)
  then show ?case by (cases i) (auto simp: count_of_def)
qed simp

lemma count_of_le: "count_of P xs \<le> length xs"
  by (simp add: count_of_def)

lemma count_of_all: "length xs \<le> count_of P xs \<Longrightarrow> i < length xs \<Longrightarrow> P (xs ! i)"
  unfolding count_of_def by (metis antisym filter_id_conv length_filter_le length_filter_less less_irrefl nth_mem)

lemma unat_Suc_le: "unat (v + 1 :: 32 word) \<le> Suc (unat v)"
  by (simp add: unat_word_ariths)

fun past_start :: "tpc \<Rightarrow> bool" where
  "past_start TNew \<longleftrightarrow> False"
| "past_start TStart \<longleftrightarrow> False"
| "past_start (TStart1 v) \<longleftrightarrow> False"
| "past_start _ \<longleftrightarrow> True"

text \<open>Reads in progress, and the value they carry.\<close>

fun start_read :: "tpc \<Rightarrow> nat" where
  "start_read (TStart1 v) = unat v"
| "start_read _ = 0"

fun stop_read :: "tpc \<Rightarrow> nat" where
  "stop_read (TStop1 v) = unat v"
| "stop_read _ = 0"

definition threads_inv :: "nat \<Rightarrow> tsys \<Rightarrow> bool" where
  "threads_inv n s \<longleftrightarrow>
     length (th_pcs s) = n \<and>
     unat (ct_startup (th_cnt s)) \<le> count_of past_start (th_pcs s) \<and>
     (\<forall>p \<in> set (th_pcs s). start_read p \<le> count_of past_start (th_pcs s)) \<and>
     unat (ct_stopped (th_cnt s)) \<le> count_of (\<lambda>p. p = TGone) (th_pcs s) \<and>
     (\<forall>p \<in> set (th_pcs s). stop_read p \<le> count_of (\<lambda>p. p = TGone) (th_pcs s)) \<and>
     (th_main s \<in> {MUp, MAwaitIdle, MAwaitStop, MDown} \<longrightarrow> n \<le> unat (ct_startup (th_cnt s))) \<and>
     (\<forall>k. th_main s = MStart k \<longrightarrow> (\<forall>i < n. k \<le> i \<longrightarrow> th_pcs s ! i = TNew)) \<and>
     (th_main s = MDown \<longrightarrow> n \<le> count_of (\<lambda>p. p = TGone) (th_pcs s))"


lemma thread_run_mono:
  assumes "thread_run ev p c = (p', c')"
  shows "past_start p \<Longrightarrow> past_start p'" and "p = TGone \<Longrightarrow> p' = TGone"
    and "p = TNew \<Longrightarrow> p' = TNew \<and> c' = c"
  using assms by (cases p; auto)+

lemma thread_run_startup:
  assumes "thread_run ev p c = (p', c')"
  shows "(ct_startup c' = ct_startup c \<and> (start_read p' = 0 \<or> start_read p' = unat (ct_startup c))) \<or>
    (\<exists>v. unat v = start_read p \<and> ct_startup c' = v + 1 \<and> past_start p' \<and> \<not> past_start p \<and> start_read p' = 0)"
  using assms by (cases p; force split: if_splits)

lemma thread_run_stopped:
  assumes "thread_run ev p c = (p', c')"
  shows "(ct_stopped c' = ct_stopped c \<and> (stop_read p' = 0 \<or> stop_read p' = unat (ct_stopped c))) \<or>
    (\<exists>v. unat v = stop_read p \<and> ct_stopped c' = v + 1 \<and> p' = TGone \<and> p \<noteq> TGone \<and> stop_read p' = 0)"
  using assms by (cases p; force split: if_splits)

text \<open>
  A counter that the threads increase one after the other, each by a read and a write: if neither
  the counter nor a value read exceeds the number of threads that have passed the write, the
  same holds after any access. The same holds with a distance \<open>d\<close> between them, the number of
  increments that have been lost.
\<close>

lemma counter_kept:
  fixes w :: "32 word"
  assumes i: "i < length ps" and rd: "\<forall>p \<in> set ps. reading p + d \<le> count_of passed ps"
    and le: "unat w + d \<le> count_of passed ps" and mono: "passed (ps ! i) \<Longrightarrow> passed p'"
    and run: "(w' = w \<and> (reading p' = 0 \<or> reading p' = unat w)) \<or>
      (\<exists>v. unat v = reading (ps ! i) \<and> w' = v + 1 \<and> passed p' \<and> \<not> passed (ps ! i) \<and> reading p' = 0)"
  shows "unat w' + d \<le> count_of passed (ps[i := p']) \<and>
    (\<forall>p \<in> set (ps[i := p']). reading p + d \<le> count_of passed (ps[i := p']))"
proof -
  have c: "count_of passed (ps[i := p']) = count_of passed ps + (if passed p' \<and> \<not> passed (ps ! i) then 1 else 0)"
    using count_of_update [OF i, of "passed" p'] mono by (auto split: if_splits)
  have own: "reading (ps ! i) + d \<le> count_of passed ps" using rd i by simp
  have up: "unat (v + 1) + d \<le> Suc (count_of passed ps)" if "unat v = reading (ps ! i)" for v :: "32 word"
    using unat_Suc_le [of v] that own by simp
  from run have "unat w' + d \<le> count_of passed (ps[i := p'])" "reading p' + d \<le> count_of passed (ps[i := p'])"
    using le c up by auto
  moreover have "reading p + d \<le> count_of passed (ps[i := p'])" if "p \<in> set ps" for p
    using rd that c by fastforce
  ultimately show ?thesis using set_update_subset_insert by fastforce
qed

lemma threads_inv_init: "n < 2 ^ 32 \<Longrightarrow> threads_inv n (tsys_init n)"
  by (auto simp: threads_inv_def tsys_init_def)


lemma threads_inv_access:
  assumes inv: "threads_inv n s" and i: "i < length (th_pcs s)" and n: "n < 2 ^ 32"
  shows "threads_inv n (thread_access i ev s)"
proof -
  obtain p' c' where r: "thread_run ev (th_pcs s ! i) (th_cnt s) = (p', c')" by (rule prod.exhaust)
  note m = thread_run_mono [OF r]
  let ?ps = "(th_pcs s)[i := p']" and ?gone = "\<lambda>p. p = TGone"
  have t: "thread_access i ev s = s\<lparr>th_pcs := ?ps, th_cnt := c'\<rparr>" by (simp add: thread_access_def r)
  have I: "length (th_pcs s) = n" "unat (ct_startup (th_cnt s)) \<le> count_of past_start (th_pcs s)"
    "\<forall>p \<in> set (th_pcs s). start_read p \<le> count_of past_start (th_pcs s)"
    "unat (ct_stopped (th_cnt s)) \<le> count_of ?gone (th_pcs s)"
    "\<forall>p \<in> set (th_pcs s). stop_read p \<le> count_of ?gone (th_pcs s)"
    and up: "th_main s \<in> {MUp, MAwaitIdle, MAwaitStop, MDown} \<Longrightarrow> n \<le> unat (ct_startup (th_cnt s))"
    and new: "\<And>k. th_main s = MStart k \<Longrightarrow> \<forall>i < n. k \<le> i \<longrightarrow> th_pcs s ! i = TNew"
    and down: "th_main s = MDown \<Longrightarrow> n \<le> count_of ?gone (th_pcs s)"
    using inv by (simp_all add: threads_inv_def)
  note a = counter_kept [where d = 0, unfolded add_0_right, OF i I(3,2) m(1) thread_run_startup [OF r]]
  note b = counter_kept [where passed = ?gone and d = 0, unfolded add_0_right,
      OF i I(5,4) m(2) thread_run_stopped [OF r]]
  have "n \<le> unat (ct_startup c')" if "th_main s \<in> {MUp, MAwaitIdle, MAwaitStop, MDown}"
  proof -
    have "length (th_pcs s) \<le> count_of past_start (th_pcs s)" using up [OF that] I(1,2) by simp
    from count_of_all [OF this i] have "past_start (th_pcs s ! i)" .
    then show ?thesis using thread_run_startup [OF r] up [OF that] by auto
  qed
  moreover have "\<forall>j < n. k \<le> j \<longrightarrow> ?ps ! j = TNew" if "th_main s = MStart k" for k
    using new [OF that] m(3) i I(1) by (auto simp: nth_list_update)
  moreover have "n \<le> count_of ?gone ?ps" if "th_main s = MDown"
    using down [OF that] count_of_update [OF i, of ?gone p'] m(2) by (auto split: if_splits)
  ultimately show ?thesis using a b I(1) by (simp add: threads_inv_def t)
qed

lemma threads_inv_activate:
  assumes inv: "threads_inv n s" and n: "n < 2 ^ 32"
  shows "threads_inv n (thread_activate s)"
proof (cases "th_main s")
  case (MStart k)
  have len: "length (th_pcs s) = n" using inv by (simp add: threads_inv_def)
  show ?thesis
  proof (cases "k < n")
    case True
    have new: "th_pcs s ! k = TNew" using inv MStart True by (simp add: threads_inv_def)
    have "count_of P ((th_pcs s)[k := TStart]) = count_of P (th_pcs s)"
      if "P = past_start \<or> P = (\<lambda>p. p = TGone)" for P
      using count_of_update [of k "th_pcs s" P TStart] True len new that by auto
    moreover have "\<forall>p \<in> set ((th_pcs s)[k := TStart]). p = TStart \<or> p \<in> set (th_pcs s)"
      using set_update_subset_insert [of "th_pcs s" k TStart] by auto
    ultimately show ?thesis
      using inv MStart True len by (auto simp: threads_inv_def thread_activate_def nth_list_update)
  qed (use inv MStart len in \<open>auto simp: threads_inv_def thread_activate_def\<close>)
next
  case MAwaitStart
  have "unat (of_nat n :: 32 word) = n" using n by (simp add: unat_of_nat)
  with MAwaitStart inv show ?thesis
    by (auto simp: threads_inv_def thread_activate_def word_less_nat_alt)
qed (use inv in \<open>simp_all add: thread_activate_def\<close>)

lemma threads_inv_shutdown:
  assumes inv: "threads_inv n s"
  shows "threads_inv n (thread_shutdown s)"
proof (cases "th_main s")
  case MAwaitStop
  have le: "n \<le> unat (ct_startup (th_cnt s))" "unat (ct_stopped (th_cnt s)) \<le> count_of (\<lambda>p. p = TGone) (th_pcs s)"
    using inv MAwaitStop by (simp_all add: threads_inv_def)
  show ?thesis
  proof (cases "ct_stopped (th_cnt s) < ct_startup (th_cnt s)")
    case False
    then have "n \<le> count_of (\<lambda>p. p = TGone) (th_pcs s)" using le by (simp add: word_less_nat_alt)
    with False inv MAwaitStop show ?thesis by (simp add: threads_inv_def thread_shutdown_def)
  qed (use inv MAwaitStop in \<open>simp add: thread_shutdown_def\<close>)
qed (use inv in \<open>auto simp: threads_inv_def thread_shutdown_def\<close>)

lemma threads_inv_step:
  assumes "threads_inv n s" and "n < 2 ^ 32" and "tsys_step s t"
  shows "threads_inv n t"
  using assms(3)
proof (rule tsys_stepE)
  assume "t = thread_activate s"
  with threads_inv_activate [OF assms(1,2)] show ?thesis by simp
next
  assume "t = thread_shutdown s"
  with threads_inv_shutdown [OF assms(1)] show ?thesis by simp
next
  fix i ev assume "t = thread_access i ev s" "i < length (th_pcs s)"
  with threads_inv_access [OF assms(1) _ assms(2)] show ?thesis by simp
qed

lemma threads_inv_reach: "tsys_reach (tsys_init n) s \<Longrightarrow> n < 2 ^ 32 \<Longrightarrow> threads_inv n s"
  by (induction rule: tsys_reach.induct) (auto intro: threads_inv_init threads_inv_step)


section \<open>Runs\<close>

text \<open>An actor and the result of its event call, and the state after a list of accesses.\<close>

datatype actor = Activator | Stopper | Worker nat bool

fun act :: "actor \<Rightarrow> tsys \<Rightarrow> tsys" where
  "act Activator s = thread_activate s"
| "act Stopper s = thread_shutdown s"
| "act (Worker i ev) s = (if i < length (th_pcs s) then thread_access i ev s else s)"

lemma act_reach: "tsys_reach s0 s \<Longrightarrow> tsys_reach s0 (act a s)"
  by (cases a) (auto intro: tsys_reach.step tsys_step.intros)

lemma run_reach: "tsys_reach s0 s \<Longrightarrow> tsys_reach s0 (fold act as s)"
  by (induction "as" arbitrary: s) (auto intro: act_reach)

lemma tsys_reach_trans: "tsys_reach b c \<Longrightarrow> tsys_reach a b \<Longrightarrow> tsys_reach a c"
  by (induction rule: tsys_reach.induct) (auto intro: tsys_reach.step)

lemma activate_all:
  "k \<le> n \<Longrightarrow> (thread_activate ^^ k) (tsys_init n) =
     (tsys_init n)\<lparr>th_main := MStart k, th_pcs := replicate k TStart @ replicate (n - k) TNew\<rparr>"
proof (induction k)
  case (Suc k)
  then have "(replicate k TStart @ replicate (n - k) TNew)[k := TStart] =
      replicate (Suc k) TStart @ replicate (n - Suc k) TNew"
    by (simp add: list_update_append replicate_append_same flip: replicate_Suc)
      (metis Suc_diff_Suc Suc_le_lessD append_Cons append_assoc append_Nil list_update_code(2) replicate_Suc
        replicate_append_same)
  with Suc show ?case by (simp add: thread_activate_def tsys_init_def)
qed (simp add: tsys_init_def)


section \<open>A lost increment\<close>

definition startup_lost :: "tsys \<Rightarrow> bool" where
  "startup_lost s \<longleftrightarrow> th_main s = MAwaitStart \<and>
     unat (ct_startup (th_cnt s)) + 1 \<le> count_of past_start (th_pcs s) \<and>
     (\<forall>p \<in> set (th_pcs s). start_read p + 1 \<le> count_of past_start (th_pcs s))"

lemma startup_lost_step:
  assumes lost: "startup_lost s" and inv: "threads_inv n s" and n: "n < 2 ^ 32" and st: "tsys_step s t"
  shows "startup_lost t"
  using st
proof (rule tsys_stepE)
  have "count_of past_start (th_pcs s) \<le> n" using count_of_le [of past_start "th_pcs s"] inv by (simp add: threads_inv_def)
  moreover have "unat (of_nat n :: 32 word) = n" using n by (simp add: unat_of_nat)
  ultimately have "ct_startup (th_cnt s) < of_nat (length (th_pcs s))"
    using lost inv by (simp add: startup_lost_def threads_inv_def word_less_nat_alt)
  moreover assume "t = thread_activate s"
  ultimately show ?thesis using lost by (simp add: thread_activate_def startup_lost_def)
next
  assume "t = thread_shutdown s"
  with lost show ?thesis by (simp add: thread_shutdown_def startup_lost_def)
next
  fix i ev assume t: "t = thread_access i ev s" and i: "i < length (th_pcs s)"
  obtain p' c' where r: "thread_run ev (th_pcs s ! i) (th_cnt s) = (p', c')" by (rule prod.exhaust)
  from lost have "\<forall>p \<in> set (th_pcs s). start_read p + 1 \<le> count_of past_start (th_pcs s)"
    "unat (ct_startup (th_cnt s)) + 1 \<le> count_of past_start (th_pcs s)"
    by (simp_all add: startup_lost_def)
  from counter_kept [OF i this thread_run_mono(1) [OF r] thread_run_startup [OF r]] lost
  show ?thesis by (simp add: startup_lost_def t thread_access_def r)
qed

lemma startup_lost_forever:
  "tsys_reach s t \<Longrightarrow> startup_lost s \<Longrightarrow> threads_inv n s \<Longrightarrow> n < 2 ^ 32 \<Longrightarrow> startup_lost t \<and> threads_inv n t"
  by (induction rule: tsys_reach.induct) (auto intro: startup_lost_step threads_inv_step)

text \<open>Two threads read the counter before either writes it.\<close>

definition lost_update :: "actor list" where
  "lost_update = [Activator, Worker 0 False, Worker 1 False, Worker 0 False, Worker 1 False]"

section \<open>Properties\<close>

text \<open>
  C16. \<open>activate\<close> returns only when every thread has entered its loop, and \<open>shutdown\<close> only when
  every thread has left it, however the threads interleave and although increments of the
  counters can be lost: a lost increment makes the two functions wait longer, never shorter.
\<close>

theorem thread_shutdown_joins:
  assumes "tsys_reach (tsys_init n) s" and "n < 2 ^ 32" and "i < n"
  shows "(th_main s \<in> {MUp, MAwaitIdle, MAwaitStop, MDown} \<longrightarrow> past_start (th_pcs s ! i)) \<and>
    (th_main s = MDown \<longrightarrow> th_pcs s ! i = TGone)"
proof -
  have inv: "threads_inv n s" by (rule threads_inv_reach [OF assms(1,2)])
  then have len: "length (th_pcs s) = n" by (simp add: threads_inv_def)
  have "past_start (th_pcs s ! i)" if "th_main s \<in> {MUp, MAwaitIdle, MAwaitStop, MDown}"
    by (rule count_of_all) (use inv that len assms(3) in \<open>auto simp: threads_inv_def\<close>)
  moreover have "th_pcs s ! i = TGone" if "th_main s = MDown"
    by (rule count_of_all [where P = "\<lambda>p. p = TGone"]) (use inv that len assms(3) in \<open>auto simp: threads_inv_def\<close>)
  ultimately show ?thesis by blast
qed

text \<open>A whole life of one thread that treats one event.\<close>

definition solo_run :: "actor list" where
  "solo_run = [Activator, Activator, Worker 0 True, Worker 0 True, Activator,
     Worker 0 True, Worker 0 True, Worker 0 True, Worker 0 True, Worker 0 True, Worker 0 True, Worker 0 True,
     Worker 0 True, Stopper, Stopper, Worker 0 True, Worker 0 True, Worker 0 True, Worker 0 True, Stopper]"

lemmas run_eval = thread_activate_def thread_shutdown_def thread_access_def tsys_init_def

theorem thread_shutdown_joins_witness:
  "th_main (fold act solo_run (tsys_init 1)) = MDown \<and> th_pcs (fold act solo_run (tsys_init 1)) ! 0 = TGone"
proof -
  have "th_main (fold act solo_run (tsys_init 1)) = MDown"
    by (simp add: solo_run_def run_eval)
  with thread_shutdown_joins [OF run_reach [OF tsys_reach.start], of 1 0 solo_run] show ?thesis by simp
qed

text \<open>
  C37. With two or more contexts \<open>activate\<close> may wait for ever: there is a run of the threads after
  which, whatever happens, it never returns and the server does not come up. Two threads that
  start at the same time both write 1 to \<open>startup_count\<close>.
\<close>

theorem thread_activate_hangs:
  assumes "2 \<le> n" and "n < 2 ^ 32"
  shows "\<exists>s. tsys_reach (tsys_init n) s \<and> {th_main t | t. tsys_reach s t} = {MAwaitStart}"
proof -
  obtain m where m: "n = Suc (Suc m)" using assms(1) by (metis add_2_eq_Suc le_Suc_ex)
  let ?u = "(thread_activate ^^ n) (tsys_init n)" and ?s = "fold act lost_update ((thread_activate ^^ n) (tsys_init n))"
  have "tsys_reach (tsys_init n) ((thread_activate ^^ k) (tsys_init n))" for k
    by (induction k) (auto intro: tsys_reach.start tsys_reach.step tsys_step.activate)
  from run_reach [OF this] have reach: "tsys_reach (tsys_init n) ?s" .
  have s: "?s = (tsys_init n)\<lparr>th_main := MAwaitStart, th_pcs := TLoop # TLoop # replicate m TStart,
      th_cnt := (th_cnt (tsys_init n))\<lparr>ct_startup := 1\<rparr>\<rparr>"
    unfolding activate_all [OF order_refl] by (simp add: lost_update_def run_eval m)
  have "startup_lost ?s" unfolding s by (auto simp: startup_lost_def count_of_def)
  note keep = startup_lost_forever [OF _ this threads_inv_reach [OF reach assms(2)] assms(2)]
  have "th_main t = MAwaitStart" if "tsys_reach ?s t" for t
    using keep [OF that] by (simp add: startup_lost_def)
  moreover have "tsys_reach ?s ?s" "th_main ?s = MAwaitStart" by (rule tsys_reach.start) (simp add: s)
  ultimately have "{th_main t | t. tsys_reach ?s t} = {MAwaitStart}" by force
  with reach show ?thesis by blast
qed

theorem thread_activate_hangs_witness:
  "\<exists>s. tsys_reach (tsys_init 3) s \<and> {th_main t | t. tsys_reach s t} = {MAwaitStart}"
  by (rule thread_activate_hangs) simp_all

text \<open>
  One thread alone, as in a driver for the old library, which has one context: no access of
  another thread comes between its reads and writes, so the counters are exact.
\<close>

definition solo_pc :: "tpc \<Rightarrow> counters \<Rightarrow> bool" where
  "solo_pc p c \<longleftrightarrow>
     ct_startup c = (if past_start p then 1 else 0) \<and> ct_stopped c = (if p = TGone then 1 else 0) \<and>
     ct_active c = (case p of TWork \<Rightarrow> 1 | TLeave \<Rightarrow> 1 | TLeave1 v \<Rightarrow> 1 | _ \<Rightarrow> 0) \<and>
     (case p of TStart1 v \<Rightarrow> v = 0 | TEnter1 v \<Rightarrow> v = 0 | TLeave1 v \<Rightarrow> v = 1 | TStop1 v \<Rightarrow> v = 0 | _ \<Rightarrow> True)"

definition solo_main :: "mpc \<Rightarrow> tpc \<Rightarrow> bool \<Rightarrow> bool" where
  "solo_main m p flag \<longleftrightarrow>
     (case m of
        MStart k \<Rightarrow> \<not> flag \<and> (k = 0 \<and> p = TNew \<or> k = 1 \<and> p \<noteq> TNew)
      | MAwaitStart \<Rightarrow> \<not> flag \<and> p \<noteq> TNew
      | MUp \<Rightarrow> \<not> flag \<and> past_start p
      | _ \<Rightarrow> flag \<and> past_start p)"

definition solo :: "tsys \<Rightarrow> bool" where
  "solo s \<longleftrightarrow> (\<exists>p. th_pcs s = [p] \<and> solo_pc p (th_cnt s) \<and> solo_main (th_main s) p (ct_flag (th_cnt s)))"

lemma thread_run_flag: "thread_run ev p c = (p', c') \<Longrightarrow> ct_flag c' = ct_flag c"
  by (cases p) auto

lemma solo_pc_run: "solo_pc p c \<Longrightarrow> thread_run ev p c = (p', c') \<Longrightarrow> solo_pc p' c'"
  by (cases p) (auto simp: solo_pc_def split: if_splits)

lemma solo_main_run: "solo_main m p f \<Longrightarrow> thread_run ev p c = (p', c') \<Longrightarrow> solo_main m p' f"
  by (cases p) (auto simp: solo_main_def split: if_splits mpc.splits)

lemma solo_access: "solo s \<Longrightarrow> solo (thread_access 0 ev s)"
  by (auto simp: solo_def thread_access_def thread_run_flag intro: solo_pc_run solo_main_run split: prod.split)

lemma soloE:
  assumes "solo s"
  obtains p where "th_pcs s = [p]" "solo_pc p (th_cnt s)" "solo_main (th_main s) p (ct_flag (th_cnt s))"
  using assms by (auto simp: solo_def)

lemma solo_activate:
  assumes "solo s"
  shows "solo (thread_activate s)"
proof -
  obtain p where p: "th_pcs s = [p]" "solo_pc p (th_cnt s)" "solo_main (th_main s) p (ct_flag (th_cnt s))"
    using assms by (rule soloE)
  show ?thesis
  proof (cases "th_main s")
    case (MStart k)
    with p show ?thesis
      by (cases "k < 1") (simp_all add: solo_def thread_activate_def solo_main_def solo_pc_def)
  next
    case MAwaitStart
    with p show ?thesis
      by (cases "past_start p") (simp_all add: solo_def thread_activate_def solo_main_def solo_pc_def)
  qed (use assms in \<open>simp_all add: thread_activate_def\<close>)
qed

lemma solo_shutdown:
  assumes "solo s"
  shows "solo (thread_shutdown s)"
proof -
  obtain p where "th_pcs s = [p]" "solo_pc p (th_cnt s)" "solo_main (th_main s) p (ct_flag (th_cnt s))"
    using assms by (rule soloE)
  with assms show ?thesis
    by (cases "th_main s") (simp_all add: solo_def thread_shutdown_def solo_main_def solo_pc_def)
qed

lemma solo_act:
  assumes "solo s"
  shows "solo (act a s)"
proof (cases a)
  case (Worker i ev)
  have "length (th_pcs s) = 1" using assms by (auto simp: solo_def)
  with Worker solo_access [OF assms] assms show ?thesis by simp
qed (simp_all add: solo_activate [OF assms] solo_shutdown [OF assms])

lemma solo_fold: "solo s \<Longrightarrow> solo (fold act as s)"
  by (induction "as" arbitrary: s) (auto intro: solo_act)

lemma solo_init: "solo (tsys_init 1)"
  by (simp add: solo_def solo_pc_def solo_main_def tsys_init_def)

lemma solo_reach: "tsys_reach s t \<Longrightarrow> solo s \<Longrightarrow> solo t"
proof (induction rule: tsys_reach.induct)
  case (step u v)
  from step.hyps(2) show ?case
  proof (rule tsys_stepE)
    fix i ev assume "v = thread_access i ev u" "i < length (th_pcs u)"
    with solo_act [of u "Worker i ev"] step.IH [OF step.prems] show "solo v" by simp
  qed (use solo_activate [OF step.IH [OF step.prems]] solo_shutdown [OF step.IH [OF step.prems]] in simp_all)
qed simp

fun stop_rank :: "tpc \<Rightarrow> nat" where
  "stop_rank TStart = 12" | "stop_rank (TStart1 v) = 11" | "stop_rank TEnter = 10" | "stop_rank (TEnter1 v) = 9"
| "stop_rank TWork = 8" | "stop_rank TLeave = 7" | "stop_rank (TLeave1 v) = 6" | "stop_rank TLoop = 5"
| "stop_rank TPoll = 4" | "stop_rank (TTest e) = 3" | "stop_rank TStop = 2" | "stop_rank (TStop1 v) = 1"
| "stop_rank _ = 0"

lemma stop_rank_run:
  "thread_run ev p c = (p', c') \<Longrightarrow> ct_flag c \<Longrightarrow> p \<noteq> TNew \<Longrightarrow> p \<noteq> TGone \<Longrightarrow>
     stop_rank p' < stop_rank p \<and> p' \<noteq> TNew"
  by (cases p) auto

definition worker_only :: "tsys \<Rightarrow> tsys \<Rightarrow> bool" where
  "worker_only s t \<longleftrightarrow> tsys_reach s t \<and> th_main t = th_main s \<and> ct_flag (th_cnt t) = ct_flag (th_cnt s)"

lemma worker_only_access:
  assumes "length (th_pcs s) = 1" and "worker_only (thread_access 0 ev s) t"
  shows "worker_only s t"
proof -
  have "tsys_reach s (thread_access 0 ev s)"
    by (rule tsys_reach.step [OF tsys_reach.start tsys_step.access]) (simp add: assms(1))
  moreover have "th_main (thread_access 0 ev s) = th_main s"
    "ct_flag (th_cnt (thread_access 0 ev s)) = ct_flag (th_cnt s)"
    by (auto simp: thread_access_def thread_run_flag split: prod.split)
  ultimately show ?thesis using assms(2) by (auto simp: worker_only_def intro: tsys_reach_trans)
qed

lemma worker_stops:
  assumes "th_pcs s = [p]" and "p \<noteq> TNew" and "ct_flag (th_cnt s)"
  shows "\<exists>t. worker_only s t \<and> th_pcs t = [TGone]"
  using assms
proof (induction "stop_rank p" arbitrary: s p rule: less_induct)
  case less
  show ?case
  proof (cases "p = TGone")
    case True
    then show ?thesis using less.prems by (auto simp: worker_only_def intro: tsys_reach.start)
  next
    case False
    obtain p' c' where r: "thread_run False p (th_cnt s) = (p', c')" by (rule prod.exhaust)
    have a: "th_pcs (thread_access 0 False s) = [p']" "th_cnt (thread_access 0 False s) = c'"
      using less.prems(1) by (simp_all add: thread_access_def r)
    note q = stop_rank_run [OF r less.prems(3,2) False] thread_run_flag [OF r]
    from less.hyps [OF conjunct1 [OF q(1)] a(1) conjunct2 [OF q(1)]] a(2) q(2) less.prems(3)
    obtain t where "worker_only (thread_access 0 False s) t" "th_pcs t = [TGone]" by auto
    with worker_only_access [of s False t] less.prems(1) show ?thesis by auto
  qed
qed

lemma worker_starts:
  assumes "th_pcs s = [p]" and "p \<noteq> TNew"
  shows "\<exists>t q. worker_only s t \<and> th_pcs t = [q] \<and> past_start q"
proof -
  have base: "\<exists>t q. worker_only s t \<and> th_pcs t = [q] \<and> past_start q" if "th_pcs s = [q]" "past_start q" for s q
    using that by (auto simp: worker_only_def intro: tsys_reach.start)
  have one: "\<exists>t q. worker_only s t \<and> th_pcs t = [q] \<and> past_start q" if "th_pcs s = [TStart1 v]" for s v
    using base [of "thread_access 0 False s" TLoop] worker_only_access [of s False] that
    by (auto simp: thread_access_def)
  have two: "\<exists>t q. worker_only s t \<and> th_pcs t = [q] \<and> past_start q" if "th_pcs s = [TStart]" for s
    using one [of "thread_access 0 False s"] worker_only_access [of s False] that
    by (auto simp: thread_access_def)
  show ?thesis using base [OF assms(1)] one two assms by (cases p) auto
qed

text \<open>What remains for the main thread, one phase after the other.\<close>

lemma reach_activate: "tsys_reach (thread_activate s) t \<Longrightarrow> tsys_reach s t"
  by (rule tsys_reach_trans [OF _ tsys_reach.step [OF tsys_reach.start tsys_step.activate]])

lemma reach_shutdown: "tsys_reach (thread_shutdown s) t \<Longrightarrow> tsys_reach s t"
  by (rule tsys_reach_trans [OF _ tsys_reach.step [OF tsys_reach.start tsys_step.shutdown]])

lemma solo_worker_only: "worker_only s t \<Longrightarrow> solo s \<Longrightarrow> solo t"
  by (auto simp: worker_only_def intro: solo_reach)

definition comes_down :: "tsys \<Rightarrow> bool" where
  "comes_down s \<longleftrightarrow> (\<exists>t. tsys_reach s t \<and> th_main t = MDown)"

lemma comes_down_worker: "worker_only s t \<Longrightarrow> comes_down t \<Longrightarrow> comes_down s"
  by (auto simp: worker_only_def comes_down_def intro: tsys_reach_trans)

lemma comes_down_main: "comes_down (thread_activate s) \<or> comes_down (thread_shutdown s) \<Longrightarrow> comes_down s"
  by (auto simp: comes_down_def intro: reach_activate reach_shutdown)

lemma down_AwaitStop:
  assumes "solo s" and "th_main s = MAwaitStop"
  shows "comes_down s"
proof -
  obtain p where p: "th_pcs s = [p]" "past_start p" "ct_flag (th_cnt s)"
    using assms by (auto simp: solo_def solo_main_def)
  then obtain t where t: "worker_only s t" "th_pcs t = [TGone]" using worker_stops [of s p] by (cases p) auto
  with solo_worker_only [OF t(1) assms(1)] assms(2) have "th_main (thread_shutdown t) = MDown"
    by (auto simp: solo_def solo_pc_def worker_only_def thread_shutdown_def)
  then have "comes_down t" using comes_down_main [of t] by (auto simp: comes_down_def intro: tsys_reach.start)
  with t(1) show ?thesis by (rule comes_down_worker)
qed

lemma down_AwaitIdle:
  assumes "solo s" and "th_main s = MAwaitIdle"
  shows "comes_down s"
proof -
  obtain p where p: "th_pcs s = [p]" "past_start p" "ct_flag (th_cnt s)"
    using assms by (auto simp: solo_def solo_main_def)
  then obtain t where t: "worker_only s t" "th_pcs t = [TGone]" using worker_stops [of s p] by (cases p) auto
  note st = solo_worker_only [OF t(1) assms(1)]
  with t assms(2) have "th_main (thread_shutdown t) = MAwaitStop"
    by (auto simp: solo_def solo_pc_def worker_only_def thread_shutdown_def)
  with down_AwaitStop solo_shutdown [OF st] comes_down_main have "comes_down t" by blast
  with t(1) show ?thesis by (rule comes_down_worker)
qed

lemma down_Up:
  assumes "solo s" and "th_main s = MUp"
  shows "comes_down s"
proof -
  have "th_main (thread_shutdown s) = MAwaitIdle" using assms(2) by (simp add: thread_shutdown_def)
  with down_AwaitIdle solo_shutdown [OF assms(1)] comes_down_main show ?thesis by blast
qed

lemma down_AwaitStart:
  assumes "solo s" and "th_main s = MAwaitStart"
  shows "comes_down s"
proof -
  obtain p where p: "th_pcs s = [p]" "p \<noteq> TNew" using assms by (auto simp: solo_def solo_main_def)
  obtain t q where t: "worker_only s t" "th_pcs t = [q]" "past_start q" using worker_starts [OF p] by blast
  note st = solo_worker_only [OF t(1) assms(1)]
  with t assms(2) have "th_main (thread_activate t) = MUp"
    by (auto simp: solo_def solo_pc_def worker_only_def thread_activate_def)
  with down_Up solo_activate [OF st] comes_down_main have "comes_down t" by blast
  with t(1) show ?thesis by (rule comes_down_worker)
qed

lemma down_Start:
  assumes "solo s" and "th_main s = MStart k"
  shows "comes_down s"
proof -
  have one: "comes_down s" if "solo s" "th_main s = MStart 1" for s
  proof -
    have "th_main (thread_activate s) = MAwaitStart" using that by (auto simp: solo_def thread_activate_def)
    with down_AwaitStart solo_activate [OF that(1)] comes_down_main show ?thesis by blast
  qed
  have "k = 0 \<or> k = 1" using assms by (auto simp: solo_def solo_main_def)
  moreover have "th_main (thread_activate s) = MStart 1" if "k = 0"
    using assms that by (auto simp: solo_def thread_activate_def)
  ultimately show ?thesis
    using assms one solo_activate [OF assms(1)] comes_down_main by blast
qed

text \<open>
  A driver with one context never gets stuck: from every state that its thread and the main
  thread can be in, \<open>activate\<close> and \<open>shutdown\<close> can still run to their end.
\<close>

theorem thread_single_context_completes:
  assumes "tsys_reach (tsys_init 1) s"
  shows "\<exists>t. tsys_reach s t \<and> th_main t = MDown \<and> th_pcs t = [TGone]"
proof -
  have solo: "solo s" by (rule solo_reach [OF assms solo_init])
  have "comes_down s"
    using down_Start [OF solo] down_AwaitStart [OF solo] down_Up [OF solo] down_AwaitIdle [OF solo]
      down_AwaitStop [OF solo]
    by (cases "th_main s") (auto simp: comes_down_def intro: tsys_reach.start)
  then obtain t where t: "tsys_reach s t" "th_main t = MDown" by (auto simp: comes_down_def)
  have reach: "tsys_reach (tsys_init 1) t" by (rule tsys_reach_trans [OF t(1) assms])
  have inv: "threads_inv 1 t" by (rule threads_inv_reach [OF reach]) simp
  obtain p where p: "th_pcs t = [p]" using solo_reach [OF t(1) solo] by (auto simp: solo_def)
  with inv t(2) have "p = TGone" by (auto simp: threads_inv_def count_of_def split: if_splits)
  with t p show ?thesis by blast
qed

theorem thread_single_context_completes_witness:
  "\<exists>t. tsys_reach (fold act lost_update (tsys_init 1)) t \<and> th_main t = MDown \<and> th_pcs t = [TGone]"
  by (rule thread_single_context_completes [OF run_reach [OF tsys_reach.start]])

text \<open>
  \<open>shutdown\<close> may release a context while a thread uses it: it waits for \<open>active_count\<close> to be
  zero, but a thread that has its event and has passed the test of \<open>shutdown_flag\<close> has not
  counted itself yet, and one that waits in \<open>get_event\<close> is not counted at all.
\<close>

theorem thread_context_released_in_use:
  "\<exists>s t. tsys_reach (tsys_init 1) s \<and> th_released s \<and> th_pcs s = [TWork] \<and>
     tsys_reach (tsys_init 1) t \<and> th_released t \<and> th_pcs t = [TPoll]"
proof (intro exI conjI)
  let ?up = "[Activator, Activator, Worker 0 True, Worker 0 True, Activator, Worker 0 True]"
  let ?s = "fold act (?up @ [Worker 0 True, Worker 0 True, Stopper, Stopper, Worker 0 True, Worker 0 True]) (tsys_init 1)"
  let ?t = "fold act (?up @ [Stopper, Stopper]) (tsys_init 1)"
  show "tsys_reach (tsys_init 1) ?s" "tsys_reach (tsys_init 1) ?t"
    by (rule run_reach [OF tsys_reach.start])+
  show "th_released ?s" "th_pcs ?s = [TWork]" "th_released ?t" "th_pcs ?t = [TPoll]"
    by (simp_all add: run_eval)
qed

end
