(* ===== verification/Stats.thy ===== *)
theory Stats
  imports Prelude
begin

text \<open>
  Call statistics: \<^verbatim>\<open>class statmap\<close> of \<^verbatim>\<open>inc/bayonne/stats.h\<close> and
  \<^verbatim>\<open>common/stats.cpp\<close>. A node counts the calls of the server, of a board, of a span
  or of a registration, once per direction. The nodes live in one shared-memory array; a
  \<open>statmap *\<close> is the index of its node, \<open>NULL\<close> is \<open>None\<close>. The
  operations on a node run under the lock of that node (\<open>Mutex::protect(this)\<close>), so each is
  one atomic step here. Counters keep the width they have in the code (LP64).
\<close>

section \<open>Nodes\<close>

datatype stat_t = INCOMING | OUTGOING

datatype node_type = UNUSED | SYSTEM | BOARD | SPAN | REGISTRY

record stat_entry =
  st_total :: "64 word"
  st_period :: "64 word"
  st_pperiod :: "64 word"
  st_current :: "16 word"
  st_peak :: "16 word"
  st_min :: "16 word"
  st_max :: "16 word"
  st_pmin :: "16 word"
  st_pmax :: "16 word"

record statmap =
  sm_id :: string
  sm_type :: node_type
  sm_stats :: "stat_t \<Rightarrow> stat_entry"
  sm_lastcall :: int
  sm_timeslots :: "16 word"

text \<open>Shared memory starts out zeroed.\<close>

definition zero_entry :: stat_entry where
  "zero_entry = \<lparr>st_total = 0, st_period = 0, st_pperiod = 0, st_current = 0, st_peak = 0,
     st_min = 0, st_max = 0, st_pmin = 0, st_pmax = 0\<rparr>"

definition zero_node :: statmap where
  "zero_node = \<lparr>sm_id = [], sm_type = UNUSED, sm_stats = (\<lambda>_. zero_entry), sm_lastcall = 0,
     sm_timeslots = 0\<rparr>"

definition entry_upd :: "stat_t \<Rightarrow> (stat_entry \<Rightarrow> stat_entry) \<Rightarrow> statmap \<Rightarrow> statmap" where
  "entry_upd k f s = s\<lparr>sm_stats := (sm_stats s)(k := f (sm_stats s k))\<rparr>"

section \<open>Operations on a node\<close>

definition statmap_active :: "statmap \<Rightarrow> 32 word" where
  "statmap_active s =
     ucast (st_current (sm_stats s INCOMING)) + ucast (st_current (sm_stats s OUTGOING))"

definition update_entry :: "stat_entry \<Rightarrow> stat_entry" where
  "update_entry e =
     (let e1 = e\<lparr>st_period := st_period e + 1, st_total := st_total e + 1,
                 st_current := st_current e + 1\<rparr>;
          e2 = (if st_current e1 > st_peak e1 then e1\<lparr>st_peak := st_current e1\<rparr> else e1)
      in if st_current e2 > st_max e2 then e2\<lparr>st_max := st_current e2\<rparr> else e2)"

definition statmap_update :: "stat_t \<Rightarrow> statmap \<Rightarrow> statmap" where
  "statmap_update k s = entry_upd k update_entry s"

definition statmap_assign :: "stat_t \<Rightarrow> statmap \<Rightarrow> statmap" where
  "statmap_assign k s = statmap_update k s"

definition release_entry :: "stat_entry \<Rightarrow> stat_entry" where
  "release_entry e =
     (let e1 = e\<lparr>st_current := st_current e - 1\<rparr>
      in if st_current e1 < st_min e1 then e1\<lparr>st_min := st_current e1\<rparr> else e1)"

definition statmap_release :: "int \<Rightarrow> stat_t \<Rightarrow> statmap \<Rightarrow> statmap" where
  "statmap_release now k s =
     (let s1 = (if statmap_active s = 1 then s\<lparr>sm_lastcall := now\<rparr> else s)
      in entry_upd k release_entry s1)"

section \<open>Periodic statistics\<close>

text \<open>\<open>%-Ns\<close> pads on the right, \<open>%0Nu\<close> pads with zeros on the left.\<close>

definition pad_right :: "nat \<Rightarrow> string \<Rightarrow> string" where
  "pad_right n s = s @ replicate (n - length s) (CHR '' '')"

definition pad_zero :: "nat \<Rightarrow> string \<Rightarrow> string" where
  "pad_zero n s = replicate (n - length s) (CHR ''0'') @ s"

definition period_label :: "statmap \<Rightarrow> string" where
  "period_label s = fit 80
     (case sm_type s of
        BOARD \<Rightarrow> '' board/'' @ pad_right 6 (sm_id s)
      | SPAN \<Rightarrow> '' span/'' @ pad_right 7 (sm_id s)
      | REGISTRY \<Rightarrow> '' net/'' @ pad_right 8 (sm_id s)
      | _ \<Rightarrow> '' system      '')"

definition period_field :: "stat_entry \<Rightarrow> string" where
  "period_field e = '' '' @ pad_zero 9 (show_nat (unat (st_period e))) @ '' ''
     @ pad_zero 5 (show_nat (unat (st_min e))) @ '' '' @ pad_zero 5 (show_nat (unat (st_max e)))"

definition period_entry :: "stat_entry \<Rightarrow> stat_entry" where
  "period_entry e = e\<lparr>st_pperiod := st_period e, st_pmax := st_max e, st_pmin := st_min e,
     st_max := st_current e, st_min := st_current e, st_period := 0\<rparr>"

definition period_text :: "statmap \<Rightarrow> string" where
  "period_text s =
     (let t0 = period_label s;
          t1 = t0 @ fit (80 - length t0) (period_field (sm_stats s INCOMING));
          t2 = t1 @ fit (80 - length t1) (period_field (sm_stats s OUTGOING))
      in t2)"

definition node_period :: "statmap \<Rightarrow> statmap" where
  "node_period s =
     (if sm_type s = UNUSED then s
      else entry_upd OUTGOING period_entry (entry_upd INCOMING period_entry s))"

text \<open>
  The loop of \<open>statmap::period\<close> over the nodes: what it leaves in them, and the lines
  (label and counters, time of the last call) it prints when a file is given.
\<close>

fun statmap_period :: "bool \<Rightarrow> statmap list \<Rightarrow> statmap list \<times> (string \<times> int) list" where
  "statmap_period fp [] = ([], [])"
| "statmap_period fp (s # ss) =
     (let (ns, ls) = statmap_period fp ss
      in (node_period s # ns,
          if sm_type s \<noteq> UNUSED \<and> fp then (period_text s, sm_lastcall s) # ls else ls))"

section \<open>Allocation of nodes\<close>

text \<open>\<open>sta_count\<close> and \<open>sta_used\<close> are the file's \<open>count\<close> and \<open>used\<close>.\<close>

record sta_map =
  sta_nodes :: "nat \<Rightarrow> statmap"
  sta_count :: nat
  sta_used :: nat

definition sta_take :: "(statmap \<Rightarrow> statmap) \<Rightarrow> sta_map \<Rightarrow> nat option \<times> sta_map" where
  "sta_take f m =
     (if sta_count m = 0 \<or> sta_used m \<ge> sta_count m then (None, m)
      else (Some (sta_used m),
            m\<lparr>sta_used := sta_used m + 1,
              sta_nodes := (sta_nodes m)(sta_used m := f (sta_nodes m (sta_used m)))\<rparr>))"

text \<open>\<open>board\<close> is \<open>getCount()\<close> of the board that \<open>Driver::getBoard(id)\<close> returns.\<close>

definition statmap_getBoard :: "nat \<Rightarrow> 32 word option \<Rightarrow> sta_map \<Rightarrow> nat option \<times> sta_map" where
  "statmap_getBoard bid board m =
     sta_take (\<lambda>s. let s1 = s\<lparr>sm_id := fit 8 (show_nat bid), sm_type := BOARD\<rparr>
       in case board of None \<Rightarrow> s1 | Some n \<Rightarrow> s1\<lparr>sm_timeslots := ucast n\<rparr>) m"

definition statmap_getSpan :: "nat \<Rightarrow> 32 word option \<Rightarrow> sta_map \<Rightarrow> nat option \<times> sta_map" where
  "statmap_getSpan sid span m =
     sta_take (\<lambda>s. let s1 = s\<lparr>sm_id := fit 8 (show_nat sid), sm_type := SPAN\<rparr>
       in case span of None \<Rightarrow> s1 | Some n \<Rightarrow> s1\<lparr>sm_timeslots := ucast n\<rparr>) m"

definition statmap_getRegistry :: "string \<Rightarrow> 32 word \<Rightarrow> sta_map \<Rightarrow> nat option \<times> sta_map" where
  "statmap_getRegistry rid limit m =
     sta_take (\<lambda>s. s\<lparr>sm_id := fit 8 rid, sm_type := REGISTRY, sm_timeslots := ucast limit\<rparr>) m"

text \<open>
  \<open>statmap::create\<close> sizes the array for one node more than \<open>tot\<close> and takes the
  first for the server; \<open>alloc\<close> stands for the call of \<open>Board::allocate\<close>. The size
  wraps at 32 bits, and an array without nodes has no node for the server (\<open>None\<close>: the
  code dereferences \<open>NULL\<close>).
\<close>

definition statmap_create ::
    "32 word \<Rightarrow> 32 word \<Rightarrow> (sta_map \<Rightarrow> sta_map) \<Rightarrow> sta_map \<Rightarrow> (nat \<times> sta_map) option" where
  "statmap_create tot ts_count alloc m =
     (let cnt = unat (tot + 1);
          m1 = m\<lparr>sta_count := cnt, sta_nodes := (\<lambda>_. zero_node)\<rparr>
      in if sta_used m1 \<ge> cnt then None
         else let k = sta_used m1;
                  node = (sta_nodes m1 k)\<lparr>sm_type := SYSTEM, sm_timeslots := ucast ts_count\<rparr>
              in Some (k, alloc (m1\<lparr>sta_used := k + 1, sta_nodes := (sta_nodes m1)(k := node)\<rparr>)))"

definition sta_period :: "bool \<Rightarrow> sta_map \<Rightarrow> sta_map \<times> (string \<times> int) list" where
  "sta_period fp m =
     (let (ns, ls) = statmap_period fp (map (sta_nodes m) [0..<sta_count m])
      in (m\<lparr>sta_nodes := (\<lambda>k. if k < length ns then ns ! k else sta_nodes m k)\<rparr>, ls))"

section \<open>Lemmas\<close>

lemma entry_upd_apply [simp]:
  "sm_stats (entry_upd k f s) j = (if j = k then f (sm_stats s k) else sm_stats s j)"
  "sm_id (entry_upd k f s) = sm_id s"
  "sm_type (entry_upd k f s) = sm_type s"
  "sm_lastcall (entry_upd k f s) = sm_lastcall s"
  "sm_timeslots (entry_upd k f s) = sm_timeslots s"
  by (simp_all add: entry_upd_def)

lemma update_entry_simps [simp]:
  "st_current (update_entry e) = st_current e + 1"
  "st_total (update_entry e) = st_total e + 1"
  "st_period (update_entry e) = st_period e + 1"
  "st_min (update_entry e) = st_min e"
  "st_max (update_entry e) = (if st_current e + 1 > st_max e then st_current e + 1 else st_max e)"
  "st_peak (update_entry e) = (if st_current e + 1 > st_peak e then st_current e + 1 else st_peak e)"
  by (simp_all add: update_entry_def Let_def)

lemma release_entry_simps [simp]:
  "st_current (release_entry e) = st_current e - 1"
  "st_total (release_entry e) = st_total e"
  "st_period (release_entry e) = st_period e"
  "st_max (release_entry e) = st_max e"
  "st_peak (release_entry e) = st_peak e"
  "st_min (release_entry e) = (if st_current e - 1 < st_min e then st_current e - 1 else st_min e)"
  by (simp_all add: release_entry_def Let_def)

lemma period_entry_simps [simp]:
  "st_current (period_entry e) = st_current e"
  "st_total (period_entry e) = st_total e"
  "st_period (period_entry e) = 0"
  "st_pperiod (period_entry e) = st_period e"
  "st_min (period_entry e) = st_current e"
  "st_max (period_entry e) = st_current e"
  "st_peak (period_entry e) = st_peak e"
  by (simp_all add: period_entry_def)

lemma statmap_update_stats [simp]:
  "sm_stats (statmap_update k s) j = (if j = k then update_entry (sm_stats s k) else sm_stats s j)"
  "sm_type (statmap_update k s) = sm_type s"
  "sm_lastcall (statmap_update k s) = sm_lastcall s"
  by (simp_all add: statmap_update_def)

lemma statmap_assign_stats [simp]:
  "sm_stats (statmap_assign k s) j = (if j = k then update_entry (sm_stats s k) else sm_stats s j)"
  "sm_type (statmap_assign k s) = sm_type s"
  by (simp_all add: statmap_assign_def)

lemma statmap_release_stats [simp]:
  "sm_stats (statmap_release now k s) j =
     (if j = k then release_entry (sm_stats s k) else sm_stats s j)"
  "sm_type (statmap_release now k s) = sm_type s"
  by (simp_all add: statmap_release_def Let_def)

lemma node_period_stats [simp]:
  "sm_stats (node_period s) j =
     (if sm_type s = UNUSED then sm_stats s j else period_entry (sm_stats s j))"
  "sm_type (node_period s) = sm_type s"
  by (cases j; simp add: node_period_def)+

lemma stat_t_all: "(\<forall>k. P k) \<longleftrightarrow> P INCOMING \<and> P OUTGOING"
  by (metis stat_t.exhaust)

lemma unat_active:
  "unat (statmap_active s) =
     unat (st_current (sm_stats s INCOMING)) + unat (st_current (sm_stats s OUTGOING))"
  by (simp add: statmap_active_def unat_word_ariths unat16_sum)

text \<open>The number of calls of a node, and that it is what \<open>active\<close> returns.\<close>

definition calls :: "statmap \<Rightarrow> nat" where
  "calls s = unat (statmap_active s)"

lemma calls_update:
  assumes "unat (st_current (sm_stats s k)) < 65535"
  shows "calls (statmap_update k s) = calls s + 1"
  using assms by (cases k) (simp_all add: calls_def unat_active unat_inc)

lemma calls_release:
  assumes "0 < unat (st_current (sm_stats s k))"
  shows "calls (statmap_release now k s) = calls s - 1"
  using assms by (cases k) (simp_all add: calls_def unat_active unat_dec)

section \<open>The invariant of a node\<close>

text \<open>
  Every counter lies between the low and the high mark of the period, and the high mark never
  passes the peak.
\<close>

definition entry_ok :: "stat_entry \<Rightarrow> bool" where
  "entry_ok e \<longleftrightarrow> st_min e \<le> st_current e \<and> st_current e \<le> st_max e \<and> st_max e \<le> st_peak e"

definition statmap_ok :: "statmap \<Rightarrow> bool" where
  "statmap_ok s \<longleftrightarrow> entry_ok (sm_stats s INCOMING) \<and> entry_ok (sm_stats s OUTGOING)"

lemma statmap_okI: "(\<And>k. entry_ok (sm_stats s k)) \<Longrightarrow> statmap_ok s"
  by (simp add: statmap_ok_def)

lemma statmap_okD: "statmap_ok s \<Longrightarrow> entry_ok (sm_stats s k)"
  by (cases k) (simp_all add: statmap_ok_def)

lemma word_inc_le: "x \<le> m \<Longrightarrow> unat (x :: 16 word) < 65535 \<Longrightarrow> x \<le> x + 1"
  by (simp add: word_le_nat_alt unat_inc)

lemma entry_ok_update:
  assumes "entry_ok e" "unat (st_current e) < 65535"
  shows "entry_ok (update_entry e)"
  using assms by (auto simp: entry_ok_def word_le_nat_alt word_less_nat_alt unat_inc)

lemma entry_ok_release:
  assumes "entry_ok e" "0 < unat (st_current e)"
  shows "entry_ok (release_entry e)"
  using assms by (auto simp: entry_ok_def word_le_nat_alt word_less_nat_alt unat_dec)

lemma entry_ok_period: "entry_ok e \<Longrightarrow> entry_ok (period_entry e)"
  by (auto simp: entry_ok_def)

text \<open>The operations the server performs on a node, and when they do not wrap a counter.\<close>

datatype stat_op = Assign stat_t | Release int stat_t | Period

fun stat_step :: "statmap \<Rightarrow> stat_op \<Rightarrow> statmap" where
  "stat_step s (Assign k) = statmap_assign k s"
| "stat_step s (Release now k) = statmap_release now k s"
| "stat_step s Period = node_period s"

fun stat_guard :: "statmap \<Rightarrow> stat_op \<Rightarrow> bool" where
  "stat_guard s (Assign k) \<longleftrightarrow> unat (st_current (sm_stats s k)) < 65535"
| "stat_guard s (Release now k) \<longleftrightarrow> 0 < unat (st_current (sm_stats s k))"
| "stat_guard s Period \<longleftrightarrow> True"

interpretation node: machine stat_step stat_guard statmap_ok
proof
  fix s x
  assume ok: "statmap_ok s" and g: "stat_guard s x"
  show "statmap_ok (stat_step s x)"
    using g by (cases x) (auto intro!: statmap_okI simp: statmap_okD [OF ok]
        entry_ok_update entry_ok_release entry_ok_period)
qed

fun assigns :: "stat_t \<Rightarrow> stat_op list \<Rightarrow> nat" where
  "assigns k [] = 0"
| "assigns k (x # xs) = (case x of Assign j \<Rightarrow> if j = k then 1 else 0 | _ \<Rightarrow> 0) + assigns k xs"

fun releases :: "stat_t \<Rightarrow> stat_op list \<Rightarrow> nat" where
  "releases k [] = 0"
| "releases k (x # xs) = (case x of Release t j \<Rightarrow> if j = k then 1 else 0 | _ \<Rightarrow> 0) + releases k xs"

lemma step_current:
  assumes "stat_guard s x"
  shows "unat (st_current (sm_stats (stat_step s x) k)) + releases k [x] =
    unat (st_current (sm_stats s k)) + assigns k [x]"
  using assms by (cases x) (auto simp: unat_inc unat_dec)

lemma run_current:
  "guarded_ops stat_step stat_guard s ops \<Longrightarrow>
     unat (st_current (sm_stats (run_ops stat_step s ops) k)) + releases k ops =
     unat (st_current (sm_stats s k)) + assigns k ops"
proof (induction ops arbitrary: s)
  case (Cons x xs)
  then have "unat (st_current (sm_stats (run_ops stat_step (stat_step s x) xs) k)) + releases k xs =
      unat (st_current (sm_stats (stat_step s x) k)) + assigns k xs" by simp
  moreover from Cons.prems have "stat_guard s x" by simp
  note step_current [OF this, of k]
  ultimately show ?case by simp
qed simp

text \<open>
  Whatever the server does with a node (calls assigned, calls released, period rollovers, in
  any order), as long as no counter is driven below zero or past 16 bits, the low mark, the
  current count, the high mark and the peak stay ordered, in both directions.
\<close>

theorem stat_marks_ordered:
  assumes "statmap_ok s" and "guarded_ops stat_step stat_guard s ops"
  shows "st_min (sm_stats (run_ops stat_step s ops) k) \<le> st_current (sm_stats (run_ops stat_step s ops) k)
    \<and> st_current (sm_stats (run_ops stat_step s ops) k) \<le> st_max (sm_stats (run_ops stat_step s ops) k)
    \<and> st_max (sm_stats (run_ops stat_step s ops) k) \<le> st_peak (sm_stats (run_ops stat_step s ops) k)"
proof -
  have "statmap_ok (run_ops stat_step s ops)" using assms by (rule node.run_inv)
  then have "entry_ok (sm_stats (run_ops stat_step s ops) k)" by (rule statmap_okD)
  then show ?thesis by (simp add: entry_ok_def)
qed

lemma zero_node_stats [simp]: "sm_stats zero_node k = zero_entry" "sm_type zero_node = UNUSED"
  by (simp_all add: zero_node_def)

lemma zero_entry_simps [simp]:
  "st_current zero_entry = 0" "st_min zero_entry = 0" "st_max zero_entry = 0"
  "st_peak zero_entry = 0" "st_total zero_entry = 0" "st_period zero_entry = 0"
  by (simp_all add: zero_entry_def)

lemma zero_node_ok [simp]: "statmap_ok zero_node"
  by (simp add: statmap_ok_def entry_ok_def)

theorem stat_marks_ordered_witness:
  "let ops = [Assign INCOMING, Assign INCOMING, Period, Release 7 INCOMING];
       e = sm_stats (run_ops stat_step (zero_node\<lparr>sm_type := SYSTEM\<rparr>) ops) INCOMING
   in st_min e \<le> st_current e \<and> st_current e \<le> st_max e \<and> st_max e \<le> st_peak e \<and> st_current e = 1
     \<and> st_max e = 2"
proof -
  let ?s = "zero_node\<lparr>sm_type := SYSTEM\<rparr>"
  let ?ops = "[Assign INCOMING, Assign INCOMING, Period, Release 7 INCOMING]"
  have ok: "statmap_ok ?s" by (simp add: statmap_ok_def entry_ok_def)
  have g: "guarded_ops stat_step stat_guard ?s ?ops" by simp
  have v: "st_current (sm_stats (run_ops stat_step ?s ?ops) INCOMING) = 1"
    "st_max (sm_stats (run_ops stat_step ?s ?ops) INCOMING) = 2" by simp_all
  show ?thesis
    unfolding Let_def using stat_marks_ordered [OF ok g, of INCOMING] v by blast
qed

text \<open>
  A node counts the calls in progress: after any such history, the current count of a
  direction plus the calls released equals the initial count plus the calls assigned. Period
  rollovers do not disturb it.
\<close>

theorem stat_current_counts_calls:
  assumes "guarded_ops stat_step stat_guard s ops"
  shows "unat (st_current (sm_stats (run_ops stat_step s ops) k)) + releases k ops =
    unat (st_current (sm_stats s k)) + assigns k ops"
  using assms by (rule run_current)

theorem stat_current_counts_calls_witness:
  "unat (st_current (sm_stats (run_ops stat_step zero_node
      [Assign OUTGOING, Assign OUTGOING, Release 3 OUTGOING]) OUTGOING)) + 1 = 2"
proof -
  let ?ops = "[Assign OUTGOING, Assign OUTGOING, Release 3 OUTGOING]"
  have "guarded_ops stat_step stat_guard zero_node ?ops" by simp
  from stat_current_counts_calls [OF this, of OUTGOING] show ?thesis by simp
qed

text \<open>
  Nothing guards a release that has no matching assignment: on an idle direction it wraps
  the 16-bit counter, and the node then reports 65535 calls in progress.
\<close>

theorem stat_release_wraps:
  assumes "st_current (sm_stats s k) = 0"
  shows "st_current (sm_stats (statmap_release now k s) k) = 65535 \<and>
    unat (statmap_active (statmap_release now k s)) = calls s + 65535"
proof -
  have "unat (st_current (sm_stats (statmap_release now k s) k)) = 65535"
    using assms by simp
  then show ?thesis using assms by (cases k) (simp_all add: calls_def unat_active)
qed

theorem stat_release_wraps_witness:
  "st_current (sm_stats (statmap_release 5 INCOMING zero_node) INCOMING) = 65535 \<and>
    unat (statmap_active (statmap_release 5 INCOMING zero_node)) = 65535"
  using stat_release_wraps [of zero_node INCOMING 5] by (simp add: calls_def unat_active)

end
