(* ===== verification/Dbi.thy ===== *)
theory Dbi
  imports Prelude
begin

text \<open>
  Call detail records: \<^verbatim>\<open>class dbi\<close> (\<^verbatim>\<open>inc/bayonne/dbi.h\<close>,
  \<^verbatim>\<open>common/dbi.cpp\<close>). Records are objects: they live in a heap and are named by their
  address. The run list that \<open>post\<close> fills is kept as the code keeps it, a head pointer, a
  last pointer and the \<open>Next\<close> field of each record, because the property at stake is which
  records that chain still reaches. The free list, which the code only pushes and pops, is the
  list of its records. Every operation runs under the lock of its list and is one step here.
\<close>

section \<open>Records and lists\<close>

datatype dbi_type = START | STOP | QUERY | UPDATE | APPEND | INDEX

record dbi_rec =
  dr_type :: dbi_type
  dr_uuid :: string
  dr_source :: string
  dr_target :: string
  dr_script :: string
  dr_reason :: string
  dr_optional :: "string option"
  dr_timeslot :: "32 word"
  dr_sequence :: "32 word"
  dr_starting :: int
  dr_duration :: "64 word"

record dbi_state =
  db_heap :: "nat \<Rightarrow> dbi_rec"
  db_next :: "nat \<Rightarrow> nat option"
  db_fresh :: nat
  db_freelist :: "nat list"
  db_runlist :: "nat option"
  db_runlast :: "nat option"
  db_cdr :: bool
  db_running :: bool

definition dbi_zero :: dbi_rec where
  "dbi_zero = \<lparr>dr_type = START, dr_uuid = [], dr_source = [], dr_target = [], dr_script = [],
     dr_reason = [], dr_optional = None, dr_timeslot = 0, dr_sequence = 0, dr_starting = 0,
     dr_duration = 0\<rparr>"

definition dbi_init :: dbi_state where
  "dbi_init = \<lparr>db_heap = (\<lambda>_. dbi_zero), db_next = (\<lambda>_. None), db_fresh = 0, db_freelist = [],
     db_runlist = None, db_runlast = None, db_cdr = False, db_running = False\<rparr>"

text \<open>\<open>dbi::get\<close>: the head of the free list, cleared but for its type, or fresh zeroed memory.\<close>

definition dbi_get :: "dbi_state \<Rightarrow> nat \<times> dbi_state" where
  "dbi_get d =
     (case db_freelist d of
        r # rest \<Rightarrow>
          (r, d\<lparr>db_freelist := rest,
                db_heap := (db_heap d)(r := (dbi_zero\<lparr>dr_type := dr_type (db_heap d r)\<rparr>))\<rparr>)
      | [] \<Rightarrow>
          (db_fresh d, d\<lparr>db_fresh := db_fresh d + 1, db_heap := (db_heap d)(db_fresh d := dbi_zero)\<rparr>))"

definition dbi_fill :: "nat \<Rightarrow> dbi_rec \<Rightarrow> dbi_state \<Rightarrow> dbi_state" where
  "dbi_fill r v d = d\<lparr>db_heap := (db_heap d)(r := v)\<rparr>"

definition dbi_post :: "nat \<Rightarrow> dbi_state \<Rightarrow> dbi_state" where
  "dbi_post r d =
     (let d1 = d\<lparr>db_next := (db_next d)(r := None)\<rparr>;
          d2 = (case db_runlast d1 of
                  Some l \<Rightarrow> d1\<lparr>db_next := (db_next d1)(l := Some r)\<rparr>
                | None \<Rightarrow> d1\<lparr>db_runlist := Some r, db_runlast := Some r\<rparr>)
      in if dr_type (db_heap d r) = STOP then d2\<lparr>db_cdr := True\<rparr> else d2)"

definition dbi_start :: "dbi_state \<Rightarrow> dbi_state" where
  "dbi_start d = d\<lparr>db_running := True\<rparr>"

definition dbi_stop :: "dbi_state \<Rightarrow> dbi_state" where
  "dbi_stop d = d\<lparr>db_running := False\<rparr>"

section \<open>The thread\<close>

text \<open>
  The stream \<open>fp\<close> of the thread is a local variable that outlives a pass of the loop: no file
  yet, an open one, or a pointer to a file that has been closed.
\<close>

datatype stream = NoFile | Opened | Closed

datatype thread_io = Query stream dbi_rec | FreeOptional | Fclose stream

text \<open>The inner loop: each record of the chain is queried, its option text freed, and it is
  returned to the free list.\<close>

partial_function (option) dbi_drain ::
    "ucommon \<Rightarrow> stream \<Rightarrow> nat option \<Rightarrow> dbi_state \<Rightarrow> thread_io list \<Rightarrow> (dbi_state \<times> thread_io list) option"
where
  "dbi_drain u fp cp d out =
     (case cp of
        None \<Rightarrow> Some (d, out)
      | Some r \<Rightarrow>
          dbi_drain u fp (db_next d r) (d\<lparr>db_freelist := u_enlist u r (db_freelist d)\<rparr>)
            (out @ (if fp \<noteq> NoFile then [Query fp (db_heap d r)] else [])
                 @ (if dr_optional (db_heap d r) \<noteq> None then [FreeOptional] else [])))"

text \<open>
  One pass of \<open>dbithread::run\<close> after it wakes up: \<open>opens\<close> tells whether
  \<open>fopen(env("calls"), "a")\<close> succeeds.
\<close>

definition dbi_pass ::
    "ucommon \<Rightarrow> bool \<Rightarrow> stream \<Rightarrow> dbi_state \<Rightarrow> (stream \<times> dbi_state \<times> thread_io list) option" where
  "dbi_pass u opens fp d =
     (let cp = db_runlist d;
          fp1 = (if cp \<noteq> None \<and> db_cdr d then (if opens then Opened else NoFile) else fp);
          d1 = d\<lparr>db_cdr := False, db_runlist := None, db_runlast := None\<rparr>
      in case dbi_drain u fp1 cp d1 [] of
           None \<Rightarrow> None
         | Some (d2, out) \<Rightarrow>
             if fp1 \<noteq> NoFile then Some (Closed, d2, out @ [Fclose fp1]) else Some (fp1, d2, out))"

section \<open>Lemmas\<close>

text \<open>\<open>chain_is nxt p l\<close>: following \<open>Next\<close> from \<open>p\<close> visits exactly \<open>l\<close>.\<close>

fun chain_is :: "(nat \<Rightarrow> nat option) \<Rightarrow> nat option \<Rightarrow> nat list \<Rightarrow> bool" where
  "chain_is nxt p [] \<longleftrightarrow> p = None"
| "chain_is nxt p (a # l) \<longleftrightarrow> p = Some a \<and> chain_is nxt (nxt a) l"

lemma dbi_drain_chain:
  "ucommon_ok u \<Longrightarrow> chain_is (db_next d) cp l \<Longrightarrow>
    \<exists>out'. dbi_drain u fp cp d out = Some (d\<lparr>db_freelist := rev l @ db_freelist d\<rparr>, out @ out') \<and>
      filter (\<lambda>x. case x of Query _ _ \<Rightarrow> True | _ \<Rightarrow> False) out' =
        (if fp = NoFile then [] else map (\<lambda>r. Query fp (db_heap d r)) l)"
proof (induction l arbitrary: cp d out)
  case Nil
  then show ?case by (simp add: dbi_drain.simps)
next
  case (Cons a l)
  let ?d = "d\<lparr>db_freelist := a # db_freelist d\<rparr>"
  let ?o = "(if fp \<noteq> NoFile then [Query fp (db_heap d a)] else [])
                 @ (if dr_optional (db_heap d a) \<noteq> None then [FreeOptional] else [])"
  from Cons.prems have cp: "cp = Some a" and ch: "chain_is (db_next ?d) (db_next d a) l" by auto
  from Cons.IH [OF Cons.prems(1) ch, of "out @ ?o"] obtain out' where o:
    "dbi_drain u fp (db_next d a) ?d (out @ ?o) = Some (?d\<lparr>db_freelist := rev l @ db_freelist ?d\<rparr>, (out @ ?o) @ out')"
    "filter (\<lambda>x. case x of Query _ _ \<Rightarrow> True | _ \<Rightarrow> False) out' =
        (if fp = NoFile then [] else map (\<lambda>r. Query fp (db_heap d r)) l)" by auto
  have step: "dbi_drain u fp cp d out = dbi_drain u fp (db_next d a) ?d (out @ ?o)"
    by (subst dbi_drain.simps) (simp add: cp Cons.prems(1))
  show ?case
    unfolding step using o by (intro exI [of _ "?o @ out'"]) simp
qed

text \<open>What the chain holds after a number of posts to an empty run list.\<close>

definition queue_is :: "dbi_state \<Rightarrow> nat list \<Rightarrow> bool" where
  "queue_is d l \<longleftrightarrow> (case l of
       [] \<Rightarrow> db_runlist d = None \<and> db_runlast d = None
     | a # t \<Rightarrow> db_runlist d = Some a \<and> db_runlast d = Some a \<and> a \<notin> set t \<and> chain_is (db_next d) (Some a) (a # t))"

lemma chain_of_two: "chain_is nxt (Some a) [a, b] \<longleftrightarrow> nxt a = Some b \<and> nxt b = None"
  by auto

lemma queue_post:
  assumes "queue_is d l" "length l \<le> 2" "r \<notin> set l"
  shows "queue_is (dbi_post r d) (if l = [] then [r] else [hd l, r])"
  using assms by (cases l) (auto simp: queue_is_def dbi_post_def Let_def)

definition dbi_posts :: "nat list \<Rightarrow> dbi_state \<Rightarrow> dbi_state" where
  "dbi_posts rs d = fold dbi_post rs d"

lemma queue_posts:
  assumes "queue_is d l" "length l \<le> 2" "distinct rs" "set rs \<inter> set l = {}" "rs \<noteq> []"
  shows "queue_is (dbi_posts rs d)
    (if l = [] then (if length rs = 1 then rs else [hd rs, last rs]) else [hd l, last rs])"
  using assms
proof (induction rs arbitrary: d l)
  case (Cons r rs)
  let ?l = "if l = [] then [r] else [hd l, r]"
  have q: "queue_is (dbi_post r d) ?l" using Cons.prems by (intro queue_post) auto
  show ?case
  proof (cases "rs = []")
    case True
    with q show ?thesis by (cases l) (simp_all add: dbi_posts_def)
  next
    case False
    have "set rs \<inter> set ?l = {}" using Cons.prems by (cases l) auto
    with Cons.IH [OF q _ _ _ False] Cons.prems False show ?thesis
      by (auto simp: dbi_posts_def)
  qed
qed simp

lemma dbi_post_heap [simp]: "db_heap (dbi_post r d) = db_heap d"
  by (simp add: dbi_post_def Let_def split: option.split)

lemma dbi_posts_heap [simp]: "db_heap (dbi_posts rs d) = db_heap d"
  by (induction rs arbitrary: d) (simp_all add: dbi_posts_def)

lemma dbi_post_freelist [simp]: "db_freelist (dbi_post r d) = db_freelist d"
  by (simp add: dbi_post_def Let_def split: option.split)

lemma dbi_posts_freelist [simp]: "db_freelist (dbi_posts rs d) = db_freelist d"
  by (induction rs arbitrary: d) (simp_all add: dbi_posts_def)

lemma dbi_post_cdr: "db_cdr (dbi_post r d) \<longleftrightarrow> db_cdr d \<or> dr_type (db_heap d r) = STOP"
  by (simp add: dbi_post_def Let_def split: option.split)

lemma dbi_posts_cdr: "db_cdr (dbi_posts rs d) \<longleftrightarrow> db_cdr d \<or> (\<exists>r \<in> set rs. dr_type (db_heap d r) = STOP)"
  by (induction rs arbitrary: d) (auto simp: dbi_posts_def dbi_post_cdr)

fun queries :: "thread_io list \<Rightarrow> dbi_rec list" where
  "queries [] = []"
| "queries (x # xs) = (case x of Query _ r \<Rightarrow> r # queries xs | _ \<Rightarrow> queries xs)"

lemma queries_filter:
  "queries (filter (\<lambda>x. case x of Query _ _ \<Rightarrow> True | _ \<Rightarrow> False) out) = queries out"
  by (induction out) (auto split: thread_io.splits)

lemma queries_map: "queries (map (\<lambda>r. Query fp (f r)) l) = map f l"
  by (induction l) simp_all

lemma queries_append [simp]: "queries (a @ b) = queries a @ queries b"
  by (induction a) (simp_all split: thread_io.split)

lemma dbi_pass_queue:
  assumes "ucommon_ok u" "queue_is d l" "l \<noteq> []" "db_cdr d"
  shows "\<exists>d' out. dbi_pass u True fp d = Some (Closed, d', out) \<and> queries out = map (db_heap d) l \<and>
    db_freelist d' = rev l @ db_freelist d \<and> Fclose Opened \<in> set out"
proof -
  obtain a t where l: "l = a # t" using assms(3) by (cases l) auto
  with assms(2) have run: "db_runlist d = Some a" and ch: "chain_is (db_next d) (Some a) l"
    by (auto simp: queue_is_def)
  let ?d = "d\<lparr>db_cdr := False, db_runlist := None, db_runlast := None\<rparr>"
  have "chain_is (db_next ?d) (Some a) l" using ch by simp
  from dbi_drain_chain [OF assms(1) this, of Opened "[]"] obtain out' where o:
    "dbi_drain u Opened (Some a) ?d [] = Some (?d\<lparr>db_freelist := rev l @ db_freelist ?d\<rparr>, out')"
    "filter (\<lambda>x. case x of Query _ _ \<Rightarrow> True | _ \<Rightarrow> False) out' = map (\<lambda>r. Query Opened (db_heap ?d r)) l"
    by auto
  from o(2) have "queries out' = map (db_heap d) l"
    by (subst queries_filter [symmetric]) (simp add: queries_map)
  with o(1) show ?thesis
    by (simp add: dbi_pass_def run assms(4) Let_def)
qed

section \<open>Properties\<close>

text \<open>
  While the thread is not looking, \<open>post\<close> keeps only the first and the latest record:
  it never moves its last pointer once the run list is not empty, so each further post overwrites
  the link to the previous one. Of any number of records posted to an empty run list (one of them
  the end of a call, and the log file opens) the thread then logs exactly the first and the last,
  and only these return to the free list; the others are lost.
\<close>

theorem dbi_post_loses_records:
  assumes "ucommon_ok u" and "queue_is d []" and "distinct rs" and "2 \<le> length rs"
    and "\<exists>r \<in> set rs. dr_type (db_heap d r) = STOP"
  shows "\<exists>d' out. dbi_pass u True fp (dbi_posts rs d) = Some (Closed, d', out) \<and>
    queries out = [db_heap d (hd rs), db_heap d (last rs)] \<and>
    db_freelist d' = last rs # hd rs # db_freelist d"
proof -
  have "queue_is (dbi_posts rs d) [hd rs, last rs]"
    using queue_posts [OF assms(2) _ assms(3)] assms(4) by (cases rs) auto
  from dbi_pass_queue [OF assms(1) this, of fp] assms(5) show ?thesis
    by (auto simp: dbi_posts_cdr)
qed

definition stop_rec :: "nat \<Rightarrow> dbi_rec" where
  "stop_rec n = dbi_zero\<lparr>dr_type := STOP, dr_timeslot := of_nat n\<rparr>"

theorem dbi_post_loses_records_witness:
  "\<exists>d' out. dbi_pass ucommon_ref True NoFile (dbi_posts [0, 1, 2] (dbi_init\<lparr>db_heap := stop_rec\<rparr>)) = Some (Closed, d', out) \<and>
    queries out = [stop_rec 0, stop_rec 2] \<and> db_freelist d' = [2, 0]"
proof -
  let ?d = "dbi_init\<lparr>db_heap := stop_rec\<rparr>"
  have q: "queue_is ?d []" by (simp add: queue_is_def dbi_init_def)
  have s: "\<exists>r \<in> set [0, 1, 2]. dr_type (db_heap ?d r) = STOP"
    by (rule bexI [of _ 0]) (simp_all add: stop_rec_def)
  from dbi_post_loses_records [OF ucommon_ref_ok q _ _ s, of NoFile] show ?thesis
    by (simp add: dbi_init_def)
qed

text \<open>
  One or two records posted between two passes are all logged, in order, and go back to the
  free list: the queue is sound at that rate.
\<close>

theorem dbi_post_keeps_two:
  assumes "ucommon_ok u" and "queue_is d []" and "distinct rs" and "rs \<noteq> []" "length rs \<le> 2"
    and "\<exists>r \<in> set rs. dr_type (db_heap d r) = STOP"
  shows "\<exists>d' out. dbi_pass u True fp (dbi_posts rs d) = Some (Closed, d', out) \<and>
    queries out = map (db_heap d) rs \<and> db_freelist d' = rev rs @ db_freelist d"
proof -
  have "(if length rs = 1 then rs else [hd rs, last rs]) = rs"
    using assms(4,5) by (cases rs; cases "tl rs") auto
  then have "queue_is (dbi_posts rs d) rs"
    using queue_posts [OF assms(2) _ assms(3)] assms(4) by simp
  from dbi_pass_queue [OF assms(1) this, of fp] assms(4,6) show ?thesis
    by (auto simp: dbi_posts_cdr)
qed

theorem dbi_post_keeps_two_witness:
  "\<exists>d' out. dbi_pass ucommon_ref True NoFile (dbi_posts [4, 9] (dbi_init\<lparr>db_heap := stop_rec\<rparr>)) = Some (Closed, d', out) \<and>
    queries out = [stop_rec 4, stop_rec 9] \<and> db_freelist d' = [9, 4]"
proof -
  let ?d = "dbi_init\<lparr>db_heap := stop_rec\<rparr>"
  have q: "queue_is ?d []" by (simp add: queue_is_def dbi_init_def)
  have s: "\<exists>r \<in> set [4, 9]. dr_type (db_heap ?d r) = STOP"
    by (rule bexI [of _ 4]) (simp_all add: stop_rec_def)
  from dbi_post_keeps_two [OF ucommon_ref_ok q _ _ _ s, of NoFile] show ?thesis
    by (simp add: dbi_init_def)
qed

text \<open>
  The thread never forgets the stream of a pass: once it has logged, every later pass that
  opens no file (because no call ended meanwhile) hands its records to \<open>Driver::query\<close> with
  the closed stream and closes that stream again, even when there was nothing to log.
\<close>

theorem dbi_thread_reuses_closed_stream:
  assumes "ucommon_ok u" and "queue_is d l" and "\<not> db_cdr d"
  shows "\<exists>d' out. dbi_pass u opens Closed d = Some (Closed, d', out) \<and> last out = Fclose Closed \<and>
    filter (\<lambda>x. case x of Query _ _ \<Rightarrow> True | _ \<Rightarrow> False) out = map (\<lambda>r. Query Closed (db_heap d r)) l"
proof -
  let ?d = "d\<lparr>db_cdr := False, db_runlist := None, db_runlast := None\<rparr>"
  have "chain_is (db_next ?d) (db_runlist d) l"
    using assms(2) by (cases l) (auto simp: queue_is_def)
  from dbi_drain_chain [OF assms(1) this, of Closed "[]"] obtain out' where
    "dbi_drain u Closed (db_runlist d) ?d [] = Some (?d\<lparr>db_freelist := rev l @ db_freelist ?d\<rparr>, out')"
    "filter (\<lambda>x. case x of Query _ _ \<Rightarrow> True | _ \<Rightarrow> False) out' = map (\<lambda>r. Query Closed (db_heap ?d r)) l"
    by auto
  with assms(3) show ?thesis by (simp add: dbi_pass_def Let_def)
qed

theorem dbi_thread_reuses_closed_stream_witness:
  "\<exists>d' out. dbi_pass ucommon_ref True Closed dbi_init = Some (Closed, d', out) \<and> last out = Fclose Closed"
  using dbi_thread_reuses_closed_stream [of ucommon_ref dbi_init "[]" True]
  by (auto simp: queue_is_def dbi_init_def)

end
