(* ===== verification/Core.thy ===== *)
theory Core
  imports Stats Dbi
begin

text \<open>
  The state of a running server, shared by the components that follow. Objects are named by
  numbers: a timeslot by its instance, a registration, board or span by its position, a
  statistics node by its index. A null pointer is \<open>None\<close>.

  What the server asks of its surroundings and gets no answer from (locks taken and released,
  timers, the script interpreter, the SIP stack, the log) is recorded, in order, in the trace.
  A mutex is not part of the state: the trace tells how often it was taken and released.
\<close>

section \<open>Timeslots, segments, registrations\<close>

datatype event_id = EvREJECT | EvSHUTDOWN | EvTIMEOUT | EvDROP | EvHANGUP | EvRELEASE | EvENABLE | EvDISABLE

datatype handler = IdleHandler | ReleaseHandler | ScriptHandler | OfflineHandler

datatype mapped_type = NONE | DIALED | LOCAL | REMOTE | DIVERT | RECALL

text \<open>
  A timeslot, with the record of the shared-memory map it points to (\<open>mp_\<close> fields) and the
  fields of the SIP driver's subclass (\<open>ts_ctx\<close>, \<open>ts_did\<close>, \<open>ts_tid\<close>,
  \<open>ts_timer\<close>). A timeout is \<open>None\<close> when it is \<open>Timer::inf\<close>.
\<close>

record slot =
  mp_type :: mapped_type
  mp_started :: int
  mp_state :: string
  mp_source :: string
  mp_target :: string
  mp_script :: string
  ts_cid :: int
  ts_stats :: stat_t
  ts_expires :: "nat option"
  ts_handler :: handler
  ts_instance :: nat
  ts_sequence :: "32 word"
  ts_rings :: "32 word"
  ts_voice :: "string option"
  ts_digits :: "string option"
  ts_reason :: "string option"
  ts_optional :: "string option"
  ts_connected :: bool
  ts_answered :: bool
  ts_tracing :: bool
  ts_traceflag :: bool
  ts_registry :: "nat option"
  ts_board :: "nat option"
  ts_span :: "nat option"
  ts_ctx :: "nat option"
  ts_did :: int
  ts_tid :: int
  ts_timer :: "nat option"

text \<open>A board or a span; \<open>sg_spans\<close> is the field the class \<open>Board\<close> adds.\<close>

record segment =
  sg_live :: bool
  sg_instance :: nat
  sg_first :: nat
  sg_count :: nat
  sg_description :: string
  sg_script :: "string option"
  sg_stats :: "nat option"
  sg_spans :: nat

text \<open>A registration; the fields from \<open>rg_fwd\<close> on are those of the SIP driver's subclass.\<close>

record registration =
  rg_activated :: int
  rg_id :: string
  rg_schema :: "string option"
  rg_stats :: "nat option"
  rg_limit :: "32 word"
  rg_fwd :: "nat option"
  rg_expires :: "32 word"
  rg_userid :: "string option"
  rg_secret :: "string option"
  rg_server :: "string option"
  rg_script :: "string option"
  rg_uri :: "string option"
  rg_contact :: "string option"
  rg_targets :: "string option"
  rg_localnames :: "string option"
  rg_uuid :: string
  rg_context :: "nat option"
  rg_rid :: int

section \<open>The world\<close>

datatype effect =
    MutexLock nat | MutexUnlock nat
  | ListAccess | ListModify | ListRelease | ListCommit
  | DriverAccess | DriverRelease
  | Notify | Purge nat | Detach nat | ScriptInit nat | ScriptConst nat string string
  | ScriptAttach nat string string
  | Printlog string "int list" | Log string
  | ReleaseCall "nat option" int int | SendResponse "nat option" int nat
  | SendAnswer "nat option" int nat bool | SendOptions "nat option" int nat bool | SendRegistry "nat option" int | ReleaseRegistry "nat option" int
  | AddAuthentication "nat option" "string option" "string option" string

record world =
  w_slots :: "nat \<Rightarrow> slot"
  w_ts_count :: nat
  w_idle :: "nat list"
  w_assigned :: "nat \<Rightarrow> nat list"
  w_fault :: bool
  w_regs :: "nat \<Rightarrow> registration"
  w_registrations :: "nat list"
  w_boards :: "nat \<Rightarrow> segment"
  w_board_count :: nat
  w_spans :: "nat \<Rightarrow> segment"
  w_span_count :: nat
  w_sta :: sta_map
  w_drv_stats :: "nat option"
  w_dbi :: dbi_state
  w_clock :: int
  w_stepping :: nat
  w_out_context :: "nat option"
  w_trace :: "effect list"

text \<open>A world in which nothing has been set up yet: memory as static initialization leaves it.\<close>

definition blank_slot :: slot where
  "blank_slot = \<lparr>mp_type = NONE, mp_started = 0, mp_state = [], mp_source = [], mp_target = [],
     mp_script = [], ts_cid = 0, ts_stats = INCOMING, ts_expires = None, ts_handler = IdleHandler,
     ts_instance = 0, ts_sequence = 0, ts_rings = 0, ts_voice = None, ts_digits = None,
     ts_reason = None, ts_optional = None, ts_connected = False, ts_answered = False,
     ts_tracing = False, ts_traceflag = False, ts_registry = None, ts_board = None, ts_span = None,
     ts_ctx = None, ts_did = 0, ts_tid = 0, ts_timer = None\<rparr>"

definition blank_segment :: segment where
  "blank_segment = \<lparr>sg_live = False, sg_instance = 0, sg_first = 0, sg_count = 0, sg_description = [],
     sg_script = None, sg_stats = None, sg_spans = 0\<rparr>"

definition blank_registration :: registration where
  "blank_registration = \<lparr>rg_activated = 0, rg_id = [], rg_schema = None, rg_stats = None,
     rg_limit = 0, rg_fwd = None, rg_expires = 0, rg_userid = None, rg_secret = None,
     rg_server = None, rg_script = None, rg_uri = None, rg_contact = None, rg_targets = None,
     rg_localnames = None, rg_uuid = [], rg_context = None, rg_rid = 0\<rparr>"

definition blank_world :: world where
  "blank_world = \<lparr>w_slots = (\<lambda>_. blank_slot), w_ts_count = 0, w_idle = [], w_assigned = (\<lambda>_. []),
     w_fault = False, w_regs = (\<lambda>_. blank_registration), w_registrations = [],
     w_boards = (\<lambda>_. blank_segment), w_board_count = 0, w_spans = (\<lambda>_. blank_segment),
     w_span_count = 0, w_sta = \<lparr>sta_nodes = (\<lambda>_. zero_node), sta_count = 0, sta_used = 0\<rparr>,
     w_drv_stats = None, w_dbi = dbi_init, w_clock = 0, w_stepping = 50, w_out_context = None,
     w_trace = []\<rparr>"

definition emit :: "effect \<Rightarrow> world \<Rightarrow> world" where
  "emit e w = w\<lparr>w_trace := w_trace w @ [e]\<rparr>"

definition upd_slot :: "nat \<Rightarrow> (slot \<Rightarrow> slot) \<Rightarrow> world \<Rightarrow> world" where
  "upd_slot i f w = w\<lparr>w_slots := (w_slots w)(i := f (w_slots w i))\<rparr>"

definition upd_reg :: "nat \<Rightarrow> (registration \<Rightarrow> registration) \<Rightarrow> world \<Rightarrow> world" where
  "upd_reg r f w = w\<lparr>w_regs := (w_regs w)(r := f (w_regs w r))\<rparr>"

definition upd_node :: "nat \<Rightarrow> (statmap \<Rightarrow> statmap) \<Rightarrow> world \<Rightarrow> world" where
  "upd_node k f w =
     w\<lparr>w_sta := (w_sta w)\<lparr>sta_nodes := (sta_nodes (w_sta w))(k := f (sta_nodes (w_sta w) k))\<rparr>\<rparr>"

abbreviation node_of :: "world \<Rightarrow> nat \<Rightarrow> statmap" where
  "node_of w k \<equiv> sta_nodes (w_sta w) k"

section \<open>Statistics pointers\<close>

text \<open>
  The driver, a segment and a registration each hold a pointer to their statistics node and do
  nothing when it is null: \<open>Driver::assign\<close>, \<open>Segment::assign\<close> and their releases.
\<close>

definition stat_assign :: "nat option \<Rightarrow> stat_t \<Rightarrow> world \<Rightarrow> world" where
  "stat_assign p k w = (case p of None \<Rightarrow> w | Some n \<Rightarrow> upd_node n (statmap_assign k) w)"

definition stat_release :: "nat option \<Rightarrow> stat_t \<Rightarrow> world \<Rightarrow> world" where
  "stat_release p k w = (case p of None \<Rightarrow> w | Some n \<Rightarrow> upd_node n (statmap_release (w_clock w) k) w)"

definition Driver_assign :: "stat_t \<Rightarrow> world \<Rightarrow> world" where
  "Driver_assign k w = stat_assign (w_drv_stats w) k w"

definition Driver_release :: "stat_t \<Rightarrow> world \<Rightarrow> world" where
  "Driver_release k w = stat_release (w_drv_stats w) k w"

definition Segment_assign :: "segment \<Rightarrow> stat_t \<Rightarrow> world \<Rightarrow> world" where
  "Segment_assign s k w = stat_assign (sg_stats s) k w"

definition Segment_release :: "segment \<Rightarrow> stat_t \<Rightarrow> world \<Rightarrow> world" where
  "Segment_release s k w = stat_release (sg_stats s) k w"

section \<open>Objects of the driver\<close>

definition Driver_get :: "nat \<Rightarrow> world \<Rightarrow> nat option" where
  "Driver_get tsid w = (if tsid \<ge> w_ts_count w then None else Some tsid)"

definition Driver_getBoard :: "nat \<Rightarrow> world \<Rightarrow> nat option" where
  "Driver_getBoard bdid w = (if bdid \<ge> w_board_count w then None else Some bdid)"

definition Driver_getSpan :: "nat \<Rightarrow> world \<Rightarrow> nat option" where
  "Driver_getSpan sp w = (if sp \<ge> w_span_count w then None else Some sp)"

section \<open>Frames\<close>

lemma emit_frame [simp]:
  "w_slots (emit e w) = w_slots w" "w_idle (emit e w) = w_idle w"
  "w_assigned (emit e w) = w_assigned w" "w_ts_count (emit e w) = w_ts_count w"
  "w_fault (emit e w) = w_fault w" "w_regs (emit e w) = w_regs w" "w_sta (emit e w) = w_sta w"
  "w_dbi (emit e w) = w_dbi w" "w_clock (emit e w) = w_clock w"
  "w_drv_stats (emit e w) = w_drv_stats w" "w_boards (emit e w) = w_boards w"
  "w_spans (emit e w) = w_spans w" "w_trace (emit e w) = w_trace w @ [e]"
  "w_stepping (emit e w) = w_stepping w" "w_out_context (emit e w) = w_out_context w"
  "w_board_count (emit e w) = w_board_count w" "w_span_count (emit e w) = w_span_count w"
  "w_registrations (emit e w) = w_registrations w"
  by (simp_all add: emit_def)

lemma upd_slot_frame [simp]:
  "w_slots (upd_slot i f w) = (w_slots w)(i := f (w_slots w i))" "w_idle (upd_slot i f w) = w_idle w"
  "w_assigned (upd_slot i f w) = w_assigned w" "w_ts_count (upd_slot i f w) = w_ts_count w"
  "w_fault (upd_slot i f w) = w_fault w" "w_regs (upd_slot i f w) = w_regs w"
  "w_sta (upd_slot i f w) = w_sta w" "w_dbi (upd_slot i f w) = w_dbi w"
  "w_clock (upd_slot i f w) = w_clock w" "w_drv_stats (upd_slot i f w) = w_drv_stats w"
  "w_boards (upd_slot i f w) = w_boards w" "w_spans (upd_slot i f w) = w_spans w"
  "w_trace (upd_slot i f w) = w_trace w" "w_stepping (upd_slot i f w) = w_stepping w"
  "w_out_context (upd_slot i f w) = w_out_context w"
  "w_board_count (upd_slot i f w) = w_board_count w" "w_span_count (upd_slot i f w) = w_span_count w"
  "w_registrations (upd_slot i f w) = w_registrations w"
  by (simp_all add: upd_slot_def)

lemma upd_reg_frame [simp]:
  "w_regs (upd_reg r f w) = (w_regs w)(r := f (w_regs w r))" "w_slots (upd_reg r f w) = w_slots w"
  "w_idle (upd_reg r f w) = w_idle w" "w_assigned (upd_reg r f w) = w_assigned w"
  "w_sta (upd_reg r f w) = w_sta w" "w_trace (upd_reg r f w) = w_trace w"
  "w_clock (upd_reg r f w) = w_clock w" "w_ts_count (upd_reg r f w) = w_ts_count w"
  "w_fault (upd_reg r f w) = w_fault w" "w_registrations (upd_reg r f w) = w_registrations w"
  by (simp_all add: upd_reg_def)

lemma upd_node_frame [simp]:
  "w_slots (upd_node k f w) = w_slots w" "w_idle (upd_node k f w) = w_idle w"
  "w_assigned (upd_node k f w) = w_assigned w" "w_ts_count (upd_node k f w) = w_ts_count w"
  "w_fault (upd_node k f w) = w_fault w" "w_regs (upd_node k f w) = w_regs w"
  "w_dbi (upd_node k f w) = w_dbi w" "w_clock (upd_node k f w) = w_clock w"
  "w_drv_stats (upd_node k f w) = w_drv_stats w" "w_boards (upd_node k f w) = w_boards w"
  "w_spans (upd_node k f w) = w_spans w" "w_trace (upd_node k f w) = w_trace w"
  "w_stepping (upd_node k f w) = w_stepping w" "w_out_context (upd_node k f w) = w_out_context w"
  "w_board_count (upd_node k f w) = w_board_count w" "w_span_count (upd_node k f w) = w_span_count w"
  "w_registrations (upd_node k f w) = w_registrations w"
  "node_of (upd_node k f w) j = (if j = k then f (node_of w k) else node_of w j)"
  by (simp_all add: upd_node_def)

text \<open>What touching statistics leaves alone: everything but the nodes.\<close>

definition same_but_stats :: "world \<Rightarrow> world \<Rightarrow> bool" where
  "same_but_stats w w' \<longleftrightarrow> w' = w\<lparr>w_sta := w_sta w'\<rparr>"

lemma same_but_stats_refl [simp]: "same_but_stats w w"
  by (simp add: same_but_stats_def)

lemma same_but_stats_node [simp]: "same_but_stats w (upd_node k f w)"
  by (simp add: same_but_stats_def upd_node_def)

lemma stat_assign_same [simp]: "same_but_stats w (stat_assign p k w)"
  by (simp add: stat_assign_def split: option.split)

lemma stat_release_same [simp]: "same_but_stats w (stat_release p k w)"
  by (simp add: stat_release_def split: option.split)

lemma same_but_statsD:
  assumes "same_but_stats w w'"
  shows "w_slots w' = w_slots w" "w_idle w' = w_idle w" "w_assigned w' = w_assigned w"
    "w_ts_count w' = w_ts_count w" "w_fault w' = w_fault w" "w_regs w' = w_regs w"
    "w_dbi w' = w_dbi w" "w_clock w' = w_clock w" "w_drv_stats w' = w_drv_stats w"
    "w_boards w' = w_boards w" "w_spans w' = w_spans w" "w_trace w' = w_trace w"
    "w_stepping w' = w_stepping w" "w_out_context w' = w_out_context w"
    "w_board_count w' = w_board_count w" "w_span_count w' = w_span_count w"
    "w_registrations w' = w_registrations w"
proof -
  have e: "w' = w\<lparr>w_sta := w_sta w'\<rparr>" using assms by (simp only: same_but_stats_def)
  show "w_slots w' = w_slots w" "w_idle w' = w_idle w" "w_assigned w' = w_assigned w"
    "w_ts_count w' = w_ts_count w" "w_fault w' = w_fault w" "w_regs w' = w_regs w"
    "w_dbi w' = w_dbi w" "w_clock w' = w_clock w" "w_drv_stats w' = w_drv_stats w"
    "w_boards w' = w_boards w" "w_spans w' = w_spans w" "w_trace w' = w_trace w"
    "w_stepping w' = w_stepping w" "w_out_context w' = w_out_context w"
    "w_board_count w' = w_board_count w" "w_span_count w' = w_span_count w"
    "w_registrations w' = w_registrations w"
    by (subst e, simp)+
qed

lemmas stat_assign_frame [simp] = same_but_statsD [OF stat_assign_same]

lemmas stat_release_frame [simp] = same_but_statsD [OF stat_release_same]

lemma stat_assign_node [simp]:
  "node_of (stat_assign p k w) n = (if p = Some n then statmap_assign k (node_of w n) else node_of w n)"
  by (auto simp: stat_assign_def split: option.split)

lemma stat_release_node [simp]:
  "node_of (stat_release p k w) n =
     (if p = Some n then statmap_release (w_clock w) k (node_of w n) else node_of w n)"
  by (auto simp: stat_release_def split: option.split)

lemmas stat_ptr_defs = Driver_assign_def Driver_release_def Segment_assign_def Segment_release_def

text \<open>
  What no operation on a timeslot touches: the clock, boards and spans, registrations, and the
  settings of the driver.
\<close>

definition env_of :: "world \<Rightarrow> int \<times> (nat \<Rightarrow> segment) \<times> (nat \<Rightarrow> segment) \<times> (nat \<Rightarrow> registration) \<times> nat list \<times>
    nat option \<times> nat option \<times> nat \<times> nat \<times> nat" where
  "env_of w = (w_clock w, w_boards w, w_spans w, w_regs w, w_registrations w, w_drv_stats w,
     w_out_context w, w_stepping w, w_board_count w, w_span_count w)"

lemma env_ofD:
  assumes "env_of w' = env_of w"
  shows "w_clock w' = w_clock w" "w_boards w' = w_boards w" "w_spans w' = w_spans w" "w_regs w' = w_regs w"
    "w_registrations w' = w_registrations w" "w_drv_stats w' = w_drv_stats w"
    "w_out_context w' = w_out_context w" "w_stepping w' = w_stepping w"
    "w_board_count w' = w_board_count w" "w_span_count w' = w_span_count w"
  using assms by (simp_all add: env_of_def)

lemma env_of_simps [simp]:
  "env_of (emit e w) = env_of w" "env_of (upd_slot i f w) = env_of w" "env_of (upd_node k g w) = env_of w"
  "env_of (w\<lparr>w_idle := l\<rparr>) = env_of w" "env_of (w\<lparr>w_assigned := a\<rparr>) = env_of w"
  "env_of (w\<lparr>w_fault := b\<rparr>) = env_of w" "env_of (w\<lparr>w_dbi := d\<rparr>) = env_of w" "env_of (w\<lparr>w_trace := t\<rparr>) = env_of w"
  "env_of (w\<lparr>w_sta := st\<rparr>) = env_of w" "env_of (w\<lparr>w_slots := sl\<rparr>) = env_of w"
  by (simp_all add: env_of_def)

lemma env_of_same_but_stats: "same_but_stats w w' \<Longrightarrow> env_of w' = env_of w"
  by (simp add: env_of_def same_but_statsD)

section \<open>Locks in the trace\<close>

text \<open>How often the mutex of a timeslot was taken, less how often it was released.\<close>

fun mutex_depth :: "nat \<Rightarrow> effect list \<Rightarrow> int" where
  "mutex_depth i [] = 0"
| "mutex_depth i (e # es) =
     (case e of MutexLock j \<Rightarrow> if j = i then 1 else 0
              | MutexUnlock j \<Rightarrow> if j = i then -1 else 0 | _ \<Rightarrow> 0) + mutex_depth i es"

lemma mutex_depth_append [simp]: "mutex_depth i (a @ b) = mutex_depth i a + mutex_depth i b"
  by (induction a) auto

end
