(* ===== verification/Registry.thy ===== *)
theory Registry
  imports Core
begin

text \<open>
  The base class \<^verbatim>\<open>Registration\<close> (\<^verbatim>\<open>inc/bayonne/registry.h\<close>,
  \<^verbatim>\<open>common/registry.cpp\<close>): admission of calls under the limit of a registration, and
  the parsing of its server names. A configuration section is the function from keys to values
  that \<open>keydata::get\<close> implements.
\<close>

section \<open>Operations\<close>

definition Registration_construct ::
    "ucommon \<Rightarrow> nat \<Rightarrow> string \<Rightarrow> (string \<Rightarrow> string option) \<Rightarrow> string option \<Rightarrow> world \<Rightarrow> world" where
  "Registration_construct u r name keys sid w =
     (let limit = (case keys ''limit'' of Some cp \<Rightarrow> atoi cp | None \<Rightarrow> 0);
          (st, sta) = statmap_getRegistry name limit (w_sta w);
          w1 = w\<lparr>w_registrations := u_enlist u r (w_registrations w), w_sta := sta\<rparr>
      in upd_reg r (\<lambda>g. g\<lparr>rg_id := name, rg_limit := limit, rg_stats := st, rg_activated := 0,
                         rg_schema := sid\<rparr>) w1)"

definition Registration_release :: "nat \<Rightarrow> world \<Rightarrow> world" where
  "Registration_release r w = upd_reg r (\<lambda>g. g\<lparr>rg_activated := 0\<rparr>) w"

definition Registration_getHostid :: "ucommon \<Rightarrow> string option \<Rightarrow> string \<Rightarrow> string" where
  "Registration_getHostid u schema rid =
     (case strrchr rid (CHR ''@'') of
        Some cp \<Rightarrow> tl cp
      | None \<Rightarrow>
          (case schema of
             None \<Rightarrow> rid
           | Some s \<Rightarrow> if u_eqn u s rid (length s) then drop (length s) rid else rid))"

text \<open>
  \<open>via\<close> stands for the address of the local interface towards a host as the socket library
  finds it (\<open>resolver.set\<close>, \<open>getAddr\<close>, \<open>Socket::via\<close>, \<open>Socket::query\<close>),
  \<open>None\<close> where one of the first three fails. In that case the code stores
  \<open>localhost\<close> with \<open>sizeof(buffer)\<close>, the size of the pointer, as the size.
\<close>

definition sizeof_pointer :: nat where
  "sizeof_pointer = 8"

definition Registration_getInterface ::
    "ucommon \<Rightarrow> (string \<Rightarrow> string option) \<Rightarrow> string option \<Rightarrow> string \<Rightarrow> nat \<Rightarrow> string" where
  "Registration_getInterface u via schema uri0 sz =
     (let uri = Registration_getHostid u schema uri0;
          buffer =
            (if (case uri of c # _ \<Rightarrow> c = CHR ''['' | [] \<Rightarrow> False)
             then cut_at (CHR '']'') (u_set u sz (tl uri))
             else cut_at (CHR '':'') (u_set u sz uri))
      in case via buffer of
           None \<Rightarrow> u_set u sizeof_pointer ''localhost''
         | Some addr \<Rightarrow> fit sz addr)"

definition Registration_attach :: "nat \<Rightarrow> stat_t \<Rightarrow> world \<Rightarrow> bool \<times> world" where
  "Registration_attach r k w =
     (case rg_stats (w_regs w r) of
        None \<Rightarrow> (True, w)
      | Some n \<Rightarrow>
          if rg_limit (w_regs w r) = 0 \<or> rg_limit (w_regs w r) > statmap_active (node_of w n)
          then (True, upd_node n (statmap_update k) w)
          else (False, w))"

definition Registration_release_stat :: "nat \<Rightarrow> stat_t \<Rightarrow> world \<Rightarrow> world" where
  "Registration_release_stat r k w = stat_release (rg_stats (w_regs w r)) k w"

section \<open>Lemmas\<close>

lemma attach_frame [simp]: "same_but_stats w (snd (Registration_attach r k w))"
  by (simp add: Registration_attach_def split: option.split)

lemmas attach_same [simp] = same_but_statsD [OF attach_frame]

lemma release_stat_frame [simp]: "same_but_stats w (Registration_release_stat r k w)"
  by (simp add: Registration_release_stat_def)

lemmas release_stat_same [simp] = same_but_statsD [OF release_stat_frame]

lemma attach_node:
  "rg_stats (w_regs w r) = Some n \<Longrightarrow> fst (Registration_attach r k w) \<Longrightarrow>
    node_of (snd (Registration_attach r k w)) n = statmap_update k (node_of w n)"
  by (auto simp: Registration_attach_def split: if_splits)

lemma attach_refused: "\<not> fst (Registration_attach r k w) \<Longrightarrow> snd (Registration_attach r k w) = w"
  by (auto simp: Registration_attach_def split: option.splits if_splits)

text \<open>Calls admitted under a registration, and the admission machine of one registration.\<close>

definition reg_calls :: "nat \<Rightarrow> world \<Rightarrow> nat" where
  "reg_calls r w = (case rg_stats (w_regs w r) of None \<Rightarrow> 0 | Some n \<Rightarrow> calls (node_of w n))"

datatype admission = Attach stat_t | Hangup stat_t

fun admission_step :: "nat \<Rightarrow> world \<Rightarrow> admission \<Rightarrow> world" where
  "admission_step r w (Attach k) = snd (Registration_attach r k w)"
| "admission_step r w (Hangup k) = Registration_release_stat r k w"

definition reg_current :: "nat \<Rightarrow> stat_t \<Rightarrow> world \<Rightarrow> nat" where
  "reg_current r k w =
     (case rg_stats (w_regs w r) of None \<Rightarrow> 0 | Some n \<Rightarrow> unat (st_current (sm_stats (node_of w n) k)))"

fun admission_guard :: "nat \<Rightarrow> world \<Rightarrow> admission \<Rightarrow> bool" where
  "admission_guard r w (Attach k) \<longleftrightarrow> reg_current r k w < 65535"
| "admission_guard r w (Hangup k) \<longleftrightarrow> rg_stats (w_regs w r) \<noteq> None \<longrightarrow> 0 < reg_current r k w"

definition within_limit :: "nat \<Rightarrow> world \<Rightarrow> bool" where
  "within_limit r w \<longleftrightarrow> rg_limit (w_regs w r) \<noteq> 0 \<longrightarrow> reg_calls r w \<le> unat (rg_limit (w_regs w r))"

lemma attach_calls:
  assumes "reg_current r k w < 65535"
  shows "reg_calls r (snd (Registration_attach r k w)) =
    reg_calls r w + (if fst (Registration_attach r k w) \<and> rg_stats (w_regs w r) \<noteq> None then 1 else 0)"
  using assms calls_update
  by (auto simp: reg_calls_def reg_current_def Registration_attach_def split: option.splits)

lemma attach_refuses_iff:
  "\<not> fst (Registration_attach r k w) \<longleftrightarrow>
    (rg_stats (w_regs w r) \<noteq> None \<and> rg_limit (w_regs w r) \<noteq> 0 \<and>
     unat (rg_limit (w_regs w r)) \<le> reg_calls r w)"
  by (auto simp: Registration_attach_def reg_calls_def calls_def word_less_nat_alt split: option.splits)

interpretation admission: machine "admission_step r" "admission_guard r" "within_limit r" for r
proof
  fix w x
  assume inv: "within_limit r w" and g: "admission_guard r w x"
  show "within_limit r (admission_step r w x)"
  proof (cases x)
    case (Attach k)
    with g have "reg_current r k w < 65535" by simp
    from attach_calls [OF this] attach_refuses_iff [of r k w] inv Attach show ?thesis
      by (auto simp: within_limit_def reg_calls_def split: if_splits option.splits)
  next
    case (Hangup k)
    with g inv show ?thesis
      by (auto simp: within_limit_def reg_calls_def reg_current_def Registration_release_stat_def
          calls_release split: option.splits)
  qed
qed

text \<open>What the callers saw of a sequence of admissions: how many were admitted, asked for, and ended.\<close>

fun admitted :: "nat \<Rightarrow> world \<Rightarrow> admission list \<Rightarrow> nat" where
  "admitted r w [] = 0"
| "admitted r w (x # xs) = (case x of Attach k \<Rightarrow> if fst (Registration_attach r k w) then 1 else 0 | Hangup k \<Rightarrow> 0) +
     admitted r (admission_step r w x) xs"

definition asked :: "admission list \<Rightarrow> nat" where
  "asked ops = length (filter (\<lambda>x. case x of Attach k \<Rightarrow> True | Hangup k \<Rightarrow> False) ops)"

definition ended :: "admission list \<Rightarrow> nat" where
  "ended ops = length (filter (\<lambda>x. case x of Attach k \<Rightarrow> False | Hangup k \<Rightarrow> True) ops)"

lemma admission_regs: "w_regs (admission_step r w x) = w_regs w"
  by (cases x) simp_all

lemma admission_run_regs: "w_regs (run_ops (admission_step r) w ops) = w_regs w"
  by (induction ops arbitrary: w) (simp_all add: admission_regs)

lemma hangup_calls:
  assumes "rg_stats (w_regs w r) \<noteq> None" and "0 < reg_current r k w"
  shows "reg_calls r (Registration_release_stat r k w) + 1 = reg_calls r w"
proof -
  obtain n where n: "rg_stats (w_regs w r) = Some n" using assms(1) by blast
  with assms(2) have p: "0 < unat (st_current (sm_stats (node_of w n) k))" by (simp add: reg_current_def)
  then have "0 < calls (node_of w n)" by (cases k) (auto simp: calls_def unat_active)
  with n p show ?thesis by (simp add: reg_calls_def Registration_release_stat_def calls_release)
qed

lemma admission_balance:
  "guarded_ops (admission_step r) (admission_guard r) w ops \<Longrightarrow> rg_stats (w_regs w r) \<noteq> None \<Longrightarrow>
   reg_calls r (run_ops (admission_step r) w ops) + ended ops = reg_calls r w + admitted r w ops"
proof (induction ops arbitrary: w)
  case (Cons x xs)
  have s: "rg_stats (w_regs (admission_step r w x) r) \<noteq> None" using Cons.prems(2) by (simp add: admission_regs)
  from Cons.prems(1) have g: "admission_guard r w x" "guarded_ops (admission_step r) (admission_guard r) (admission_step r w x) xs"
    by simp_all
  note ih = Cons.IH [OF g(2) s]
  show ?case
  proof (cases x)
    case (Attach k)
    with ih attach_calls [of r k w] g(1) Cons.prems(2) show ?thesis by (simp add: ended_def)
  next
    case (Hangup k)
    with ih hangup_calls [of w r k] g(1) Cons.prems(2) show ?thesis by (simp add: ended_def)
  qed
qed (simp add: ended_def)

lemma admission_unlimited:
  "rg_stats (w_regs w r) = None \<Longrightarrow> run_ops (admission_step r) w ops = w \<and> admitted r w ops = asked ops"
proof (induction ops)
  case (Cons x xs)
  have "admission_step r w x = w"
    using Cons.prems by (cases x) (simp_all add: Registration_attach_def Registration_release_stat_def stat_release_def)
  with Cons show ?case by (cases x) (simp_all add: asked_def Registration_attach_def)
qed (simp add: asked_def)

section \<open>Properties\<close>

text \<open>
  C23. A registration that has a statistics node never has more calls than its limit: from any state within the limit,
  after any sequence of admissions and releases (no release without a call in progress), the calls it counts are those
  it had, and those that were admitted, less those that ended, and they stay within the limit, if there is
  one. Without a statistics node, which a registration does not get when there are more of
  them than the configured number, nothing is counted and the limit is not looked at: every call that asks is admitted.
\<close>

theorem registration_limit_holds:
  assumes "within_limit r w" and "guarded_ops (admission_step r) (admission_guard r) w ops"
    and "w' = run_ops (admission_step r) w ops"
  shows "(rg_stats (w_regs w r) \<noteq> None \<longrightarrow>
      reg_calls r w' + ended ops = reg_calls r w + admitted r w ops \<and>
      (rg_limit (w_regs w r) \<noteq> 0 \<longrightarrow> reg_calls r w' \<le> unat (rg_limit (w_regs w r)))) \<and>
    (rg_stats (w_regs w r) = None \<longrightarrow> w' = w \<and> admitted r w ops = asked ops)"
proof -
  have "within_limit r w'" unfolding assms(3) using assms(1,2) by (rule admission.run_inv)
  then have "rg_limit (w_regs w r) \<noteq> 0 \<longrightarrow> reg_calls r w' \<le> unat (rg_limit (w_regs w r))"
    by (simp add: within_limit_def assms(3) admission_run_regs)
  with admission_balance [OF assms(2)] admission_unlimited [of w r ops] assms(3) show ?thesis by simp
qed

definition reg_world :: "32 word \<Rightarrow> world" where
  "reg_world lim = blank_world\<lparr>w_regs := (\<lambda>_. blank_registration)(0 := blank_registration\<lparr>rg_limit := lim, rg_stats := Some 0\<rparr>),
     w_sta := \<lparr>sta_nodes = (\<lambda>_. zero_node), sta_count = 1, sta_used = 1\<rparr>\<rparr>"

lemma reg_world_simps [simp]:
  "rg_limit (w_regs (reg_world lim) 0) = lim" "rg_stats (w_regs (reg_world lim) 0) = Some 0"
  "node_of (reg_world lim) k = zero_node"
  by (simp_all add: reg_world_def)

lemma calls_zero [simp]: "calls zero_node = 0"
  by (simp add: calls_def unat_active)

theorem registration_limit_holds_witness:
  "reg_calls 0 (run_ops (admission_step 0) (reg_world 2) [Attach INCOMING, Attach OUTGOING, Hangup INCOMING]) \<le> 2 \<and>
   reg_calls 0 (run_ops (admission_step 0) (reg_world 2) [Attach INCOMING, Attach OUTGOING, Hangup INCOMING]) + 1 =
     admitted 0 (reg_world 2) [Attach INCOMING, Attach OUTGOING, Hangup INCOMING] \<and>
   admitted 0 (blank_world\<lparr>w_regs := (\<lambda>_. blank_registration\<lparr>rg_limit := 1, rg_stats := None\<rparr>)\<rparr>)
     [Attach INCOMING, Attach INCOMING] = 2"
proof -
  have a: "within_limit 0 (reg_world 2)" by (simp add: within_limit_def reg_calls_def)
  have g: "guarded_ops (admission_step 0) (admission_guard 0) (reg_world 2) [Attach INCOMING, Attach OUTGOING, Hangup INCOMING]"
    by (simp add: reg_current_def Registration_attach_def statmap_active_def)
  let ?w = "blank_world\<lparr>w_regs := (\<lambda>_. blank_registration\<lparr>rg_limit := 1, rg_stats := None\<rparr>)\<rparr>"
  have b: "within_limit 0 ?w" by (simp add: within_limit_def reg_calls_def)
  have h: "guarded_ops (admission_step 0) (admission_guard 0) ?w [Attach INCOMING, Attach INCOMING]"
    by (simp add: reg_current_def Registration_attach_def)
  have "reg_calls 0 (reg_world 2) = 0" by (simp add: reg_calls_def)
  with registration_limit_holds [OF a g refl] registration_limit_holds [OF b h refl]
  show ?thesis by (simp add: ended_def asked_def del: admitted.simps)
qed

text \<open>
  A call is refused exactly when the registration has statistics, a limit, and as many calls
  as the limit; a refusal changes nothing, an admission counts one call more.
\<close>

theorem registration_attach_decides:
  assumes "reg_current r k w < 65535"
  shows "(fst (Registration_attach r k w) \<longleftrightarrow> \<not> (rg_stats (w_regs w r) \<noteq> None \<and> rg_limit (w_regs w r) \<noteq> 0 \<and>
      unat (rg_limit (w_regs w r)) \<le> reg_calls r w)) \<and>
    (if fst (Registration_attach r k w)
     then reg_calls r (snd (Registration_attach r k w)) =
       reg_calls r w + (if rg_stats (w_regs w r) = None then 0 else 1)
     else snd (Registration_attach r k w) = w)"
proof (cases "fst (Registration_attach r k w)")
  case True
  with attach_refuses_iff [of r k w] attach_calls [OF assms] show ?thesis by simp
next
  case False
  with attach_refuses_iff [of r k w] attach_refused [OF False] show ?thesis by simp
qed

theorem registration_attach_decides_witness:
  "fst (Registration_attach 0 INCOMING (reg_world 1)) \<and>
     reg_calls 0 (snd (Registration_attach 0 INCOMING (reg_world 1))) = 1"
  using registration_attach_decides [of 0 INCOMING "reg_world 1"]
  by (simp add: reg_current_def reg_calls_def split: if_splits)

text \<open>
  Where the local interface cannot be determined, \<open>getInterface\<close> does not leave
  \<open>localhost\<close> in the buffer but its first seven characters, whatever the size of the
  buffer.
\<close>

theorem getInterface_truncates:
  assumes "ucommon_ok u" and "\<And>h. via h = None"
  shows "Registration_getInterface u via schema uri sz = ''localho''"
  using assms by (simp add: Registration_getInterface_def sizeof_pointer_def Let_def)

theorem getInterface_truncates_witness:
  "Registration_getInterface ucommon_ref (\<lambda>_. None) (Some ''sip:'') ''sip:bob@pbx.lan'' 180 = ''localho''"
  by (rule getInterface_truncates) simp_all

text \<open>
  \<open>getHostid\<close> reads the host part of a registration's uri: what follows the last
  \<open>@\<close>, or, without a user, what follows the scheme of the registration.
\<close>

theorem getHostid_host:
  assumes "ucommon_ok u" and "CHR ''@'' \<notin> set host"
  shows "Registration_getHostid u schema (pre @ ''@'' @ host) = host \<and>
    (CHR ''@'' \<notin> set s \<longrightarrow> Registration_getHostid u (Some s) (s @ host) = host)"
proof (intro conjI impI)
  show "Registration_getHostid u schema (pre @ ''@'' @ host) = host"
    using strrchr_append_notin [OF assms(2), of pre] by (simp add: Registration_getHostid_def)
  assume "CHR ''@'' \<notin> set s"
  with assms show "Registration_getHostid u (Some s) (s @ host) = host"
    by (simp add: Registration_getHostid_def)
qed

theorem getHostid_host_witness:
  "Registration_getHostid ucommon_ref None (''sip:bob'' @ ''@'' @ ''pbx.lan:5060'') = ''pbx.lan:5060''"
  using getHostid_host [of ucommon_ref "''pbx.lan:5060''" None "''sip:bob''"] by simp

end
