(* ===== verification/Timeslot.thy ===== *)
theory Timeslot
  imports Registry "HOL-Library.Monad_Syntax"
begin

text \<open>
  The timeslot state machine: \<^verbatim>\<open>class Timeslot\<close>
  (\<^verbatim>\<open>inc/bayonne/timeslot.h\<close>, \<^verbatim>\<open>common/timeslot.cpp\<close>).

  A timeslot is idle, releasing, scripting or offline; its \<open>handler\<close> tells which. Idle
  timeslots are on the list \<open>timeslots\<close> (here \<open>w_idle\<close>), timeslots with a call in the
  bucket of the index \<open>assigned\<close> that their call id selects. A handler takes an event and may
  replace its id: \<open>REJECT\<close> tells the sender that the event was refused, \<open>RELEASE\<close> that
  the handler has released the mutex of the timeslot itself.

  Methods that a driver overrides are called through the record \<open>vtable\<close>; the methods of the
  base class take the ones they call as arguments. \<open>v_step\<close> is the result of
  \<open>interp::step\<close>, which belongs to the script engine: it is taken to leave the fields of the
  timeslot alone (the engine is given no keywords of its own).

  The intrusive lists are kept as lists of instances. That is faithful as long as no timeslot is
  on two lists, which is what \<open>slots_ok\<close> below says and every operation but a shutdown with
  calls in progress keeps. An index past the end of \<open>assigned\<close> sets \<open>w_fault\<close>.
\<close>

type_synonym vmethod = "nat \<Rightarrow> event_id \<times> world \<Rightarrow> event_id \<times> world"

record vtable =
  v_shutdown :: vmethod
  v_release :: vmethod
  v_disconnect :: vmethod
  v_hangup :: vmethod
  v_disable :: vmethod
  v_enable :: vmethod
  v_running :: vmethod
  v_arm :: "nat \<Rightarrow> nat \<Rightarrow> world \<Rightarrow> world"
  v_disarm :: "nat \<Rightarrow> world \<Rightarrow> world"
  v_step :: "nat \<Rightarrow> world \<Rightarrow> bool"

section \<open>The index of assigned timeslots\<close>

definition TIMESLOT_INDEX_SIZE :: nat where
  "TIMESLOT_INDEX_SIZE = 177"

text \<open>\<open>unsigned path = (cid % TIMESLOT_INDEX_SIZE)\<close>: the remainder of C, then 32 bits.\<close>

definition ts_path :: "int \<Rightarrow> nat" where
  "ts_path cid = unat (word_of_int (cid smod int TIMESLOT_INDEX_SIZE) :: 32 word)"

definition enlist_assigned :: "ucommon \<Rightarrow> nat \<Rightarrow> nat \<Rightarrow> world \<Rightarrow> world" where
  "enlist_assigned u p i w =
     (if p < TIMESLOT_INDEX_SIZE
      then w\<lparr>w_assigned := (w_assigned w)(p := u_enlist u i (w_assigned w p))\<rparr>
      else w\<lparr>w_fault := True\<rparr>)"

definition delist_assigned :: "ucommon \<Rightarrow> nat \<Rightarrow> nat \<Rightarrow> world \<Rightarrow> world" where
  "delist_assigned u p i w =
     (if p < TIMESLOT_INDEX_SIZE
      then w\<lparr>w_assigned := (w_assigned w)(p := u_delist u i (w_assigned w p))\<rparr>
      else w\<lparr>w_fault := True\<rparr>)"

section \<open>Fields\<close>

definition set_mapped :: "ucommon \<Rightarrow> char \<Rightarrow> string option \<Rightarrow> slot \<Rightarrow> slot" where
  "set_mapped u c name s =
     (case name of
        None \<Rightarrow> s\<lparr>mp_state := c # drop 1 (mp_state s)\<rparr>
      | Some n \<Rightarrow> s\<lparr>mp_state := c # u_set u 15 n\<rparr>)"

definition Timeslot_setMapped :: "ucommon \<Rightarrow> char \<Rightarrow> string option \<Rightarrow> nat \<Rightarrow> world \<Rightarrow> world" where
  "Timeslot_setMapped u c name i w = upd_slot i (set_mapped u c name) w"

text \<open>The constructor: a new timeslot is idle and goes to the head of the idle list.\<close>

definition construct_slot :: "ucommon \<Rightarrow> nat \<Rightarrow> slot \<Rightarrow> slot" where
  "construct_slot u i s =
     (set_mapped u (CHR ''-'') (Some ''idle'') s)
       \<lparr>ts_registry := None, ts_board := None, ts_span := None, ts_instance := i, ts_sequence := 0,
        ts_rings := 0, ts_expires := None, ts_handler := IdleHandler, ts_tracing := False,
        ts_traceflag := False, ts_connected := False, ts_answered := False, ts_digits := None,
        ts_voice := None, mp_started := 0, mp_type := NONE, mp_source := u_set u 64 ''-'',
        mp_target := u_set u 64 ''-'', mp_script := u_set u 64 ''-''\<rparr>"

definition Timeslot_construct :: "ucommon \<Rightarrow> nat \<Rightarrow> world \<Rightarrow> world" where
  "Timeslot_construct u i w =
     upd_slot i (construct_slot u i) (w\<lparr>w_idle := u_enlist u i (w_idle w)\<rparr>)"

text \<open>
  \<open>initialize\<close>: \<open>default_voice\<close> is the \<open>voice\<close> key of the section \<open>defaults\<close>,
  the two results of \<open>createSymbol\<close> tell whether the script has room for the symbols.
\<close>

definition Timeslot_initialize ::
    "ucommon \<Rightarrow> string option \<Rightarrow> bool \<Rightarrow> bool \<Rightarrow> nat \<Rightarrow> world \<Rightarrow> world" where
  "Timeslot_initialize u default_voice digits_sym voice_sym i w =
     (let w1 = emit DriverAccess (upd_slot i (\<lambda>s. s\<lparr>ts_digits := None, ts_voice := None\<rparr>) w);
          voice = (case default_voice of Some v \<Rightarrow> v | None \<Rightarrow> ''english/female'');
          w2 = emit (ScriptInit i) w1;
          w3 = (if digits_sym then upd_slot i (\<lambda>s. s\<lparr>ts_digits := Some []\<rparr>) w2 else w2);
          w4 = (if voice_sym then upd_slot i (\<lambda>s. s\<lparr>ts_voice := Some (u_set u 64 voice)\<rparr>) w3 else w3)
      in emit DriverRelease w4)"

definition idle_slot :: "ucommon \<Rightarrow> slot \<Rightarrow> slot" where
  "idle_slot u s =
     (set_mapped u (CHR ''-'') (Some ''idle'') s)
       \<lparr>ts_connected := False, ts_answered := False, ts_tracing := ts_traceflag s,
        ts_handler := IdleHandler, mp_started := 0, mp_type := NONE, mp_source := u_set u 64 ''-'',
        mp_target := u_set u 64 ''-'', mp_script := u_set u 64 ''-'', ts_rings := 0\<rparr>"

definition Timeslot_setIdle :: "ucommon \<Rightarrow> (nat \<Rightarrow> world \<Rightarrow> world) \<Rightarrow> nat \<Rightarrow> world \<Rightarrow> world" where
  "Timeslot_setIdle u disarm i w = emit (Purge i) (disarm i (upd_slot i (idle_slot u) w))"

definition Timeslot_setScripting ::
    "ucommon \<Rightarrow> (nat \<Rightarrow> nat \<Rightarrow> world \<Rightarrow> world) \<Rightarrow> nat \<Rightarrow> world \<Rightarrow> world" where
  "Timeslot_setScripting u arm i w =
     arm i (w_stepping w)
       (upd_slot i (\<lambda>s. (set_mapped u (CHR ''$'') (Some ''script'') s)\<lparr>ts_handler := ScriptHandler\<rparr>) w)"

section \<open>Finding and assigning timeslots\<close>

fun find_cid :: "(nat \<Rightarrow> slot) \<Rightarrow> int \<Rightarrow> nat list \<Rightarrow> nat option" where
  "find_cid sl cid [] = None"
| "find_cid sl cid (t # ts) =
     (if ts_cid (sl t) = cid then (if mp_started (sl t) \<noteq> 0 then Some t else None)
      else find_cid sl cid ts)"

definition Timeslot_get :: "int \<Rightarrow> world \<Rightarrow> nat option \<times> world" where
  "Timeslot_get cid w =
     (let p = ts_path cid; w1 = emit ListAccess w
      in if p < TIMESLOT_INDEX_SIZE
         then (find_cid (w_slots w1) cid (w_assigned w1 p), emit ListRelease w1)
         else (None, emit ListRelease (w1\<lparr>w_fault := True\<rparr>)))"

definition seg_assign :: "nat option \<Rightarrow> (nat \<Rightarrow> segment) \<Rightarrow> stat_t \<Rightarrow> world \<Rightarrow> world" where
  "seg_assign p segs k w = (case p of None \<Rightarrow> w | Some j \<Rightarrow> Segment_assign (segs j) k w)"

definition seg_release :: "nat option \<Rightarrow> (nat \<Rightarrow> segment) \<Rightarrow> stat_t \<Rightarrow> world \<Rightarrow> world" where
  "seg_release p segs k w = (case p of None \<Rightarrow> w | Some j \<Rightarrow> Segment_release (segs j) k w)"

text \<open>The call detail record of a timeslot, posted at the start and at the end of a call.\<close>

definition post_call :: "ucommon \<Rightarrow> dbi_type \<Rightarrow> string option \<Rightarrow> 64 word \<Rightarrow> string \<Rightarrow> slot \<Rightarrow> dbi_state \<Rightarrow> dbi_state" where
  "post_call u ty opt duration reason s d =
     (let (r, d1) = dbi_get d;
          call = (db_heap d1 r)\<lparr>dr_type := ty, dr_optional := opt, dr_timeslot := of_nat (ts_instance s),
            dr_sequence := ts_sequence s, dr_starting := mp_started s, dr_duration := duration,
            dr_reason := u_set u 16 reason, dr_source := u_set u 64 (mp_source s),
            dr_target := u_set u 64 (mp_target s), dr_script := u_set u 64 (mp_script s)\<rparr>
      in dbi_post r (dbi_fill r call d1))"

definition allocate_slot :: "int \<Rightarrow> stat_t \<Rightarrow> nat option \<Rightarrow> slot \<Rightarrow> slot" where
  "allocate_slot cid k reg s =
     s\<lparr>ts_cid := cid, ts_optional := None, ts_reason := None, ts_stats := k, ts_registry := reg,
       ts_handler := (if ts_handler s = IdleHandler then ReleaseHandler else ts_handler s),
       ts_sequence := ts_sequence s + 1\<rparr>"

definition allocate_stats :: "nat \<Rightarrow> stat_t \<Rightarrow> world \<Rightarrow> world" where
  "allocate_stats i k w =
     (let s = w_slots w i
      in seg_assign (ts_board s) (w_boards w) k (seg_assign (ts_span s) (w_spans w) k (Driver_assign k w)))"

definition Timeslot_allocate :: "ucommon \<Rightarrow> int \<Rightarrow> stat_t \<Rightarrow> nat option \<Rightarrow> nat \<Rightarrow> world \<Rightarrow> world" where
  "Timeslot_allocate u new_cid k reg i w0 =
     (let p = ts_path new_cid;
          w1 = upd_slot i (\<lambda>s. s\<lparr>mp_started := w_clock w0\<rparr>) w0;
          w2 = w1\<lparr>w_idle := (case w_idle w1 of
                  t # rest \<Rightarrow> if t = i then rest else u_delist u i (w_idle w1)
                | [] \<Rightarrow> u_delist u i [])\<rparr>;
          w3 = enlist_assigned u p i w2;
          w4 = upd_slot i (allocate_slot new_cid k reg) w3;
          w5 = allocate_stats i k w4
      in w5\<lparr>w_dbi := post_call u START None 0 ''start'' (w_slots w5 i) (w_dbi w5)\<rparr>)"

type_synonym allocator = "int \<Rightarrow> stat_t \<Rightarrow> nat option \<Rightarrow> nat \<Rightarrow> world \<Rightarrow> world"

definition Timeslot_assign :: "allocator \<Rightarrow> nat option \<Rightarrow> stat_t \<Rightarrow> int \<Rightarrow> world \<Rightarrow> nat option \<times> world" where
  "Timeslot_assign alloc reg k cid w =
     (let w1 = emit ListModify w
      in case w_idle w1 of
           [] \<Rightarrow> (None, emit ListCommit w1)
         | ts # _ \<Rightarrow> (Some ts, emit ListCommit (alloc cid k reg ts w1)))"

text \<open>
  The loop of the two range assignments. Positions are 32 bits wide: with \<open>ending\<close> the
  largest of them the loop does not end where it finds no free timeslot.
\<close>

partial_function (option) assign_scan :: "world \<Rightarrow> 32 word \<Rightarrow> 32 word \<Rightarrow> (32 word \<times> nat option) option" where
  "assign_scan w pos ending =
     (if pos \<le> ending
      then (case Driver_get (unat pos) w of
              Some ts \<Rightarrow> if mp_started (w_slots w ts) = 0 then Some (pos, Some ts)
                         else assign_scan w (pos + 1) ending
            | None \<Rightarrow> assign_scan w (pos + 1) ending)
      else Some (pos, None))"

definition Timeslot_assign_range ::
    "allocator \<Rightarrow> stat_t \<Rightarrow> 32 word \<Rightarrow> 32 word \<Rightarrow> world \<Rightarrow> (nat option \<times> world) option" where
  "Timeslot_assign_range alloc k starting ending w =
     (let w1 = emit ListCommit w
      in case assign_scan w1 starting ending of
           None \<Rightarrow> None
         | Some (path, None) \<Rightarrow> Some (None, emit ListCommit w1)
         | Some (path, Some ts) \<Rightarrow>
             Some (Some ts, emit ListCommit (alloc (int (unat path)) k None ts w1)))"

definition Timeslot_assign_range_cid ::
    "allocator \<Rightarrow> stat_t \<Rightarrow> 32 word \<Rightarrow> 32 word \<Rightarrow> int \<Rightarrow> world \<Rightarrow> (nat option \<times> world) option" where
  "Timeslot_assign_range_cid alloc k starting ending cid w =
     (let w1 = emit ListCommit w
      in case assign_scan w1 starting ending of
           None \<Rightarrow> None
         | Some (pos, None) \<Rightarrow> Some (None, emit ListCommit w1)
         | Some (pos, Some ts) \<Rightarrow> Some (Some ts, emit ListCommit (alloc cid k None ts w1)))"

section \<open>Methods of the base class\<close>

text \<open>
  \<open>release\<close> posts the record of the call, sets the timeslot idle, releases its counts, and
  moves it from its bucket to the idle list after it has released its mutex.
\<close>

definition release_record :: "ucommon \<Rightarrow> nat \<Rightarrow> world \<Rightarrow> world" where
  "release_record u i w =
     (let s = w_slots w i;
          reason = (case ts_reason s of None \<Rightarrow> ''release'' | Some r \<Rightarrow> r);
          ending = w_clock w
      in upd_slot i (\<lambda>s. s\<lparr>ts_reason := Some reason\<rparr>)
           (w\<lparr>w_dbi := post_call u STOP (ts_optional s) (word_of_int (ending - mp_started s)) reason s (w_dbi w)\<rparr>))"

definition reg_release :: "nat option \<Rightarrow> stat_t \<Rightarrow> world \<Rightarrow> world" where
  "reg_release p k w = (case p of None \<Rightarrow> w | Some r \<Rightarrow> Registration_release_stat r k w)"

definition release_stats :: "nat \<Rightarrow> world \<Rightarrow> world" where
  "release_stats i w =
     (let s = w_slots w i; k = ts_stats s
      in upd_slot i (\<lambda>s. s\<lparr>ts_registry := None\<rparr>)
           (seg_release (ts_board s) (w_boards w) k
             (seg_release (ts_span s) (w_spans w) k
               (reg_release (ts_registry s) k (Driver_release k w)))))"

definition release_lists :: "ucommon \<Rightarrow> nat \<Rightarrow> nat \<Rightarrow> world \<Rightarrow> world" where
  "release_lists u p i w =
     (let w1 = delist_assigned u p i (emit ListModify w)
      in emit ListCommit (w1\<lparr>w_idle := u_enlist u i (w_idle w1)\<rparr>))"

definition Timeslot_release ::
    "ucommon \<Rightarrow> (nat \<Rightarrow> world \<Rightarrow> world) \<Rightarrow> vmethod" where
  "Timeslot_release u disarm i = (\<lambda>(ev, w0).
     (let p = ts_path (ts_cid (w_slots w0 i));
          w1 = upd_slot i (\<lambda>s. s\<lparr>ts_digits := None, ts_voice := None\<rparr>) (release_record u i w0);
          w2 = release_stats i (Timeslot_setIdle u disarm i (emit (Detach i) w1))
      in (EvRELEASE, release_lists u p i (emit (MutexUnlock i) w2))))"

definition Timeslot_disconnect :: "ucommon \<Rightarrow> vmethod" where
  "Timeslot_disconnect u i = (\<lambda>(ev, w).
     (ev, upd_slot i (\<lambda>s. (set_mapped u (CHR ''-'') (Some ''release'') (s\<lparr>ts_connected := False\<rparr>))
                              \<lparr>ts_handler := ReleaseHandler\<rparr>) w))"

definition Timeslot_hangup :: "ucommon \<Rightarrow> vmethod" where
  "Timeslot_hangup u i = (\<lambda>(ev, w). Timeslot_disconnect u i (ev, w))"

definition Timeslot_shutdown :: "ucommon \<Rightarrow> (nat \<Rightarrow> world \<Rightarrow> world) \<Rightarrow> vmethod" where
  "Timeslot_shutdown u disarm i = (\<lambda>(ev, w). (ev, Timeslot_setIdle u disarm i w))"

definition Timeslot_enable :: "ucommon \<Rightarrow> (nat \<Rightarrow> world \<Rightarrow> world) \<Rightarrow> vmethod" where
  "Timeslot_enable u disarm i = (\<lambda>(ev, w).
     (let w1 = Timeslot_setIdle u disarm i (emit (Printlog ''timeslot %d online after %ld seconds''
                 [int (ts_instance (w_slots w i)), w_clock w - mp_started (w_slots w i)]) w);
          w2 = emit ListModify (emit (MutexUnlock i) w1);
          w3 = w2\<lparr>w_idle := u_enlist u i (w_idle w2)\<rparr>
      in (EvRELEASE, emit ListCommit w3)))"

definition Timeslot_running :: "vmethod" where
  "Timeslot_running i = (\<lambda>(ev, w). (EvREJECT, w))"

definition go_offline :: "ucommon \<Rightarrow> (nat \<Rightarrow> world \<Rightarrow> world) \<Rightarrow> nat \<Rightarrow> world \<Rightarrow> world" where
  "go_offline u disarm i w =
     (let w1 = upd_slot i (\<lambda>s. s\<lparr>mp_type := NONE, mp_started := w_clock w\<rparr>) w;
          w2 = emit (Purge i) (disarm i w1);
          w3 = upd_slot i (\<lambda>s. (set_mapped u (CHR ''.'') (Some ''offline'') s)
                 \<lparr>ts_handler := OfflineHandler, ts_connected := False, ts_answered := False\<rparr>) w2;
          w4 = emit ListModify (emit (MutexUnlock i) w3)
      in emit ListCommit (w4\<lparr>w_idle := u_delist u i (w_idle w4)\<rparr>))"

definition Timeslot_disable ::
    "ucommon \<Rightarrow> vmethod \<Rightarrow> vmethod \<Rightarrow> (nat \<Rightarrow> world \<Rightarrow> world) \<Rightarrow> vmethod" where
  "Timeslot_disable u hangup release disarm i = (\<lambda>(ev, w0).
     (let w1 = emit (Printlog ''timeslot %u offline'' [int (ts_instance (w_slots w0 i))]) w0;
          w2 = (if mp_started (w_slots w1 i) \<noteq> 0 then snd (release i (hangup i (ev, w1))) else w1)
      in (EvRELEASE, go_offline u disarm i w2)))"

section \<open>Handlers\<close>

definition Timeslot_scriptHandler :: "vtable \<Rightarrow> vmethod" where
  "Timeslot_scriptHandler vt i = (\<lambda>(ev, w).
     (case ev of
        EvDISABLE \<Rightarrow> v_disable vt i (ev, w)
      | EvRELEASE \<Rightarrow> v_release vt i (ev, w)
      | EvDROP \<Rightarrow> v_disconnect vt i (ev, w)
      | EvHANGUP \<Rightarrow> v_hangup vt i (ev, w)
      | EvTIMEOUT \<Rightarrow>
          if \<not> v_step vt i w then v_hangup vt i (ev, w)
          else if ts_handler (w_slots w i) = ScriptHandler then (ev, v_arm vt i (w_stepping w) w)
          else (ev, w)
      | _ \<Rightarrow> v_running vt i (ev, w)))"

definition Timeslot_offlineHandler :: "vtable \<Rightarrow> vmethod" where
  "Timeslot_offlineHandler vt i = (\<lambda>(ev, w).
     (case ev of
        EvSHUTDOWN \<Rightarrow> v_shutdown vt i (ev, w)
      | EvENABLE \<Rightarrow> v_enable vt i (ev, w)
      | _ \<Rightarrow> (EvREJECT, w)))"

definition Timeslot_idleHandler :: "vtable \<Rightarrow> vmethod" where
  "Timeslot_idleHandler vt i = (\<lambda>(ev, w).
     (case ev of
        EvDISABLE \<Rightarrow> v_disable vt i (ev, w)
      | EvSHUTDOWN \<Rightarrow> v_shutdown vt i (ev, w)
      | _ \<Rightarrow> (EvREJECT, w)))"

definition Timeslot_releaseHandler :: "vtable \<Rightarrow> vmethod" where
  "Timeslot_releaseHandler vt i = (\<lambda>(ev, w).
     (case ev of
        EvDISABLE \<Rightarrow> v_disable vt i (ev, w)
      | EvSHUTDOWN \<Rightarrow> v_shutdown vt i (ev, w)
      | EvTIMEOUT \<Rightarrow> v_release vt i (ev, w)
      | EvRELEASE \<Rightarrow> v_release vt i (ev, w)
      | _ \<Rightarrow> (EvREJECT, w)))"

text \<open>\<open>(this->*handler)(event)\<close>\<close>

definition run_handler :: "vtable \<Rightarrow> vmethod" where
  "run_handler vt i = (\<lambda>(ev, w).
     (case ts_handler (w_slots w i) of
        IdleHandler \<Rightarrow> Timeslot_idleHandler vt i (ev, w)
      | ReleaseHandler \<Rightarrow> Timeslot_releaseHandler vt i (ev, w)
      | ScriptHandler \<Rightarrow> Timeslot_scriptHandler vt i (ev, w)
      | OfflineHandler \<Rightarrow> Timeslot_offlineHandler vt i (ev, w)))"

definition Timeslot_post :: "vtable \<Rightarrow> vmethod" where
  "Timeslot_post vt i = (\<lambda>(ev, w).
     (let (ev1, w1) = run_handler vt i (ev, emit (MutexLock i) w)
      in (ev1, if ev1 \<noteq> EvRELEASE then emit (MutexUnlock i) w1 else w1)))"

text \<open>The timer of the base class never expires.\<close>

definition Timeslot_getExpires :: "nat \<Rightarrow> int \<Rightarrow> world \<Rightarrow> nat option \<times> world" where
  "Timeslot_getExpires i now w = (None, w)"

definition Timeslot_expire :: "vtable \<Rightarrow> nat \<Rightarrow> world \<Rightarrow> world" where
  "Timeslot_expire vt i w =
     (let (ev1, w1) = (if ts_expires (w_slots w i) = Some 0 then run_handler vt i (EvTIMEOUT, w)
                       else (EvTIMEOUT, w));
          w2 = upd_slot i (\<lambda>s. s\<lparr>ts_expires := None\<rparr>) w1
      in if ev1 \<noteq> EvRELEASE then emit (MutexUnlock i) w2 else w2)"

end
