(* ===== verification/TimeslotLaws.thy ===== *)
theory TimeslotLaws
  imports Timeslot
begin

text \<open>
  What keeps the timeslots of a server consistent, and what a driver must promise for it.
  \<open>slots_ok\<close> is the invariant: handlers, lists and start times agree. \<open>method_ok\<close> is the
  contract of an overridable method: it keeps the invariant, and it releases the mutex of its
  timeslot if and only if it answers \<open>RELEASE\<close>. The locale \<open>slot_driver\<close> collects these
  contracts for a whole vtable and proves from them that delivering any event is safe; a driver
  interprets it on its own methods.
\<close>

section \<open>The invariant\<close>

definition in_call :: "handler \<Rightarrow> bool" where
  "in_call h \<longleftrightarrow> h = ReleaseHandler \<or> h = ScriptHandler"

lemma in_call_simps [simp]:
  "in_call ReleaseHandler" "in_call ScriptHandler" "\<not> in_call IdleHandler" "\<not> in_call OfflineHandler"
  by (simp_all add: in_call_def)

lemma in_call_not_offline: "in_call h \<Longrightarrow> h \<noteq> OfflineHandler"
  by auto

text \<open>What must hold of one timeslot, and of all.\<close>

definition slot_at :: "nat \<Rightarrow> nat list \<Rightarrow> (nat \<Rightarrow> nat list) \<Rightarrow> nat \<Rightarrow> handler \<Rightarrow> int \<Rightarrow> int \<Rightarrow> bool" where
  "slot_at n idle asg i h st cid \<longleftrightarrow>
     (i \<in> set idle \<longleftrightarrow> i < n \<and> h = IdleHandler) \<and>
     (\<forall>p. i \<in> set (asg p) \<longleftrightarrow> i < n \<and> in_call h \<and> p = ts_path cid) \<and>
     (i < n \<and> in_call h \<longrightarrow> ts_path cid < TIMESLOT_INDEX_SIZE) \<and>
     (i < n \<longrightarrow> (h = IdleHandler \<longleftrightarrow> st = 0))"

definition slots_inv ::
    "nat \<Rightarrow> nat list \<Rightarrow> (nat \<Rightarrow> nat list) \<Rightarrow> (nat \<Rightarrow> handler) \<Rightarrow> (nat \<Rightarrow> int) \<Rightarrow> (nat \<Rightarrow> int) \<Rightarrow> bool" where
  "slots_inv n idle asg h st cid \<longleftrightarrow>
     distinct idle \<and> (\<forall>p. distinct (asg p)) \<and> (\<forall>i. slot_at n idle asg i (h i) (st i) (cid i))"

definition slots_ok :: "world \<Rightarrow> bool" where
  "slots_ok w \<longleftrightarrow> slots_inv (w_ts_count w) (w_idle w) (w_assigned w)
     (\<lambda>i. ts_handler (w_slots w i)) (\<lambda>i. mp_started (w_slots w i)) (\<lambda>i. ts_cid (w_slots w i))"

lemma slots_okD:
  assumes "slots_ok w"
  shows slots_distinct: "distinct (w_idle w)" "distinct (w_assigned w p)"
    and slots_idle: "i \<in> set (w_idle w) \<longleftrightarrow> i < w_ts_count w \<and> ts_handler (w_slots w i) = IdleHandler"
    and slots_assigned: "i \<in> set (w_assigned w p) \<longleftrightarrow> i < w_ts_count w \<and>
      in_call (ts_handler (w_slots w i)) \<and> p = ts_path (ts_cid (w_slots w i))"
    and slots_path: "i < w_ts_count w \<Longrightarrow> in_call (ts_handler (w_slots w i)) \<Longrightarrow>
      ts_path (ts_cid (w_slots w i)) < TIMESLOT_INDEX_SIZE"
    and slots_started: "i < w_ts_count w \<Longrightarrow>
      ts_handler (w_slots w i) = IdleHandler \<longleftrightarrow> mp_started (w_slots w i) = 0"
  using assms unfolding slots_ok_def slots_inv_def slot_at_def by blast+

text \<open>Two worlds that agree on lists, handlers, start times and call ids.\<close>

definition slots_eq :: "world \<Rightarrow> world \<Rightarrow> bool" where
  "slots_eq w w' \<longleftrightarrow> w_ts_count w' = w_ts_count w \<and> w_idle w' = w_idle w \<and> w_assigned w' = w_assigned w \<and>
     w_fault w' = w_fault w \<and>
     (\<forall>i. ts_handler (w_slots w' i) = ts_handler (w_slots w i) \<and>
          mp_started (w_slots w' i) = mp_started (w_slots w i) \<and> ts_cid (w_slots w' i) = ts_cid (w_slots w i))"

lemma slots_ok_eq: "slots_eq w w' \<Longrightarrow> slots_ok w' \<longleftrightarrow> slots_ok w"
  by (simp add: slots_eq_def slots_ok_def)

lemma slots_eq_refl [simp]: "slots_eq w w"
  by (simp add: slots_eq_def)

lemma slots_eq_trans: "slots_eq w v \<Longrightarrow> slots_eq v x \<Longrightarrow> slots_eq w x"
  by (simp add: slots_eq_def)

text \<open>
  The moves a timeslot can make. Only its own membership and fields change; for every other
  timeslot nothing that \<open>slot_at\<close> looks at does.
\<close>

lemma inv_move:
  assumes inv: "slots_inv n idle asg h st cid"
    and d: "distinct idle'" "\<And>p. distinct (asg' p)"
    and mem: "\<And>j. j \<noteq> i \<Longrightarrow> j \<in> set idle' \<longleftrightarrow> j \<in> set idle"
      "\<And>j p. j \<noteq> i \<Longrightarrow> j \<in> set (asg' p) \<longleftrightarrow> j \<in> set (asg p)"
    and fld: "\<And>j. j \<noteq> i \<Longrightarrow> h' j = h j \<and> st' j = st j \<and> cid' j = cid j"
    and at: "slot_at n idle' asg' i (h' i) (st' i) (cid' i)"
  shows "slots_inv n idle' asg' h' st' cid'"
proof -
  have "slot_at n idle' asg' j (h' j) (st' j) (cid' j)" for j
  proof (cases "j = i")
    case True
    with at show ?thesis by simp
  next
    case False
    with inv have "slot_at n idle asg j (h j) (st j) (cid j)" by (simp add: slots_inv_def)
    with mem [OF False] fld [OF False] show ?thesis by (simp add: slot_at_def)
  qed
  with d show ?thesis by (simp add: slots_inv_def)
qed

lemma inv_at: "slots_inv n idle asg h st cid \<Longrightarrow> slot_at n idle asg i (h i) (st i) (cid i)"
  by (simp add: slots_inv_def)

lemma inv_distinct: "slots_inv n idle asg h st cid \<Longrightarrow> distinct idle \<and> distinct (asg p)"
  by (simp add: slots_inv_def)

text \<open>A call ends: from its bucket to the idle list.\<close>

lemma inv_to_idle:
  assumes "slots_inv n idle asg h st cid" "i < n" "in_call (h i)" "p = ts_path (cid i)"
    and "\<And>j. j \<noteq> i \<Longrightarrow> h' j = h j \<and> st' j = st j \<and> cid' j = cid j" "h' i = IdleHandler" "st' i = 0"
  shows "slots_inv n (i # idle) (asg(p := remove1 i (asg p))) h' st' cid'"
proof (rule inv_move [OF assms(1), where i = i])
  have d: "distinct idle" "distinct (asg q)" for q using inv_distinct [OF assms(1)] by auto
  have at: "slot_at n idle asg i (h i) (st i) (cid i)" by (rule inv_at [OF assms(1)])
  with assms(2,3,4) have "i \<notin> set idle" "i \<in> set (asg q) \<longleftrightarrow> q = p" for q
    by (auto simp: slot_at_def in_call_def)
  with d show "distinct (i # idle)" "distinct ((asg(p := remove1 i (asg p))) q)"
    "slot_at n (i # idle) (asg(p := remove1 i (asg p))) i (h' i) (st' i) (cid' i)" for q
    using assms(2,6,7) by (auto simp: slot_at_def)
qed (use assms(5) in auto)

text \<open>A call begins: from the idle list to its bucket.\<close>

lemma inv_to_call:
  assumes "slots_inv n idle asg h st cid" "i < n" "h i = IdleHandler" "p = ts_path c" "p < TIMESLOT_INDEX_SIZE"
    and "\<And>j. j \<noteq> i \<Longrightarrow> h' j = h j \<and> st' j = st j \<and> cid' j = cid j"
    and "in_call (h' i)" "st' i \<noteq> 0" "cid' i = c"
  shows "slots_inv n (remove1 i idle) (asg(p := i # asg p)) h' st' cid'"
proof (rule inv_move [OF assms(1), where i = i])
  have d: "distinct idle" "distinct (asg q)" for q using inv_distinct [OF assms(1)] by auto
  have at: "slot_at n idle asg i (h i) (st i) (cid i)" by (rule inv_at [OF assms(1)])
  with assms(2,3) have out: "i \<notin> set (asg q)" for q by (auto simp: slot_at_def)
  have ne: "h' i \<noteq> IdleHandler" using assms(7) by auto
  from d out show "distinct (remove1 i idle)" "distinct ((asg(p := i # asg p)) q)"
    "slot_at n (remove1 i idle) (asg(p := i # asg p)) i (h' i) (st' i) (cid' i)" for q
    using assms(2,4,5,7,8,9) ne by (auto simp: slot_at_def)
qed (use assms(6) in auto)

text \<open>A call goes on in another state.\<close>

lemma inv_in_call:
  assumes "slots_inv n idle asg h st cid" "i < n" "in_call (h i)"
    and "\<And>j. j \<noteq> i \<Longrightarrow> h' j = h j \<and> st' j = st j \<and> cid' j = cid j"
    and "in_call (h' i)" "st' i = st i" "cid' i = cid i"
  shows "slots_inv n idle asg h' st' cid'"
proof (rule inv_move [OF assms(1), where i = i])
  have "slot_at n idle asg i (h i) (st i) (cid i)" by (rule inv_at [OF assms(1)])
  then show "slot_at n idle asg i (h' i) (st' i) (cid' i)"
    using assms(2,3,5,6,7) by (auto simp: slot_at_def in_call_def)
qed (use assms(4) inv_distinct [OF assms(1)] in auto)

text \<open>A timeslot goes offline, or comes back.\<close>

lemma inv_to_offline:
  assumes "slots_inv n idle asg h st cid" "i < n" "h i = IdleHandler"
    and "\<And>j. j \<noteq> i \<Longrightarrow> h' j = h j \<and> st' j = st j \<and> cid' j = cid j"
    and "h' i = OfflineHandler" "st' i \<noteq> 0"
  shows "slots_inv n (remove1 i idle) asg h' st' cid'"
proof (rule inv_move [OF assms(1), where i = i])
  have d: "distinct idle" "distinct (asg q)" for q using inv_distinct [OF assms(1)] by auto
  have "slot_at n idle asg i (h i) (st i) (cid i)" by (rule inv_at [OF assms(1)])
  with d show "distinct (remove1 i idle)" "distinct (asg q)"
      "slot_at n (remove1 i idle) asg i (h' i) (st' i) (cid' i)" for q
    using assms(2,3,5,6) by (auto simp: slot_at_def)
qed (use assms(4) in auto)

lemma inv_online:
  assumes "slots_inv n idle asg h st cid" "i < n" "h i = OfflineHandler"
    and "\<And>j. j \<noteq> i \<Longrightarrow> h' j = h j \<and> st' j = st j \<and> cid' j = cid j" "h' i = IdleHandler" "st' i = 0"
  shows "slots_inv n (i # idle) asg h' st' cid'"
proof (rule inv_move [OF assms(1), where i = i])
  have d: "distinct idle" "distinct (asg q)" for q using inv_distinct [OF assms(1)] by auto
  have "slot_at n idle asg i (h i) (st i) (cid i)" by (rule inv_at [OF assms(1)])
  with d show "distinct (i # idle)" "distinct (asg q)"
      "slot_at n (i # idle) asg i (h' i) (st' i) (cid' i)" for q
    using assms(2,3,5,6) by (auto simp: slot_at_def)
qed (use assms(4) in auto)

section \<open>Contracts\<close>

text \<open>
  An operation on timeslot \<open>i\<close> is quiet when it takes no part in the invariant: it changes
  no list, no handler, start time or call id, no other timeslot, and takes or releases no mutex.
\<close>

definition quiet :: "nat \<Rightarrow> world \<Rightarrow> world \<Rightarrow> bool" where
  "quiet i w w' \<longleftrightarrow> slots_eq w w' \<and> (\<forall>j. j \<noteq> i \<longrightarrow> w_slots w' j = w_slots w j) \<and>
     (\<forall>j. mutex_depth j (w_trace w') = mutex_depth j (w_trace w)) \<and> env_of w' = env_of w"

lemma quiet_refl [simp]: "quiet i w w"
  by (simp add: quiet_def)

lemma quiet_trans: "quiet i w v \<Longrightarrow> quiet i v x \<Longrightarrow> quiet i w x"
  by (simp add: quiet_def slots_eq_def)

lemma quietD:
  assumes "quiet i w w'"
  shows "w_ts_count w' = w_ts_count w" "w_idle w' = w_idle w" "w_assigned w' = w_assigned w"
    "w_fault w' = w_fault w" "ts_handler (w_slots w' j) = ts_handler (w_slots w j)"
    "mp_started (w_slots w' j) = mp_started (w_slots w j)" "ts_cid (w_slots w' j) = ts_cid (w_slots w j)"
    "mutex_depth j (w_trace w') = mutex_depth j (w_trace w)" "slots_ok w' \<longleftrightarrow> slots_ok w"
    "env_of w' = env_of w" "w_clock w' = w_clock w"
  using assms slots_ok_eq by (auto simp: quiet_def slots_eq_def env_of_def)

lemma quiet_other: "quiet i w w' \<Longrightarrow> j \<noteq> i \<Longrightarrow> w_slots w' j = w_slots w j"
  by (simp add: quiet_def)

text \<open>Effects that concern no mutex, and fields that the invariant does not read.\<close>

definition no_mutex :: "effect \<Rightarrow> bool" where
  "no_mutex e \<longleftrightarrow> (\<forall>j. e \<noteq> MutexLock j \<and> e \<noteq> MutexUnlock j)"

lemma no_mutex_depth: "no_mutex e \<Longrightarrow> mutex_depth j [e] = 0"
  by (cases e) (simp_all add: no_mutex_def)

lemma quiet_emit: "no_mutex e \<Longrightarrow> quiet i w (emit e w)"
  by (simp add: quiet_def slots_eq_def no_mutex_depth del: mutex_depth.simps)

lemma quiet_upd_slot:
  assumes "ts_handler (f (w_slots w i)) = ts_handler (w_slots w i)"
    "mp_started (f (w_slots w i)) = mp_started (w_slots w i)" "ts_cid (f (w_slots w i)) = ts_cid (w_slots w i)"
  shows "quiet i w (upd_slot i f w)"
  using assms by (simp add: quiet_def slots_eq_def)

lemma quiet_same_but_stats: "same_but_stats w w' \<Longrightarrow> quiet i w w'"
  by (simp add: quiet_def slots_eq_def same_but_statsD env_of_same_but_stats)

lemma seg_assign_frame [simp]: "same_but_stats w (seg_assign p s k w)"
  by (simp add: seg_assign_def Segment_assign_def split: option.split)

lemma seg_release_frame [simp]: "same_but_stats w (seg_release p s k w)"
  by (simp add: seg_release_def Segment_release_def split: option.split)

lemma driver_stats_frame [simp]: "same_but_stats w (Driver_assign k w)" "same_but_stats w (Driver_release k w)"
  by (simp_all add: stat_ptr_defs)

lemmas seg_assign_same [simp] = same_but_statsD [OF seg_assign_frame]

lemmas seg_release_same [simp] = same_but_statsD [OF seg_release_frame]

lemmas driver_assign_same [simp] = same_but_statsD [OF driver_stats_frame(1)]

lemmas driver_release_same [simp] = same_but_statsD [OF driver_stats_frame(2)]

lemmas stats_env [simp] = env_of_same_but_stats [OF seg_assign_frame]
  env_of_same_but_stats [OF seg_release_frame] env_of_same_but_stats [OF driver_stats_frame(1)]
  env_of_same_but_stats [OF driver_stats_frame(2)]

text \<open>
  What a handler or a method may do to timeslot \<open>i\<close>, whose mutex is held, when given an
  event: keep the invariant and the other timeslots, and release the mutex exactly when the
  event comes back as \<open>RELEASE\<close>.
\<close>

definition call_ok :: "nat \<Rightarrow> world \<Rightarrow> event_id \<times> world \<Rightarrow> bool" where
  "call_ok i w r \<longleftrightarrow> slots_ok (snd r) \<and> w_ts_count (snd r) = w_ts_count w \<and> w_fault (snd r) = w_fault w \<and>
     (\<forall>j. j \<noteq> i \<longrightarrow> w_slots (snd r) j = w_slots w j) \<and>
     (\<forall>j. mutex_depth j (w_trace (snd r)) =
        mutex_depth j (w_trace w) - (if j = i \<and> fst r = EvRELEASE then 1 else 0)) \<and>
     env_of (snd r) = env_of w"

definition method_ok :: "(event_id \<Rightarrow> handler \<Rightarrow> bool) \<Rightarrow> vmethod \<Rightarrow> bool" where
  "method_ok P m \<longleftrightarrow> (\<forall>i ev w. slots_ok w \<longrightarrow> i < w_ts_count w \<longrightarrow>
     P ev (ts_handler (w_slots w i)) \<longrightarrow> call_ok i w (m i (ev, w)))"

lemma method_okD:
  "method_ok P m \<Longrightarrow> slots_ok w \<Longrightarrow> i < w_ts_count w \<Longrightarrow> P ev (ts_handler (w_slots w i)) \<Longrightarrow>
    call_ok i w (m i (ev, w))"
  by (simp add: method_ok_def)

lemma call_ok_keep: "slots_ok w \<Longrightarrow> ev \<noteq> EvRELEASE \<Longrightarrow> call_ok i w (ev, w)"
  by (simp add: call_ok_def)

lemma call_ok_quiet: "slots_ok w \<Longrightarrow> ev \<noteq> EvRELEASE \<Longrightarrow> quiet i w w' \<Longrightarrow> call_ok i w (ev, w')"
  by (simp add: call_ok_def quietD quiet_other)

lemma quiet_call_ok: "quiet i w v \<Longrightarrow> call_ok i v r \<Longrightarrow> call_ok i w r"
  by (simp add: call_ok_def quietD quiet_other)

lemma call_ok_then_quiet: "call_ok i w (ev, v) \<Longrightarrow> quiet i v v' \<Longrightarrow> call_ok i w (ev, v')"
  by (simp add: call_ok_def quietD quiet_other)

section \<open>The pieces of allocation and release\<close>

lemma set_mapped_same [simp]:
  "ts_handler (set_mapped u c n s) = ts_handler s" "mp_started (set_mapped u c n s) = mp_started s"
  "ts_cid (set_mapped u c n s) = ts_cid s" "ts_registry (set_mapped u c n s) = ts_registry s"
  "ts_stats (set_mapped u c n s) = ts_stats s"
  by (simp_all add: set_mapped_def split: option.split)

lemma reg_release_frame [simp]: "same_but_stats w (reg_release p k w)"
  by (simp add: reg_release_def split: option.split)

lemmas reg_release_same [simp] = same_but_statsD [OF reg_release_frame]
  env_of_same_but_stats [OF reg_release_frame]

lemma release_record_effect:
  "w_idle (release_record u i w) = w_idle w" "w_assigned (release_record u i w) = w_assigned w"
  "w_ts_count (release_record u i w) = w_ts_count w" "w_fault (release_record u i w) = w_fault w"
  "w_trace (release_record u i w) = w_trace w" "env_of (release_record u i w) = env_of w" "w_sta (release_record u i w) = w_sta w"
  "ts_handler (w_slots (release_record u i w) j) = ts_handler (w_slots w j)"
  "mp_started (w_slots (release_record u i w) j) = mp_started (w_slots w j)"
  "ts_cid (w_slots (release_record u i w) j) = ts_cid (w_slots w j)"
  "j \<noteq> i \<Longrightarrow> w_slots (release_record u i w) j = w_slots w j"
  by (simp_all add: release_record_def Let_def)

lemma release_stats_effect:
  "w_idle (release_stats i w) = w_idle w" "w_assigned (release_stats i w) = w_assigned w"
  "w_ts_count (release_stats i w) = w_ts_count w" "w_fault (release_stats i w) = w_fault w"
  "w_trace (release_stats i w) = w_trace w" "env_of (release_stats i w) = env_of w"
  "w_slots (release_stats i w) = (w_slots w)(i := (w_slots w i)\<lparr>ts_registry := None\<rparr>)"
  by (simp_all add: release_stats_def Let_def)

lemma release_lists_effect:
  assumes "ucommon_ok u" "p < TIMESLOT_INDEX_SIZE"
  shows "w_idle (release_lists u p i w) = i # w_idle w"
    "w_assigned (release_lists u p i w) = (w_assigned w)(p := remove1 i (w_assigned w p))"
    "w_ts_count (release_lists u p i w) = w_ts_count w" "w_fault (release_lists u p i w) = w_fault w"
    "w_slots (release_lists u p i w) = w_slots w" "w_sta (release_lists u p i w) = w_sta w"
    "env_of (release_lists u p i w) = env_of w"
    "w_trace (release_lists u p i w) = w_trace w @ [ListModify, ListCommit]"
  using assms by (simp_all add: release_lists_def delist_assigned_def Let_def)

section \<open>The methods of the base class\<close>

locale slot_timer =
  fixes u :: ucommon and disarm :: "nat \<Rightarrow> world \<Rightarrow> world"
  assumes ucommon: "ucommon_ok u"
    and disarm_quiet: "quiet i w (disarm i w)"
begin

lemmas disarm_same [simp] = quietD [OF disarm_quiet]

lemma disarm_other [simp]: "j \<noteq> i \<Longrightarrow> w_slots (disarm i w) j = w_slots w j"
  by (rule quiet_other [OF disarm_quiet])

lemma setIdle_effect:
  "w_idle (Timeslot_setIdle u disarm i w) = w_idle w"
  "w_assigned (Timeslot_setIdle u disarm i w) = w_assigned w"
  "w_ts_count (Timeslot_setIdle u disarm i w) = w_ts_count w"
  "w_fault (Timeslot_setIdle u disarm i w) = w_fault w"
  "mutex_depth j (w_trace (Timeslot_setIdle u disarm i w)) = mutex_depth j (w_trace w)"
  "ts_handler (w_slots (Timeslot_setIdle u disarm i w) j) =
     (if j = i then IdleHandler else ts_handler (w_slots w j))"
  "mp_started (w_slots (Timeslot_setIdle u disarm i w) j) = (if j = i then 0 else mp_started (w_slots w j))"
  "ts_cid (w_slots (Timeslot_setIdle u disarm i w) j) = ts_cid (w_slots w j)"
  "j \<noteq> i \<Longrightarrow> w_slots (Timeslot_setIdle u disarm i w) j = w_slots w j"
  "env_of (Timeslot_setIdle u disarm i w) = env_of w"
  by (simp_all add: Timeslot_setIdle_def idle_slot_def)

lemma setIdle_stats_fields:
  "ts_stats (w_slots (Timeslot_setIdle u disarm i w) i) =
     ts_stats (w_slots (disarm i (upd_slot i (idle_slot u) w)) i)"
  by (simp add: Timeslot_setIdle_def)

text \<open>The call is over: timeslot back on the idle list, mutex released, event \<open>RELEASE\<close>.\<close>

lemma release_effect:
  assumes "Timeslot_release u disarm i (ev, w) = (ev', w')"
    and "ts_path (ts_cid (w_slots w i)) < TIMESLOT_INDEX_SIZE"
  shows "ev' = EvRELEASE" "w_idle w' = i # w_idle w" "w_ts_count w' = w_ts_count w"
    "w_assigned w' = (w_assigned w)(ts_path (ts_cid (w_slots w i)) :=
         remove1 i (w_assigned w (ts_path (ts_cid (w_slots w i)))))"
    "w_fault w' = w_fault w"
    "ts_handler (w_slots w' j) = (if j = i then IdleHandler else ts_handler (w_slots w j))"
    "mp_started (w_slots w' j) = (if j = i then 0 else mp_started (w_slots w j))"
    "ts_cid (w_slots w' j) = ts_cid (w_slots w j)"
    "j \<noteq> i \<Longrightarrow> w_slots w' j = w_slots w j" "ts_registry (w_slots w' i) = None"
    "mutex_depth j (w_trace w') = mutex_depth j (w_trace w) - (if j = i then 1 else 0)"
    "env_of w' = env_of w"
proof -
  let ?p = "ts_path (ts_cid (w_slots w i))"
  let ?v = "emit (Detach i) (upd_slot i (\<lambda>s. s\<lparr>ts_digits := None, ts_voice := None\<rparr>) (release_record u i w))"
  have e: "ev' = EvRELEASE" "w' = release_lists u ?p i (emit (MutexUnlock i)
      (release_stats i (Timeslot_setIdle u disarm i ?v)))"
    using assms(1) by (simp_all add: Timeslot_release_def Let_def)
  show "ev' = EvRELEASE" by (rule e(1))
  show "w_idle w' = i # w_idle w" "w_ts_count w' = w_ts_count w"
    "w_assigned w' = (w_assigned w)(?p := remove1 i (w_assigned w ?p))" "w_fault w' = w_fault w"
    "ts_handler (w_slots w' j) = (if j = i then IdleHandler else ts_handler (w_slots w j))"
    "mp_started (w_slots w' j) = (if j = i then 0 else mp_started (w_slots w j))"
    "ts_cid (w_slots w' j) = ts_cid (w_slots w j)"
    "j \<noteq> i \<Longrightarrow> w_slots w' j = w_slots w j" "ts_registry (w_slots w' i) = None"
    "mutex_depth j (w_trace w') = mutex_depth j (w_trace w) - (if j = i then 1 else 0)"
    "env_of w' = env_of w"
    using assms(2) ucommon
    by (simp_all add: e(2) release_lists_effect release_stats_effect setIdle_effect release_record_effect)
qed

lemma release_ok: "method_ok (\<lambda>ev h. in_call h) (Timeslot_release u disarm)"
proof (unfold method_ok_def, intro allI impI)
  fix i ev w
  assume ok: "slots_ok w" and i: "i < w_ts_count w" and h: "in_call (ts_handler (w_slots w i))"
  obtain ev' w' where r: "Timeslot_release u disarm i (ev, w) = (ev', w')" by (rule prod.exhaust)
  note p = slots_path [OF ok i h]
  note e = release_effect [OF r p]
  have "slots_ok w'"
    unfolding slots_ok_def e(2) e(3) e(4)
    by (rule inv_to_idle [OF ok [unfolded slots_ok_def]]) (use i h in \<open>simp_all add: e\<close>)
  then show "call_ok i w (Timeslot_release u disarm i (ev, w))"
    by (simp add: r call_ok_def e)
qed

lemma release_result: "in_call (ts_handler (w_slots w i)) \<Longrightarrow> fst (Timeslot_release u disarm i (ev, w)) = EvRELEASE"
  by (simp add: Timeslot_release_def Let_def)

text \<open>The remote end is gone, or we are: the call stays assigned until it is released.\<close>

lemma disconnect_ok: "method_ok (\<lambda>ev h. ev \<noteq> EvRELEASE \<and> in_call h) (Timeslot_disconnect u)"
proof (unfold method_ok_def, intro allI impI)
  fix i ev w
  assume ok: "slots_ok w" and i: "i < w_ts_count w"
    and h: "ev \<noteq> EvRELEASE \<and> in_call (ts_handler (w_slots w i))"
  have "slots_ok (snd (Timeslot_disconnect u i (ev, w)))"
    unfolding slots_ok_def
    by (simp add: Timeslot_disconnect_def, rule inv_in_call [OF ok [unfolded slots_ok_def] i])
      (use h in simp_all)
  with h show "call_ok i w (Timeslot_disconnect u i (ev, w))"
    by (simp add: call_ok_def Timeslot_disconnect_def)
qed

lemma hangup_ok: "method_ok (\<lambda>ev h. ev \<noteq> EvRELEASE \<and> in_call h) (Timeslot_hangup u)"
  using disconnect_ok by (simp add: method_ok_def Timeslot_hangup_def)

text \<open>A timeslot taken off line comes back to the idle list.\<close>

lemma enable_ok: "method_ok (\<lambda>ev h. h = OfflineHandler) (Timeslot_enable u disarm)"
proof (unfold method_ok_def, intro allI impI)
  fix i ev w
  assume ok: "slots_ok w" and i: "i < w_ts_count w" and h: "ts_handler (w_slots w i) = OfflineHandler"
  have "slots_ok (snd (Timeslot_enable u disarm i (ev, w)))"
    unfolding slots_ok_def
    by (simp add: Timeslot_enable_def Let_def setIdle_effect ucommon_enlist [OF ucommon],
        rule inv_online [OF ok [unfolded slots_ok_def] i]) (use h in simp_all)
  then show "call_ok i w (Timeslot_enable u disarm i (ev, w))"
    by (simp add: call_ok_def Timeslot_enable_def Let_def setIdle_effect)
qed

text \<open>Shutting down an idle timeslot changes nothing that matters.\<close>

lemma shutdown_ok: "method_ok (\<lambda>ev h. ev \<noteq> EvRELEASE \<and> h = IdleHandler) (Timeslot_shutdown u disarm)"
proof (unfold method_ok_def, intro allI impI)
  fix i ev w
  assume ok: "slots_ok w" and i: "i < w_ts_count w"
    and h: "ev \<noteq> EvRELEASE \<and> ts_handler (w_slots w i) = IdleHandler"
  have st: "mp_started (w_slots w i) = 0" using slots_started [OF ok i] h by simp
  have "slots_eq w (Timeslot_setIdle u disarm i w)"
    using h st by (simp add: slots_eq_def setIdle_effect)
  then have "quiet i w (Timeslot_setIdle u disarm i w)" by (simp add: quiet_def setIdle_effect)
  with ok h show "call_ok i w (Timeslot_shutdown u disarm i (ev, w))"
    by (simp add: Timeslot_shutdown_def call_ok_quiet)
qed

text \<open>Taking an idle timeslot off line. With a call in progress the mutex is released twice.\<close>

lemma go_offline_effect:
  "w_idle (go_offline u disarm i w) = remove1 i (w_idle w)"
  "w_assigned (go_offline u disarm i w) = w_assigned w"
  "w_ts_count (go_offline u disarm i w) = w_ts_count w" "w_fault (go_offline u disarm i w) = w_fault w"
  "ts_handler (w_slots (go_offline u disarm i w) j) = (if j = i then OfflineHandler else ts_handler (w_slots w j))"
  "mp_started (w_slots (go_offline u disarm i w) j) = (if j = i then w_clock w else mp_started (w_slots w j))"
  "ts_cid (w_slots (go_offline u disarm i w) j) = ts_cid (w_slots w j)"
  "j \<noteq> i \<Longrightarrow> w_slots (go_offline u disarm i w) j = w_slots w j"
  "mutex_depth j (w_trace (go_offline u disarm i w)) = mutex_depth j (w_trace w) - (if j = i then 1 else 0)"
  "env_of (go_offline u disarm i w) = env_of w"
  using ucommon by (simp_all add: go_offline_def Let_def)

lemma go_offline_slots:
  assumes "slots_ok w" and "i < w_ts_count w" and "ts_handler (w_slots w i) = IdleHandler" and "w_clock w \<noteq> 0"
  shows "slots_ok (go_offline u disarm i w)"
  unfolding slots_ok_def go_offline_effect(1-3)
  by (rule inv_to_offline [OF assms(1) [unfolded slots_ok_def] assms(2,3)])
    (use assms(4) in \<open>simp_all add: go_offline_effect\<close>)

text \<open>What \<open>disable\<close> finds when it has hung up and released the call in progress, if any.\<close>

definition hung_up :: "event_id \<Rightarrow> nat \<Rightarrow> world \<Rightarrow> world" where
  "hung_up ev i w =
     (let w1 = emit (Printlog ''timeslot %u offline'' [int (ts_instance (w_slots w i))]) w
      in if mp_started (w_slots w1 i) \<noteq> 0
         then snd (Timeslot_release u disarm i (Timeslot_hangup u i (ev, w1))) else w1)"

lemma disable_hung_up:
  "Timeslot_disable u (Timeslot_hangup u) (Timeslot_release u disarm) disarm i (ev, w) =
     (EvRELEASE, go_offline u disarm i (hung_up ev i w))"
  by (simp add: Timeslot_disable_def hung_up_def Let_def)

lemma hung_up_effect:
  assumes ok: "slots_ok w" and i: "i < w_ts_count w" and h: "ts_handler (w_slots w i) \<noteq> OfflineHandler"
    and ev: "ev \<noteq> EvRELEASE"
  shows "slots_ok (hung_up ev i w)" "w_ts_count (hung_up ev i w) = w_ts_count w"
    "w_fault (hung_up ev i w) = w_fault w" "env_of (hung_up ev i w) = env_of w"
    "ts_handler (w_slots (hung_up ev i w) i) = IdleHandler"
    "j \<noteq> i \<Longrightarrow> w_slots (hung_up ev i w) j = w_slots w j"
    "mutex_depth j (w_trace (hung_up ev i w)) =
       mutex_depth j (w_trace w) - (if j = i \<and> in_call (ts_handler (w_slots w i)) then 1 else 0)"
proof -
  let ?p = "emit (Printlog ''timeslot %u offline'' [int (ts_instance (w_slots w i))]) w"
  have q: "quiet i w ?p" by (rule quiet_emit) (simp add: no_mutex_def)
  have "slots_ok (hung_up ev i w) \<and> w_ts_count (hung_up ev i w) = w_ts_count w \<and>
    w_fault (hung_up ev i w) = w_fault w \<and> env_of (hung_up ev i w) = env_of w \<and>
    ts_handler (w_slots (hung_up ev i w) i) = IdleHandler \<and>
    (\<forall>j. j \<noteq> i \<longrightarrow> w_slots (hung_up ev i w) j = w_slots w j) \<and>
    (\<forall>j. mutex_depth j (w_trace (hung_up ev i w)) =
       mutex_depth j (w_trace w) - (if j = i \<and> in_call (ts_handler (w_slots w i)) then 1 else 0))"
  proof (cases "ts_handler (w_slots w i) = IdleHandler")
    case True
    with slots_started [OF ok i] have "hung_up ev i w = ?p" by (simp add: hung_up_def)
    with ok True quietD [OF q] show ?thesis by simp
  next
    case False
    with h have c: "in_call (ts_handler (w_slots w i))"
      by (cases "ts_handler (w_slots w i)") simp_all
    have p: "slots_ok ?p" "i < w_ts_count ?p" "in_call (ts_handler (w_slots ?p i))"
      using quietD [OF q] ok i c by simp_all
    obtain ev1 w1 where r1: "Timeslot_hangup u i (ev, ?p) = (ev1, w1)" by (rule prod.exhaust)
    have c1: "call_ok i ?p (ev1, w1)"
      using method_okD [OF hangup_ok p(1,2), of ev] p(3) ev r1 by simp
    have ev1: "ev1 = ev" and h1: "in_call (ts_handler (w_slots w1 i))"
      using r1 by (auto simp: Timeslot_hangup_def Timeslot_disconnect_def)
    have w1: "slots_ok w1" "i < w_ts_count w1" using c1 p(2) by (simp_all add: call_ok_def)
    obtain ev2 w2 where r2: "Timeslot_release u disarm i (ev1, w1) = (ev2, w2)" by (rule prod.exhaust)
    have c2: "call_ok i w1 (ev2, w2)" using method_okD [OF release_ok w1, of ev1] h1 r2 by simp
    note e2 = release_effect(1,6) [OF r2 slots_path [OF w1 h1]]
    have "hung_up ev i w = w2"
      using False slots_started [OF ok i] by (simp add: hung_up_def r1 r2)
    with c1 c2 e2 ev ev1 c show ?thesis by (simp add: call_ok_def)
  qed
  then show "slots_ok (hung_up ev i w)" "w_ts_count (hung_up ev i w) = w_ts_count w"
    "w_fault (hung_up ev i w) = w_fault w" "env_of (hung_up ev i w) = env_of w"
    "ts_handler (w_slots (hung_up ev i w) i) = IdleHandler"
    "j \<noteq> i \<Longrightarrow> w_slots (hung_up ev i w) j = w_slots w j"
    "mutex_depth j (w_trace (hung_up ev i w)) =
       mutex_depth j (w_trace w) - (if j = i \<and> in_call (ts_handler (w_slots w i)) then 1 else 0)"
    by simp_all
qed

lemma disable_slots:
  assumes "slots_ok w" and "i < w_ts_count w" and "ts_handler (w_slots w i) \<noteq> OfflineHandler"
    and "ev \<noteq> EvRELEASE" and "w_clock w \<noteq> 0"
  shows "slots_ok (go_offline u disarm i (hung_up ev i w))"
  by (rule go_offline_slots) (simp_all add: hung_up_effect [OF assms(1-4)] env_ofD(1) [OF hung_up_effect(4) [OF assms(1-4)]] assms(2,5))

end

section \<open>Allocation\<close>

lemma allocate_stats_frame: "same_but_stats w (allocate_stats i k w)"
  by (simp add: allocate_stats_def Let_def same_but_stats_def stat_ptr_defs seg_assign_def
      stat_assign_def upd_node_def split: option.split)

lemmas allocate_stats_same [simp] = same_but_statsD [OF allocate_stats_frame]
  env_of_same_but_stats [OF allocate_stats_frame]

text \<open>What an allocation of an idle timeslot must leave behind, for any driver.\<close>

definition allocated :: "int \<Rightarrow> stat_t \<Rightarrow> nat option \<Rightarrow> nat \<Rightarrow> world \<Rightarrow> world \<Rightarrow> bool" where
  "allocated cid k reg i w w' \<longleftrightarrow>
     w_idle w' = remove1 i (w_idle w) \<and>
     w_assigned w' = (w_assigned w)(ts_path cid := i # w_assigned w (ts_path cid)) \<and>
     w_ts_count w' = w_ts_count w \<and> w_fault w' = w_fault w \<and>
     ts_handler (w_slots w' i) = ReleaseHandler \<and> mp_started (w_slots w' i) = w_clock w \<and>
     ts_cid (w_slots w' i) = cid \<and> ts_registry (w_slots w' i) = reg \<and> ts_stats (w_slots w' i) = k \<and>
     ts_sequence (w_slots w' i) = ts_sequence (w_slots w i) + 1 \<and>
     (\<forall>j. j \<noteq> i \<longrightarrow> w_slots w' j = w_slots w j) \<and>
     (\<forall>j. mutex_depth j (w_trace w') = mutex_depth j (w_trace w)) \<and> env_of w' = env_of w"

definition allocator_ok :: "(nat option \<Rightarrow> bool) \<Rightarrow> allocator \<Rightarrow> bool" where
  "allocator_ok P alloc \<longleftrightarrow> (\<forall>cid k reg i w. slots_ok w \<longrightarrow> i < w_ts_count w \<longrightarrow>
     ts_handler (w_slots w i) = IdleHandler \<longrightarrow> ts_path cid < TIMESLOT_INDEX_SIZE \<longrightarrow> P reg \<longrightarrow>
     allocated cid k reg i w (alloc cid k reg i w))"

lemma allocator_okD:
  "allocator_ok P alloc \<Longrightarrow> slots_ok w \<Longrightarrow> i < w_ts_count w \<Longrightarrow> ts_handler (w_slots w i) = IdleHandler \<Longrightarrow>
    ts_path cid < TIMESLOT_INDEX_SIZE \<Longrightarrow> P reg \<Longrightarrow> allocated cid k reg i w (alloc cid k reg i w)"
  by (simp add: allocator_ok_def)

lemma allocated_slots_ok:
  assumes "allocated cid k reg i w w'" and ok: "slots_ok w" and i: "i < w_ts_count w"
    and h: "ts_handler (w_slots w i) = IdleHandler" and p: "ts_path cid < TIMESLOT_INDEX_SIZE"
    and clock: "w_clock w \<noteq> 0"
  shows "slots_ok w'"
proof -
  have l: "w_idle w' = remove1 i (w_idle w)"
    "w_assigned w' = (w_assigned w)(ts_path cid := i # w_assigned w (ts_path cid))"
    "w_ts_count w' = w_ts_count w"
    and f: "ts_handler (w_slots w' i) = ReleaseHandler" "mp_started (w_slots w' i) = w_clock w"
    "ts_cid (w_slots w' i) = cid" "\<And>j. j \<noteq> i \<Longrightarrow> w_slots w' j = w_slots w j"
    using assms(1) by (simp_all add: allocated_def)
  show ?thesis
    unfolding slots_ok_def l
    by (rule inv_to_call [OF ok [unfolded slots_ok_def] i, of _ cid])
      (use h p clock f in simp_all)
qed

lemma allocate_slot_fields [simp]:
  "ts_handler (allocate_slot c k r s) = (if ts_handler s = IdleHandler then ReleaseHandler else ts_handler s)"
  "mp_started (allocate_slot c k r s) = mp_started s" "ts_cid (allocate_slot c k r s) = c"
  "ts_registry (allocate_slot c k r s) = r" "ts_stats (allocate_slot c k r s) = k"
  "ts_sequence (allocate_slot c k r s) = ts_sequence s + 1"
  by (simp_all add: allocate_slot_def)

lemma allocate_delist:
  assumes "ucommon_ok u"
  shows "(case l of t # rest \<Rightarrow> if t = i then rest else u_delist u i l | [] \<Rightarrow> u_delist u i []) = remove1 i l"
  using assms by (cases l) simp_all

lemma allocate_allocated:
  assumes "ucommon_ok u"
  shows "allocator_ok P (Timeslot_allocate u)"
proof (unfold allocator_ok_def, intro allI impI)
  fix cid k reg i and w :: world
  assume h: "ts_handler (w_slots w i) = IdleHandler" and p: "ts_path cid < TIMESLOT_INDEX_SIZE"
  show "allocated cid k reg i w (Timeslot_allocate u cid k reg i w)"
    using h p assms
    by (simp add: allocated_def Timeslot_allocate_def Let_def enlist_assigned_def allocate_delist)
qed

text \<open>The first timeslot of a range that no call occupies.\<close>

definition slot_free :: "world \<Rightarrow> nat \<Rightarrow> bool" where
  "slot_free w t \<longleftrightarrow> t < w_ts_count w \<and> mp_started (w_slots w t) = 0"

lemma assign_scan_step:
  "assign_scan w pos ending =
     (if pos \<le> ending
      then if slot_free w (unat pos) then Some (pos, Some (unat pos)) else assign_scan w (pos + 1) ending
      else Some (pos, None))"
  by (subst assign_scan.simps) (simp add: Driver_get_def slot_free_def)

lemma assign_scan_first:
  assumes "unat ending < 2 ^ 32 - 1"
  shows "case assign_scan w pos ending of None \<Rightarrow> False
    | Some (p, Some t) \<Rightarrow> t = unat p \<and> pos \<le> p \<and> p \<le> ending \<and> slot_free w t \<and>
        (\<forall>q. unat pos \<le> q \<and> q < t \<longrightarrow> \<not> slot_free w q)
    | Some (p, None) \<Rightarrow> \<forall>q. unat pos \<le> q \<and> q \<le> unat ending \<longrightarrow> \<not> slot_free w q"
proof (induction "unat ending + 1 - unat pos" arbitrary: pos rule: less_induct)
  case less
  show ?case
  proof (cases "pos \<le> ending")
    case False
    then have "unat ending < unat pos" by (simp add: word_le_nat_alt)
    with False show ?thesis by (subst assign_scan_step) auto
  next
    case in_range: True
    show ?thesis
    proof (cases "slot_free w (unat pos)")
      case True
      with in_range show ?thesis by (subst assign_scan_step) auto
    next
      case False
      have le: "unat pos \<le> unat ending" using in_range by (simp add: word_le_nat_alt)
      with assms have s: "unat (pos + 1) = unat pos + 1" by (intro unat_inc) simp
      have ih: "case assign_scan w (pos + 1) ending of None \<Rightarrow> False
        | Some (p, Some t) \<Rightarrow> t = unat p \<and> pos + 1 \<le> p \<and> p \<le> ending \<and> slot_free w t \<and>
            (\<forall>q. unat (pos + 1) \<le> q \<and> q < t \<longrightarrow> \<not> slot_free w q)
        | Some (p, None) \<Rightarrow> \<forall>q. unat (pos + 1) \<le> q \<and> q \<le> unat ending \<longrightarrow> \<not> slot_free w q"
        by (rule less) (use le s in simp)
      have step: "unat pos \<le> q \<longleftrightarrow> q = unat pos \<or> unat (pos + 1) \<le> q" for q using s by auto
      have up: "pos + 1 \<le> p \<Longrightarrow> pos \<le> p" for p using s by (simp add: word_le_nat_alt)
      have eq: "assign_scan w pos ending = assign_scan w (pos + 1) ending"
        using in_range False by (subst assign_scan_step) simp
      show ?thesis unfolding eq step
        using ih up False by (auto split: option.splits)
    qed
  qed
qed

text \<open>With the largest position as the end of the range and nothing free, the loop does not end.\<close>

lemma assign_scan_full_range:
  assumes "\<And>t. \<not> slot_free w t"
  shows "assign_scan w pos (- 1) = None"
proof (rule ccontr)
  assume "assign_scan w pos (- 1) \<noteq> None"
  then obtain r where ret: "assign_scan w pos (- 1) = Some r" by blast
  have "(\<forall>t. \<not> slot_free w t) \<longrightarrow> (- 1 :: 32 word) \<noteq> - 1"
  proof (rule assign_scan.raw_induct [where P = "\<lambda>w pos ending r. (\<forall>t. \<not> slot_free w t) \<longrightarrow> ending \<noteq> - 1", OF _ ret])
    fix f w pos ending r
    assume IH: "\<And>w pos ending r. f w pos ending = Some r \<Longrightarrow> (\<forall>t. \<not> slot_free w t) \<longrightarrow> ending \<noteq> - 1"
      and eq: "(if pos \<le> ending
        then (case Driver_get (unat pos) w of
                Some ts \<Rightarrow> if mp_started (w_slots w ts) = 0 then Some (pos, Some ts) else f w (pos + 1) ending
              | None \<Rightarrow> f w (pos + 1) ending)
        else Some (pos, None)) = Some r"
    show "(\<forall>t. \<not> slot_free w t) \<longrightarrow> ending \<noteq> - 1"
    proof (intro impI notI)
      assume none: "\<forall>t. \<not> slot_free w t" and e: "ending = - 1"
      have "pos \<le> ending" unfolding e by (rule word_n1_ge)
      moreover have "\<not> slot_free w (unat pos)" using none by blast
      ultimately have "f w (pos + 1) ending = Some r" using eq
        by (auto simp: Driver_get_def slot_free_def split: if_splits)
      from IH [OF this] none e show False by blast
    qed
  qed
  with assms show False by blast
qed

section \<open>Delivering events\<close>

text \<open>
  The interface between the state machine and a driver. A shutdown is only promised to be
  harmless for a timeslot that is idle or runs a script: sent to one that waits for its release or is
  off line it makes it idle without putting it on the idle list.
\<close>

locale slot_driver =
  fixes vt :: vtable
  assumes arm_law: "quiet i w (v_arm vt i t w)"
    and release_law: "method_ok (\<lambda>ev h. in_call h) (v_release vt)"
    and disconnect_law: "method_ok (\<lambda>ev h. ev = EvDROP \<and> in_call h) (v_disconnect vt)"
    and hangup_law: "method_ok (\<lambda>ev h. ev \<noteq> EvRELEASE \<and> in_call h) (v_hangup vt)"
    and disable_law: "method_ok (\<lambda>ev h. ev = EvDISABLE \<and> h \<noteq> OfflineHandler) (v_disable vt)"
    and enable_law: "method_ok (\<lambda>ev h. ev = EvENABLE \<and> h = OfflineHandler) (v_enable vt)"
    and shutdown_law: "method_ok (\<lambda>ev h. ev = EvSHUTDOWN \<and> h = IdleHandler) (v_shutdown vt)"
    and running_law: "method_ok (\<lambda>ev h. ev \<noteq> EvRELEASE \<and> h = ScriptHandler) (v_running vt)"

definition shutdown_safe :: "event_id \<Rightarrow> handler \<Rightarrow> bool" where
  "shutdown_safe ev h \<longleftrightarrow> (ev = EvSHUTDOWN \<longrightarrow> h = IdleHandler \<or> h = ScriptHandler)"

context slot_driver
begin

lemma idle_handler_ok: "method_ok (\<lambda>ev h. h = IdleHandler) (Timeslot_idleHandler vt)"
proof (unfold method_ok_def, intro allI impI)
  fix i ev w
  assume "slots_ok w" "i < w_ts_count w" "ts_handler (w_slots w i) = IdleHandler"
  then show "call_ok i w (Timeslot_idleHandler vt i (ev, w))"
    by (cases ev) (simp_all add: Timeslot_idleHandler_def call_ok_keep
        method_okD [OF disable_law] method_okD [OF shutdown_law])
qed

lemma release_handler_ok:
  "method_ok (\<lambda>ev h. h = ReleaseHandler \<and> ev \<noteq> EvSHUTDOWN) (Timeslot_releaseHandler vt)"
proof (unfold method_ok_def, intro allI impI)
  fix i ev w
  assume "slots_ok w" "i < w_ts_count w" "ts_handler (w_slots w i) = ReleaseHandler \<and> ev \<noteq> EvSHUTDOWN"
  then show "call_ok i w (Timeslot_releaseHandler vt i (ev, w))"
    by (cases ev) (simp_all add: Timeslot_releaseHandler_def call_ok_keep
        method_okD [OF disable_law] method_okD [OF release_law])
qed

lemma offline_handler_ok:
  "method_ok (\<lambda>ev h. h = OfflineHandler \<and> ev \<noteq> EvSHUTDOWN) (Timeslot_offlineHandler vt)"
proof (unfold method_ok_def, intro allI impI)
  fix i ev w
  assume "slots_ok w" "i < w_ts_count w" "ts_handler (w_slots w i) = OfflineHandler \<and> ev \<noteq> EvSHUTDOWN"
  then show "call_ok i w (Timeslot_offlineHandler vt i (ev, w))"
    by (cases ev) (simp_all add: Timeslot_offlineHandler_def call_ok_keep method_okD [OF enable_law])
qed

lemma script_handler_ok: "method_ok (\<lambda>ev h. h = ScriptHandler) (Timeslot_scriptHandler vt)"
proof (unfold method_ok_def, intro allI impI)
  fix i ev w
  assume "slots_ok w" "i < w_ts_count w" "ts_handler (w_slots w i) = ScriptHandler"
  then show "call_ok i w (Timeslot_scriptHandler vt i (ev, w))"
    by (cases ev) (simp_all add: Timeslot_scriptHandler_def call_ok_keep call_ok_quiet [OF _ _ arm_law]
        method_okD [OF disable_law] method_okD [OF release_law] method_okD [OF disconnect_law]
        method_okD [OF hangup_law] method_okD [OF running_law])
qed

lemma handler_ok: "method_ok shutdown_safe (run_handler vt)"
proof (unfold method_ok_def, intro allI impI)
  fix i ev w
  assume "slots_ok w" "i < w_ts_count w" "shutdown_safe ev (ts_handler (w_slots w i))"
  then show "call_ok i w (run_handler vt i (ev, w))"
    by (cases "ts_handler (w_slots w i)") (simp_all add: run_handler_def shutdown_safe_def
        method_okD [OF idle_handler_ok] method_okD [OF release_handler_ok]
        method_okD [OF offline_handler_ok] method_okD [OF script_handler_ok])
qed

text \<open>Delivering an event keeps the invariant and leaves every mutex as it was.\<close>

lemma post_ok:
  assumes ok: "slots_ok w" and i: "i < w_ts_count w" and s: "shutdown_safe ev (ts_handler (w_slots w i))"
  shows "slots_ok (snd (Timeslot_post vt i (ev, w)))"
    "w_ts_count (snd (Timeslot_post vt i (ev, w))) = w_ts_count w"
    "w_fault (snd (Timeslot_post vt i (ev, w))) = w_fault w"
    "mutex_depth j (w_trace (snd (Timeslot_post vt i (ev, w)))) = mutex_depth j (w_trace w)"
    "j \<noteq> i \<Longrightarrow> w_slots (snd (Timeslot_post vt i (ev, w))) j = w_slots w j"
    "env_of (snd (Timeslot_post vt i (ev, w))) = env_of w"
proof -
  have eq: "slots_eq w (emit (MutexLock i) w)" by (simp add: slots_eq_def)
  obtain ev1 w1 where r: "run_handler vt i (ev, emit (MutexLock i) w) = (ev1, w1)" by (rule prod.exhaust)
  have c: "call_ok i (emit (MutexLock i) w) (ev1, w1)"
    using method_okD [OF handler_ok, of "emit (MutexLock i) w" i ev] ok i s slots_ok_eq [OF eq] r by simp
  have eq1: "slots_eq w1 (emit (MutexUnlock i) w1)" by (simp add: slots_eq_def)
  show "slots_ok (snd (Timeslot_post vt i (ev, w)))"
    "w_ts_count (snd (Timeslot_post vt i (ev, w))) = w_ts_count w"
    "w_fault (snd (Timeslot_post vt i (ev, w))) = w_fault w"
    "mutex_depth j (w_trace (snd (Timeslot_post vt i (ev, w)))) = mutex_depth j (w_trace w)"
    "j \<noteq> i \<Longrightarrow> w_slots (snd (Timeslot_post vt i (ev, w))) j = w_slots w j"
    "env_of (snd (Timeslot_post vt i (ev, w))) = env_of w"
    using c slots_ok_eq [OF eq1] by (simp_all add: Timeslot_post_def r call_ok_def)
qed

text \<open>The timer thread calls \<open>expire\<close> with the mutex held, and finds it released.\<close>

lemma expire_ok:
  assumes ok: "slots_ok w" and i: "i < w_ts_count w"
  shows "slots_ok (Timeslot_expire vt i w)" "w_ts_count (Timeslot_expire vt i w) = w_ts_count w"
    "w_fault (Timeslot_expire vt i w) = w_fault w"
    "mutex_depth j (w_trace (Timeslot_expire vt i w)) = mutex_depth j (w_trace w) - (if j = i then 1 else 0)"
    "env_of (Timeslot_expire vt i w) = env_of w"
    "j \<noteq> i \<Longrightarrow> w_slots (Timeslot_expire vt i w) j = w_slots w j"
proof -
  let ?r = "if ts_expires (w_slots w i) = Some 0 then run_handler vt i (EvTIMEOUT, w) else (EvTIMEOUT, w)"
  obtain ev1 w1 where r: "?r = (ev1, w1)" by (rule prod.exhaust)
  have s: "shutdown_safe EvTIMEOUT h" for h by (simp add: shutdown_safe_def)
  have "call_ok i w ?r"
    using method_okD [OF handler_ok ok i s] call_ok_keep [OF ok, of EvTIMEOUT] by simp
  then have c: "call_ok i w (ev1, w1)" by (simp only: r)
  let ?w2 = "upd_slot i (\<lambda>s. s\<lparr>ts_expires := None\<rparr>) w1"
  have q: "slots_eq w1 ?w2" "slots_eq w1 (emit (MutexUnlock i) ?w2)" by (simp_all add: slots_eq_def)
  have e: "Timeslot_expire vt i w = (if ev1 \<noteq> EvRELEASE then emit (MutexUnlock i) ?w2 else ?w2)"
    unfolding Timeslot_expire_def r Let_def by simp
  show "slots_ok (Timeslot_expire vt i w)" "w_ts_count (Timeslot_expire vt i w) = w_ts_count w"
    "w_fault (Timeslot_expire vt i w) = w_fault w"
    "mutex_depth j (w_trace (Timeslot_expire vt i w)) = mutex_depth j (w_trace w) - (if j = i then 1 else 0)"
    "env_of (Timeslot_expire vt i w) = env_of w"
    "j \<noteq> i \<Longrightarrow> w_slots (Timeslot_expire vt i w) j = w_slots w j"
    unfolding e using c slots_ok_eq [OF q(1)] slots_ok_eq [OF q(2)] by (simp_all add: call_ok_def)
qed

end

text \<open>Events posted one after another, as a machine over the world.\<close>

definition post_event :: "vtable \<Rightarrow> world \<Rightarrow> nat \<times> event_id \<Rightarrow> world" where
  "post_event vt w x = snd (Timeslot_post vt (fst x) (snd x, w))"

definition post_guard :: "world \<Rightarrow> nat \<times> event_id \<Rightarrow> bool" where
  "post_guard w x \<longleftrightarrow> fst x < w_ts_count w \<and> shutdown_safe (snd x) (ts_handler (w_slots w (fst x)))"

sublocale slot_driver < events: machine "post_event vt" post_guard slots_ok
  by unfold_locales (simp add: post_event_def post_guard_def post_ok)

end
