(* ===== verification/TimeslotProps.thy ===== *)
theory TimeslotProps
  imports TimeslotLaws
begin

text \<open>
  Properties of the timeslots of the base class: construction, assignment and lookup, release,
  ranges, and the life of a timeslot as an abstract automaton that the handlers refine. What the
  SIP driver adds is in the theory \<open>SipTimeslot\<close>.
\<close>

section \<open>Call ids\<close>

lemma ts_path_nonneg: "0 \<le> cid \<Longrightarrow> ts_path cid = nat (cid mod 177)"
proof -
  assume c: "0 \<le> cid"
  have b: "0 \<le> cid mod 177" "cid mod 177 < 177" by simp_all
  have "ts_path cid = unat (word_of_int (cid mod 177) :: 32 word)"
    using c by (simp add: ts_path_def TIMESLOT_INDEX_SIZE_def signed_modulo_int_def sgn_if)
  also have "\<dots> = nat (cid mod 177)"
    using b by (simp add: unsigned_of_int take_bit_int_eq_self)
  finally show ?thesis .
qed

lemma ts_path_bound: "0 \<le> cid \<Longrightarrow> ts_path cid < TIMESLOT_INDEX_SIZE"
  by (simp add: ts_path_nonneg TIMESLOT_INDEX_SIZE_def nat_less_iff)

lemma ts_path_negative:
  assumes "cid < 0" and "\<not> 177 dvd cid"
  shows "TIMESLOT_INDEX_SIZE \<le> ts_path cid"
proof -
  let ?m = "(- cid) mod 177"
  have b: "0 \<le> ?m" "?m < 177" by simp_all
  have "?m \<noteq> 0" using assms(2) by (simp add: mod_eq_0_iff_dvd)
  with b have m: "0 < ?m" by simp
  have "ts_path cid = unat (word_of_int (- ?m) :: 32 word)"
    using assms(1) by (simp add: ts_path_def TIMESLOT_INDEX_SIZE_def signed_modulo_int_def sgn_if)
  also have "\<dots> = nat (take_bit 32 (- ?m))" by (simp add: unsigned_of_int del: of_int_minus)
  also have "take_bit 32 (- ?m) = 4294967296 - ?m"
    using b m by (simp add: take_bit_eq_mod zmod_zminus1_eq_if)
  finally have "ts_path cid = nat (4294967296 - ?m)" .
  with b show ?thesis by (simp add: TIMESLOT_INDEX_SIZE_def le_nat_iff)
qed

section \<open>Construction\<close>

text \<open>A driver creates its timeslots one after another, numbered from 0.\<close>

definition construct_all :: "ucommon \<Rightarrow> nat \<Rightarrow> world \<Rightarrow> world" where
  "construct_all u n w = foldl (\<lambda>w i. Timeslot_construct u i w) w [0..<n]"

lemma construct_all_simps [simp]:
  "construct_all u 0 w = w" "construct_all u (Suc n) w = Timeslot_construct u n (construct_all u n w)"
  by (simp_all add: construct_all_def)

lemma construct_all_effect:
  assumes "ucommon_ok u"
  shows "w_idle (construct_all u n w) = rev [0..<n] @ w_idle w \<and>
    w_assigned (construct_all u n w) = w_assigned w \<and> w_ts_count (construct_all u n w) = w_ts_count w \<and>
    w_fault (construct_all u n w) = w_fault w \<and> w_trace (construct_all u n w) = w_trace w \<and>
    (\<forall>i < n. ts_handler (w_slots (construct_all u n w) i) = IdleHandler \<and>
      mp_started (w_slots (construct_all u n w) i) = 0)"
  using assms
  by (induction n) (auto simp: Timeslot_construct_def construct_slot_def less_Suc_eq)

text \<open>
  A new server is consistent: after its timeslots are constructed all of them are idle, the
  idle list holds each of them once, and none is assigned to a call.
\<close>

theorem timeslots_constructed:
  assumes "ucommon_ok u" and "w_ts_count w = n" and "w_idle w = []" and "w_assigned w = (\<lambda>_. [])"
  shows "slots_ok (construct_all u n w) \<and> w_idle (construct_all u n w) = rev [0..<n]"
  using construct_all_effect [OF assms(1), of n w] assms(2-4)
  by (auto simp: slots_ok_def slots_inv_def slot_at_def)

theorem timeslots_constructed_witness:
  "slots_ok (construct_all ucommon_ref 3 (blank_world\<lparr>w_ts_count := 3\<rparr>))"
  using timeslots_constructed [of ucommon_ref "blank_world\<lparr>w_ts_count := 3\<rparr>" 3]
  by (simp add: blank_world_def)

text \<open>A server with idle timeslots only, for the witnesses.\<close>

definition fresh_world :: "nat \<Rightarrow> world" where
  "fresh_world n = construct_all ucommon_ref n (blank_world\<lparr>w_ts_count := n, w_clock := 1000\<rparr>)"

lemma construct_all_clock [simp]: "w_clock (construct_all u n w) = w_clock w"
  by (induction n) (simp_all add: Timeslot_construct_def)

lemma fresh_world_simps [simp]:
  "w_idle (fresh_world n) = rev [0..<n]" "w_ts_count (fresh_world n) = n"
  "w_fault (fresh_world n) = False" "w_trace (fresh_world n) = []" "slots_ok (fresh_world n)"
  "i < n \<Longrightarrow> ts_handler (w_slots (fresh_world n) i) = IdleHandler"
  "i < n \<Longrightarrow> mp_started (w_slots (fresh_world n) i) = 0"
  "w_assigned (fresh_world n) p = []" "w_clock (fresh_world n) = 1000"
  using construct_all_effect [OF ucommon_ref_ok, of n "blank_world\<lparr>w_ts_count := n, w_clock := 1000\<rparr>"]
  by (auto simp: fresh_world_def slots_ok_def slots_inv_def slot_at_def blank_world_def)

section \<open>Assignment and lookup\<close>

lemma assign_effect:
  assumes "slots_ok w" and "ts_path cid < TIMESLOT_INDEX_SIZE" and "allocator_ok P alloc" and "P reg"
    and "w_idle w = t # rest"
  shows "fst (Timeslot_assign alloc reg k cid w) = Some t"
    "snd (Timeslot_assign alloc reg k cid w) = emit ListCommit (alloc cid k reg t (emit ListModify w))"
    "allocated cid k reg t (emit ListModify w) (alloc cid k reg t (emit ListModify w))"
    "t < w_ts_count w" "ts_handler (w_slots w t) = IdleHandler"
proof -
  have t: "t < w_ts_count w \<and> ts_handler (w_slots w t) = IdleHandler"
    using slots_idle [OF assms(1), of t] assms(5) by simp
  have "slots_eq w (emit ListModify w)" by (simp add: slots_eq_def)
  from slots_ok_eq [OF this] assms(1) have "slots_ok (emit ListModify w)" by simp
  from allocator_okD [OF assms(3) this, of t cid reg k] t assms
  show "allocated cid k reg t (emit ListModify w) (alloc cid k reg t (emit ListModify w))" by simp
  show "fst (Timeslot_assign alloc reg k cid w) = Some t"
    "snd (Timeslot_assign alloc reg k cid w) = emit ListCommit (alloc cid k reg t (emit ListModify w))"
    "t < w_ts_count w" "ts_handler (w_slots w t) = IdleHandler"
    using t assms(5) by (simp_all add: Timeslot_assign_def Let_def)
qed

lemma assign_ok:
  assumes "slots_ok w" and "ts_path cid < TIMESLOT_INDEX_SIZE" and "allocator_ok P alloc" and "P reg"
    and "w_clock w \<noteq> 0"
  shows "slots_ok (snd (Timeslot_assign alloc reg k cid w))"
proof (cases "w_idle w")
  case Nil
  have "slots_eq w (emit ListCommit (emit ListModify w))" by (simp add: slots_eq_def)
  from slots_ok_eq [OF this] assms(1) Nil show ?thesis by (simp add: Timeslot_assign_def Let_def)
next
  case (Cons t rest)
  note e = assign_effect(1) [OF assms(1-4) Cons, of k] assign_effect(2) [OF assms(1-4) Cons, of k]
    assign_effect(3) [OF assms(1-4) Cons, of k] assign_effect(4,5) [OF assms(1-4) Cons]
  have "slots_eq w (emit ListModify w)" by (simp add: slots_eq_def)
  from slots_ok_eq [OF this] assms(1) have m: "slots_ok (emit ListModify w)" by simp
  from allocated_slots_ok [OF e(3) m] e(4,5) assms(2,5)
  have o: "slots_ok (alloc cid k reg t (emit ListModify w))" by simp
  have "slots_eq v (emit ListCommit v)" for v by (simp add: slots_eq_def)
  from slots_ok_eq [OF this] o show ?thesis by (simp add: e(2))
qed

lemma get_result:
  "fst (Timeslot_get cid w) =
     (if ts_path cid < TIMESLOT_INDEX_SIZE then find_cid (w_slots w) cid (w_assigned w (ts_path cid)) else None)"
  by (simp add: Timeslot_get_def Let_def)

lemma find_cid_Some: "find_cid sl cid l = Some t \<Longrightarrow> t \<in> set l \<and> ts_cid (sl t) = cid \<and> mp_started (sl t) \<noteq> 0"
  by (induction l) (auto split: if_splits)

text \<open>
  C18. A call that is assigned is found under its id: on a consistent server \<open>assign\<close> hands out
  the timeslot at the head of the idle list, \<open>get\<close> with the same id then returns that
  timeslot, and the server is consistent again. Only where no timeslot is idle does
  \<open>assign\<close> return nothing, and then nothing has changed but for the lock taken.
\<close>

theorem timeslot_assign_get:
  assumes "ucommon_ok u" and "slots_ok w" and "ts_path cid < TIMESLOT_INDEX_SIZE" and "w_clock w \<noteq> 0"
  shows "case Timeslot_assign (Timeslot_allocate u) reg k cid w of
      (Some t, w') \<Rightarrow> w_idle w \<noteq> [] \<and> t = hd (w_idle w) \<and> fst (Timeslot_get cid w') = Some t \<and>
        slots_ok w' \<and> t \<notin> set (w_idle w') \<and> ts_registry (w_slots w' t) = reg
    | (None, w') \<Rightarrow> w_idle w = [] \<and> w' = emit ListCommit (emit ListModify w)"
proof (cases "w_idle w")
  case Nil
  then show ?thesis by (simp add: Timeslot_assign_def Let_def)
next
  case (Cons t rest)
  have al: "allocator_ok (\<lambda>_. True) (Timeslot_allocate u)" by (rule allocate_allocated [OF assms(1)])
  note e = assign_effect(1-3) [where P = "\<lambda>_. True" and reg = reg and k = k, OF assms(2,3) al TrueI Cons]
  obtain w' where r: "Timeslot_assign (Timeslot_allocate u) reg k cid w = (Some t, w')"
    using e(1) by (metis prod.collapse)
  have ok: "slots_ok w'" using assign_ok [OF assms(2,3) al TrueI assms(4), of reg k] r by simp
  have w': "w' = emit ListCommit (Timeslot_allocate u cid k reg t (emit ListModify w))" using e(2) r by simp
  have "w_idle w' = remove1 t (w_idle w)" "w_assigned w' (ts_path cid) = t # w_assigned w (ts_path cid)"
    "ts_cid (w_slots w' t) = cid" "mp_started (w_slots w' t) = w_clock w" "ts_registry (w_slots w' t) = reg"
    using e(3) by (simp_all add: w' allocated_def)
  with r ok Cons assms(3,4) slots_distinct(1) [OF assms(2)] show ?thesis by (simp add: get_result)
qed

theorem timeslot_assign_get_witness:
  "fst (Timeslot_get 5 (snd (Timeslot_assign (Timeslot_allocate ucommon_ref) None INCOMING 5 (fresh_world 2)))) = Some 1"
proof -
  have p: "ts_path 5 < TIMESLOT_INDEX_SIZE" by (rule ts_path_bound) simp
  show ?thesis
    using timeslot_assign_get [OF ucommon_ref_ok _ p, of "fresh_world 2" None INCOMING]
    by (auto simp: upt_rec split: prod.splits option.splits)
qed

text \<open>
  A call id that is not negative selects one of the 177 buckets. A negative one that is not a
  multiple of 177 is converted to an unsigned number past all of them: looking it up reads
  outside the index and finds nothing in it.
\<close>

theorem timeslot_get_index:
  "(0 \<le> cid \<longrightarrow> ts_path cid < TIMESLOT_INDEX_SIZE \<and> w_fault (snd (Timeslot_get cid w)) = w_fault w) \<and>
   (cid < 0 \<and> \<not> 177 dvd cid \<longrightarrow> TIMESLOT_INDEX_SIZE \<le> ts_path cid \<and> w_fault (snd (Timeslot_get cid w)))"
  using ts_path_bound [of cid] ts_path_negative [of cid] by (auto simp: Timeslot_get_def Let_def)

theorem timeslot_get_index_witness:
  "ts_path 180 < TIMESLOT_INDEX_SIZE \<and> w_fault (snd (Timeslot_get (- 1) blank_world))"
proof -
  have "ts_path 180 < TIMESLOT_INDEX_SIZE" using timeslot_get_index [of 180 blank_world] by simp
  moreover have "w_fault (snd (Timeslot_get (- 1) blank_world))" using timeslot_get_index [of "- 1" blank_world] by simp
  ultimately show ?thesis ..
qed

lemma allocate_trace: "w_trace (Timeslot_allocate u cid k reg i w) = w_trace w"
  by (simp add: Timeslot_allocate_def Let_def enlist_assigned_def)

lemma idle_timer: "slot_timer ucommon_ref (\<lambda>i w. w)"
  by (simp add: slot_timer_def)

definition busy_world :: world where
  "busy_world = snd (Timeslot_assign (Timeslot_allocate ucommon_ref) None INCOMING 5 (fresh_world 2))"

lemma busy_world_simps [simp]:
  "slots_ok busy_world" "w_ts_count busy_world = 2"
  "ts_handler (w_slots busy_world (Suc 0)) = ReleaseHandler" "w_trace busy_world = [ListModify, ListCommit]"
  "w_fault busy_world = False" "env_of busy_world = env_of (fresh_world 2)"
proof -
  have p: "ts_path 5 < TIMESLOT_INDEX_SIZE" by (rule ts_path_bound) simp
  have al: "allocator_ok (\<lambda>_. True) (Timeslot_allocate ucommon_ref)" by (rule allocate_allocated) simp
  have i: "w_idle (fresh_world 2) = 1 # [0]" by (simp add: upt_rec)
  note e = assign_effect(2,3) [where P = "\<lambda>_. True" and reg = None and k = INCOMING,
      OF fresh_world_simps(5) p al TrueI i]
  note ok = assign_ok [where P = "\<lambda>_. True" and reg = None and k = INCOMING,
      OF fresh_world_simps(5) p al TrueI]
  show "slots_ok busy_world" unfolding busy_world_def by (rule ok) simp
  show "w_ts_count busy_world = 2" "ts_handler (w_slots busy_world (Suc 0)) = ReleaseHandler"
    "w_trace busy_world = [ListModify, ListCommit]" "w_fault busy_world = False"
    "env_of busy_world = env_of (fresh_world 2)"
    using e by (simp_all add: busy_world_def allocated_def allocate_trace)
qed

text \<open>
  C19. The end of a call frees its timeslot: \<open>release\<close> answers \<open>RELEASE\<close>, puts the
  timeslot at the head of the idle list so that the next call gets it, makes it unfindable under its call id, releases
  the mutex once and leaves a consistent server.
\<close>

theorem timeslot_release_frees:
  assumes "slot_timer u disarm" and "slots_ok w" and "i < w_ts_count w"
    and "in_call (ts_handler (w_slots w i))"
  shows "case Timeslot_release u disarm i (ev, w) of (ev', w') \<Rightarrow>
    ev' = EvRELEASE \<and> slots_ok w' \<and> hd (w_idle w') = i \<and> fst (Timeslot_get (ts_cid (w_slots w i)) w') \<noteq> Some i \<and>
    ts_handler (w_slots w' i) = IdleHandler \<and> ts_registry (w_slots w' i) = None \<and>
    mutex_depth i (w_trace w') = mutex_depth i (w_trace w) - 1"
proof -
  obtain ev' w' where r: "Timeslot_release u disarm i (ev, w) = (ev', w')" by (rule prod.exhaust)
  note p = slots_path [OF assms(2-4)]
  note e = slot_timer.release_effect [OF assms(1) r p]
  have "call_ok i w (ev', w')"
    using method_okD [OF slot_timer.release_ok [OF assms(1)] assms(2-4), of ev] r by simp
  then have ok: "slots_ok w'" by (simp add: call_ok_def)
  have "fst (Timeslot_get (ts_cid (w_slots w i)) w') \<noteq> Some i"
    using e(7) [of i] find_cid_Some [of "w_slots w'" "ts_cid (w_slots w i)" _ i] by (auto simp: get_result)
  with ok e(1,2,10) e(6) [of i] e(11) [of i] show ?thesis by (simp add: r)
qed

theorem timeslot_release_frees_witness:
  "fst (Timeslot_release ucommon_ref (\<lambda>i w. w) 1 (EvRELEASE,
     busy_world)) = EvRELEASE"
  using timeslot_release_frees [OF idle_timer busy_world_simps(1), of 1 EvRELEASE]
  by (simp split: prod.splits)

section \<open>Ranges\<close>

text \<open>
  The range assignments hand out the first timeslot of the range that is neither in a call nor
  off line, and none when the range holds no such timeslot; both cases come to an end as long as
  the range does not end with the largest unsigned number.
\<close>

theorem timeslot_range_first_free:
  assumes "unat ending < 2 ^ 32 - 1"
  shows "case Timeslot_assign_range_cid alloc k starting ending cid w of
      None \<Rightarrow> False
    | Some (Some t, w') \<Rightarrow> unat starting \<le> t \<and> t \<le> unat ending \<and> slot_free w t \<and>
        (\<forall>q. unat starting \<le> q \<and> q < t \<longrightarrow> \<not> slot_free w q) \<and>
        w' = emit ListCommit (alloc cid k None t (emit ListCommit w))
    | Some (None, w') \<Rightarrow> (\<forall>q. unat starting \<le> q \<and> q \<le> unat ending \<longrightarrow> \<not> slot_free w q) \<and>
        w' = emit ListCommit (emit ListCommit w)"
proof -
  have f: "slot_free (emit ListCommit w) = slot_free w" by (simp add: slot_free_def fun_eq_iff)
  show ?thesis
    using assign_scan_first [OF assms, where w = "emit ListCommit w" and pos = starting]
    by (auto simp: Timeslot_assign_range_cid_def Let_def f word_le_nat_alt split: option.splits)
qed

theorem timeslot_range_first_free_witness:
  "\<exists>w'. Timeslot_assign_range_cid (Timeslot_allocate ucommon_ref) INCOMING 1 1 9 (fresh_world 3) = Some (Some 1, w')"
  using timeslot_range_first_free [where ending = 1 and alloc = "Timeslot_allocate ucommon_ref" and k = INCOMING
      and starting = 1 and cid = 9 and w = "fresh_world 3"]
  by (auto simp: slot_free_def split: option.splits prod.splits)

text \<open>
  A range that ends with the largest unsigned number and holds no free timeslot is never
  given up: the position wraps around and the search goes on for ever.
\<close>

theorem timeslot_range_diverges:
  assumes "\<And>t. \<not> slot_free w t"
  shows "Timeslot_assign_range_cid alloc k starting (- 1) cid w = None"
proof -
  have "\<not> slot_free (emit ListCommit w) t" for t using assms [of t] by (simp add: slot_free_def)
  from assign_scan_full_range [OF this] show ?thesis by (simp add: Timeslot_assign_range_cid_def)
qed

theorem timeslot_range_diverges_witness:
  "Timeslot_assign_range_cid (Timeslot_allocate ucommon_ref) INCOMING 0 (- 1) 9 (fresh_world 0) = None"
  by (rule timeslot_range_diverges) (simp add: slot_free_def)

text \<open>
  The two range assignments change the lists without the lock that protects them: with an
  allocation that takes no lock of its own, as the one of the base class, they only ever commit the
  lock, at the beginning and at the end, and never request the modification.
\<close>

theorem timeslot_range_unlocked:
  assumes "Timeslot_assign_range (Timeslot_allocate u) k starting ending w = Some (Some t, w')"
  shows "w_trace w' = w_trace w @ [ListCommit, ListCommit]"
  using assms
  by (auto simp: Timeslot_assign_range_def Let_def allocate_trace split: option.splits)

theorem timeslot_range_unlocked_witness:
  "w_trace (snd (the (Timeslot_assign_range (Timeslot_allocate ucommon_ref) INCOMING 0 0 (fresh_world 1))))
     = [ListCommit, ListCommit]"
proof -
  obtain w' where "Timeslot_assign_range (Timeslot_allocate ucommon_ref) INCOMING 0 0 (fresh_world 1) = Some (Some 0, w')"
    by (simp add: Timeslot_assign_range_def assign_scan_step slot_free_def Let_def)
  from timeslot_range_unlocked [OF this] this show ?thesis by simp
qed

section \<open>The life of a timeslot\<close>

text \<open>The base class with a driver's timer functions and the script engine's \<open>step\<close>.\<close>

definition base_vtable ::
    "ucommon \<Rightarrow> (nat \<Rightarrow> nat \<Rightarrow> world \<Rightarrow> world) \<Rightarrow> (nat \<Rightarrow> world \<Rightarrow> world) \<Rightarrow> (nat \<Rightarrow> world \<Rightarrow> bool) \<Rightarrow> vtable" where
  "base_vtable u arm disarm step = \<lparr>v_shutdown = Timeslot_shutdown u disarm,
     v_release = Timeslot_release u disarm, v_disconnect = Timeslot_disconnect u,
     v_hangup = Timeslot_hangup u,
     v_disable = Timeslot_disable u (Timeslot_hangup u) (Timeslot_release u disarm) disarm,
     v_enable = Timeslot_enable u disarm, v_running = Timeslot_running, v_arm = arm, v_disarm = disarm,
     v_step = step\<rparr>"

lemma base_vtable_simps [simp]:
  "v_shutdown (base_vtable u arm disarm step) = Timeslot_shutdown u disarm"
  "v_release (base_vtable u arm disarm step) = Timeslot_release u disarm"
  "v_disconnect (base_vtable u arm disarm step) = Timeslot_disconnect u"
  "v_hangup (base_vtable u arm disarm step) = Timeslot_hangup u"
  "v_disable (base_vtable u arm disarm step) =
     Timeslot_disable u (Timeslot_hangup u) (Timeslot_release u disarm) disarm"
  "v_enable (base_vtable u arm disarm step) = Timeslot_enable u disarm"
  "v_running (base_vtable u arm disarm step) = Timeslot_running"
  "v_arm (base_vtable u arm disarm step) = arm" "v_disarm (base_vtable u arm disarm step) = disarm"
  "v_step (base_vtable u arm disarm step) = step"
  by (simp_all add: base_vtable_def)

text \<open>
  The abstract automaton: a timeslot is free, busy with a call, or off line. A call leaves it by a
  release or a timeout, the operator takes it off line and brings it back; everything else
  is refused or keeps it where it is.
\<close>

datatype phase = Free | Busy | Off

fun phase_of :: "handler \<Rightarrow> phase" where
  "phase_of IdleHandler = Free"
| "phase_of ReleaseHandler = Busy"
| "phase_of ScriptHandler = Busy"
| "phase_of OfflineHandler = Off"

inductive phase_step :: "phase \<Rightarrow> event_id \<Rightarrow> phase \<Rightarrow> bool" where
  step_disable: "p \<noteq> Off \<Longrightarrow> phase_step p EvDISABLE Off"
| step_enable: "phase_step Off EvENABLE Free"
| step_release: "phase_step Busy EvRELEASE Free"
| step_timeout: "phase_step Busy EvTIMEOUT Free"
| step_shutdown: "phase_step p EvSHUTDOWN Free"
| step_stay: "\<not> (ev = EvDISABLE \<and> p \<noteq> Off) \<Longrightarrow> \<not> (ev = EvENABLE \<and> p = Off) \<Longrightarrow>
    \<not> (ev = EvRELEASE \<and> p = Busy) \<Longrightarrow> phase_step p ev p"

inductive_cases phase_from_off: "phase_step Off ev p"

inductive_cases phase_from_free: "phase_step Free ev p"

inductive_simps phase_to_busy: "phase_step p ev Busy"

inductive phase_run :: "phase \<Rightarrow> event_id list \<Rightarrow> phase \<Rightarrow> bool" where
  run_nil: "phase_run p [] p"
| run_cons: "phase_step p ev q \<Longrightarrow> phase_run q evs r \<Longrightarrow> phase_run p (ev # evs) r"

text \<open>What no event sequence can do: start a call.\<close>

lemma phase_step_no_call: "phase_step p ev q \<Longrightarrow> p \<noteq> Busy \<Longrightarrow> q \<noteq> Busy"
  by (auto simp: phase_to_busy)

lemma phase_run_no_call: "phase_run p evs q \<Longrightarrow> p \<noteq> Busy \<Longrightarrow> q \<noteq> Busy"
  by (induction rule: phase_run.induct) (auto dest: phase_step_no_call)

lemma phase_run_off: "phase_run p evs q \<Longrightarrow> p = Off \<Longrightarrow> EvENABLE \<notin> set evs \<Longrightarrow> EvSHUTDOWN \<notin> set evs \<Longrightarrow> q = Off"
  by (induction rule: phase_run.induct) (auto elim: phase_from_off)

lemma disable_handler:
  "ts_handler (w_slots (snd (Timeslot_disable u hangup release disarm i (ev, w))) i) = OfflineHandler"
  by (simp add: Timeslot_disable_def go_offline_def Let_def)

text \<open>Each handler of the base class, seen through \<open>phase_of\<close>.\<close>

context slot_timer
begin

abbreviation phase_after :: "nat \<Rightarrow> event_id \<times> world \<Rightarrow> phase" where
  "phase_after i r \<equiv> phase_of (ts_handler (w_slots (snd r) i))"

lemma release_phase:
  assumes "slots_ok w" "i < w_ts_count w" "in_call (ts_handler (w_slots w i))"
  shows "phase_after i (Timeslot_release u disarm i (ev, w)) = Free"
proof -
  obtain ev' w' where r: "Timeslot_release u disarm i (ev, w) = (ev', w')" by (rule prod.exhaust)
  from release_effect(6) [OF r slots_path [OF assms], of i] show ?thesis by (simp add: r)
qed

lemma disconnect_phase: "phase_after i (Timeslot_disconnect u i (ev, w)) = Busy"
  by (simp add: Timeslot_disconnect_def)

lemma shutdown_phase: "phase_after i (Timeslot_shutdown u disarm i (ev, w)) = Free"
  by (simp add: Timeslot_shutdown_def setIdle_effect)

lemma enable_phase: "phase_after i (Timeslot_enable u disarm i (ev, w)) = Free"
  by (simp add: Timeslot_enable_def Let_def setIdle_effect)

lemmas phase_facts = release_phase disconnect_phase shutdown_phase enable_phase disable_handler
  Timeslot_running_def Timeslot_hangup_def phase_step.intros

lemma handler_phase:
  assumes "slots_ok w" "i < w_ts_count w" and "\<And>i t w. quiet i w (arm i t w)"
  shows "phase_step (phase_of (ts_handler (w_slots w i))) ev
    (phase_after i (run_handler (base_vtable u arm disarm step) i (ev, w)))"
proof (cases "ts_handler (w_slots w i)")
  case IdleHandler
  then show ?thesis
    by (cases ev) (simp_all add: run_handler_def Timeslot_idleHandler_def phase_facts)
next
  case ReleaseHandler
  then show ?thesis using assms(1,2)
    by (cases ev) (simp_all add: run_handler_def Timeslot_releaseHandler_def phase_facts)
next
  case ScriptHandler
  then show ?thesis using assms(1,2) quietD(5) [OF assms(3)]
    by (cases ev) (simp_all add: run_handler_def Timeslot_scriptHandler_def phase_facts)
next
  case OfflineHandler
  then show ?thesis
    by (cases ev) (simp_all add: run_handler_def Timeslot_offlineHandler_def phase_facts)
qed

lemma post_phase:
  assumes "slots_ok w" "i < w_ts_count w" and "\<And>i t w. quiet i w (arm i t w)"
  shows "phase_step (phase_of (ts_handler (w_slots w i))) ev
    (phase_after i (Timeslot_post (base_vtable u arm disarm step) i (ev, w)))"
proof -
  have "slots_eq w (emit (MutexLock i) w)" by (simp add: slots_eq_def)
  from slots_ok_eq [OF this] assms have "slots_ok (emit (MutexLock i) w)" by simp
  from handler_phase [OF this, where i = i and arm = arm and ev = ev and step = step] assms show ?thesis
    by (auto simp: Timeslot_post_def split: prod.split)
qed

end

text \<open>
  C9. The handlers refine the automaton: whatever event is posted to a timeslot of a consistent
  server, its phase changes as the automaton allows. So no event makes a timeslot busy that was
  not: only an assignment begins a call.
\<close>

theorem timeslot_refines_phases:
  assumes "slot_timer u disarm" and "\<And>i t w. quiet i w (arm i t w)" and "slots_ok w" and "i < w_ts_count w"
  shows "phase_step (phase_of (ts_handler (w_slots w i))) ev
      (phase_of (ts_handler (w_slots (snd (Timeslot_post (base_vtable u arm disarm step) i (ev, w))) i))) \<and>
    (phase_of (ts_handler (w_slots w i)) \<noteq> Busy \<longrightarrow>
      phase_of (ts_handler (w_slots (snd (Timeslot_post (base_vtable u arm disarm step) i (ev, w))) i)) \<noteq> Busy)"
proof -
  note p = slot_timer.post_phase [OF assms(1,3,4,2), where ev = ev and step = step]
  from p phase_step_no_call [OF p] show ?thesis by (intro conjI impI)
qed

theorem timeslot_refines_phases_witness:
  "phase_step Free EvDISABLE (phase_of (ts_handler (w_slots (snd (Timeslot_post
     (base_vtable ucommon_ref (\<lambda>i t w. w) (\<lambda>i w. w) (\<lambda>i w. True)) 0 (EvDISABLE, fresh_world 1))) 0)))"
  using timeslot_refines_phases [OF idle_timer, where arm = "\<lambda>i t w. w" and w = "fresh_world 1" and i = 0
      and ev = EvDISABLE and step = "\<lambda>i w. True"]
  by simp

lemma offline_refuses:
  assumes "ts_handler (w_slots w i) = OfflineHandler" and "ev \<noteq> EvENABLE" and "ev \<noteq> EvSHUTDOWN"
  shows "Timeslot_post vt i (ev, w) = (EvREJECT, emit (MutexUnlock i) (emit (MutexLock i) w))"
  using assms
  by (cases ev) (simp_all add: Timeslot_post_def run_handler_def Timeslot_offlineHandler_def)

text \<open>
  An off line timeslot stays off line: any sequence of events without \<open>ENABLE\<close> and
  \<open>SHUTDOWN\<close>, posted one after another, is refused event by event and leaves nothing
  behind but the mutex taken and released.
\<close>

theorem timeslot_offline_stays:
  assumes "ts_handler (w_slots w i) = OfflineHandler" and "EvENABLE \<notin> set evs" and "EvSHUTDOWN \<notin> set evs"
  shows "run_ops (post_event vt) w (map (\<lambda>ev. (i, ev)) evs) =
    w\<lparr>w_trace := w_trace w @ concat (replicate (length evs) [MutexLock i, MutexUnlock i])\<rparr>"
  using assms
proof (induction evs arbitrary: w)
  case (Cons ev evs)
  then have "post_event vt w (i, ev) = emit (MutexUnlock i) (emit (MutexLock i) w)"
    by (auto simp: post_event_def offline_refuses)
  with Cons show ?case by (simp add: emit_def)
qed simp

theorem timeslot_offline_stays_witness:
  "w_idle (run_ops (post_event (base_vtable ucommon_ref (\<lambda>i t w. w) (\<lambda>i w. w) (\<lambda>i w. True)))
     (upd_slot 0 (\<lambda>s. s\<lparr>ts_handler := OfflineHandler\<rparr>) (blank_world\<lparr>w_idle := [7]\<rparr>))
     (map (\<lambda>ev. (0, ev)) [EvDROP, EvRELEASE, EvTIMEOUT])) = [7]"
  using timeslot_offline_stays [where i = 0 and evs = "[EvDROP, EvRELEASE, EvTIMEOUT]"
      and w = "upd_slot 0 (\<lambda>s. s\<lparr>ts_handler := OfflineHandler\<rparr>) (blank_world\<lparr>w_idle := [7]\<rparr>)"
      and vt = "base_vtable ucommon_ref (\<lambda>i t w. w) (\<lambda>i w. w) (\<lambda>i w. True)"] by simp

text \<open>
  Taking a timeslot off line while it has a call releases its mutex twice: once in
  \<open>release\<close>, once more at the end of \<open>disable\<close>.
\<close>

theorem timeslot_disable_unlocks_twice:
  assumes "slot_timer u disarm" and "slots_ok w" and "i < w_ts_count w" and "in_call (ts_handler (w_slots w i))"
    and "ev \<noteq> EvRELEASE"
  shows "mutex_depth i (w_trace (snd (Timeslot_disable u (Timeslot_hangup u) (Timeslot_release u disarm) disarm i (ev, w))))
    = mutex_depth i (w_trace w) - 2"
  by (simp add: slot_timer.disable_hung_up [OF assms(1)] slot_timer.go_offline_effect(9) [OF assms(1)]
      slot_timer.hung_up_effect [OF assms(1-3) _ assms(5)] in_call_not_offline [OF assms(4)] assms(4))

theorem timeslot_disable_unlocks_twice_witness:
  "mutex_depth 1 (w_trace (snd (Timeslot_disable ucommon_ref (Timeslot_hangup ucommon_ref)
     (Timeslot_release ucommon_ref (\<lambda>i w. w)) (\<lambda>i w. w) 1 (EvDISABLE,
     busy_world)))) = - 2"
  using timeslot_disable_unlocks_twice [OF idle_timer busy_world_simps(1), of 1 EvDISABLE]
  by simp

end
