(* ===== verification/Segment.thy ===== *)
theory Segment
  imports TimeslotProps
begin

text \<open>
  Boards and spans: \<^verbatim>\<open>inc/bayonne/segment.h\<close>, \<^verbatim>\<open>common/segment.cpp\<close>.
  A segment is a range of timeslots that the operator suspends and resumes as a whole. The
  strings the operations return are \<open>Some\<close> error, \<open>NULL\<close> is \<open>None\<close>. Timeslot
  and span numbers are small enough that counting them up does not wrap.
\<close>

section \<open>Segments\<close>

datatype segref = BoardRef nat | SpanRef nat

fun seg_of :: "world \<Rightarrow> segref \<Rightarrow> segment" where
  "seg_of w (BoardRef b) = w_boards w b"
| "seg_of w (SpanRef s) = w_spans w s"

fun upd_seg :: "segref \<Rightarrow> (segment \<Rightarrow> segment) \<Rightarrow> world \<Rightarrow> world" where
  "upd_seg (BoardRef b) f w = w\<lparr>w_boards := (w_boards w)(b := f (w_boards w b))\<rparr>"
| "upd_seg (SpanRef s) f w = w\<lparr>w_spans := (w_spans w)(s := f (w_spans w s))\<rparr>"

definition Segment_construct :: "nat \<Rightarrow> segment \<Rightarrow> segment" where
  "Segment_construct sid s = s\<lparr>sg_instance := sid, sg_first := 0, sg_count := 0, sg_live := True,
     sg_description := ''none'', sg_script := None, sg_stats := None\<rparr>"

text \<open>
  The constructors take the next number of their kind; \<open>boards\<close> and \<open>spans\<close> are the
  counters of the file. A span takes its statistics node at once.
\<close>

definition Board_construct :: "nat \<Rightarrow> nat \<Rightarrow> world \<Rightarrow> nat \<times> world" where
  "Board_construct b boards w =
     (boards + 1, upd_seg (BoardRef b) (\<lambda>s. (Segment_construct boards s)\<lparr>sg_spans := 0\<rparr>) w)"

definition Span_construct :: "nat \<Rightarrow> nat \<Rightarrow> world \<Rightarrow> nat \<times> world" where
  "Span_construct p spans w =
     (let w1 = upd_seg (SpanRef p) (Segment_construct spans) w;
          cnt = map_option (\<lambda>k. of_nat (sg_count (w_spans w1 k))) (Driver_getSpan spans w1);
          (st, sta) = statmap_getSpan spans cnt (w_sta w1)
      in (spans + 1, upd_seg (SpanRef p) (\<lambda>s. s\<lparr>sg_stats := st\<rparr>) (w1\<lparr>w_sta := sta\<rparr>)))"

text \<open>
  \<open>Board::allocate\<close> gives every board that was constructed its statistics node. A board
  that the driver does not know of is a null pointer, and the code writes through it.
\<close>

definition Board_allocate1 :: "nat \<Rightarrow> world \<Rightarrow> world" where
  "Board_allocate1 index w =
     (let board = Driver_getBoard index w;
          cnt = map_option (\<lambda>b. of_nat (sg_count (w_boards w b))) board;
          (st, sta) = statmap_getBoard index cnt (w_sta w);
          w1 = w\<lparr>w_sta := sta\<rparr>
      in case board of None \<Rightarrow> w1\<lparr>w_fault := True\<rparr>
         | Some b \<Rightarrow> upd_seg (BoardRef b) (\<lambda>s. s\<lparr>sg_stats := st\<rparr>) w1)"

fun Board_allocate :: "nat \<Rightarrow> world \<Rightarrow> world" where
  "Board_allocate 0 w = w"
| "Board_allocate (Suc n) w = Board_allocate1 n (Board_allocate n w)"

text \<open>The loop over the timeslots of a segment: false where a timeslot refuses the event.\<close>

fun post_range :: "vtable \<Rightarrow> event_id \<Rightarrow> nat \<Rightarrow> nat \<Rightarrow> world \<Rightarrow> bool \<times> world" where
  "post_range vt ev 0 tsid w = (True, w)"
| "post_range vt ev (Suc tsc) tsid w =
     (case Driver_get tsid w of
        None \<Rightarrow> post_range vt ev tsc (tsid + 1) w
      | Some ts \<Rightarrow>
          (let (ev1, w1) = Timeslot_post vt ts (ev, w)
           in if ev1 = EvREJECT then (False, w1) else post_range vt ev tsc (tsid + 1) w1))"

definition Segment_suspend :: "vtable \<Rightarrow> segref \<Rightarrow> world \<Rightarrow> string option \<times> world" where
  "Segment_suspend vt r w =
     (let s = seg_of w r
      in if \<not> sg_live s then (Some ''already suspended'', w)
         else case post_range vt EvDISABLE (sg_count s) (sg_first s) w of
                (False, w1) \<Rightarrow> (Some ''cannot suspend'', w1)
              | (True, w1) \<Rightarrow> (None, upd_seg r (\<lambda>s. s\<lparr>sg_live := False\<rparr>) w1))"

definition Segment_resume :: "vtable \<Rightarrow> segref \<Rightarrow> world \<Rightarrow> string option \<times> world" where
  "Segment_resume vt r w =
     (let s = seg_of w r
      in if sg_live s then (Some ''already resumed'', w)
         else case post_range vt EvENABLE (sg_count s) (sg_first s) w of
                (False, w1) \<Rightarrow> (Some ''cannot resume'', w1)
              | (True, w1) \<Rightarrow> (None, upd_seg r (\<lambda>s. s\<lparr>sg_live := True\<rparr>) w1))"

text \<open>
  The loops of \<open>Board::suspend\<close> and \<open>Board::resume\<close> over the spans of the board. The
  result of the span's operation is a pointer to an error, null where it succeeded, and the
  code goes on as long as it is not null.
\<close>

fun span_range :: "(segref \<Rightarrow> world \<Rightarrow> string option \<times> world) \<Rightarrow> nat \<Rightarrow> nat \<Rightarrow> world \<Rightarrow> bool \<times> world" where
  "span_range op 0 spid w = (True, w)"
| "span_range op (Suc spc) spid w =
     (case Driver_getSpan spid w of
        None \<Rightarrow> span_range op spc (spid + 1) w
      | Some sp \<Rightarrow>
          (let (res, w1) = op (SpanRef sp) w
           in if res = None then (False, w1) else span_range op spc (spid + 1) w1))"

definition Board_suspend :: "vtable \<Rightarrow> nat \<Rightarrow> world \<Rightarrow> string option \<times> world" where
  "Board_suspend vt b w =
     (let s = w_boards w b
      in if \<not> sg_live s then (Some ''already suspended'', w)
         else if sg_spans s = 0 then Segment_suspend vt (BoardRef b) w
         else case span_range (Segment_suspend vt) (sg_spans s) (sg_first s) w of
                (False, w1) \<Rightarrow> (Some ''cannot suspend spans'', w1)
              | (True, w1) \<Rightarrow> (None, upd_seg (BoardRef b) (\<lambda>s. s\<lparr>sg_live := False\<rparr>) w1))"

definition Board_resume :: "vtable \<Rightarrow> nat \<Rightarrow> world \<Rightarrow> string option \<times> world" where
  "Board_resume vt b w =
     (let s = w_boards w b
      in if sg_live s then (Some ''already resumed'', w)
         else if sg_spans s = 0 then Segment_resume vt (BoardRef b) w
         else case span_range (Segment_resume vt) (sg_spans s) (sg_first s) w of
                (False, w1) \<Rightarrow> (Some ''cannot resume spans'', w1)
              | (True, w1) \<Rightarrow> (None, upd_seg (BoardRef b) (\<lambda>s. s\<lparr>sg_live := True\<rparr>) w1))"

fun hangup_range :: "vtable \<Rightarrow> nat \<Rightarrow> nat \<Rightarrow> world \<Rightarrow> world" where
  "hangup_range vt 0 tsid w = w"
| "hangup_range vt (Suc tsc) tsid w =
     (case Driver_get tsid w of
        None \<Rightarrow> hangup_range vt tsc (tsid + 1) w
      | Some ts \<Rightarrow> hangup_range vt tsc (tsid + 1) (snd (Timeslot_post vt ts (EvHANGUP, w))))"

definition Span_hangup :: "vtable \<Rightarrow> nat \<Rightarrow> world \<Rightarrow> world" where
  "Span_hangup vt s w = hangup_range vt (sg_count (w_spans w s)) (sg_first (w_spans w s)) w"

section \<open>Posting to a range\<close>

text \<open>
  What \<open>DISABLE\<close> and \<open>ENABLE\<close> do to a timeslot of the base class: the first takes it
  off line unless it is there already, the second brings back exactly an off line timeslot.
\<close>

lemma slots_ok_emit [simp]: "slots_ok (emit e w) \<longleftrightarrow> slots_ok w"
  by (simp add: slots_ok_def)

definition kept :: "nat \<Rightarrow> world \<Rightarrow> world \<Rightarrow> bool" where
  "kept i w w' \<longleftrightarrow> slots_ok w' \<and> w_ts_count w' = w_ts_count w \<and> env_of w' = env_of w \<and>
     (\<forall>j. j \<noteq> i \<longrightarrow> w_slots w' j = w_slots w j)"

lemma keptD:
  assumes "kept i w w'"
  shows "slots_ok w'" "w_ts_count w' = w_ts_count w" "w_clock w' = w_clock w" "w_boards w' = w_boards w"
    "w_spans w' = w_spans w" "j \<noteq> i \<Longrightarrow> w_slots w' j = w_slots w j"
  using assms by (simp_all add: kept_def env_of_def)

context slot_timer
begin

lemma disable_post:
  assumes ok: "slots_ok w" and i: "i < w_ts_count w" and clock: "w_clock w \<noteq> 0"
    and r: "Timeslot_post (base_vtable u arm disarm stp) i (EvDISABLE, w) = (ev, w')"
  shows "(ev = EvREJECT \<longleftrightarrow> ts_handler (w_slots w i) = OfflineHandler) \<and>
    ts_handler (w_slots w' i) = OfflineHandler \<and> kept i w w'"
proof (cases "ts_handler (w_slots w i) = OfflineHandler")
  case True
  with r ok show ?thesis by (auto simp: offline_refuses kept_def)
next
  case False
  let ?l = "emit (MutexLock i) w"
  have l: "slots_ok ?l" "i < w_ts_count ?l" "ts_handler (w_slots ?l i) \<noteq> OfflineHandler" "w_clock ?l \<noteq> 0"
    using ok i False clock by simp_all
  have "run_handler (base_vtable u arm disarm stp) i (EvDISABLE, ?l) =
      (EvRELEASE, go_offline u disarm i (hung_up EvDISABLE i ?l))"
    using False by (cases "ts_handler (w_slots w i)") (simp_all add: run_handler_def Timeslot_idleHandler_def
        Timeslot_releaseHandler_def Timeslot_scriptHandler_def disable_hung_up)
  then have "ev = EvRELEASE" "w' = go_offline u disarm i (hung_up EvDISABLE i ?l)"
    using r by (simp_all add: Timeslot_post_def)
  with False disable_slots [OF l(1-3) _ l(4), of EvDISABLE] hung_up_effect [OF l(1-3), of EvDISABLE]
  show ?thesis by (simp add: kept_def go_offline_effect)
qed

lemma enable_post:
  assumes ok: "slots_ok w" and i: "i < w_ts_count w"
    and r: "Timeslot_post (base_vtable u arm disarm stp) i (EvENABLE, w) = (ev, w')"
  shows "(ev = EvREJECT \<longleftrightarrow> ts_handler (w_slots w i) \<noteq> OfflineHandler) \<and>
    (ts_handler (w_slots w i) = OfflineHandler \<longrightarrow> ts_handler (w_slots w' i) = IdleHandler) \<and>
    (ts_handler (w_slots w i) \<noteq> OfflineHandler \<longrightarrow> w_slots w' = w_slots w) \<and> kept i w w'"
proof (cases "ts_handler (w_slots w i) = OfflineHandler")
  case True
  let ?l = "emit (MutexLock i) w"
  have l: "slots_ok ?l" "i < w_ts_count ?l" "ts_handler (w_slots ?l i) = OfflineHandler"
    using ok i True by simp_all
  have e: "(ev, w') = Timeslot_enable u disarm i (EvENABLE, ?l)"
    using r True by (auto simp: Timeslot_post_def run_handler_def Timeslot_offlineHandler_def
        Timeslot_enable_def Let_def)
  have "call_ok i ?l (ev, w')" using method_okD [OF enable_ok l(1,2), of EvENABLE] l(3) e by simp
  moreover have "ev = EvRELEASE" "ts_handler (w_slots w' i) = IdleHandler"
    using e by (simp_all add: Timeslot_enable_def Let_def setIdle_effect)
  ultimately show ?thesis using True by (simp add: call_ok_def kept_def)
next
  case False
  then have "run_handler (base_vtable u arm disarm stp) i (EvENABLE, emit (MutexLock i) w) =
      (EvREJECT, emit (MutexLock i) w)"
    by (cases "ts_handler (w_slots w i)") (simp_all add: run_handler_def Timeslot_idleHandler_def
        Timeslot_releaseHandler_def Timeslot_scriptHandler_def Timeslot_running_def)
  with r ok False show ?thesis by (auto simp: Timeslot_post_def kept_def)
qed

text \<open>A whole range, when no timeslot refuses: every timeslot of it that exists has changed over.\<close>

lemma disable_range:
  assumes "slots_ok w" and "w_clock w \<noteq> 0"
    and "post_range (base_vtable u arm disarm stp) EvDISABLE n first w = (True, w')"
  shows "slots_ok w' \<and> w_ts_count w' = w_ts_count w \<and> w_boards w' = w_boards w \<and> w_spans w' = w_spans w \<and>
    (\<forall>t. first \<le> t \<and> t < first + n \<and> t < w_ts_count w \<longrightarrow> ts_handler (w_slots w' t) = OfflineHandler) \<and>
    (\<forall>t. t < first \<or> first + n \<le> t \<longrightarrow> w_slots w' t = w_slots w t)"
  using assms
proof (induction n arbitrary: first w)
  case (Suc n)
  show ?case
  proof (cases "first < w_ts_count w")
    case False
    with Suc.prems have p: "post_range (base_vtable u arm disarm stp) EvDISABLE n (first + 1) w = (True, w')"
      by (simp add: Driver_get_def)
    from Suc.IH [OF Suc.prems(1,2) this] False show ?thesis by auto
  next
    case True
    obtain ev w1 where r: "Timeslot_post (base_vtable u arm disarm stp) first (EvDISABLE, w) = (ev, w1)"
      by (rule prod.exhaust)
    note dp = disable_post [OF Suc.prems(1) True Suc.prems(2) r]
    then have k: "kept first w w1" by simp
    from dp keptD [OF k]
    have d: "ts_handler (w_slots w1 first) = OfflineHandler" "slots_ok w1" "w_ts_count w1 = w_ts_count w"
      "w_clock w1 = w_clock w" "w_boards w1 = w_boards w" "w_spans w1 = w_spans w" "\<And>j. j \<noteq> first \<Longrightarrow> w_slots w1 j = w_slots w j" by simp_all
    from Suc.prems(3) True r
    have p: "post_range (base_vtable u arm disarm stp) EvDISABLE n (first + 1) w1 = (True, w')"
      by (simp add: Driver_get_def split: if_splits)
    have c: "w_clock w1 \<noteq> 0" using Suc.prems(2) d(4) by simp
    from Suc.IH [OF d(2) c p] d
    have ih: "slots_ok w'" "w_ts_count w' = w_ts_count w" "w_boards w' = w_boards w" "w_spans w' = w_spans w"
      "\<And>t. first + 1 \<le> t \<Longrightarrow> t < first + 1 + n \<Longrightarrow> t < w_ts_count w \<Longrightarrow> ts_handler (w_slots w' t) = OfflineHandler"
      "\<And>t. t < first + 1 \<or> first + 1 + n \<le> t \<Longrightarrow> w_slots w' t = w_slots w1 t" by auto
    have "ts_handler (w_slots w' t) = OfflineHandler"
      if "first \<le> t" "t < first + Suc n" "t < w_ts_count w" for t
      using that ih(5,6) d(1) by (cases "t = first") auto
    moreover have "w_slots w' t = w_slots w t" if "t < first \<or> first + Suc n \<le> t" for t
      using that ih(6) [of t] d(7) [of t] by auto
    ultimately show ?thesis using ih(1-4) by blast
  qed
qed auto

lemma disable_range_iff:
  assumes "slots_ok w" and "w_clock w \<noteq> 0"
  shows "fst (post_range (base_vtable u arm disarm stp) EvDISABLE n first w) \<longleftrightarrow>
      (\<forall>t. first \<le> t \<and> t < first + n \<and> t < w_ts_count w \<longrightarrow> ts_handler (w_slots w t) \<noteq> OfflineHandler)"
    and "w_boards (snd (post_range (base_vtable u arm disarm stp) EvDISABLE n first w)) = w_boards w"
    and "w_spans (snd (post_range (base_vtable u arm disarm stp) EvDISABLE n first w)) = w_spans w"
proof -
  have "(fst (post_range (base_vtable u arm disarm stp) EvDISABLE n first w) \<longleftrightarrow>
      (\<forall>t. first \<le> t \<and> t < first + n \<and> t < w_ts_count w \<longrightarrow> ts_handler (w_slots w t) \<noteq> OfflineHandler)) \<and>
    w_boards (snd (post_range (base_vtable u arm disarm stp) EvDISABLE n first w)) = w_boards w \<and>
    w_spans (snd (post_range (base_vtable u arm disarm stp) EvDISABLE n first w)) = w_spans w"
    using assms
  proof (induction n arbitrary: first w)
    case (Suc n)
    have step: "first \<le> t \<and> t < first + Suc n \<and> b \<longleftrightarrow>
        t = first \<and> b \<or> first + 1 \<le> t \<and> t < first + 1 + n \<and> b" for t b by auto
    show ?case
    proof (cases "first < w_ts_count w")
      case False
      with Suc.IH [OF Suc.prems, of "first + 1"] show ?thesis by (auto simp: Driver_get_def)
    next
      case True
      obtain ev w1 where r: "Timeslot_post (base_vtable u arm disarm stp) first (EvDISABLE, w) = (ev, w1)"
        by (rule prod.exhaust)
      note d = disable_post [OF Suc.prems(1) True Suc.prems(2) r]
      then have k: "kept first w w1" by simp
      note kd = keptD [OF k]
      show ?thesis
      proof (cases "ev = EvREJECT")
        case True
        with d kd r \<open>first < w_ts_count w\<close> show ?thesis by (auto simp: Driver_get_def)
      next
        case False
        have w1: "slots_ok w1" "w_clock w1 \<noteq> 0" using kd Suc.prems(2) by simp_all
        have eq: "post_range (base_vtable u arm disarm stp) EvDISABLE (Suc n) first w =
            post_range (base_vtable u arm disarm stp) EvDISABLE n (first + 1) w1"
          using r False \<open>first < w_ts_count w\<close> by (simp add: Driver_get_def)
        have same: "w_slots w1 t = w_slots w t" if "first + 1 \<le> t" for t using kd(6) that by simp
        have "w_ts_count w1 = w_ts_count w" "w_boards w1 = w_boards w" "w_spans w1 = w_spans w"
          using kd by simp_all
        with Suc.IH [OF w1, of "first + 1"] d False same show ?thesis
          unfolding eq step by auto
      qed
    qed
  qed auto
  then show "fst (post_range (base_vtable u arm disarm stp) EvDISABLE n first w) \<longleftrightarrow>
      (\<forall>t. first \<le> t \<and> t < first + n \<and> t < w_ts_count w \<longrightarrow> ts_handler (w_slots w t) \<noteq> OfflineHandler)"
    "w_boards (snd (post_range (base_vtable u arm disarm stp) EvDISABLE n first w)) = w_boards w"
    "w_spans (snd (post_range (base_vtable u arm disarm stp) EvDISABLE n first w)) = w_spans w"
    by simp_all
qed

lemma enable_range:
  assumes "slots_ok w"
    and "\<And>t. first \<le> t \<Longrightarrow> t < first + n \<Longrightarrow> t < w_ts_count w \<Longrightarrow> ts_handler (w_slots w t) = OfflineHandler"
  shows "\<exists>w'. post_range (base_vtable u arm disarm stp) EvENABLE n first w = (True, w') \<and>
    slots_ok w' \<and> w_ts_count w' = w_ts_count w \<and>
    (\<forall>t. first \<le> t \<and> t < first + n \<and> t < w_ts_count w \<longrightarrow> ts_handler (w_slots w' t) = IdleHandler) \<and>
    (\<forall>t. t < first \<or> first + n \<le> t \<longrightarrow> w_slots w' t = w_slots w t)"
  using assms
proof (induction n arbitrary: first w)
  case (Suc n)
  show ?case
  proof (cases "first < w_ts_count w")
    case False
    have "\<exists>w'. post_range (base_vtable u arm disarm stp) EvENABLE n (first + 1) w = (True, w') \<and>
      slots_ok w' \<and> w_ts_count w' = w_ts_count w \<and>
      (\<forall>t. first + 1 \<le> t \<and> t < first + 1 + n \<and> t < w_ts_count w \<longrightarrow> ts_handler (w_slots w' t) = IdleHandler) \<and>
      (\<forall>t. t < first + 1 \<or> first + 1 + n \<le> t \<longrightarrow> w_slots w' t = w_slots w t)"
      by (rule Suc.IH [OF Suc.prems(1)]) (use Suc.prems(2) in simp)
    with False show ?thesis by (auto simp: Driver_get_def)
  next
    case True
    obtain ev w1 where r: "Timeslot_post (base_vtable u arm disarm stp) first (EvENABLE, w) = (ev, w1)"
      by (rule prod.exhaust)
    have off: "ts_handler (w_slots w first) = OfflineHandler" using Suc.prems(2) [of first] True by simp
    note ep = enable_post [OF Suc.prems(1) True r]
    then have k: "kept first w w1" by simp
    from ep off keptD [OF k]
    have d: "ev \<noteq> EvREJECT" "ts_handler (w_slots w1 first) = IdleHandler" "slots_ok w1"
      "w_ts_count w1 = w_ts_count w" "\<And>j. j \<noteq> first \<Longrightarrow> w_slots w1 j = w_slots w j" by simp_all
    have "\<exists>w'. post_range (base_vtable u arm disarm stp) EvENABLE n (first + 1) w1 = (True, w') \<and>
      slots_ok w' \<and> w_ts_count w' = w_ts_count w1 \<and>
      (\<forall>t. first + 1 \<le> t \<and> t < first + 1 + n \<and> t < w_ts_count w1 \<longrightarrow> ts_handler (w_slots w' t) = IdleHandler) \<and>
      (\<forall>t. t < first + 1 \<or> first + 1 + n \<le> t \<longrightarrow> w_slots w' t = w_slots w1 t)"
      by (rule Suc.IH [OF d(3)]) (use Suc.prems(2) d(4,5) in simp)
    then obtain w' where p: "post_range (base_vtable u arm disarm stp) EvENABLE n (first + 1) w1 = (True, w')"
      and ih: "slots_ok w'" "w_ts_count w' = w_ts_count w"
      "\<And>t. first + 1 \<le> t \<Longrightarrow> t < first + 1 + n \<Longrightarrow> t < w_ts_count w \<Longrightarrow> ts_handler (w_slots w' t) = IdleHandler"
      "\<And>t. t < first + 1 \<or> first + 1 + n \<le> t \<Longrightarrow> w_slots w' t = w_slots w1 t" using d(4) by auto
    have "ts_handler (w_slots w' t) = IdleHandler"
      if "first \<le> t" "t < first + Suc n" "t < w_ts_count w" for t
      using that ih(3,4) d(2) by (cases "t = first") auto
    moreover have "w_slots w' t = w_slots w t" if "t < first \<or> first + Suc n \<le> t" for t
      using that ih(4) [of t] d(5) [of t] by auto
    moreover have "post_range (base_vtable u arm disarm stp) EvENABLE (Suc n) first w = (True, w')"
      using p r True d(1) by (simp add: Driver_get_def)
    ultimately show ?thesis using ih(1,2) by blast
  qed
qed auto

end

section \<open>Properties\<close>

lemma seg_of_upd [simp]: "seg_of (upd_seg r f w) r = f (seg_of w r)"
  by (cases r) simp_all

lemma upd_seg_frame [simp]:
  "w_slots (upd_seg r f w) = w_slots w" "w_ts_count (upd_seg r f w) = w_ts_count w"
  "w_idle (upd_seg r f w) = w_idle w" "w_assigned (upd_seg r f w) = w_assigned w"
  "w_clock (upd_seg r f w) = w_clock w" "w_trace (upd_seg r f w) = w_trace w"
  "w_fault (upd_seg r f w) = w_fault w" "slots_ok (upd_seg r f w) = slots_ok w"
  by (cases r, simp_all add: slots_ok_def)+

definition in_segment :: "segment \<Rightarrow> nat \<Rightarrow> bool" where
  "in_segment s t \<longleftrightarrow> sg_first s \<le> t \<and> t < sg_first s + sg_count s"

text \<open>
  Suspending a segment of base class timeslots either reports an error or leaves every
  timeslot of the segment off line and every other timeslot as it was; resuming it then
  succeeds, and all of its timeslots are idle again, on a consistent server.
\<close>

theorem segment_suspend_resume:
  assumes "slot_timer u disarm" and "slots_ok w" and "w_clock w \<noteq> 0"
    and "Segment_suspend (base_vtable u arm disarm stp) r w = (None, w1)"
  shows "(\<forall>t. in_segment (seg_of w r) t \<and> t < w_ts_count w \<longrightarrow> ts_handler (w_slots w1 t) = OfflineHandler) \<and>
    (\<forall>t. \<not> in_segment (seg_of w r) t \<longrightarrow> w_slots w1 t = w_slots w t) \<and>
    (\<exists>w2. Segment_resume (base_vtable u arm disarm stp) r w1 = (None, w2) \<and> slots_ok w2 \<and>
      (\<forall>t. in_segment (seg_of w r) t \<and> t < w_ts_count w \<longrightarrow> t \<in> set (w_idle w2)))"
proof -
  let ?vt = "base_vtable u arm disarm stp" and ?f = "sg_first (seg_of w r)" and ?n = "sg_count (seg_of w r)"
  obtain w' where p: "post_range ?vt EvDISABLE ?n ?f w = (True, w')"
    and w1: "w1 = upd_seg r (\<lambda>s. s\<lparr>sg_live := False\<rparr>) w'"
    using assms(4) by (auto simp: Segment_suspend_def Let_def split: if_splits prod.splits bool.splits)
  note d = slot_timer.disable_range [OF assms(1-3) p]
  have off: "ts_handler (w_slots w1 t) = OfflineHandler" if "in_segment (seg_of w r) t" "t < w_ts_count w" for t
    using d that by (simp add: w1 in_segment_def)
  have rest: "w_slots w1 t = w_slots w t" if "\<not> in_segment (seg_of w r) t" for t
    using d that by (auto simp: w1 in_segment_def)
  have ok: "slots_ok w1" and n: "w_ts_count w1 = w_ts_count w" using d by (simp_all add: w1)
  have all: "ts_handler (w_slots w1 t) = OfflineHandler" if "?f \<le> t" "t < ?f + ?n" "t < w_ts_count w1" for t
    using off [of t] that n by (simp add: in_segment_def)
  have "\<exists>w''. post_range ?vt EvENABLE ?n ?f w1 = (True, w'') \<and> slots_ok w'' \<and> w_ts_count w'' = w_ts_count w1 \<and>
      (\<forall>t. ?f \<le> t \<and> t < ?f + ?n \<and> t < w_ts_count w1 \<longrightarrow> ts_handler (w_slots w'' t) = IdleHandler) \<and>
      (\<forall>t. t < ?f \<or> ?f + ?n \<le> t \<longrightarrow> w_slots w'' t = w_slots w1 t)"
    by (rule slot_timer.enable_range [OF assms(1) ok]) (rule all)
  then obtain w'' where
    e: "post_range ?vt EvENABLE ?n ?f w1 = (True, w'')" "slots_ok w''" "w_ts_count w'' = w_ts_count w"
      "\<And>t. in_segment (seg_of w r) t \<Longrightarrow> t < w_ts_count w \<Longrightarrow> ts_handler (w_slots w'' t) = IdleHandler"
    using n by (auto simp: in_segment_def)
  have sg: "seg_of w' r = seg_of w r" using d by (cases r) simp_all
  have "Segment_resume ?vt r w1 = (None, upd_seg r (\<lambda>s. s\<lparr>sg_live := True\<rparr>) w'')"
    using e(1) by (simp add: Segment_resume_def w1 sg)
  moreover have "t \<in> set (w_idle w'')" if "in_segment (seg_of w r) t" "t < w_ts_count w" for t
    using slots_idle [OF e(2), of t] e(3) e(4) [OF that] that by simp
  ultimately show ?thesis using off rest e(2) by auto
qed

lemma suspend_iff:
  assumes "slot_timer u disarm" and "slots_ok w" and "w_clock w \<noteq> 0" and "sg_live (seg_of w r)"
  shows "fst (Segment_suspend (base_vtable u arm disarm stp) r w) =
    (if \<forall>t. in_segment (seg_of w r) t \<and> t < w_ts_count w \<longrightarrow> ts_handler (w_slots w t) \<noteq> OfflineHandler
     then None else Some ''cannot suspend'')"
  using slot_timer.disable_range_iff(1) [OF assms(1-3), where arm = arm and stp = stp and
      n = "sg_count (seg_of w r)" and first = "sg_first (seg_of w r)"] assms(4)
  by (auto simp: Segment_suspend_def Let_def in_segment_def split: prod.splits bool.splits)

text \<open>A span of two idle timeslots.\<close>

definition span_world :: world where
  "span_world = upd_seg (SpanRef 0) (\<lambda>s. s\<lparr>sg_live := True, sg_first := 0, sg_count := 2\<rparr>)
     ((fresh_world 2)\<lparr>w_span_count := 1\<rparr>)"

lemma fresh_world_spans [simp]: "w_spans (fresh_world n) = (\<lambda>_. blank_segment)"
proof -
  have "w_spans (construct_all u n w) = w_spans w" for u w
    by (induction n) (simp_all add: Timeslot_construct_def)
  then show ?thesis by (simp add: fresh_world_def blank_world_def)
qed

lemma span_world_simps [simp]:
  "w_spans span_world 0 = blank_segment\<lparr>sg_live := True, sg_first := 0, sg_count := 2\<rparr>"
  "w_ts_count span_world = 2" "w_clock span_world = 1000" "slots_ok span_world"
  "t < 2 \<Longrightarrow> ts_handler (w_slots span_world t) = IdleHandler" "w_span_count span_world = 1"
  using fresh_world_simps(5) [of 2] by (simp_all add: span_world_def slots_ok_def)

theorem segment_suspend_resume_witness:
  "map (\<lambda>t. ts_handler (w_slots (snd (Segment_suspend (base_vtable ucommon_ref (\<lambda>i t w. w) (\<lambda>i w. w) (\<lambda>i w. True))
     (SpanRef 0) span_world)) t)) [0, 1] = [OfflineHandler, OfflineHandler]"
proof -
  let ?vt = "base_vtable ucommon_ref (\<lambda>i t w. w) (\<lambda>i w. w) (\<lambda>i w. True)"
  have "fst (Segment_suspend ?vt (SpanRef 0) span_world) = None"
    by (subst suspend_iff [OF idle_timer]) (simp_all add: in_segment_def)
  then have "Segment_suspend ?vt (SpanRef 0) span_world = (None, snd (Segment_suspend ?vt (SpanRef 0) span_world))"
    by (metis prod.collapse)
  from segment_suspend_resume [OF idle_timer _ _ this] show ?thesis by (simp add: in_segment_def)
qed

text \<open>
  A segment is suspended exactly when none of its timeslots is off line. If one of them is,
  the operation fails, and the segment stays live: it cannot be resumed either, so a
  suspension that failed half way, or a single timeslot disabled before, blocks both
  operations until that timeslot is enabled by itself.
\<close>

theorem segment_suspend_blocked:
  assumes "slot_timer u disarm" and "slots_ok w" and "w_clock w \<noteq> 0" and "sg_live (seg_of w r)"
    and "in_segment (seg_of w r) t" and "t < w_ts_count w" and "ts_handler (w_slots w t) = OfflineHandler"
  shows "case Segment_suspend (base_vtable u arm disarm stp) r w of (res, w1) \<Rightarrow>
    res = Some ''cannot suspend'' \<and> sg_live (seg_of w1 r) \<and>
    Segment_resume (base_vtable u arm disarm stp) r w1 = (Some ''already resumed'', w1)"
proof -
  let ?vt = "base_vtable u arm disarm stp"
  let ?p = "post_range ?vt EvDISABLE (sg_count (seg_of w r)) (sg_first (seg_of w r)) w"
  note d = slot_timer.disable_range_iff [OF assms(1-3), where arm = arm and stp = stp and
      n = "sg_count (seg_of w r)" and first = "sg_first (seg_of w r)"]
  have "\<not> fst ?p" using d(1) assms(5-7) by (auto simp: in_segment_def)
  then obtain w1 where p: "?p = (False, w1)" by (metis prod.collapse)
  then have "seg_of w1 r = seg_of w r" using d(2,3) by (cases r) simp_all
  then show ?thesis using p assms(4) by (simp add: Segment_suspend_def Segment_resume_def)
qed

theorem segment_suspend_blocked_witness:
  "fst (Segment_suspend (base_vtable ucommon_ref (\<lambda>i t w. w) (\<lambda>i w. w) (\<lambda>i w. True)) (SpanRef 0)
     (go_offline ucommon_ref (\<lambda>i w. w) 1 span_world)) = Some ''cannot suspend''"
proof -
  let ?w = "go_offline ucommon_ref (\<lambda>i w. w) 1 span_world"
  note e = slot_timer.go_offline_effect [OF idle_timer]
  have ok: "slots_ok ?w" by (rule slot_timer.go_offline_slots [OF idle_timer]) simp_all
  have s: "seg_of ?w (SpanRef 0) = seg_of span_world (SpanRef 0)" by (simp add: env_ofD [OF e(10)])
  show ?thesis
    using segment_suspend_blocked [OF idle_timer ok, where r = "SpanRef 0" and t = 1 and
        arm = "\<lambda>i t w. w" and stp = "\<lambda>i w. True"]
    by (simp add: s e env_ofD [OF e(10)] in_segment_def split: prod.splits)
qed

text \<open>
  A board with spans judges the spans' answers the wrong way round: the first span that is
  suspended without error makes the board report that it cannot suspend its spans and stay
  live, while a board none of whose spans can be suspended is reported as suspended.
\<close>

theorem board_suspend_inverted:
  assumes "sg_live (w_boards w b)" and "sg_spans (w_boards w b) = 1"
    and "Driver_getSpan (sg_first (w_boards w b)) w = Some s"
  shows "fst (Board_suspend vt b w) =
    (case fst (Segment_suspend vt (SpanRef s) w) of None \<Rightarrow> Some ''cannot suspend spans'' | Some e \<Rightarrow> None)"
  using assms by (auto simp: Board_suspend_def Let_def split: prod.splits option.splits)

definition board_world :: world where
  "board_world = span_world\<lparr>w_boards := (\<lambda>_. blank_segment\<lparr>sg_live := True, sg_spans := 1\<rparr>)\<rparr>"

theorem board_suspend_inverted_witness:
  "fst (Board_suspend (base_vtable ucommon_ref (\<lambda>i t w. w) (\<lambda>i w. w) (\<lambda>i w. True)) 0 board_world) =
     Some ''cannot suspend spans''"
proof -
  have ok: "slots_ok board_world"
    using span_world_simps(4) by (simp add: board_world_def slots_ok_def)
  have "fst (Segment_suspend (base_vtable ucommon_ref (\<lambda>i t w. w) (\<lambda>i w. w) (\<lambda>i w. True)) (SpanRef 0) board_world) = None"
    by (subst suspend_iff [OF idle_timer ok])
      (use span_world_simps in \<open>simp_all add: board_world_def in_segment_def\<close>)
  with board_suspend_inverted [of board_world 0 0 "base_vtable ucommon_ref (\<lambda>i t w. w) (\<lambda>i w. w) (\<lambda>i w. True)"]
  show ?thesis by (simp add: board_world_def blank_segment_def Driver_getSpan_def)
qed

end
