(* ===== verification/SipTimeslot.thy ===== *)
theory SipTimeslot
  imports Segment
begin

text \<open>
  The timeslots of the SIP driver: \<^verbatim>\<open>sipw/timeslot.cpp\<close>, \<open>class timeslot\<close> of
  \<^verbatim>\<open>sipw/driver.h\<close>. The driver overrides the timer, the end of a call and the
  allocation, and adds \<open>incoming\<close>, which decides what becomes of an \<open>INVITE\<close>.
  Calls into the SIP stack go to the trace. SIP status codes are their numbers.
\<close>

section \<open>Overridden methods\<close>

definition SIP_DECLINE :: nat where "SIP_DECLINE = 603"

definition SIP_NOT_FOUND :: nat where "SIP_NOT_FOUND = 404"

definition SIP_BUSY_HERE :: nat where "SIP_BUSY_HERE = 486"

definition SIP_FORBIDDEN :: nat where "SIP_FORBIDDEN = 403"

lemmas sip_codes = SIP_DECLINE_def SIP_NOT_FOUND_def SIP_BUSY_HERE_def SIP_FORBIDDEN_def

definition sip_construct :: "ucommon \<Rightarrow> nat \<Rightarrow> world \<Rightarrow> world" where
  "sip_construct u i w = upd_slot i (\<lambda>s. s\<lparr>ts_timer := None, ts_ctx := None\<rparr>) (Timeslot_construct u i w)"

definition sip_disarm :: "nat \<Rightarrow> world \<Rightarrow> world" where
  "sip_disarm i w = upd_slot i (\<lambda>s. s\<lparr>ts_timer := None\<rparr>) w"

definition sip_arm :: "nat \<Rightarrow> nat \<Rightarrow> world \<Rightarrow> world" where
  "sip_arm i timeout w = emit Notify (upd_slot i (\<lambda>s. s\<lparr>ts_timer := Some timeout\<rparr>) w)"

text \<open>
  \<open>timer.get()\<close> is what is left of the timeout that was set, \<open>elapsed\<close> milliseconds
  after it was; zero if it has run out. A timer that has run out is reported as
  \<open>Timer::inf\<close>: \<open>expire\<close>, which the timer thread calls next, finds the zero in
  \<open>expires\<close>.
\<close>

definition sip_getExpires :: "nat \<Rightarrow> nat \<Rightarrow> world \<Rightarrow> nat option \<times> world" where
  "sip_getExpires elapsed i w =
     (let w1 = emit (MutexLock i) w;
          ex = map_option (\<lambda>t. t - elapsed) (ts_timer (w_slots w1 i));
          w2 = upd_slot i (\<lambda>s. s\<lparr>ts_expires := ex\<rparr>) w1
      in if ex = Some 0 then (None, upd_slot i (\<lambda>s. s\<lparr>ts_timer := None\<rparr>) w2) else (ex, w2))"

text \<open>
  \<open>allocate\<close> asks the registration for its context before anything else; without a
  registration (the range assignments pass none) it dereferences a null pointer.
\<close>

definition sip_session :: "nat option \<Rightarrow> nat option \<Rightarrow> slot \<Rightarrow> slot" where
  "sip_session ctx out s = s\<lparr>ts_tid := - 1, ts_did := - 1, ts_ctx := (case ctx of None \<Rightarrow> out | Some c \<Rightarrow> Some c)\<rparr>"

definition sip_allocate :: "ucommon \<Rightarrow> allocator" where
  "sip_allocate u crn k reg i w =
     (case reg of
        None \<Rightarrow> w\<lparr>w_fault := True\<rparr>
      | Some r \<Rightarrow>
          Timeslot_allocate u crn k reg i
            (upd_slot i (sip_session (rg_context (w_regs w r)) (w_out_context w)) w))"

definition sip_drop :: "nat \<Rightarrow> world \<Rightarrow> world" where
  "sip_drop i w =
     (let s = w_slots w i;
          w1 = (if ts_connected s
                then upd_slot i (\<lambda>s. s\<lparr>ts_connected := False\<rparr>) (emit (ReleaseCall (ts_ctx s) (ts_cid s) (ts_did s)) w)
                else if ts_tid s \<noteq> - 1 then emit (SendResponse (ts_ctx s) (ts_tid s) SIP_DECLINE) w
                else w)
      in sip_disarm i (upd_slot i (\<lambda>s. s\<lparr>ts_tid := - 1\<rparr>) w1))"

definition sip_disconnect :: "ucommon \<Rightarrow> vmethod" where
  "sip_disconnect u i = (\<lambda>(ev, w).
     Timeslot_disconnect u i (ev, sip_disarm i
       (upd_slot i (\<lambda>s. s\<lparr>ts_connected := False, ts_tid := - 1, ts_did := - 1\<rparr>) w)))"

definition sip_hangup :: "ucommon \<Rightarrow> vmethod" where
  "sip_hangup u i = (\<lambda>(ev, w). Timeslot_disconnect u i (ev, sip_disarm i (sip_drop i w)))"

definition sip_release :: "ucommon \<Rightarrow> vmethod" where
  "sip_release u i = (\<lambda>(ev, w). Timeslot_release u sip_disarm i (ev, sip_drop i w))"

definition sip_disable :: "vmethod" where
  "sip_disable i = (\<lambda>(ev, w). (EvREJECT, w))"

definition sip_vtable :: "ucommon \<Rightarrow> (nat \<Rightarrow> world \<Rightarrow> bool) \<Rightarrow> vtable" where
  "sip_vtable u stp = \<lparr>v_shutdown = Timeslot_shutdown u sip_disarm, v_release = sip_release u,
     v_disconnect = sip_disconnect u, v_hangup = sip_hangup u, v_disable = sip_disable,
     v_enable = Timeslot_enable u sip_disarm, v_running = Timeslot_running, v_arm = sip_arm,
     v_disarm = sip_disarm, v_step = stp\<rparr>"

section \<open>Incoming calls\<close>

text \<open>
  What an \<open>INVITE\<close> tells of the parties. A header counts as present when its url has a
  user name. \<open>si_via\<close> is host and port of the first \<open>Via\<close>.
\<close>

record party =
  pt_scheme :: string
  pt_user :: string
  pt_host :: string
  pt_port :: string

record sip_invite =
  si_tid :: int
  si_did :: int
  si_cid :: int
  si_to :: "party option"
  si_from :: "party option"
  si_via :: "(string \<times> string) option"

text \<open>
  The script library and the script engine, which belong to other components: the scripts that
  \<open>Driver::getIncoming\<close> finds, whether the engine attaches a script at a label, and the
  arguments of \<open>initialize\<close>.
\<close>

record script_env =
  se_incoming :: "string \<Rightarrow> bool"
  se_attach :: "string \<Rightarrow> string \<Rightarrow> bool"
  se_voice :: "string option"
  se_digits_sym :: bool
  se_voice_sym :: bool

definition sip_port :: "string \<Rightarrow> 32 word" where
  "sip_port p = (if p = [] then 5060 else atoi p)"

text \<open>
  A name in a list of names: its first occurrence in the text, if a separator or the end of the
  text follows it.
\<close>

definition listed :: "string \<Rightarrow> string \<Rightarrow> bool" where
  "listed names name =
     (case strstr names name of
        None \<Rightarrow> False
      | Some cp \<Rightarrow>
          name \<noteq> [] \<and>
          (case drop (length name) cp of
             [] \<Rightarrow> True
           | c # _ \<Rightarrow> c_isspace c \<or> c \<in> set '',;:''))"

definition incoming_remote :: "ucommon \<Rightarrow> string option \<Rightarrow> sip_invite \<Rightarrow> bool" where
  "incoming_remote u localnames m =
     (let remote =
            (case (si_from m, si_via m, si_to m) of
               (Some f, Some (vhost, vport), _) \<Rightarrow> \<not> (u_eq u (pt_host f) vhost \<and> sip_port (pt_port f) = sip_port vport)
             | (Some f, None, Some t) \<Rightarrow> \<not> (u_eq u (pt_host f) (pt_host t) \<and> sip_port (pt_port f) = sip_port (pt_port t))
             | _ \<Rightarrow> False)
      in if remote
         then (case (localnames, si_from m) of
                 (Some ln, Some f) \<Rightarrow> if pt_host f \<noteq> [] \<and> listed ln (pt_host f) then False else remote
               | _ \<Rightarrow> remote)
         else remote)"

text \<open>
  The outcome of the decision: refuse with a status code, or run a script at an entry label, as
  a local, remote or diverted call.
\<close>

datatype verdict = Refuse nat | Run string string mapped_type

definition incoming_script :: "ucommon \<Rightarrow> string \<Rightarrow> mapped_type \<Rightarrow> string option \<Rightarrow> verdict" where
  "incoming_script u entry ty scrname =
     (case scrname of
        None \<Rightarrow> Refuse SIP_DECLINE
      | Some s \<Rightarrow>
          if u_eq u s ''decline'' then Refuse SIP_DECLINE
          else if u_eq u s ''none'' then Refuse SIP_NOT_FOUND
          else if u_eq u s ''busy'' then Refuse SIP_BUSY_HERE
          else if u_eq u s ''reject'' then Refuse SIP_FORBIDDEN
          else Run s entry ty)"

definition incoming_verdict :: "ucommon \<Rightarrow> registration \<Rightarrow> sip_invite \<Rightarrow> verdict" where
  "incoming_verdict u reg m =
     (let remote = incoming_remote u (rg_localnames reg) m;
          entry = (if remote then ''@remote'' else ''@local'');
          ty = (if remote then REMOTE else LOCAL)
      in case (si_to m, rg_targets reg) of
           (Some t, Some targets) \<Rightarrow>
             if listed targets (pt_user t) then Run (pt_user t) entry ty
             else incoming_script u ''@divert'' DIVERT (rg_script reg)
         | _ \<Rightarrow> incoming_script u entry ty (rg_script reg))"

definition incoming_caller :: "bool \<Rightarrow> sip_invite \<Rightarrow> string option" where
  "incoming_caller remote m =
     (case si_from m of
        None \<Rightarrow> None
      | Some f \<Rightarrow>
          Some (if remote \<and> pt_port f \<noteq> []
                then fit 256 (pt_scheme f @ '':'' @ pt_user f @ ''@'' @ pt_host f @ '':'' @ pt_port f)
                else if remote then fit 256 (pt_scheme f @ '':'' @ pt_user f @ ''@'' @ pt_host f)
                else pt_user f))"

definition set_const :: "nat \<Rightarrow> string \<Rightarrow> string option \<Rightarrow> world \<Rightarrow> world" where
  "set_const i name v w = (case v of None \<Rightarrow> w | Some x \<Rightarrow> emit (ScriptConst i name x) w)"

definition call_slot :: "ucommon \<Rightarrow> mapped_type \<Rightarrow> string \<Rightarrow> string option \<Rightarrow> string option \<Rightarrow> slot \<Rightarrow> slot" where
  "call_slot u ty scr caller dialed s =
     (let s1 = (case caller of None \<Rightarrow> s | Some c \<Rightarrow> s\<lparr>mp_source := u_set u 64 c\<rparr>);
          s2 = (case dialed of None \<Rightarrow> s1 | Some d \<Rightarrow> s1\<lparr>mp_target := u_set u 64 d\<rparr>)
      in s2\<lparr>mp_script := u_set u 64 scr, mp_type := ty\<rparr>)"

definition sip_run_script ::
    "ucommon \<Rightarrow> script_env \<Rightarrow> nat \<Rightarrow> registration \<Rightarrow> sip_invite \<Rightarrow> string \<Rightarrow> string \<Rightarrow> mapped_type \<Rightarrow> world \<Rightarrow> nat \<times> world"
where
  "sip_run_script u env i reg m scr entry ty w =
     (if \<not> se_incoming env scr then (SIP_NOT_FOUND, emit (Log ''%s: script not found'') w)
      else
        let w1 = Timeslot_initialize u (se_voice env) (se_digits_sym env) (se_voice_sym env) i w;
            caller = incoming_caller (incoming_remote u (rg_localnames reg) m) m;
            dialed = map_option pt_user (si_to m);
            w2 = set_const i ''dialed'' dialed (set_const i ''caller'' caller w1);
            w3 = upd_slot i (call_slot u ty scr caller dialed) w2;
            w4 = set_const i ''server'' (Some (case rg_server reg of None \<Rightarrow> [] | Some s \<Rightarrow> s))
                   (set_const i ''script'' (Some scr) w3);
            w5 = emit (ScriptAttach i scr entry) w4
        in if \<not> se_attach env scr entry then (SIP_NOT_FOUND, emit (Log ''%s: cannot start %s'') w5)
           else (0, Timeslot_setScripting u sip_arm i w5))"

text \<open>
  \<open>incoming\<close>: the result is 0 or a status code. The registration is used before the test
  whether there is one, so without one the code dereferences a null pointer.
\<close>

definition sip_incoming :: "ucommon \<Rightarrow> script_env \<Rightarrow> nat \<Rightarrow> sip_invite \<Rightarrow> world \<Rightarrow> nat \<times> world" where
  "sip_incoming u env i m w =
     (case ts_registry (w_slots w i) of
        None \<Rightarrow> (SIP_NOT_FOUND, w\<lparr>w_fault := True\<rparr>)
      | Some r \<Rightarrow>
          (let reg = w_regs w r;
               w1 = sip_arm i 16000 (Timeslot_setMapped u (CHR ''i'') (Some ''incoming'') i
                      (upd_slot i (\<lambda>s. s\<lparr>ts_tid := si_tid m, ts_did := si_did m\<rparr>) w))
           in case incoming_verdict u reg m of
                Refuse code \<Rightarrow> (code, w1)
              | Run scr entry ty \<Rightarrow> sip_run_script u env i reg m scr entry ty w1))"

section \<open>The driver keeps its contract\<close>

lemma sip_disarm_quiet: "quiet i w (sip_disarm i w)"
  unfolding sip_disarm_def by (rule quiet_upd_slot) simp_all

lemma sip_arm_quiet: "quiet i w (sip_arm i t w)"
  unfolding sip_arm_def
  by (rule quiet_trans [OF quiet_upd_slot quiet_emit]) (simp_all add: no_mutex_def)

lemma sip_drop_quiet: "quiet i w (sip_drop i w)"
proof -
  let ?s = "w_slots w i"
  let ?w1 = "if ts_connected ?s
     then upd_slot i (\<lambda>s. s\<lparr>ts_connected := False\<rparr>) (emit (ReleaseCall (ts_ctx ?s) (ts_cid ?s) (ts_did ?s)) w)
     else if ts_tid ?s \<noteq> - 1 then emit (SendResponse (ts_ctx ?s) (ts_tid ?s) SIP_DECLINE) w else w"
  have "quiet i w (emit (ReleaseCall (ts_ctx ?s) (ts_cid ?s) (ts_did ?s)) w)"
    "quiet i w (emit (SendResponse (ts_ctx ?s) (ts_tid ?s) SIP_DECLINE) w)"
    by (rule quiet_emit, simp add: no_mutex_def)+
  then have "quiet i w ?w1" by (auto intro: quiet_trans [OF _ quiet_upd_slot])
  moreover have "quiet i v (sip_disarm i (upd_slot i (\<lambda>s. s\<lparr>ts_tid := - 1\<rparr>) v))" for v
    by (rule quiet_trans [OF quiet_upd_slot sip_disarm_quiet]) simp_all
  ultimately show ?thesis unfolding sip_drop_def Let_def by (rule quiet_trans)
qed

lemma after_quiet:
  assumes "method_ok P m" and "\<And>w. quiet i w (f w)" and "slots_ok w" and "i < w_ts_count w"
    and "P ev (ts_handler (w_slots w i))"
  shows "call_ok i w (m i (ev, f w))"
  by (rule quiet_call_ok [OF assms(2)], rule method_okD [OF assms(1)])
    (simp_all add: quietD [OF assms(2)] assms(3-5))

text \<open>The library, wherever its documented behaviour is given, and the driver built on it.\<close>

locale ucommon_lib =
  fixes u :: ucommon
  assumes lib: "ucommon_ok u"

sublocale ucommon_lib < timer: slot_timer u sip_disarm
  by unfold_locales (simp_all add: lib sip_disarm_quiet)

context ucommon_lib
begin

lemma sip_release_ok: "method_ok (\<lambda>ev h. in_call h) (sip_release u)"
  unfolding method_ok_def sip_release_def prod.case
  by (intro allI impI after_quiet [OF timer.release_ok sip_drop_quiet])

lemma sip_disconnect_quiet:
  "quiet i w (sip_disarm i (upd_slot i (\<lambda>s. s\<lparr>ts_connected := False, ts_tid := - 1, ts_did := - 1\<rparr>) w))"
  by (rule quiet_trans [OF quiet_upd_slot sip_disarm_quiet]) simp_all

lemma sip_disconnect_ok: "method_ok (\<lambda>ev h. ev \<noteq> EvRELEASE \<and> in_call h) (sip_disconnect u)"
  unfolding method_ok_def sip_disconnect_def prod.case
  by (intro allI impI after_quiet [OF timer.disconnect_ok sip_disconnect_quiet])

lemma sip_hangup_ok: "method_ok (\<lambda>ev h. ev \<noteq> EvRELEASE \<and> in_call h) (sip_hangup u)"
  unfolding method_ok_def sip_hangup_def prod.case
  by (intro allI impI after_quiet [OF timer.disconnect_ok quiet_trans [OF sip_drop_quiet sip_disarm_quiet]])

end

sublocale ucommon_lib < sip: slot_driver "sip_vtable u stp" for stp
proof
  fix i w t
  show "quiet i w (v_arm (sip_vtable u stp) i t w)" by (simp add: sip_vtable_def sip_arm_quiet)
next
  show "method_ok (\<lambda>ev h. in_call h) (v_release (sip_vtable u stp))"
    by (simp add: sip_vtable_def sip_release_ok)
next
  show "method_ok (\<lambda>ev h. ev = EvDROP \<and> in_call h) (v_disconnect (sip_vtable u stp))"
    using sip_disconnect_ok by (simp add: sip_vtable_def method_ok_def)
next
  show "method_ok (\<lambda>ev h. ev \<noteq> EvRELEASE \<and> in_call h) (v_hangup (sip_vtable u stp))"
    by (simp add: sip_vtable_def sip_hangup_ok)
next
  show "method_ok (\<lambda>ev h. ev = EvDISABLE \<and> h \<noteq> OfflineHandler) (v_disable (sip_vtable u stp))"
    by (simp add: sip_vtable_def method_ok_def sip_disable_def call_ok_keep)
next
  show "method_ok (\<lambda>ev h. ev = EvENABLE \<and> h = OfflineHandler) (v_enable (sip_vtable u stp))"
    using timer.enable_ok by (simp add: sip_vtable_def method_ok_def)
next
  show "method_ok (\<lambda>ev h. ev = EvSHUTDOWN \<and> h = IdleHandler) (v_shutdown (sip_vtable u stp))"
    using timer.shutdown_ok by (simp add: sip_vtable_def method_ok_def)
next
  show "method_ok (\<lambda>ev h. ev \<noteq> EvRELEASE \<and> h = ScriptHandler) (v_running (sip_vtable u stp))"
    by (simp add: sip_vtable_def method_ok_def Timeslot_running_def call_ok_keep)
qed

context ucommon_lib
begin

lemma sip_driver: "slot_driver (sip_vtable u stp)"
  by (rule sip.slot_driver_axioms)

end

interpretation uc: ucommon_lib ucommon_ref
  by unfold_locales simp

end
