(* ===== verification/Uri.thy ===== *)
theory Uri
  imports Prelude
begin

text \<open>
  The uri helpers of \<^verbatim>\<open>common/uri.cpp\<close>: the parsers \<open>portid\<close>,
  \<open>hostid\<close> and \<open>userid\<close>, the builders \<open>create\<close>, \<open>dialed\<close> and
  \<open>server\<close>, the choice of service and transport at the head of \<open>set\<close>, and
  \<open>next\<close>, which steps through the addresses of an SRV answer. A builder or parser that
  fills \<open>buf\<close> of \<open>size\<close> bytes returns the text left in the buffer; the functions
  of type \<^verbatim>\<open>bool\<close> return it paired with their result.
\<close>

section \<open>Parsers\<close>

text \<open>\<open>while(islower(*cp)) ++cp; if(cp && *cp == ':') uri = ++cp;\<close>\<close>

definition skip_scheme :: "string \<Rightarrow> string" where
  "skip_scheme uri =
     (case dropWhile c_islower uri of c # r \<Rightarrow> if c = CHR '':'' then r else uri | [] \<Rightarrow> uri)"

definition uri_portid :: "string \<Rightarrow> 16 word" where
  "uri_portid uri0 =
     (let uri = skip_scheme uri0;
          pp = (case uri of
                  c # _ \<Rightarrow>
                    if c = CHR ''[''
                    then (case strchr uri (CHR '']'') of
                            Some r \<Rightarrow> strchr r (CHR '':'') | None \<Rightarrow> None)
                    else (let pp = strrchr uri (CHR '':''); fp = strchr uri (CHR '':'')
                          in if fp \<noteq> pp then None else pp)
                | [] \<Rightarrow> None)
      in case pp of Some r \<Rightarrow> ucast (atoi (tl r)) | None \<Rightarrow> 0)"

definition uri_hostid :: "nat \<Rightarrow> string \<Rightarrow> string" where
  "uri_hostid sz uri0 =
     (let uri1 = skip_scheme uri0;
          uri = (case strchr uri1 (CHR ''@'') of Some r \<Rightarrow> tl r | None \<Rightarrow> uri1)
      in if (case uri of c # _ \<Rightarrow> c = CHR ''['' | [] \<Rightarrow> False)
         then cut_at (CHR '']'') (fit sz (tl uri))
         else let buf = fit sz uri
              in if CHR '':'' \<in> set buf \<and> strrchr buf (CHR '':'') = strchr buf (CHR '':'')
                 then cut_at (CHR '':'') buf else buf)"

definition uri_userid :: "ucommon \<Rightarrow> nat \<Rightarrow> string option \<Rightarrow> bool \<times> string" where
  "uri_userid u sz uri_opt =
     (case uri_opt of
        None \<Rightarrow> (False, [])
      | Some uri0 \<Rightarrow>
          (let uri = (if u_eqn u uri0 ''sip:'' 4 then drop 4 uri0
                      else if u_eqn u uri0 ''sips:'' 5 then drop 5 uri0
                      else if u_eqn u uri0 ''tcp:'' 4 then drop 4 uri0
                      else if u_eqn u uri0 ''udp:'' 4 then drop 4 uri0
                      else if u_eqn u uri0 ''iax:'' 4 then drop 4 uri0
                      else if u_eqn u uri0 ''h323:'' 5 then drop 5 uri0
                      else uri0)
           in if strchr uri (CHR ''@'') = None then (False, [])
              else (True, cut_at (CHR ''@'') (fit sz uri))))"

section \<open>Builders\<close>

definition uri_create :: "ucommon \<Rightarrow> nat \<Rightarrow> string \<Rightarrow> string option \<Rightarrow> string" where
  "uri_create u sz server0 userid =
     (let (schema, server) =
            (if u_eqn u server0 ''sips:'' 5 then (''sips:'', drop 5 server0)
             else if u_eqn u server0 ''iax:'' 4 then (''iax:'', drop 4 server0)
             else if u_eqn u server0 ''h323:'' 5 then (''h323:'', drop 5 server0)
             else if u_eqn u server0 ''tcp:'' 4 then (''sip:'', drop 4 server0)
             else if u_eqn u server0 ''tcp:'' 4 then (''sip:'', drop 4 server0)
             else if u_eqn u server0 ''sip:'' 4 then (''sip:'', drop 4 server0)
             else (''sip:'', server0))
      in case (strchr server (CHR ''@''), userid) of
           (None, Some user) \<Rightarrow> fit sz (schema @ user @ ''@'' @ server)
         | _ \<Rightarrow> fit sz (schema @ server))"

definition uri_server :: "ucommon \<Rightarrow> nat \<Rightarrow> string \<Rightarrow> string" where
  "uri_server u sz uri0 =
     (let (schema, uri1) =
            (if u_eqn u uri0 ''sips:'' 5 then (''sips:'', drop 5 uri0)
             else if u_eqn u uri0 ''iax:'' 4 then (''iax:'', drop 4 uri0)
             else if u_eqn u uri0 ''h323:'' 5 then (''h323:'', drop 5 uri0)
             else if u_eqn u uri0 ''sip:'' 4 then (''sip:'', drop 4 uri0)
             else if u_eqn u uri0 ''tcp:'' 4 then (''sip:'', drop 4 uri0)
             else if u_eqn u uri0 ''udp:'' 4 then (''sip:'', drop 4 uri0)
             else (''sip:'', uri0));
          uri = (case strchr uri1 (CHR ''@'') of Some r \<Rightarrow> tl r | None \<Rightarrow> uri1)
      in fit sz (schema @ uri))"

definition uri_dialed :: "ucommon \<Rightarrow> nat \<Rightarrow> string \<Rightarrow> string \<Rightarrow> string" where
  "uri_dialed u sz to0 id0 =
     (let (schema, to) =
            (if u_eqn u to0 ''sips:'' 5 then (''sips:'', drop 5 to0)
             else if u_eqn u to0 ''iax:'' 4 then (''iax:'', drop 4 to0)
             else if u_eqn u to0 ''h323:'' 5 then (''h323:'', drop 5 to0)
             else if u_eqn u to0 ''tcp:'' 4 then (''sip:'', drop 4 to0)
             else if u_eqn u to0 ''udp:'' 4 then (''sip:'', drop 4 to0)
             else if u_eqn u to0 ''sip:'' 4 then (''sip:'', drop 4 to0)
             else if u_eqn u id0 ''sips:'' 5 then (''sips:'', to0)
             else if u_eqn u id0 ''iax:'' 4 then (''iax:'', to0)
             else if u_eqn u id0 ''h323:'' 5 then (''h323'', to0)
             else if u_eqn u id0 ''tcp:'' 4 then (''sip'', to0)
             else if u_eqn u id0 ''udp:'' 4 then (''sip'', to0)
             else (''sip:'', to0))
      in if strchr to (CHR ''@'') \<noteq> None then fit sz (schema @ to)
         else let host = (case strchr id0 (CHR ''@'') of
                Some r \<Rightarrow> tl r
              | None \<Rightarrow>
                  if u_eqn u id0 ''sips:'' 5 then drop 5 id0
                  else if u_eqn u id0 ''sip:'' 4 then drop 4 id0
                  else if u_eqn u id0 ''iax:'' 4 then drop 4 id0
                  else if u_eqn u id0 ''h323:'' 5 then drop 5 id0
                  else if u_eqn u id0 ''tcp:'' 4 then drop 4 id0
                  else if u_eqn u id0 ''udp:'' 4 then drop 4 id0
                  else id0)
              in fit sz (schema @ to @ ''@'' @ host))"

section \<open>Choosing the service\<close>

datatype proto = UDP | TCP

datatype family = AF_INET | AF_INET6

record resolve_hint =
  rh_host :: string
  rh_svc :: string
  rh_protocol :: proto
  rh_stream :: bool
  rh_family :: family
  rh_numerichost :: bool
  rh_numericserv :: bool
  rh_v4mapped :: bool
  rh_zone :: "string option"

text \<open>
  The head of \<open>uri::set\<close>: the arguments with which the resolver is called. \<open>rh_zone\<close>
  is the name of the SRV query, \<open>None\<close> where the code skips it (\<open>nosrv\<close>);
  \<open>is_numeric\<close> is \<open>Socket::is_numeric\<close>.
\<close>

definition uri_set_hint ::
    "ucommon \<Rightarrow> (string \<Rightarrow> bool) \<Rightarrow> string \<Rightarrow> family \<Rightarrow> proto \<Rightarrow> resolve_hint" where
  "uri_set_hint u is_numeric uri0 fam protocol0 =
     (let port = uri_portid uri0;
          (svc, protocol, uri) =
            (if port \<noteq> 0 then (fit 10 (show_nat (unat port)), protocol0, uri0)
             else if u_eqn u uri0 ''sips:'' 5 then (u_set u 10 ''sips'', TCP, uri0)
             else if u_eqn u uri0 ''tcp:'' 4 then (u_set u 10 ''sip'', TCP, drop 4 uri0)
             else if u_eqn u uri0 ''udp:'' 4 then (u_set u 10 ''sip'', UDP, drop 4 uri0)
             else if u_eqn u uri0 ''h323:'' 5 then (u_set u 10 ''h323cs'', TCP, uri0)
             else if u_eqn u uri0 ''iax:'' 4 then (u_set u 10 ''iax'', UDP, uri0)
             else (u_set u 10 ''sip'', protocol0, uri0));
          host = uri_hostid 256 uri;
          nosrv = (port \<noteq> 0 \<or> is_numeric host)
      in \<lparr>rh_host = host, rh_svc = svc, rh_protocol = protocol, rh_stream = (protocol \<noteq> UDP),
          rh_family = fam, rh_numerichost = is_numeric host, rh_numericserv = (0 <s atoi svc),
          rh_v4mapped = (fam = AF_INET6),
          rh_zone = (if nosrv then None
                     else Some (fit 256 (''_'' @ svc @ (if protocol = TCP then ''._tcp.'' else ''._udp.'')
                                         @ host)))\<rparr>)"

text \<open>After \<open>nosrv:\<close>, the service name becomes the well-known port of the scheme.\<close>

definition uri_fallback_port :: "ucommon \<Rightarrow> string \<Rightarrow> string" where
  "uri_fallback_port u svc =
     (if u_eq u svc ''sips'' then u_set u 10 ''5061''
      else if u_eq u svc ''sip'' then u_set u 10 ''5060''
      else if u_eqn u svc ''h323'' 4 then u_set u 10 ''1720''
      else if u_eq u svc ''iax'' then u_set u 10 ''4569''
      else svc)"

section \<open>Stepping through an SRV answer\<close>

text \<open>A socket address is opaque to the code.\<close>

type_synonym sockaddr = nat

record srv_address =
  sv_addr :: sockaddr
  sv_weight :: "16 word"
  sv_priority :: "16 word"

record uri_state =
  us_srvlist :: "srv_address list"
  us_entry :: "sockaddr option"
  us_pri :: "16 word"

definition uri_clear :: "uri_state \<Rightarrow> uri_state" where
  "uri_clear s = s\<lparr>us_srvlist := [], us_entry := None\<rparr>"

fun next_pick :: "16 word \<Rightarrow> srv_address list \<Rightarrow> srv_address option \<Rightarrow> srv_address option" where
  "next_pick p [] node = node"
| "next_pick p (np # rest) node =
     (if sv_priority np < p then next_pick p rest node
      else if (case node of None \<Rightarrow> True
               | Some n \<Rightarrow> sv_priority np < sv_priority n \<or> sv_weight np > sv_weight n)
           then next_pick p rest (Some np)
           else next_pick p rest node)"

definition uri_next :: "uri_state \<Rightarrow> uri_state" where
  "uri_next s =
     (let p = us_pri s + 1
      in case next_pick p (us_srvlist s) None of
           None \<Rightarrow> s\<lparr>us_pri := p, us_entry := None\<rparr>
         | Some n \<Rightarrow> s\<lparr>us_pri := sv_priority n, us_entry := Some (sv_addr n)\<rparr>)"

text \<open>The addresses a caller visits by calling \<open>next\<close> until it returns \<open>NULL\<close>.\<close>

partial_function (option) uri_walk :: "uri_state \<Rightarrow> sockaddr list \<Rightarrow> sockaddr list option" where
  "uri_walk s acc =
     (let t = uri_next s
      in case us_entry t of None \<Rightarrow> Some acc | Some a \<Rightarrow> uri_walk t (acc @ [a]))"

section \<open>Lemmas: schemes and names\<close>

lemma skip_scheme_lower [simp]:
  "list_all c_islower sch \<Longrightarrow> skip_scheme (sch @ CHR '':'' # r) = r"
proof -
  assume sch: "list_all c_islower sch"
  have colon: "\<not> c_islower (CHR '':'')" by (simp add: c_islower_def)
  from sch colon have "dropWhile c_islower (sch @ CHR '':'' # r) = CHR '':'' # r"
    by (induction sch) auto
  then show ?thesis by (simp add: skip_scheme_def)
qed

text \<open>A name has none of the delimiters of a uri.\<close>

definition uri_name :: "string \<Rightarrow> bool" where
  "uri_name s \<longleftrightarrow> CHR '':'' \<notin> set s \<and> CHR ''@'' \<notin> set s \<and> CHR ''['' \<notin> set s \<and> CHR '']'' \<notin> set s"

lemma uri_name_simps:
  "uri_name s \<Longrightarrow> CHR '':'' \<notin> set s" "uri_name s \<Longrightarrow> CHR ''@'' \<notin> set s"
  "uri_name s \<Longrightarrow> CHR ''['' \<notin> set s" "uri_name s \<Longrightarrow> CHR '']'' \<notin> set s"
  by (simp_all add: uri_name_def)

lemma uri_name_show_nat [simp]: "uri_name (show_nat n)"
proof -
  have "\<forall>c \<in> set (show_nat n). c_isdigit c"
    using show_nat_digits [of n] by (simp add: list_all_iff)
  then show ?thesis by (auto simp: uri_name_def dest!: c_isdigit_not_special)
qed

lemma eqn_prefix: "ucommon_ok u \<Longrightarrow> n = length p \<Longrightarrow> u_eqn u s p n \<longleftrightarrow> prefix p s"
  by (auto simp: prefix_def) (metis append_take_drop_id)

lemmas scheme_eqn =
  eqn_prefix [where p = "''sip:''" and n = 4, simplified]
  eqn_prefix [where p = "''sips:''" and n = 5, simplified]
  eqn_prefix [where p = "''tcp:''" and n = 4, simplified]
  eqn_prefix [where p = "''udp:''" and n = 4, simplified]
  eqn_prefix [where p = "''iax:''" and n = 4, simplified]
  eqn_prefix [where p = "''h323:''" and n = 5, simplified]

definition known_scheme :: "string \<Rightarrow> bool" where
  "known_scheme s \<longleftrightarrow> prefix ''sip:'' s \<or> prefix ''sips:'' s \<or> prefix ''tcp:'' s \<or> prefix ''udp:'' s
     \<or> prefix ''iax:'' s \<or> prefix ''h323:'' s"

lemma known_scheme_colon: "known_scheme s \<Longrightarrow> CHR '':'' \<in> set s"
  by (auto simp: known_scheme_def prefix_def)

lemma uri_name_no_scheme: "uri_name s \<Longrightarrow> \<not> known_scheme s"
  using known_scheme_colon by (auto simp: uri_name_def)

lemma no_scheme_simps:
  "\<not> known_scheme s \<Longrightarrow> \<not> prefix ''sip:'' s" "\<not> known_scheme s \<Longrightarrow> \<not> prefix ''sips:'' s"
  "\<not> known_scheme s \<Longrightarrow> \<not> prefix ''tcp:'' s" "\<not> known_scheme s \<Longrightarrow> \<not> prefix ''udp:'' s"
  "\<not> known_scheme s \<Longrightarrow> \<not> prefix ''iax:'' s" "\<not> known_scheme s \<Longrightarrow> \<not> prefix ''h323:'' s"
  by (auto simp: known_scheme_def)

text \<open>The parts of \<open>user@host:port\<close>.\<close>

lemma authority_strchr:
  "CHR ''@'' \<notin> set user \<Longrightarrow> strchr (user @ CHR ''@'' # r) (CHR ''@'') = Some (CHR ''@'' # r)"
  by (rule strchr_append_notin)

lemma single_colon:
  assumes "CHR '':'' \<notin> set a" "CHR '':'' \<notin> set b"
  shows "strchr (a @ CHR '':'' # b) (CHR '':'') = Some (CHR '':'' # b)"
    and "strrchr (a @ CHR '':'' # b) (CHR '':'') = Some (CHR '':'' # b)"
  using assms strchr_append_notin strrchr_append_notin by blast+

lemma ucast_atoi_show_nat: "p < 65536 \<Longrightarrow> ucast (atoi (show_nat p)) = (of_nat p :: 16 word)"
proof -
  assume "p < 65536"
  then have "p < 2 ^ 32" by simp
  then have "unat (atoi (show_nat p)) = p" by (rule atoi_show_nat)
  then show ?thesis by (metis of_nat_unat)
qed

lemma portid_authority:
  assumes "CHR '':'' \<notin> set a" "CHR ''['' \<notin> set a" "p < 65536" "list_all c_islower sch"
  shows "uri_portid (sch @ CHR '':'' # a @ CHR '':'' # show_nat p) = of_nat p"
proof -
  let ?t = "a @ CHR '':'' # show_nat p"
  have s: "strchr ?t (CHR '':'') = Some (CHR '':'' # show_nat p)"
      "strrchr ?t (CHR '':'') = Some (CHR '':'' # show_nat p)"
    using single_colon [of a "show_nat p"] assms(1) uri_name_simps(1) [OF uri_name_show_nat] by auto
  obtain c r where "?t = c # r" "c \<noteq> CHR ''[''"
    using assms(2) by (cases a) auto
  with s show ?thesis
    by (simp add: uri_portid_def assms(4) Let_def ucast_atoi_show_nat [OF assms(3)])
qed

lemma hostid_authority:
  assumes "uri_name user" "uri_name host" "host \<noteq> []" "list_all c_islower sch"
    "length host + length t < sz" "t = [] \<or> (\<exists>q. uri_name q \<and> t = CHR '':'' # q)"
  shows "uri_hostid sz (sch @ CHR '':'' # user @ CHR ''@'' # host @ t) = host"
proof -
  have at: "strchr (user @ CHR ''@'' # host @ t) (CHR ''@'') = Some (CHR ''@'' # host @ t)"
    using assms(1) by (simp add: authority_strchr uri_name_def)
  have fits: "fit sz (host @ t) = host @ t" using assms(5) by simp
  have nocolon: "CHR '':'' \<notin> set host" using assms(2) by (simp add: uri_name_def)
  obtain c r where cr: "host = c # r" "c \<noteq> CHR ''[''"
    using assms(2,3) by (cases host) (auto simp: uri_name_def)
  then have br: "(case host @ t of [] \<Rightarrow> False | c # _ \<Rightarrow> c = CHR ''['') = False" by simp
  from assms(6) show ?thesis
  proof
    assume "t = []"
    with at fits nocolon br show ?thesis by (simp add: uri_hostid_def assms(4) Let_def)
  next
    assume "\<exists>q. uri_name q \<and> t = CHR '':'' # q"
    then obtain q where q: "uri_name q" "t = CHR '':'' # q" by blast
    then have "CHR '':'' \<notin> set q" by (simp add: uri_name_def)
    from single_colon [OF nocolon this] at fits nocolon br show ?thesis
      unfolding q(2) by (simp add: uri_hostid_def assms(4) Let_def)
  qed
qed

lemma userid_scheme:
  assumes "ucommon_ok u" and "sch \<in> {''sip'', ''sips'', ''tcp'', ''udp'', ''iax''}"
  shows "uri_userid u sz (Some (sch @ CHR '':'' # t)) =
    (if CHR ''@'' \<in> set t then (True, cut_at (CHR ''@'') (fit sz t)) else (False, []))"
proof -
  from assms(2) consider "sch = ''sip''" | "sch = ''sips''" | "sch = ''tcp''" | "sch = ''udp''" | "sch = ''iax''"
    by blast
  then show ?thesis
    by cases (simp_all add: uri_userid_def assms(1))
qed

section \<open>Properties of the parsers\<close>

text \<open>
  From \<open>scheme:user@host:port\<close> the parsers read back what it was built of: the port, the
  host (when host and port fit the buffer) and, for the schemes the telephony drivers use, the
  user.
\<close>

theorem uri_parse_roundtrip:
  assumes "ucommon_ok u" and "sch \<in> {''sip'', ''sips'', ''tcp'', ''udp'', ''iax''}"
    and "uri_name user" "uri_name host" "host \<noteq> []" "p < 65536"
    and "length user + length host + length (show_nat p) + 2 < sz"
    and "uri = sch @ '':'' @ user @ ''@'' @ host @ '':'' @ show_nat p"
  shows "uri_portid uri = of_nat p \<and> uri_hostid sz uri = host \<and>
    uri_userid u sz (Some uri) = (True, user)"
proof (intro conjI)
  have sch: "list_all c_islower sch" using assms(2) by (auto simp: c_islower_def)
  have uri: "uri = sch @ CHR '':'' # (user @ CHR ''@'' # host) @ CHR '':'' # show_nat p"
    using assms(8) by simp
  show "uri_portid uri = of_nat p"
    unfolding uri using assms(3,4,6) sch
    by (intro portid_authority) (auto simp: uri_name_def)
  show "uri_hostid sz uri = host"
    using hostid_authority [OF assms(3,4,5) sch, of "CHR '':'' # show_nat p" sz] assms(7)
    by (auto simp: uri)
  let ?t = "user @ CHR ''@'' # host @ CHR '':'' # show_nat p"
  have "fit sz ?t = ?t" "CHR ''@'' \<notin> set user" "CHR ''@'' \<in> set ?t"
    using assms(3,7) by (auto simp: uri_name_def)
  moreover have "uri = sch @ CHR '':'' # ?t" using assms(8) by simp
  ultimately show "uri_userid u sz (Some uri) = (True, user)"
    by (simp only: userid_scheme [OF assms(1,2)] cut_at_append simp_thms if_True)
qed

lemma show_nat_5062: "show_nat 5062 = ''5062''" "show_nat 5060 = ''5060''"
  by (simp_all add: show_nat.simps)

theorem uri_parse_roundtrip_witness:
  "uri_portid ''sip:bob@example.com:5062'' = 5062 \<and> uri_hostid 256 ''sip:bob@example.com:5062'' = ''example.com''
     \<and> uri_userid ucommon_ref 256 (Some ''sip:bob@example.com:5062'') = (True, ''bob'')"
  using uri_parse_roundtrip [of ucommon_ref "''sip''" "''bob''" "''example.com''" 5062 256
      "''sip:bob@example.com:5062''"]
  by (simp add: uri_name_def show_nat_5062)

text \<open>
  A uri built by \<open>create\<close> for a user at a server (given with or without one of the
  schemes \<open>create\<close> strips, with or without a port) parses back to that user and host.
\<close>

theorem uri_create_roundtrip:
  assumes "ucommon_ok u" and "uri_name user" "uri_name host" "host \<noteq> []"
    and "h = host @ t" and "t = [] \<or> (\<exists>q. uri_name q \<and> t = CHR '':'' # q)" and "\<not> known_scheme h"
    and "server \<in> {h, ''sip:'' @ h, ''sips:'' @ h, ''tcp:'' @ h, ''iax:'' @ h}"
    and "length user + length h + 6 < sz"
  shows "uri_userid u sz (Some (uri_create u sz server (Some user))) = (True, user) \<and>
    uri_hostid sz (uri_create u sz server (Some user)) = host"
proof -
  have at: "CHR ''@'' \<notin> set h" using assms(3,5,6) by (auto simp: uri_name_def)
  then have c: "\<exists>sch \<in> {''sip'', ''sips'', ''iax''}. uri_create u sz server (Some user) =
      sch @ CHR '':'' # user @ CHR ''@'' # h"
    using assms(8,9) no_scheme_simps [OF assms(7)]
    by (auto simp: uri_create_def scheme_eqn [OF assms(1)])
  then obtain sch where sch: "sch \<in> {''sip'', ''sips'', ''iax''}"
    and eq: "uri_create u sz server (Some user) = sch @ CHR '':'' # user @ CHR ''@'' # h" by blast
  have low: "list_all c_islower sch" using sch by (auto simp: c_islower_def)
  have len: "length host + length t < sz" using assms(5,9) by simp
  have fits: "fit sz (user @ CHR ''@'' # h) = user @ CHR ''@'' # h" using assms(9) by simp
  have user: "CHR ''@'' \<notin> set user" using assms(2) by (simp add: uri_name_def)
  have "sch \<in> {''sip'', ''sips'', ''tcp'', ''udp'', ''iax''}" using sch by blast
  from userid_scheme [OF assms(1) this, of sz "user @ CHR ''@'' # h"] fits user
  have "uri_userid u sz (Some (uri_create u sz server (Some user))) = (True, user)"
    unfolding eq by simp
  moreover have "uri_hostid sz (uri_create u sz server (Some user)) = host"
    unfolding eq assms(5) by (rule hostid_authority [OF assms(2,3,4) low len assms(6)])
  ultimately show ?thesis ..
qed

theorem uri_create_roundtrip_witness:
  "uri_userid ucommon_ref 256 (Some (uri_create ucommon_ref 256 ''tcp:pbx.lan:5060'' (Some ''bob''))) = (True, ''bob'')
     \<and> uri_hostid 256 (uri_create ucommon_ref 256 ''tcp:pbx.lan:5060'' (Some ''bob'')) = ''pbx.lan''"
  using uri_create_roundtrip [of ucommon_ref "''bob''" "''pbx.lan''" "''pbx.lan:5060''" "'':5060''"
      "''tcp:pbx.lan:5060''" 256]
  by (simp add: uri_name_def known_scheme_def)

text \<open>
  \<open>create\<close> tests for \<open>tcp:\<close> twice and never for \<open>udp:\<close>: a \<open>udp:\<close>
  server keeps its prefix inside the built uri, and the host read back from it is the text
  \<open>udp\<close>. \<open>server\<close> strips the same prefix.
\<close>

theorem uri_create_keeps_udp:
  assumes "ucommon_ok u" and "uri_name user" "uri_name host" "length user + length host + 9 < sz"
  shows "uri_create u sz (''udp:'' @ host) (Some user) = ''sip:'' @ user @ ''@udp:'' @ host \<and>
    uri_hostid sz (uri_create u sz (''udp:'' @ host) (Some user)) = ''udp'' \<and>
    uri_server u sz (''udp:'' @ host) = ''sip:'' @ host"
proof -
  have at: "CHR ''@'' \<notin> set host" using assms(3) by (simp add: uri_name_def)
  have c: "uri_create u sz (''udp:'' @ host) (Some user) = ''sip:'' @ user @ ''@udp:'' @ host"
    using at assms(4) by (simp add: uri_create_def assms(1))
  have "uri_hostid sz (''sip'' @ CHR '':'' # user @ CHR ''@'' # ''udp'' @ CHR '':'' # host) = ''udp''"
    by (rule hostid_authority [OF assms(2)]) (use assms(3,4) in \<open>auto simp: uri_name_def c_islower_def\<close>)
  moreover have "uri_server u sz (''udp:'' @ host) = ''sip:'' @ host"
  proof -
    have none: "strchr host (CHR ''@'') = None" using at by simp
    show ?thesis using assms(4) by (simp add: uri_server_def assms(1) none)
  qed
  ultimately show ?thesis using c by simp
qed

theorem uri_create_keeps_udp_witness:
  "uri_create ucommon_ref 256 (''udp:'' @ ''pbx'') (Some ''bob'') = ''sip:'' @ ''bob'' @ ''@udp:'' @ ''pbx'' \<and>
     uri_hostid 256 (uri_create ucommon_ref 256 (''udp:'' @ ''pbx'') (Some ''bob'')) = ''udp'' \<and>
     uri_server ucommon_ref 256 (''udp:'' @ ''pbx'') = ''sip:'' @ ''pbx''"
  by (rule uri_create_keeps_udp) (simp_all add: uri_name_def)

text \<open>
  \<open>dialed\<close> takes the scheme of the registration for a bare number, but writes the
  \<open>h323\<close> scheme without its colon: the dialed number is glued to the scheme name.
\<close>

theorem uri_dialed_h323_no_colon:
  assumes "ucommon_ok u" and "uri_name num" "uri_name host" "length num + length host + 5 < sz"
  shows "uri_dialed u sz num (''h323:'' @ host) = ''h323'' @ num @ ''@'' @ host"
proof -
  have no: "\<not> known_scheme num" by (rule uri_name_no_scheme [OF assms(2)])
  have at: "CHR ''@'' \<notin> set num" "CHR ''@'' \<notin> set host" using assms(2,3) by (auto simp: uri_name_def)
  have none: "strchr (''h323:'' @ host) (CHR ''@'') = None" using at by simp
  show ?thesis
    using at(1) assms(4) none no_scheme_simps [OF no]
    by (simp add: uri_dialed_def scheme_eqn [OF assms(1)])
qed

theorem uri_dialed_h323_no_colon_witness:
  "uri_dialed ucommon_ref 256 ''100'' ''h323:gk'' = ''h323100@gk''"
  using uri_dialed_h323_no_colon [of ucommon_ref "''100''" "''gk''" 256] by (simp add: uri_name_def)

text \<open>
  The parsers take any run of lower-case letters before a colon for a scheme. For a bare
  \<open>host:port\<close> whose host is such a run (\<open>localhost:5060\<close>) the host read is the text
  of the port and the port read is 0; and for a scheme with digits (\<open>h323:\<close>) the scheme is
  not skipped at all, so an explicit port is lost and the host read is \<open>h323\<close>.
\<close>

theorem uri_scheme_ambiguity:
  assumes "list_all c_islower h" and "uri_name host" and "length (show_nat p) < sz" "5 + length host < sz"
  shows "uri_hostid sz (h @ '':'' @ show_nat p) = show_nat p \<and> uri_portid (h @ '':'' @ show_nat p) = 0
    \<and> uri_portid (''h323:'' @ host @ '':'' @ show_nat p) = 0 \<and> uri_hostid sz (''h323:'' @ host) = ''h323''"
proof (intro conjI)
  have d: "uri_name (show_nat p)" by simp
  then have nc: "CHR '':'' \<notin> set (show_nat p)" "CHR ''@'' \<notin> set (show_nat p)" by (auto simp: uri_name_def)
  have br: "(case show_nat p of [] \<Rightarrow> False | c # _ \<Rightarrow> c = CHR ''['') = False"
    using d by (cases "show_nat p") (auto simp: uri_name_def)
  have sk: "skip_scheme (h @ '':'' @ show_nat p) = show_nat p"
    using assms(1) by (simp add: skip_scheme_lower)
  show "uri_hostid sz (h @ '':'' @ show_nat p) = show_nat p"
    using nc br assms(3) unfolding uri_hostid_def sk by (simp add: Let_def)
  show "uri_portid (h @ '':'' @ show_nat p) = 0"
    using nc br unfolding uri_portid_def sk by (auto simp: Let_def split: list.split)
  let ?h = "''h323'' @ CHR '':'' # host @ CHR '':'' # show_nat p"
  have sk2: "skip_scheme (''h323:'' @ x) = ''h323:'' @ x" for x
    by (simp add: skip_scheme_def c_islower_def)
  have l: "strrchr ((''h323'' @ CHR '':'' # host) @ CHR '':'' # show_nat p) (CHR '':'') =
      Some (CHR '':'' # show_nat p)" using nc(1) by (rule strrchr_append_notin)
  have f: "strchr (''h323'' @ CHR '':'' # (host @ CHR '':'' # show_nat p)) (CHR '':'') =
      Some (CHR '':'' # host @ CHR '':'' # show_nat p)" by (rule strchr_append_notin) simp
  have "length (CHR '':'' # show_nat p) \<noteq> length (CHR '':'' # host @ CHR '':'' # show_nat p)" by simp
  then have ne: "CHR '':'' # show_nat p \<noteq> CHR '':'' # host @ CHR '':'' # show_nat p" by metis
  then show "uri_portid (''h323:'' @ host @ '':'' @ show_nat p) = 0"
    using l f unfolding uri_portid_def sk2 by (simp add: Let_def)
  have nh: "CHR ''@'' \<notin> set host" "CHR '':'' \<notin> set host" using assms(2) by (auto simp: uri_name_def)
  have fits: "fit sz (''h323:'' @ host) = ''h323:'' @ host" using assms(4) by simp
  then show "uri_hostid sz (''h323:'' @ host) = ''h323''"
    using nh unfolding uri_hostid_def sk2 by (simp add: Let_def cut_at_def)
qed

theorem uri_scheme_ambiguity_witness:
  "uri_hostid 256 ''localhost:5060'' = ''5060'' \<and> uri_portid ''localhost:5060'' = 0
    \<and> uri_portid ''h323:gk:5060'' = 0 \<and> uri_hostid 256 ''h323:gk'' = ''h323''"
  using uri_scheme_ambiguity [of "''localhost''" "''gk''" 5060 256]
  by (simp add: uri_name_def c_islower_def show_nat_5062)

section \<open>Stepping through the addresses\<close>

lemma next_pick_Some:
  "next_pick p l node = Some n \<Longrightarrow> n \<in> set l \<and> p \<le> sv_priority n \<or> node = Some n"
  by (induction l arbitrary: node) (fastforce simp: not_less split: if_splits)+

lemma next_pick_node: "next_pick p l (Some m) \<noteq> None"
  by (induction l arbitrary: m) (auto split: if_splits)

lemma next_pick_None_iff: "next_pick p l None = None \<longleftrightarrow> (\<forall>n \<in> set l. sv_priority n < p)"
  by (induction l) (auto simp: next_pick_node)

lemma uri_next_fields [simp]: "us_srvlist (uri_next s) = us_srvlist s"
  by (simp add: uri_next_def Let_def split: option.split)

lemma uri_next_None_iff:
  "us_entry (uri_next s) = None \<longleftrightarrow> (\<forall>n \<in> set (us_srvlist s). sv_priority n < us_pri s + 1)"
  by (simp add: uri_next_def Let_def next_pick_None_iff [symmetric] split: option.split)

lemma uri_next_Some:
  assumes "us_entry (uri_next s) = Some a"
  shows "\<exists>n \<in> set (us_srvlist s). a = sv_addr n \<and> us_pri (uri_next s) = sv_priority n \<and>
    us_pri s + 1 \<le> sv_priority n"
  using assms next_pick_Some [of "us_pri s + 1" "us_srvlist s" None]
  by (auto simp: uri_next_def Let_def split: option.splits)

lemma uri_walk_ends:
  assumes "\<forall>n \<in> set (us_srvlist s). unat (sv_priority n) < 65535" and "unat (us_pri s) < 65535"
  shows "\<exists>l. uri_walk s acc = Some (acc @ l) \<and>
    set l \<subseteq> sv_addr ` {n \<in> set (us_srvlist s). us_pri s < sv_priority n}"
  using assms
proof (induction "65535 - unat (us_pri s)" arbitrary: s acc rule: less_induct)
  case less
  show ?case
  proof (cases "us_entry (uri_next s)")
    case None
    then show ?thesis by (simp add: uri_walk.simps [of s])
  next
    case (Some a)
    then obtain n where n: "n \<in> set (us_srvlist s)" "a = sv_addr n"
        "us_pri (uri_next s) = sv_priority n" "us_pri s + 1 \<le> sv_priority n"
      using uri_next_Some by blast
    have above: "unat (us_pri s) < unat (us_pri (uri_next s))"
      using n(3,4) less.prems(2) by (simp add: word_le_nat_alt unat_word_ariths)
    then have dec: "65535 - unat (us_pri (uri_next s)) < 65535 - unat (us_pri s)"
      using n less.prems by simp
    have "\<exists>l. uri_walk (uri_next s) (acc @ [a]) = Some ((acc @ [a]) @ l) \<and>
        set l \<subseteq> sv_addr ` {n \<in> set (us_srvlist (uri_next s)). us_pri (uri_next s) < sv_priority n}"
      by (rule less.hyps [OF dec]) (use less.prems n in auto)
    then obtain l where "uri_walk (uri_next s) (acc @ [a]) = Some (acc @ a # l)"
        "set l \<subseteq> sv_addr ` {n \<in> set (us_srvlist s). us_pri (uri_next s) < sv_priority n}" by auto
    moreover from this(2) above n have "set (a # l) \<subseteq> sv_addr ` {n \<in> set (us_srvlist s). us_pri s < sv_priority n}"
      by (auto simp: word_less_nat_alt)
    ultimately show ?thesis using Some by (auto simp: uri_walk.simps [of s] intro!: exI [of _ "a # l"])
  qed
qed

text \<open>
  C35. Walking the addresses of an SRV answer with \<open>next\<close> comes to an end and only returns
  addresses of the answer, as long as no record has the priority 65535.
\<close>

theorem uri_walk_terminates:
  assumes "\<forall>n \<in> set (us_srvlist s). unat (sv_priority n) < 65535" and "unat (us_pri s) < 65535"
  shows "\<exists>l. uri_walk s [] = Some l \<and> set l \<subseteq> sv_addr ` set (us_srvlist s)"
  using uri_walk_ends [OF assms, of "[]"] by fastforce

theorem uri_walk_terminates_witness:
  "\<exists>l. uri_walk \<lparr>us_srvlist = [\<lparr>sv_addr = 7, sv_weight = 0, sv_priority = 10\<rparr>], us_entry = None, us_pri = 0\<rparr> []
     = Some l \<and> set l \<subseteq> {7}"
  using uri_walk_terminates [of "\<lparr>us_srvlist = [\<lparr>sv_addr = 7, sv_weight = 0, sv_priority = 10\<rparr>],
      us_entry = None, us_pri = 0\<rparr>"] by simp

text \<open>
  The priority that \<open>next\<close> increments is 16 bits wide: with a record of priority 65535
  in the answer the walk starts over after it and never returns \<open>NULL\<close>.
\<close>

theorem uri_walk_diverges:
  assumes "n \<in> set (us_srvlist s)" and "sv_priority n = 65535"
  shows "uri_walk s acc = None"
proof (rule ccontr)
  assume "uri_walk s acc \<noteq> None"
  then obtain r where ret: "uri_walk s acc = Some r" by blast
  have "n \<notin> set (us_srvlist s)"
  proof (rule uri_walk.raw_induct [where P = "\<lambda>s acc r. n \<notin> set (us_srvlist s)", OF _ ret])
    fix f s acc r
    assume IH: "\<And>s acc r. f s acc = Some r \<Longrightarrow> n \<notin> set (us_srvlist s)"
      and eq: "(let t = uri_next s in case us_entry t of None \<Rightarrow> Some acc
        | Some a \<Rightarrow> f t (acc @ [a])) = Some r"
    show "n \<notin> set (us_srvlist s)"
    proof (cases "us_entry (uri_next s)")
      case None
      have "\<not> (65535 :: 16 word) < us_pri s + 1"
        using unat16_less [of "us_pri s + 1"] by (simp add: not_less word_le_nat_alt)
      with None assms(2) show ?thesis by (auto simp: uri_next_None_iff)
    next
      case (Some a)
      with eq have "f (uri_next s) (acc @ [a]) = Some r" by (simp add: Let_def)
      from IH [OF this] show ?thesis by simp
    qed
  qed
  with assms(1) show False by blast
qed

theorem uri_walk_diverges_witness:
  "uri_walk \<lparr>us_srvlist = [\<lparr>sv_addr = 7, sv_weight = 0, sv_priority = 65535\<rparr>], us_entry = None,
     us_pri = 0\<rparr> [] = None"
  by (rule uri_walk_diverges [of "\<lparr>sv_addr = 7, sv_weight = 0, sv_priority = 65535\<rparr>"]) simp_all

end
