(* ===== verification/SipRegistry.thy ===== *)
theory SipRegistry
  imports SipTimeslot Uri
begin

text \<open>
  Registrations of the SIP driver: \<^verbatim>\<open>sipw/registry.cpp\<close>, the lookups of
  \<^verbatim>\<open>sipw/driver.cpp\<close>, and the choice of a route in \<^verbatim>\<open>sipw/srv.cpp\<close>.
  A registration id of -1 means that there is none. Requests to the SIP stack go to the trace.
\<close>

section \<open>Routes\<close>

text \<open>The transports of the driver; a context the driver does not have is \<open>None\<close>.\<close>

record contexts =
  cx_out :: "nat option"
  cx_udp :: "nat option"
  cx_tcp :: "nat option"
  cx_tls :: "nat option"

text \<open>
  \<open>srv::route\<close>: the context for a uri and the text left in the buffer. \<open>resolve\<close> is what
  \<open>set\<close> and \<open>Socket::query\<close> make of the name: numeric host, port, and whether the
  address is an IPv6 one; \<open>None\<close> where either fails.
\<close>

definition srv_route ::
    "ucommon \<Rightarrow> (string \<Rightarrow> bool) \<Rightarrow> (string \<Rightarrow> (string \<times> 16 word \<times> bool) option) \<Rightarrow> contexts \<Rightarrow> nat \<Rightarrow> string \<Rightarrow>
     nat option \<times> string"
where
  "srv_route u is_numeric resolve cx sz uri0 =
     (let port = uri_portid uri0;
          host = uri_hostid 256 uri0;
          (schema, ctx, uri) =
            (if u_eqn u uri0 ''sips:'' 5 then (''sips'', cx_tls cx, uri0)
             else if u_eqn u uri0 ''tcp:'' 4 then (''sip'', cx_tcp cx, drop 4 uri0)
             else if u_eqn u uri0 ''udp:'' 4 then (''sip'', cx_udp cx, drop 4 uri0)
             else (''sip'', cx_out cx, uri0));
          cp = strrchr host (CHR ''.'');
          here = (is_numeric host \<or> cp = None \<or> u_eq u (the cp) ''.local'' \<or> u_eq u (the cp) ''.localdomain'');
          port1 = (if port \<noteq> 0 then port else if u_eq u schema ''sips'' then 5061 else 5060);
          buf = (if here
                 then fit sz (schema @ '':'' @ (if CHR '':'' \<in> set host then ''['' @ host @ '']'' else host)
                        @ '':'' @ show_nat (unat port1))
                 else []);
          sid = (if here then buf else uri0)
      in case resolve sid of
           None \<Rightarrow> (None, buf)
         | Some (addr, p, v6) \<Rightarrow>
             (ctx, fit sz (schema @ '':'' @ (if v6 then ''['' @ addr @ '']'' else addr) @ '':'' @ show_nat (unat p))))"

section \<open>Construction\<close>

text \<open>
  What the constructor gets from outside: the route for a server, the interface towards it, a
  fresh uuid, and the registration id the stack assigns (-1 where it refuses).
\<close>

record reg_env =
  re_route :: "string \<Rightarrow> nat option \<times> string"
  re_via :: "string \<Rightarrow> string option"
  re_uuid :: string
  re_rid :: int

definition first_of :: "'a option \<Rightarrow> 'a option \<Rightarrow> 'a option" where
  "first_of a b = (case a of Some x \<Rightarrow> Some x | None \<Rightarrow> b)"

text \<open>
  The two early returns leave \<open>rid\<close> and the other fields as the memory was: it is not
  cleared before the constructor runs.
\<close>

definition sip_registration ::
    "ucommon \<Rightarrow> reg_env \<Rightarrow> nat \<Rightarrow> string \<Rightarrow> (string \<Rightarrow> string option) \<Rightarrow> 32 word \<Rightarrow> 16 word \<Rightarrow> world \<Rightarrow> world"
where
  "sip_registration u env r name keys expiration myport w =
     (let w1 = Registration_construct u r name keys (Some ''sip:'') w;
          expires = (case keys ''expires'' of Some cp \<Rightarrow> atoi cp | None \<Rightarrow> expiration);
          w2 = upd_reg r (\<lambda>g. g\<lparr>rg_context := None, rg_fwd := None, rg_expires := expires\<rparr>) w1
      in case first_of (keys ''identity'') (keys ''uri'') of
           None \<Rightarrow> w2
         | Some identity \<Rightarrow>
             (let cp = (case first_of (keys ''server'') (keys ''srv'') of Some c \<Rightarrow> c | None \<Rightarrow> identity);
                  (context, server) = re_route env cp;
                  w3 = upd_reg r (\<lambda>g. g\<lparr>rg_context := context\<rparr>) w2
              in case context of
                   None \<Rightarrow> w3
                 | Some ctx \<Rightarrow>
                     (let user = snd (uri_userid u 80 (Some identity));
                          host = uri_hostid 256 identity;
                          userid = first_of (first_of (keys ''userid'') (keys ''user''))
                                     (Some (snd (uri_userid u 256 (Some identity))));
                          script = first_of (keys ''script'') (Some name);
                          uri = fit 256 (''sip:'' @ user @ ''@'' @ host);
                          iface = Registration_getInterface u (re_via env) (Some ''sip:'') server 180;
                          uuid = re_uuid env;
                          localnames = first_of (keys ''localnames'') (Some host);
                          contact = fit 256 (''sip:'' @ uuid @ ''@'' @
                            (if CHR '':'' \<in> set iface then ''['' @ iface @ '']'' else iface) @ '':'' @ show_nat (unat myport));
                          w4 = upd_reg r (\<lambda>g. g\<lparr>rg_server := Some server, rg_userid := userid,
                                 rg_secret := keys ''secret'', rg_script := script,
                                 rg_targets := keys ''targets'', rg_uri := Some uri, rg_uuid := uuid,
                                 rg_localnames := localnames, rg_contact := Some contact,
                                 rg_rid := re_rid env\<rparr>) w3
                      in if re_rid env \<noteq> - 1 then emit (SendRegistry context (re_rid env)) w4 else w4)))"

text \<open>
  \<open>driver::activate\<close>: a registration is constructed in memory that \<open>memget\<close> has
  cleared; the result is an error text where it has no id.
\<close>

definition sip_activate ::
    "ucommon \<Rightarrow> reg_env \<Rightarrow> nat \<Rightarrow> string \<Rightarrow> (string \<Rightarrow> string option) \<Rightarrow> 32 word \<Rightarrow> 16 word \<Rightarrow> world \<Rightarrow>
     string option \<times> world"
where
  "sip_activate u env r name keys expires port w =
     (let w1 = sip_registration u env r name keys expires port (upd_reg r (\<lambda>_. blank_registration) w)
      in if rg_rid (w_regs w1 r) \<noteq> - 1 then (None, w1) else (Some ''failed registration'', w1))"

section \<open>Lookup\<close>

fun find_reg :: "(registration \<Rightarrow> bool) \<Rightarrow> world \<Rightarrow> nat list \<Rightarrow> nat option" where
  "find_reg P w [] = None"
| "find_reg P w (r # rs) = (if P (w_regs w r) then Some r else find_reg P w rs)"

definition sip_contact :: "ucommon \<Rightarrow> string \<Rightarrow> world \<Rightarrow> nat option" where
  "sip_contact u uuid w = find_reg (\<lambda>g. u_eq u (rg_uuid g) uuid) w (w_registrations w)"

definition sip_locate_id :: "ucommon \<Rightarrow> string \<Rightarrow> world \<Rightarrow> nat option" where
  "sip_locate_id u rid w = find_reg (\<lambda>g. u_eq u (rg_id g) rid) w (w_registrations w)"

definition sip_locate :: "int \<Rightarrow> world \<Rightarrow> nat option \<times> world" where
  "sip_locate rid w =
     (case find_reg (\<lambda>g. rg_rid g = rid) w (w_registrations w) of
        Some r \<Rightarrow> (Some r, w)
      | None \<Rightarrow> (None, emit (Log ''unknown registry id %d requested'') w))"

section \<open>Answers of the registrar\<close>

text \<open>
  \<open>confirm\<close>, \<open>failed\<close> and \<open>cancel\<close> pass on to the registration that replaces
  this one; a chain that ends in itself is followed for ever.
\<close>

partial_function (option) sip_confirm :: "nat \<Rightarrow> world \<Rightarrow> world option" where
  "sip_confirm r w =
     (let g = w_regs w r
      in case rg_fwd g of
           Some f \<Rightarrow> sip_confirm f w
         | None \<Rightarrow>
             if rg_rid g = - 1 \<or> rg_context g = None \<or> rg_activated g \<noteq> 0 then Some w
             else Some (upd_reg r (\<lambda>g. g\<lparr>rg_activated := w_clock w\<rparr>) w))"

definition sip_release_reg :: "nat \<Rightarrow> world \<Rightarrow> world" where
  "sip_release_reg r w =
     (let g = w_regs w r
      in if rg_fwd g \<noteq> None then w
         else if rg_rid g = - 1 \<or> rg_context g = None then w
         else upd_reg r (\<lambda>g. g\<lparr>rg_rid := - 1, rg_context := None\<rparr>)
                (emit (ReleaseRegistry (rg_context g) (rg_rid g)) (Registration_release r w)))"

partial_function (option) sip_failed :: "nat \<Rightarrow> world \<Rightarrow> world option" where
  "sip_failed r w =
     (let g = w_regs w r
      in case rg_fwd g of
           Some f \<Rightarrow>
             Option.bind (sip_failed f w) (\<lambda>w1. Some (upd_reg r (\<lambda>g. g\<lparr>rg_rid := - 1\<rparr>) w1))
         | None \<Rightarrow>
             if rg_rid g = - 1 \<or> rg_context g = None then Some w
             else Some (upd_reg r (\<lambda>g. g\<lparr>rg_rid := - 1\<rparr>) (Registration_release r
                    (if rg_activated g \<noteq> 0 then emit (ReleaseRegistry (rg_context g) (rg_rid g)) w else w))))"

partial_function (option) sip_cancel :: "nat \<Rightarrow> world \<Rightarrow> world option" where
  "sip_cancel r w =
     (let g = w_regs w r
      in case rg_fwd g of
           Some f \<Rightarrow>
             Option.bind (sip_cancel f w) (\<lambda>w1. Some (upd_reg r (\<lambda>g. g\<lparr>rg_rid := - 1\<rparr>) w1))
         | None \<Rightarrow>
             if rg_rid g = - 1 then Some w
             else Some (upd_reg r (\<lambda>g. g\<lparr>rg_rid := - 1\<rparr>) (Registration_release r
                    (if rg_activated g \<noteq> 0 then emit (ReleaseRegistry (rg_context g) (rg_rid g)) w else w))))"

definition sip_authenticate :: "nat \<Rightarrow> string \<Rightarrow> world \<Rightarrow> world" where
  "sip_authenticate r realm w =
     (let g = w_regs w r
      in emit (AddAuthentication (rg_context g) (rg_userid g) (rg_secret g) realm) w)"

section \<open>The life of a registration\<close>

text \<open>
  The abstract automaton: a registration has no id, waits for the registrar's answer, or is
  active. Of it the driver only needs to know two things: which phase, and whether the
  registrar must be told of the end.
\<close>

datatype reg_phase = Unregistered | Pending | Active

definition reg_phase_of :: "registration \<Rightarrow> reg_phase" where
  "reg_phase_of g = (if rg_rid g = - 1 then Unregistered else if rg_activated g = 0 then Pending else Active)"

datatype registrar = Confirm | Fail | Cancel | Withdraw

fun registrar_step :: "nat \<Rightarrow> world \<Rightarrow> registrar \<Rightarrow> world option" where
  "registrar_step r w Confirm = sip_confirm r w"
| "registrar_step r w Fail = sip_failed r w"
| "registrar_step r w Cancel = sip_cancel r w"
| "registrar_step r w Withdraw = Some (sip_release_reg r w)"

fun reg_next :: "reg_phase \<Rightarrow> registrar \<Rightarrow> reg_phase" where
  "reg_next Pending Confirm = Active"
| "reg_next p Confirm = p"
| "reg_next p _ = Unregistered"

text \<open>Whether a step tells the registrar: the end of an active registration, or any withdrawal.\<close>

fun reg_tells :: "reg_phase \<Rightarrow> registrar \<Rightarrow> bool" where
  "reg_tells Active Fail = True"
| "reg_tells Active Cancel = True"
| "reg_tells p Withdraw = (p \<noteq> Unregistered)"
| "reg_tells p _ = False"

fun_cases reg_next_active: "reg_next p x = Active"

lemma reg_unfold:
  assumes "rg_fwd (w_regs w r) = None"
  shows "sip_confirm r w = (if rg_rid (w_regs w r) = - 1 \<or> rg_context (w_regs w r) = None \<or>
        rg_activated (w_regs w r) \<noteq> 0 then Some w
      else Some (upd_reg r (\<lambda>g. g\<lparr>rg_activated := w_clock w\<rparr>) w))"
    "sip_failed r w = (if rg_rid (w_regs w r) = - 1 \<or> rg_context (w_regs w r) = None then Some w
      else Some (upd_reg r (\<lambda>g. g\<lparr>rg_rid := - 1\<rparr>) (Registration_release r
        (if rg_activated (w_regs w r) \<noteq> 0
         then emit (ReleaseRegistry (rg_context (w_regs w r)) (rg_rid (w_regs w r))) w else w))))"
    "sip_cancel r w = (if rg_rid (w_regs w r) = - 1 then Some w
      else Some (upd_reg r (\<lambda>g. g\<lparr>rg_rid := - 1\<rparr>) (Registration_release r
        (if rg_activated (w_regs w r) \<noteq> 0
         then emit (ReleaseRegistry (rg_context (w_regs w r)) (rg_rid (w_regs w r))) w else w))))"
  using assms by (simp_all add: sip_confirm.simps [of r w] sip_failed.simps [of r w]
      sip_cancel.simps [of r w] Let_def)

lemmas reg_step_defs = reg_unfold sip_release_reg_def Registration_release_def reg_phase_of_def

lemma registrar_step_refines:
  assumes "rg_fwd (w_regs w r) = None" and "rg_context (w_regs w r) \<noteq> None" and "w_clock w \<noteq> 0"
  shows "\<exists>w'. registrar_step r w x = Some w' \<and>
    reg_phase_of (w_regs w' r) = reg_next (reg_phase_of (w_regs w r)) x \<and>
    w_trace w' = w_trace w @ (if reg_tells (reg_phase_of (w_regs w r)) x
      then [ReleaseRegistry (rg_context (w_regs w r)) (rg_rid (w_regs w r))] else [])"
  using assms by (cases x) (auto simp: reg_step_defs Let_def)

text \<open>
  C15. The answers of the registrar drive a registration through its life as the automaton
  says: it becomes active only by a confirmation while it is pending; a failure, a
  cancellation or a withdrawal ends it; and the registrar is told of the end exactly when an active
  registration fails or is cancelled, or when one that has an id is withdrawn.
\<close>

theorem sip_registration_lifecycle:
  assumes "rg_fwd (w_regs w r) = None" and "rg_context (w_regs w r) \<noteq> None" and "w_clock w \<noteq> 0"
  shows "case registrar_step r w x of None \<Rightarrow> False
    | Some w' \<Rightarrow> reg_phase_of (w_regs w' r) = reg_next (reg_phase_of (w_regs w r)) x \<and>
        (reg_phase_of (w_regs w' r) = Active \<longrightarrow>
          reg_phase_of (w_regs w r) = Active \<or> reg_phase_of (w_regs w r) = Pending \<and> x = Confirm) \<and>
        w_trace w' = w_trace w @ (if reg_tells (reg_phase_of (w_regs w r)) x
          then [ReleaseRegistry (rg_context (w_regs w r)) (rg_rid (w_regs w r))] else [])"
  using registrar_step_refines [OF assms, of x] by (auto elim: reg_next_active)

definition sip_reg_world :: world where
  "sip_reg_world = blank_world\<lparr>w_regs := (\<lambda>_. blank_registration\<lparr>rg_context := Some 1, rg_rid := 7,
     rg_limit := 2, rg_uuid := ''u1''\<rparr>), w_registrations := [0], w_clock := 1000\<rparr>"

lemma sip_reg_world_simps [simp]:
  "rg_fwd (w_regs sip_reg_world r) = None" "rg_context (w_regs sip_reg_world r) = Some 1"
  "reg_phase_of (w_regs sip_reg_world r) = Pending" "w_clock sip_reg_world = 1000"
  by (simp_all add: sip_reg_world_def blank_registration_def reg_phase_of_def)

theorem sip_registration_lifecycle_witness:
  "\<exists>w'. registrar_step 0 sip_reg_world Confirm = Some w' \<and> reg_phase_of (w_regs w' 0) = Active"
proof (cases "registrar_step 0 sip_reg_world Confirm")
  case None
  with sip_registration_lifecycle [of sip_reg_world 0 Confirm] show ?thesis by simp
next
  case (Some w')
  with sip_registration_lifecycle [of sip_reg_world 0 Confirm] show ?thesis by simp
qed

text \<open>
  The end of a registration is final: once it has failed, was cancelled or was withdrawn no
  later answer of the registrar changes it or asks anything of the SIP stack, so a
  registration lost once stays lost until the server restarts.
\<close>

theorem sip_registration_final:
  assumes "rg_fwd (w_regs w r) = None" and "rg_rid (w_regs w r) = - 1"
  shows "registrar_step r w x = Some w \<and> (\<forall>rid. rid \<noteq> - 1 \<longrightarrow> fst (sip_locate rid w) \<noteq> Some r)"
proof
  show "registrar_step r w x = Some w" using assms by (cases x) (simp_all add: reg_step_defs)
  have "find_reg P w l = Some r \<Longrightarrow> P (w_regs w r)" for P l
    by (induction l) (auto split: if_splits)
  then show "\<forall>rid. rid \<noteq> - 1 \<longrightarrow> fst (sip_locate rid w) \<noteq> Some r"
    using assms(2) by (auto simp: sip_locate_def split: option.splits)
qed

theorem sip_registration_final_witness:
  "registrar_step 0 (upd_reg 0 (\<lambda>g. g\<lparr>rg_rid := - 1\<rparr>) sip_reg_world) Confirm =
     Some (upd_reg 0 (\<lambda>g. g\<lparr>rg_rid := - 1\<rparr>) sip_reg_world)"
  using sip_registration_final [of "upd_reg 0 (\<lambda>g. g\<lparr>rg_rid := - 1\<rparr>) sip_reg_world" 0 Confirm]
  by (simp add: sip_reg_world_def blank_registration_def)

lemma sip_registration_registrations:
  "w_registrations (sip_registration u env r name keys ex port w) = u_enlist u r (w_registrations w)"
  by (simp add: sip_registration_def Registration_construct_def Let_def split: option.split prod.split)

lemma activate_early:
  assumes "first_of (keys ''identity'') (keys ''uri'') = None \<or> (\<forall>cp. fst (re_route env cp) = None)"
  shows "rg_rid (w_regs (sip_registration u env r name keys ex port w) r) = rg_rid (w_regs w r)"
    "rg_context (w_regs (sip_registration u env r name keys ex port w) r) = None"
proof -
  have c: "rg_rid (w_regs (Registration_construct u r name keys sid w) r) = rg_rid (w_regs w r)" for sid
    by (simp add: Registration_construct_def Let_def split: prod.split)
  have "rg_rid (w_regs (sip_registration u env r name keys ex port w) r) = rg_rid (w_regs w r) \<and>
    rg_context (w_regs (sip_registration u env r name keys ex port w) r) = None"
  proof (cases "first_of (keys ''identity'') (keys ''uri'')")
    case None
    with c show ?thesis by (simp add: sip_registration_def Let_def)
  next
    case (Some identity)
    let ?cp = "case first_of (keys ''server'') (keys ''srv'') of Some c \<Rightarrow> c | None \<Rightarrow> identity"
    obtain s where "re_route env ?cp = (None, s)"
      using assms Some by (metis option.distinct(1) prod.collapse)
    with Some c show ?thesis by (simp add: sip_registration_def Let_def)
  qed
  then show "rg_rid (w_regs (sip_registration u env r name keys ex port w) r) = rg_rid (w_regs w r)"
    "rg_context (w_regs (sip_registration u env r name keys ex port w) r) = None"
    by simp_all
qed

text \<open>
  A section without \<open>identity\<close> and \<open>uri\<close>, or whose server cannot be routed,
  is not registered, but \<open>activate\<close> reports that it was: the constructor returns before it
  sets the registration id to -1, and the id 0 of cleared memory counts as assigned. The
  registration stays in the list, with no context.
\<close>

theorem sip_activate_unset_id:
  assumes "ucommon_ok u"
    and "first_of (keys ''identity'') (keys ''uri'') = None \<or> (\<forall>cp. fst (re_route env cp) = None)"
  shows "case sip_activate u env r name keys ex port w of
      (err, w') \<Rightarrow> err = None \<and> rg_rid (w_regs w' r) = 0 \<and> rg_context (w_regs w' r) = None \<and>
        r \<in> set (w_registrations w')"
proof -
  let ?w0 = "upd_reg r (\<lambda>_. blank_registration) w"
  note e = activate_early [OF assms(2), where u = u and r = r and name = name and ex = ex and port = port and w = ?w0]
  have "r \<in> set (w_registrations (sip_registration u env r name keys ex port ?w0))"
    using assms(1) by (simp add: sip_registration_registrations)
  with e show ?thesis by (simp add: sip_activate_def Let_def blank_registration_def)
qed

theorem sip_activate_unset_id_witness:
  "fst (sip_activate ucommon_ref \<lparr>re_route = (\<lambda>_. (None, [])), re_via = (\<lambda>_. None), re_uuid = ''u'', re_rid = 3\<rparr>
     0 ''office'' (\<lambda>_. None) 300 5060 blank_world) = None"
  using sip_activate_unset_id [OF ucommon_ref_ok, of "\<lambda>_. None" "\<lparr>re_route = (\<lambda>_. (None, [])),
      re_via = (\<lambda>_. None), re_uuid = ''u'', re_rid = 3\<rparr>" 0 "''office''" 300 5060 blank_world]
  by (simp add: first_of_def split: prod.splits)

end
