(* ===== verification/SipThread.thy ===== *)
theory SipThread
  imports SipRegistry
begin

text \<open>
  The event threads of the SIP driver: \<^verbatim>\<open>sipw/thread.cpp\<close>. One pass of the loop of
  \<open>thread::run\<close> takes an event from the stack and acts on it; \<open>invite\<close> admits a
  call under its registration, assigns it a timeslot, and answers.
\<close>

section \<open>Events of the stack\<close>

datatype exosip_event_type =
    REGISTRATION_REFRESHED | REGISTRATION_SUCCESS | REGISTRATION_FAILURE | REGISTRATION_TERMINATED
  | CALL_INVITE | CALL_REINVITE | CALL_TIMEOUT | CALL_NOANSWER | CALL_PROCEEDING | CALL_RINGING
  | CALL_ANSWERED | CALL_REDIRECTED | CALL_REQUESTFAILURE | CALL_SERVERFAILURE | CALL_GLOBALFAILURE
  | CALL_ACK | CALL_CANCELLED | CALL_CLOSED | CALL_RELEASED
  | CALL_MESSAGE_NEW | CALL_MESSAGE_PROCEEDING | CALL_MESSAGE_ANSWERED | CALL_MESSAGE_REDIRECTED
  | CALL_MESSAGE_REQUESTFAILURE | CALL_MESSAGE_SERVERFAILURE | CALL_MESSAGE_GLOBALFAILURE
  | MESSAGE_NEW | MESSAGE_PROCEEDING | MESSAGE_ANSWERED | MESSAGE_REDIRECTED
  | MESSAGE_REQUESTFAILURE | MESSAGE_SERVERFAILURE | MESSAGE_GLOBALFAILURE
  | SUBSCRIPTION_NOANSWER | SUBSCRIPTION_PROCEEDING | SUBSCRIPTION_ANSWERED | SUBSCRIPTION_REDIRECTED
  | SUBSCRIPTION_REQUESTFAILURE | SUBSCRIPTION_SERVERFAILURE | SUBSCRIPTION_GLOBALFAILURE
  | SUBSCRIPTION_NOTIFY | IN_SUBSCRIPTION_NEW
  | NOTIFICATION_NOANSWER | NOTIFICATION_PROCEEDING | NOTIFICATION_ANSWERED | NOTIFICATION_REDIRECTED
  | NOTIFICATION_REQUESTFAILURE | NOTIFICATION_SERVERFAILURE | NOTIFICATION_GLOBALFAILURE
  | OTHER_EVENT

definition eid :: "exosip_event_type \<Rightarrow> string" where
  "eid ev = (case ev of
      REGISTRATION_REFRESHED \<Rightarrow> ''register'' | REGISTRATION_SUCCESS \<Rightarrow> ''register''
    | CALL_INVITE \<Rightarrow> ''invite'' | CALL_REINVITE \<Rightarrow> ''reinvite'' | CALL_TIMEOUT \<Rightarrow> ''timeout''
    | CALL_NOANSWER \<Rightarrow> ''noanswer'' | SUBSCRIPTION_NOANSWER \<Rightarrow> ''noanswer''
    | NOTIFICATION_NOANSWER \<Rightarrow> ''noanswer''
    | MESSAGE_PROCEEDING \<Rightarrow> ''proceed'' | NOTIFICATION_PROCEEDING \<Rightarrow> ''proceed''
    | CALL_MESSAGE_PROCEEDING \<Rightarrow> ''proceed'' | SUBSCRIPTION_PROCEEDING \<Rightarrow> ''proceed''
    | CALL_PROCEEDING \<Rightarrow> ''proceed'' | CALL_RINGING \<Rightarrow> ''ring''
    | MESSAGE_ANSWERED \<Rightarrow> ''answer'' | CALL_ANSWERED \<Rightarrow> ''answer'' | CALL_MESSAGE_ANSWERED \<Rightarrow> ''answer''
    | SUBSCRIPTION_ANSWERED \<Rightarrow> ''answer'' | NOTIFICATION_ANSWERED \<Rightarrow> ''answer''
    | SUBSCRIPTION_REDIRECTED \<Rightarrow> ''redirect'' | NOTIFICATION_REDIRECTED \<Rightarrow> ''redirect''
    | CALL_MESSAGE_REDIRECTED \<Rightarrow> ''redirect'' | CALL_REDIRECTED \<Rightarrow> ''redirect''
    | MESSAGE_REDIRECTED \<Rightarrow> ''redirect''
    | REGISTRATION_TERMINATED \<Rightarrow> ''noreg'' | REGISTRATION_FAILURE \<Rightarrow> ''noreg''
    | SUBSCRIPTION_REQUESTFAILURE \<Rightarrow> ''failed'' | NOTIFICATION_REQUESTFAILURE \<Rightarrow> ''failed''
    | CALL_REQUESTFAILURE \<Rightarrow> ''failed'' | CALL_MESSAGE_REQUESTFAILURE \<Rightarrow> ''failed''
    | MESSAGE_REQUESTFAILURE \<Rightarrow> ''failed''
    | SUBSCRIPTION_SERVERFAILURE \<Rightarrow> ''server'' | NOTIFICATION_SERVERFAILURE \<Rightarrow> ''server''
    | CALL_SERVERFAILURE \<Rightarrow> ''server'' | CALL_MESSAGE_SERVERFAILURE \<Rightarrow> ''server''
    | MESSAGE_SERVERFAILURE \<Rightarrow> ''server''
    | SUBSCRIPTION_GLOBALFAILURE \<Rightarrow> ''global'' | NOTIFICATION_GLOBALFAILURE \<Rightarrow> ''global''
    | CALL_GLOBALFAILURE \<Rightarrow> ''global'' | CALL_MESSAGE_GLOBALFAILURE \<Rightarrow> ''global''
    | MESSAGE_GLOBALFAILURE \<Rightarrow> ''global''
    | CALL_ACK \<Rightarrow> ''ack'' | CALL_CLOSED \<Rightarrow> ''bye'' | CALL_RELEASED \<Rightarrow> ''bye'' | CALL_CANCELLED \<Rightarrow> ''cancel''
    | MESSAGE_NEW \<Rightarrow> ''new'' | CALL_MESSAGE_NEW \<Rightarrow> ''new'' | IN_SUBSCRIPTION_NEW \<Rightarrow> ''new''
    | SUBSCRIPTION_NOTIFY \<Rightarrow> ''notify''
    | OTHER_EVENT \<Rightarrow> ''unknown'')"

text \<open>
  \<open>remove_quotes\<close>: for a text that begins with a quote, drop it and whatever the last
  character is. The text \<^verbatim>\<open>"\<close> alone is left as it is: the code writes before it.
\<close>

definition remove_quotes :: "string \<Rightarrow> string" where
  "remove_quotes s = (case s of c # r \<Rightarrow> if c = CHR ''\"'' \<and> r \<noteq> [] then butlast r else s | [] \<Rightarrow> [])"

text \<open>The authorization header of a request; what it lacks is \<open>None\<close>, as the parser of the stack leaves a null pointer.\<close>

record sip_auth =
  sa_username :: "string option"
  sa_uri :: "string option"
  sa_nonce :: "string option"
  sa_response :: "string option"

datatype sip_method = OPTIONS | BYE | OTHER_METHOD

text \<open>
  A request: \<open>sr_parts\<close> tells whether it has the headers and request uri that
  \<open>invite\<close> needs, \<open>sr_user\<close> is the user of the request uri.
\<close>

record sip_request =
  sr_method :: sip_method
  sr_parts :: bool
  sr_user :: "string option"
  sr_auth :: "sip_auth option"

record sip_event =
  se_type :: exosip_event_type
  se_rid :: int
  se_status :: "nat option"
  se_prx_auth :: "string option option"
  se_www_auth :: "string option option"
  se_request :: "sip_request option"
  se_invite :: sip_invite

section \<open>Invitations\<close>

definition SIP_OK :: nat where "SIP_OK = 200"

definition SIP_BAD_REQUEST :: nat where "SIP_BAD_REQUEST = 400"

definition SIP_UNAUTHORIZED :: nat where "SIP_UNAUTHORIZED = 401"

definition SIP_UNDECIPHERABLE :: nat where "SIP_UNDECIPHERABLE = 493"

definition SIP_ADDRESS_INCOMPLETE :: nat where "SIP_ADDRESS_INCOMPLETE = 484"

definition SIP_TEMPORARILY_UNAVAILABLE :: nat where "SIP_TEMPORARILY_UNAVAILABLE = 480"

lemmas sip_thread_codes = SIP_OK_def SIP_BAD_REQUEST_def SIP_UNAUTHORIZED_def SIP_UNDECIPHERABLE_def
  SIP_ADDRESS_INCOMPLETE_def SIP_TEMPORARILY_UNAVAILABLE_def sip_codes

text \<open>
  What the thread uses that is not its own: its context, the realm of the driver, and whether the
  stack can build an answer or the answer to an \<open>OPTIONS\<close> request. \<open>te_unquote\<close> is
  \<open>String::unquote\<close>, with a null pointer where the response names no realm.
\<close>

record thread_env =
  te_context :: "nat option"
  te_realm :: "string option"
  te_builds :: bool
  te_unquote :: "string option \<Rightarrow> string"
  te_script :: script_env

definition answer :: "thread_env \<Rightarrow> int \<Rightarrow> nat \<Rightarrow> world \<Rightarrow> world" where
  "answer te tid code w = emit (SendAnswer (te_context te) tid code False) w"

definition challenge :: "thread_env \<Rightarrow> int \<Rightarrow> world \<Rightarrow> world" where
  "challenge te tid w =
     (if te_builds te then emit (SendAnswer (te_context te) tid SIP_UNAUTHORIZED True) w else w)"

text \<open>
  The authorization test: \<open>None\<close> asks for a challenge, \<open>Some False\<close> refuses,
  \<open>Some True\<close> goes on. The digest itself is not looked at.
\<close>

definition authorized :: "ucommon \<Rightarrow> string option \<Rightarrow> sip_auth option \<Rightarrow> string \<Rightarrow> bool option" where
  "authorized u realm auth uuid =
     (case realm of
        None \<Rightarrow> Some True
      | Some _ \<Rightarrow>
          (case auth of
             None \<Rightarrow> None
           | Some a \<Rightarrow>
               (case (sa_username a, sa_response a) of
                  (Some name, Some _) \<Rightarrow> Some (u_eq u (remove_quotes name) uuid)
                | _ \<Rightarrow> None)))"

text \<open>
  \<open>remove_quotes\<close> asserts that its argument is not null. The user name and the response were tested before, the uri
  and the nonce were not.
\<close>

definition auth_asserts :: "string option \<Rightarrow> sip_auth option \<Rightarrow> bool" where
  "auth_asserts realm auth \<longleftrightarrow>
     (case (realm, auth) of
        (Some _, Some a) \<Rightarrow>
          sa_username a \<noteq> None \<and> sa_response a \<noteq> None \<and> (sa_uri a = None \<or> sa_nonce a = None)
      | _ \<Rightarrow> False)"

text \<open>
  The answer to an \<open>INVITE\<close> that was assigned timeslot \<open>ts\<close>. Where an assertion fails the state is that of the
  moment; \<open>invite_aborts\<close> tells that the process ends there.
\<close>

definition invite_call ::
    "ucommon \<Rightarrow> thread_env \<Rightarrow> nat \<Rightarrow> nat \<Rightarrow> sip_request \<Rightarrow> sip_invite \<Rightarrow> world \<Rightarrow> world" where
  "invite_call u te r ts req m w =
     (if auth_asserts (te_realm te) (sr_auth req) then w
      else case authorized u (te_realm te) (sr_auth req) (rg_uuid (w_regs w r)) of
        None \<Rightarrow> challenge te (si_tid m) w
      | Some False \<Rightarrow> answer te (si_tid m) SIP_FORBIDDEN w
      | Some True \<Rightarrow>
          (let (error, w1) = sip_incoming u (te_script te) ts m w
           in if error \<noteq> 0 then answer te (si_tid m) error w1 else w1))"

text \<open>The invitation up to the assignment of a timeslot: it is answered with an error, or has a registration and a timeslot.\<close>

datatype invite_stage = InviteAnswered world | InvitePlaced nat nat world

definition invite_place :: "ucommon \<Rightarrow> thread_env \<Rightarrow> sip_request \<Rightarrow> sip_invite \<Rightarrow> world \<Rightarrow> invite_stage" where
  "invite_place u te req m w =
     (let tid = si_tid m
      in if \<not> sr_parts req then InviteAnswered (answer te tid SIP_UNDECIPHERABLE w)
         else case sr_user req of
           None \<Rightarrow> InviteAnswered (answer te tid SIP_ADDRESS_INCOMPLETE w)
         | Some uuid \<Rightarrow>
             if uuid = [] then InviteAnswered (answer te tid SIP_ADDRESS_INCOMPLETE w)
             else case sip_contact u uuid w of
               None \<Rightarrow> InviteAnswered (answer te tid SIP_NOT_FOUND w)
             | Some r \<Rightarrow>
                 (case Registration_attach r INCOMING w of
                    (False, w1) \<Rightarrow> InviteAnswered (answer te tid SIP_TEMPORARILY_UNAVAILABLE w1)
                  | (True, w1) \<Rightarrow>
                      (case Timeslot_assign (sip_allocate u) (Some r) INCOMING (si_cid m) w1 of
                         (None, w2) \<Rightarrow>
                           InviteAnswered
                             (answer te tid SIP_TEMPORARILY_UNAVAILABLE (Registration_release_stat r INCOMING w2))
                       | (Some ts, w2) \<Rightarrow> InvitePlaced r ts w2)))"

definition invite :: "ucommon \<Rightarrow> thread_env \<Rightarrow> sip_request \<Rightarrow> sip_invite \<Rightarrow> world \<Rightarrow> world" where
  "invite u te req m w =
     (case invite_place u te req m w of
        InviteAnswered w1 \<Rightarrow> w1
      | InvitePlaced r ts w1 \<Rightarrow> invite_call u te r ts req m w1)"

definition invite_aborts :: "ucommon \<Rightarrow> thread_env \<Rightarrow> sip_request \<Rightarrow> sip_invite \<Rightarrow> world \<Rightarrow> bool" where
  "invite_aborts u te req m w \<longleftrightarrow>
     (case invite_place u te req m w of
        InviteAnswered w1 \<Rightarrow> False
      | InvitePlaced r ts w1 \<Rightarrow> auth_asserts (te_realm te) (sr_auth req))"

lemma invite_eq:
  "invite u te req m w =
     (let tid = si_tid m
      in if \<not> sr_parts req then answer te tid SIP_UNDECIPHERABLE w
         else case sr_user req of
           None \<Rightarrow> answer te tid SIP_ADDRESS_INCOMPLETE w
         | Some uuid \<Rightarrow>
             if uuid = [] then answer te tid SIP_ADDRESS_INCOMPLETE w
             else case sip_contact u uuid w of
               None \<Rightarrow> answer te tid SIP_NOT_FOUND w
             | Some r \<Rightarrow>
                 (case Registration_attach r INCOMING w of
                    (False, w1) \<Rightarrow> answer te tid SIP_TEMPORARILY_UNAVAILABLE w1
                  | (True, w1) \<Rightarrow>
                      (case Timeslot_assign (sip_allocate u) (Some r) INCOMING (si_cid m) w1 of
                         (None, w2) \<Rightarrow>
                           answer te tid SIP_TEMPORARILY_UNAVAILABLE (Registration_release_stat r INCOMING w2)
                       | (Some ts, w2) \<Rightarrow> invite_call u te r ts req m w2)))"
  by (simp add: invite_def invite_place_def Let_def split: option.split prod.split bool.split)

section \<open>The event loop\<close>

definition options :: "thread_env \<Rightarrow> int \<Rightarrow> world \<Rightarrow> world" where
  "options te tid w =
     (if te_builds te then emit (SendOptions (te_context te) tid SIP_OK True) w
      else emit (SendOptions (te_context te) tid SIP_BAD_REQUEST False) w)"

definition post_to_call :: "ucommon \<Rightarrow> (nat \<Rightarrow> world \<Rightarrow> bool) \<Rightarrow> event_id \<Rightarrow> int \<Rightarrow> world \<Rightarrow> bool \<times> world" where
  "post_to_call u stp ev cid w =
     (case Timeslot_get cid w of
        (None, w1) \<Rightarrow> (False, w1)
      | (Some ts, w1) \<Rightarrow> (True, snd (Timeslot_post (sip_vtable u stp) ts (ev, w1))))"

text \<open>
  The realm of a refused registration is taken from the first proxy challenge, and only where there
  is none from the first challenge of the server; a challenge may lack a realm.
\<close>

definition challenge_realm :: "sip_event \<Rightarrow> string option" where
  "challenge_realm ev =
     (case se_prx_auth ev of
        Some r \<Rightarrow> r
      | None \<Rightarrow> (case se_www_auth ev of Some r \<Rightarrow> r | None \<Rightarrow> None))"

definition registration_failure :: "thread_env \<Rightarrow> sip_event \<Rightarrow> world \<Rightarrow> world option" where
  "registration_failure te ev w =
     (case sip_locate (se_rid ev) w of
        (reg, w1) \<Rightarrow>
          if se_status ev = Some 401
          then (let realm = te_unquote te (challenge_realm ev)
                in case reg of Some r \<Rightarrow> Some (sip_authenticate r realm w1) | None \<Rightarrow> Some w1)
          else (case reg of Some r \<Rightarrow> sip_failed r w1 | None \<Rightarrow> Some w1))"

definition message_new :: "ucommon \<Rightarrow> (nat \<Rightarrow> world \<Rightarrow> bool) \<Rightarrow> thread_env \<Rightarrow> sip_event \<Rightarrow> world \<Rightarrow> world" where
  "message_new u stp te ev w =
     (let m = se_invite ev;
          (error, w1) =
            (case se_request ev of
               None \<Rightarrow> (SIP_BAD_REQUEST, w)
             | Some req \<Rightarrow>
                 (case sr_method req of
                    OPTIONS \<Rightarrow> (SIP_OK, options te (si_tid m) w)
                  | BYE \<Rightarrow> (case post_to_call u stp EvDROP (si_cid m) w of
                              (found, w1) \<Rightarrow> (if found then SIP_OK else SIP_BAD_REQUEST, w1))
                  | OTHER_METHOD \<Rightarrow> (SIP_BAD_REQUEST, w)))
      in answer te (si_tid m) error w1)"

text \<open>
  One event. \<open>legacy\<close> tells whether the driver is built for the old interface of the
  stack, which alone has the events \<open>REFRESHED\<close> and \<open>TERMINATED\<close>.
\<close>

definition run_event ::
    "ucommon \<Rightarrow> (nat \<Rightarrow> world \<Rightarrow> bool) \<Rightarrow> bool \<Rightarrow> thread_env \<Rightarrow> sip_event \<Rightarrow> world \<Rightarrow> world option" where
  "run_event u stp legacy te ev w =
     (let m = se_invite ev;
          confirm = (case sip_locate (se_rid ev) w of
                       (Some r, w1) \<Rightarrow> sip_confirm r w1 | (None, w1) \<Rightarrow> Some w1);
          unsupported = Some (emit (Log ''unsupported message %d'') w)
      in case se_type ev of
           REGISTRATION_FAILURE \<Rightarrow> registration_failure te ev w
         | REGISTRATION_TERMINATED \<Rightarrow>
             if legacy
             then (case sip_locate (se_rid ev) w of
                     (Some r, w1) \<Rightarrow> sip_cancel r w1 | (None, w1) \<Rightarrow> Some w1)
             else unsupported
         | REGISTRATION_REFRESHED \<Rightarrow> if legacy then confirm else unsupported
         | REGISTRATION_SUCCESS \<Rightarrow> confirm
         | CALL_INVITE \<Rightarrow>
             (case se_request ev of
                None \<Rightarrow> Some (emit (Log ''invalid invite received'') w)
              | Some req \<Rightarrow>
                  if si_cid m < 1 then Some (emit (Log ''invalid invite received'') w)
                  else Some (invite u te req m w))
         | CALL_CLOSED \<Rightarrow> Some (snd (post_to_call u stp EvDROP (si_cid m) w))
         | CALL_RELEASED \<Rightarrow> Some (snd (post_to_call u stp EvRELEASE (si_cid m) w))
         | MESSAGE_NEW \<Rightarrow> Some (message_new u stp te ev w)
         | _ \<Rightarrow> unsupported)"

text \<open>The events on which the process ends by a failed assertion.\<close>

definition event_aborts :: "ucommon \<Rightarrow> thread_env \<Rightarrow> sip_event \<Rightarrow> world \<Rightarrow> bool" where
  "event_aborts u te ev w \<longleftrightarrow>
     (case (se_type ev, se_request ev) of
        (CALL_INVITE, Some req) \<Rightarrow> 1 \<le> si_cid (se_invite ev) \<and> invite_aborts u te req (se_invite ev) w
      | _ \<Rightarrow> False)"

end
