(* ===== verification/SipProps.thy ===== *)
theory SipProps
  imports SipThread
begin

text \<open>
  Properties of the SIP driver as a whole: what an \<open>INVITE\<close> does to timeslots and
  statistics, who is let in, what the timer delivers, and the invariant that holds through any
  sequence of stack events, timer ticks and operator commands.
\<close>

section \<open>Steps of a call in progress\<close>

text \<open>
  A step of the call on timeslot \<open>i\<close> moves no timeslot between lists, touches no other
  timeslot, no statistics and no mutex, and keeps the call with its id, direction and registration.
\<close>

definition call_step :: "nat \<Rightarrow> world \<Rightarrow> world \<Rightarrow> bool" where
  "call_step i w w' \<longleftrightarrow> w_idle w' = w_idle w \<and> w_assigned w' = w_assigned w \<and>
     w_ts_count w' = w_ts_count w \<and> w_fault w' = w_fault w \<and> w_sta w' = w_sta w \<and> env_of w' = env_of w \<and>
     (\<forall>j. j \<noteq> i \<longrightarrow> w_slots w' j = w_slots w j) \<and>
     (\<forall>j. mutex_depth j (w_trace w') = mutex_depth j (w_trace w)) \<and>
     (in_call (ts_handler (w_slots w i)) \<longrightarrow> in_call (ts_handler (w_slots w' i))) \<and>
     mp_started (w_slots w' i) = mp_started (w_slots w i) \<and> ts_cid (w_slots w' i) = ts_cid (w_slots w i) \<and>
     ts_registry (w_slots w' i) = ts_registry (w_slots w i) \<and> ts_stats (w_slots w' i) = ts_stats (w_slots w i)"

lemma call_step_refl [simp]: "call_step i w w"
  by (simp add: call_step_def)

lemma call_step_trans: "call_step i w v \<Longrightarrow> call_step i v x \<Longrightarrow> call_step i w x"
  by (simp add: call_step_def)

lemma call_step_emit: "no_mutex e \<Longrightarrow> call_step i w (emit e w)"
  by (simp add: call_step_def no_mutex_depth del: mutex_depth.simps)

lemma call_step_upd:
  assumes "in_call (ts_handler (w_slots w i)) \<Longrightarrow> in_call (ts_handler (f (w_slots w i)))"
    "mp_started (f (w_slots w i)) = mp_started (w_slots w i)" "ts_cid (f (w_slots w i)) = ts_cid (w_slots w i)"
    "ts_registry (f (w_slots w i)) = ts_registry (w_slots w i)" "ts_stats (f (w_slots w i)) = ts_stats (w_slots w i)"
  shows "call_step i w (upd_slot i f w)"
  using assms by (simp add: call_step_def)

lemma call_step_slots_ok:
  assumes "call_step i w w'" and "slots_ok w" and "i < w_ts_count w" and "in_call (ts_handler (w_slots w i))"
  shows "slots_ok w'"
proof -
  have l: "w_idle w' = w_idle w" "w_assigned w' = w_assigned w" "w_ts_count w' = w_ts_count w"
    using assms(1) by (simp_all add: call_step_def)
  show ?thesis
    unfolding slots_ok_def l
    by (rule inv_in_call [OF assms(2) [unfolded slots_ok_def] assms(3,4)])
      (use assms(1,4) in \<open>simp_all add: call_step_def\<close>)
qed

lemma call_step_set_const: "call_step i w (set_const i n v w)"
  by (cases v) (simp_all add: set_const_def call_step_emit no_mutex_def)

lemma call_step_initialize: "call_step i w (Timeslot_initialize u v d y i w)"
  by (simp add: Timeslot_initialize_def Let_def call_step_def)

lemma call_step_arm: "call_step i w (sip_arm i t w)"
  unfolding sip_arm_def by (rule call_step_trans [OF call_step_upd call_step_emit]) (simp_all add: no_mutex_def)

lemma call_step_scripting: "call_step i w (Timeslot_setScripting u sip_arm i w)"
  unfolding Timeslot_setScripting_def
  by (rule call_step_trans [OF call_step_upd call_step_arm]) simp_all

lemma call_slot_fields [simp]:
  "ts_handler (call_slot u ty scr c d s) = ts_handler s" "mp_started (call_slot u ty scr c d s) = mp_started s"
  "ts_cid (call_slot u ty scr c d s) = ts_cid s" "ts_registry (call_slot u ty scr c d s) = ts_registry s"
  "ts_connected (call_slot u ty scr c d s) = ts_connected s" "ts_stats (call_slot u ty scr c d s) = ts_stats s"
  by (simp_all add: call_slot_def Let_def split: option.split)

lemma call_step_run_script: "call_step i w (snd (sip_run_script u env i reg m scr entry ty w))"
proof -
  let ?caller = "incoming_caller (incoming_remote u (rg_localnames reg) m) m"
  let ?dialed = "map_option pt_user (si_to m)"
  let ?w1 = "Timeslot_initialize u (se_voice env) (se_digits_sym env) (se_voice_sym env) i w"
  let ?w2 = "set_const i ''dialed'' ?dialed (set_const i ''caller'' ?caller ?w1)"
  let ?w3 = "upd_slot i (call_slot u ty scr ?caller ?dialed) ?w2"
  let ?w4 = "set_const i ''server'' (Some (case rg_server reg of None \<Rightarrow> [] | Some s \<Rightarrow> s))
    (set_const i ''script'' (Some scr) ?w3)"
  let ?w5 = "emit (ScriptAttach i scr entry) ?w4"
  have "call_step i w ?w2"
    by (rule call_step_trans [OF call_step_initialize]) (rule call_step_trans [OF call_step_set_const call_step_set_const])
  moreover have "call_step i ?w2 ?w3" by (rule call_step_upd) simp_all
  moreover have "call_step i ?w3 ?w4" by (rule call_step_trans [OF call_step_set_const call_step_set_const])
  moreover have "call_step i ?w4 ?w5" by (rule call_step_emit) (simp add: no_mutex_def)
  ultimately have w5: "call_step i w ?w5" by (blast intro: call_step_trans)
  have "call_step i w (snd (if \<not> se_attach env scr entry then (SIP_NOT_FOUND, emit (Log ''%s: cannot start %s'') ?w5)
      else (0, Timeslot_setScripting u sip_arm i ?w5)))"
    using call_step_trans [OF w5 call_step_scripting]
      call_step_trans [OF w5 call_step_emit [of "Log ''%s: cannot start %s''"]]
    by (simp add: no_mutex_def)
  then show ?thesis
    by (simp add: sip_run_script_def Let_def call_step_emit no_mutex_def)
qed

lemma call_step_incoming:
  assumes "ts_registry (w_slots w i) \<noteq> None"
  shows "call_step i w (snd (sip_incoming u env i m w))"
proof -
  from assms obtain r where r: "ts_registry (w_slots w i) = Some r" by blast
  let ?w1 = "sip_arm i 16000 (Timeslot_setMapped u (CHR ''i'') (Some ''incoming'') i
                      (upd_slot i (\<lambda>s. s\<lparr>ts_tid := si_tid m, ts_did := si_did m\<rparr>) w))"
  have "call_step i w (upd_slot i (\<lambda>s. s\<lparr>ts_tid := si_tid m, ts_did := si_did m\<rparr>) w)"
    by (rule call_step_upd) simp_all
  moreover have "call_step i v (Timeslot_setMapped u c n i v)" for v c n
    unfolding Timeslot_setMapped_def by (rule call_step_upd) simp_all
  ultimately have w1: "call_step i w ?w1" by (blast intro: call_step_trans call_step_arm)
  show ?thesis
    using w1 call_step_trans [OF w1 call_step_run_script]
    by (simp add: sip_incoming_def r Let_def split: verdict.split)
qed

lemma call_step_answer: "call_step i w (answer te tid code w)"
  unfolding answer_def by (rule call_step_emit) (simp add: no_mutex_def)

lemma call_step_challenge: "call_step i w (challenge te tid w)"
  unfolding challenge_def by (simp add: call_step_emit no_mutex_def)

lemma call_step_invite_call:
  assumes "ts_registry (w_slots w i) \<noteq> None"
  shows "call_step i w (invite_call u te r i req m w)"
proof (cases "authorized u (te_realm te) (sr_auth req) (rg_uuid (w_regs w r))")
  case None
  then show ?thesis by (simp add: invite_call_def call_step_challenge)
next
  case (Some b)
  obtain e w1 where i: "sip_incoming u (te_script te) i m w = (e, w1)" by (rule prod.exhaust)
  from call_step_incoming [OF assms, of u "te_script te" m] have "call_step i w w1" by (simp add: i)
  with Some i show ?thesis
    by (cases b) (auto simp: invite_call_def call_step_answer intro: call_step_trans [OF _ call_step_answer])
qed

section \<open>Allocation by the SIP driver\<close>

lemma sip_allocate_ok:
  assumes "ucommon_ok u"
  shows "allocator_ok (\<lambda>r. r \<noteq> None) (sip_allocate u)"
proof (unfold allocator_ok_def, intro allI impI)
  fix cid k and reg :: "nat option" and i and w :: world
  assume ok: "slots_ok w" and i: "i < w_ts_count w" and h: "ts_handler (w_slots w i) = IdleHandler"
    and p: "ts_path cid < TIMESLOT_INDEX_SIZE" and reg: "reg \<noteq> None"
  from reg obtain r where r: "reg = Some r" by blast
  let ?v = "upd_slot i (sip_session (rg_context (w_regs w r)) (w_out_context w)) w"
  have q: "quiet i w ?v" by (rule quiet_upd_slot) (simp_all add: sip_session_def)
  have "allocated cid k reg i ?v (Timeslot_allocate u cid k reg i ?v)"
    by (rule allocator_okD [OF allocate_allocated [OF assms, of "\<lambda>_. True"]])
      (use quietD [OF q] ok i h p in \<open>simp_all add: sip_session_def\<close>)
  moreover have "ts_sequence (w_slots ?v i) = ts_sequence (w_slots w i)" by (simp add: sip_session_def)
  ultimately show "allocated cid k reg i w (sip_allocate u cid k reg i w)"
    using quietD [OF q] quiet_other [OF q] by (simp add: sip_allocate_def r allocated_def)
qed

section \<open>Counting calls\<close>

text \<open>
  Statistics nodes are handed out once each: the node of a registration is neither another
  registration's nor the driver's nor that of a board or span.
\<close>

definition stats_apart :: "world \<Rightarrow> bool" where
  "stats_apart w \<longleftrightarrow> (\<forall>r n. rg_stats (w_regs w r) = Some n \<longrightarrow>
     w_drv_stats w \<noteq> Some n \<and> (\<forall>j. sg_stats (w_boards w j) \<noteq> Some n \<and> sg_stats (w_spans w j) \<noteq> Some n) \<and>
     (\<forall>r'. rg_stats (w_regs w r') = Some n \<longrightarrow> r' = r))"

lemma reg_calls_cong:
  assumes "w_regs w' = w_regs w" and "\<And>n. rg_stats (w_regs w r) = Some n \<Longrightarrow> node_of w' n = node_of w n"
  shows "reg_calls r w' = reg_calls r w"
  using assms by (auto simp: reg_calls_def split: option.split)

lemma seg_assign_node:
  "(\<And>j. p = Some j \<Longrightarrow> sg_stats (segs j) \<noteq> Some n) \<Longrightarrow> node_of (seg_assign p segs k w) n = node_of w n"
  by (cases p) (simp_all add: seg_assign_def Segment_assign_def)

lemma allocate_stats_node:
  assumes "w_drv_stats w \<noteq> Some n" and "\<And>j. sg_stats (w_boards w j) \<noteq> Some n" and "\<And>j. sg_stats (w_spans w j) \<noteq> Some n"
  shows "node_of (allocate_stats i k w) n = node_of w n"
  using assms by (simp add: allocate_stats_def Let_def seg_assign_node Driver_assign_def)

lemma enlist_assigned_frame [simp]:
  "w_sta (enlist_assigned u p i w) = w_sta w" "env_of (enlist_assigned u p i w) = env_of w"
  by (simp_all add: enlist_assigned_def)

lemma allocate_env: "env_of (Timeslot_allocate u cid k reg i w) = env_of w"
  by (simp add: Timeslot_allocate_def Let_def)

lemma allocate_node:
  assumes "w_drv_stats w \<noteq> Some n" and "\<And>j. sg_stats (w_boards w j) \<noteq> Some n" and "\<And>j. sg_stats (w_spans w j) \<noteq> Some n"
  shows "node_of (Timeslot_allocate u cid k reg i w) n = node_of w n"
proof -
  let ?w1 = "upd_slot i (\<lambda>s. s\<lparr>mp_started := w_clock w\<rparr>) w"
  let ?w2 = "?w1\<lparr>w_idle := (case w_idle ?w1 of
     t # rest \<Rightarrow> if t = i then rest else u_delist u i (w_idle ?w1) | [] \<Rightarrow> u_delist u i [])\<rparr>"
  let ?w4 = "upd_slot i (allocate_slot cid k reg) (enlist_assigned u (ts_path cid) i ?w2)"
  have e: "env_of ?w4 = env_of w" by simp
  have "node_of (allocate_stats i k ?w4) n = node_of ?w4 n"
    by (rule allocate_stats_node) (use env_ofD [OF e] assms in simp_all)
  then show ?thesis unfolding Timeslot_allocate_def Let_def by simp
qed

lemma sip_allocate_node:
  assumes "w_drv_stats w \<noteq> Some n" and "\<And>j. sg_stats (w_boards w j) \<noteq> Some n" and "\<And>j. sg_stats (w_spans w j) \<noteq> Some n"
  shows "node_of (sip_allocate u cid k reg i w) n = node_of w n"
  using allocate_node assms by (simp add: sip_allocate_def allocate_node split: option.split)

lemma assign_calls:
  assumes "stats_apart w"
  shows "reg_calls r (snd (Timeslot_assign (sip_allocate u) reg k cid w)) = reg_calls r w"
    and "w_regs (snd (Timeslot_assign (sip_allocate u) reg k cid w)) = w_regs w"
proof -
  have regs: "w_regs (snd (Timeslot_assign (sip_allocate u) reg k cid w)) = w_regs w"
    by (cases "w_idle w"; cases reg)
      (simp_all add: Timeslot_assign_def Let_def sip_allocate_def env_ofD(4) [OF allocate_env])
  show "w_regs (snd (Timeslot_assign (sip_allocate u) reg k cid w)) = w_regs w" by (rule regs)
  have "node_of (snd (Timeslot_assign (sip_allocate u) reg k cid w)) n = node_of w n"
    if "rg_stats (w_regs w r) = Some n" for n
    using assms that by (cases "w_idle w") (simp_all add: Timeslot_assign_def Let_def stats_apart_def sip_allocate_node)
  with regs show "reg_calls r (snd (Timeslot_assign (sip_allocate u) reg k cid w)) = reg_calls r w"
    by (intro reg_calls_cong) simp_all
qed

lemma call_step_calls:
  assumes "call_step i w w'"
  shows "reg_calls r w' = reg_calls r w" "w_regs w' = w_regs w"
proof -
  have e: "env_of w' = env_of w" "w_sta w' = w_sta w" using assms by (simp_all add: call_step_def)
  show "w_regs w' = w_regs w" by (rule env_ofD(4) [OF e(1)])
  then show "reg_calls r w' = reg_calls r w" using e(2) by (simp add: reg_calls_def split: option.split)
qed

text \<open>Admission of a call and its withdrawal where no timeslot is idle.\<close>

lemma attach_calls_all:
  assumes "stats_apart w" and "\<And>r. reg_current r INCOMING w < 65535"
  shows "reg_calls q (snd (Registration_attach r INCOMING w)) = reg_calls q w +
    (if q = r \<and> fst (Registration_attach r INCOMING w) \<and> rg_stats (w_regs w r) \<noteq> None then 1 else 0)"
proof (cases "q = r")
  case True
  with attach_calls [OF assms(2), of r] show ?thesis by simp
next
  case False
  have "reg_calls q (snd (Registration_attach r INCOMING w)) = reg_calls q w"
  proof (rule reg_calls_cong)
    show "w_regs (snd (Registration_attach r INCOMING w)) = w_regs w" by simp
  next
    fix n
    assume n: "rg_stats (w_regs w q) = Some n"
    with assms(1) False have "rg_stats (w_regs w r) \<noteq> Some n" by (auto simp: stats_apart_def)
    then show "node_of (snd (Registration_attach r INCOMING w)) n = node_of w n"
      by (auto simp: Registration_attach_def split: option.split)
  qed
  with False show ?thesis by simp
qed

lemma release_undoes_attach:
  assumes "stats_apart w" and "fst (Registration_attach r INCOMING w)"
    and "\<And>r. reg_current r INCOMING w < 65535"
    and "w_regs w' = w_regs w" and "w_sta w' = w_sta (snd (Registration_attach r INCOMING w))"
  shows "reg_calls q (Registration_release_stat r INCOMING w') = reg_calls q w"
proof (cases "rg_stats (w_regs w r)")
  case None
  then show ?thesis using assms(4,5)
    by (simp add: Registration_release_stat_def stat_release_def Registration_attach_def reg_calls_def
        split: option.split)
next
  case (Some n)
  have a: "node_of w' n = statmap_update INCOMING (node_of w n)"
    using attach_node [OF Some assms(2)] assms(5) by simp
  have b: "node_of w' k = node_of w k" if "k \<noteq> n" for k
    using that Some assms(5) by (auto simp: Registration_attach_def)
  have c: "unat (st_current (sm_stats (node_of w n) INCOMING)) < 65535"
    using assms(3) [of r] Some by (simp add: reg_current_def)
  have pos: "0 < unat (st_current (sm_stats (statmap_update INCOMING (node_of w n)) INCOMING))"
    using c by (simp add: statmap_update_def unat_inc)
  have eq: "calls (statmap_release now INCOMING (statmap_update INCOMING (node_of w n))) = calls (node_of w n)" for now
    using calls_release [OF pos, of now] calls_update [OF c] by simp
  show ?thesis
    using a b eq assms(1,4) Some
    by (auto simp: reg_calls_def Registration_release_stat_def split: option.split)
qed

section \<open>Invitations\<close>

text \<open>
  Answered with an error: no timeslot, no list and no count of calls in progress has changed, and as long as a timeslot
  is free no statistic at all. The refusal for lack of a timeslot takes back the count, not the totals.
\<close>

definition invite_refused :: "thread_env \<Rightarrow> sip_invite \<Rightarrow> world \<Rightarrow> world \<Rightarrow> bool" where
  "invite_refused te m w w' \<longleftrightarrow> w_idle w' = w_idle w \<and> w_assigned w' = w_assigned w \<and> w_slots w' = w_slots w \<and>
     (\<forall>q. reg_calls q w' = reg_calls q w) \<and> (w_idle w \<noteq> [] \<longrightarrow> w_sta w' = w_sta w) \<and>
     (\<exists>code. code \<noteq> 0 \<and> last (w_trace w') = SendAnswer (te_context te) (si_tid m) code False)"

definition invite_placed :: "nat \<Rightarrow> sip_invite \<Rightarrow> world \<Rightarrow> world \<Rightarrow> bool" where
  "invite_placed r m w w' \<longleftrightarrow> w_idle w \<noteq> [] \<and> w_idle w' = tl (w_idle w) \<and>
     ts_registry (w_slots w' (hd (w_idle w))) = Some r \<and> ts_cid (w_slots w' (hd (w_idle w))) = si_cid m \<and>
     in_call (ts_handler (w_slots w' (hd (w_idle w)))) \<and>
     hd (w_idle w) \<in> set (w_assigned w' (ts_path (si_cid m))) \<and>
     (\<forall>j. j \<noteq> hd (w_idle w) \<longrightarrow> w_slots w' j = w_slots w j) \<and>
     (\<forall>q. reg_calls q w' = reg_calls q w + (if q = r \<and> rg_stats (w_regs w r) \<noteq> None then 1 else 0))"

text \<open>What every outcome leaves alone.\<close>

definition invite_safe :: "world \<Rightarrow> world \<Rightarrow> bool" where
  "invite_safe w w' \<longleftrightarrow> slots_ok w' \<and> w_fault w' = w_fault w \<and> w_ts_count w' = w_ts_count w \<and>
     env_of w' = env_of w \<and> (\<forall>j. mutex_depth j (w_trace w') = mutex_depth j (w_trace w))"

lemma safe_answer: "invite_safe w v \<Longrightarrow> invite_safe w (answer te tid code v)"
  by (simp add: invite_safe_def answer_def)

lemma refused_answer:
  assumes "w_idle v = w_idle w" and "w_assigned v = w_assigned w" and "w_slots v = w_slots w"
    and "\<And>q. reg_calls q v = reg_calls q w" and "w_idle w \<noteq> [] \<Longrightarrow> w_sta v = w_sta w" and "code \<noteq> 0"
  shows "invite_refused te m w (answer te (si_tid m) code v)"
proof -
  have "reg_calls q (answer te (si_tid m) code v) = reg_calls q v" for q
    using call_step_calls(1) [OF call_step_answer] by blast
  with assms show ?thesis by (auto simp: invite_refused_def answer_def)
qed

lemma attach_safe: "slots_ok w \<Longrightarrow> invite_safe w (snd (Registration_attach r k w))"
proof -
  assume ok: "slots_ok w"
  have "slots_eq w (snd (Registration_attach r k w))" by (simp add: slots_eq_def)
  from slots_ok_eq [OF this] ok env_of_same_but_stats [OF attach_frame] show ?thesis
    by (simp add: invite_safe_def)
qed

lemma safe_release_stat:
  assumes "invite_safe w v" shows "invite_safe w (Registration_release_stat r k v)"
proof -
  have "slots_eq v (Registration_release_stat r k v)" by (simp add: slots_eq_def)
  from slots_ok_eq [OF this] assms env_of_same_but_stats [OF release_stat_frame] show ?thesis
    by (simp add: invite_safe_def)
qed

text \<open>The three ways an \<open>INVITE\<close> can go.\<close>

lemma invite_cases:
  obtains (refused) code where "code \<noteq> 0" "invite u te req m w = answer te (si_tid m) code w"
  | (full) r w1 where "Registration_attach r INCOMING w = (True, w1)" "w_idle w1 = []"
      "invite u te req m w = answer te (si_tid m) SIP_TEMPORARILY_UNAVAILABLE
         (Registration_release_stat r INCOMING (emit ListCommit (emit ListModify w1)))"
  | (placed) uuid r w1 t w2 where "sr_user req = Some uuid" "sip_contact u uuid w = Some r"
      "Registration_attach r INCOMING w = (True, w1)"
      "Timeslot_assign (sip_allocate u) (Some r) INCOMING (si_cid m) w1 = (Some t, w2)"
      "invite u te req m w = invite_call u te r t req m w2"
proof (cases "sr_parts req \<and> sr_user req \<noteq> None \<and> sr_user req \<noteq> Some []")
  case False
  then have "invite u te req m w = answer te (si_tid m) (if \<not> sr_parts req then 493 else 484) w"
    by (auto simp: invite_eq Let_def sip_thread_codes split: option.split)
  with refused [of "if \<not> sr_parts req then 493 else 484"] show ?thesis by (simp split: if_splits)
next
  case True
  then obtain uuid where uuid: "sr_user req = Some uuid" "uuid \<noteq> []" and parts: "sr_parts req" by auto
  show ?thesis
  proof (cases "sip_contact u uuid w")
    case None
    with uuid parts have "invite u te req m w = answer te (si_tid m) 404 w"
      by (simp add: invite_eq Let_def sip_thread_codes)
    with refused [of 404] show ?thesis by simp
  next
    case contact: (Some r)
    obtain b w1 where att: "Registration_attach r INCOMING w = (b, w1)" by (rule prod.exhaust)
    show ?thesis
    proof (cases b)
      case False
      with att attach_refused [of r INCOMING w] have "w1 = w" by simp
      with uuid parts contact att False have "invite u te req m w = answer te (si_tid m) 480 w"
        by (simp add: invite_eq Let_def sip_thread_codes)
      with refused [of 480] show ?thesis by simp
    next
      case b: True
      obtain ts w2 where asg: "Timeslot_assign (sip_allocate u) (Some r) INCOMING (si_cid m) w1 = (ts, w2)"
        by (rule prod.exhaust)
      show ?thesis
      proof (cases ts)
        case (Some t)
        with uuid parts contact att b asg have "invite u te req m w = invite_call u te r t req m w2"
          by (simp add: invite_eq Let_def)
        from placed [OF uuid(1) contact _ _ this] att b asg Some show ?thesis by simp
      next
        case None
        with asg have idle: "w_idle w1 = []" and "w2 = emit ListCommit (emit ListModify w1)"
          by (auto simp: Timeslot_assign_def Let_def split: list.splits)
        with uuid parts contact att b asg None have "invite u te req m w =
            answer te (si_tid m) SIP_TEMPORARILY_UNAVAILABLE
              (Registration_release_stat r INCOMING (emit ListCommit (emit ListModify w1)))"
          by (simp add: invite_eq Let_def)
        from full [OF _ idle this] att b show ?thesis by simp
      qed
    qed
  qed
qed

lemma full_safe:
  assumes "slots_ok w" and "Registration_attach r INCOMING w = (True, w1)"
  shows "invite_safe w (Registration_release_stat r INCOMING (emit ListCommit (emit ListModify w1)))"
proof -
  have "invite_safe w w1" using attach_safe [OF assms(1), of r INCOMING] assms(2) by simp
  then have "invite_safe w (emit ListCommit (emit ListModify w1))" by (simp add: invite_safe_def)
  then show ?thesis by (rule safe_release_stat)
qed

lemma placed_steps:
  assumes u: "ucommon_ok u" and ok: "slots_ok w" and clock: "w_clock w \<noteq> 0" and cid: "0 \<le> si_cid m"
    and att: "Registration_attach r INCOMING w = (True, w1)"
    and asg: "Timeslot_assign (sip_allocate u) (Some r) INCOMING (si_cid m) w1 = (Some t, w2)"
  shows "invite_safe w w1" and "env_of w1 = env_of w" and "w_idle w = t # w_idle w2" and "t < w_ts_count w2"
    and "in_call (ts_handler (w_slots w2 t))" and "ts_cid (w_slots w2 t) = si_cid m"
    and "ts_registry (w_slots w2 t) = Some r" and "invite_safe w w2"
    and "call_step t w2 (invite_call u te r t req m w2)" and "invite_safe w (invite_call u te r t req m w2)"
    and "ts_stats (w_slots w2 t) = INCOMING" and "\<And>j. j \<noteq> t \<Longrightarrow> w_slots w2 j = w_slots w j"
proof -
  have w1: "w1 = snd (Registration_attach r INCOMING w)" using att by simp
  show s1: "invite_safe w w1" unfolding w1 by (rule attach_safe [OF ok])
  then have ok1: "slots_ok w1" and env1: "env_of w1 = env_of w" by (simp_all add: invite_safe_def)
  then show "env_of w1 = env_of w" by simp
  have clock1: "w_clock w1 \<noteq> 0" using clock env_ofD(1) [OF env1] by simp
  have idle: "w_idle w1 = w_idle w" by (simp add: w1)
  have p: "ts_path (si_cid m) < TIMESLOT_INDEX_SIZE" using cid by (rule ts_path_bound)
  note al = sip_allocate_ok [OF u]
  obtain t' rest where l: "w_idle w1 = t' # rest"
    using asg by (cases "w_idle w1") (simp_all add: Timeslot_assign_def Let_def)
  have reg: "Some r \<noteq> None" by simp
  note e = assign_effect(2,3) [where P = "\<lambda>r. r \<noteq> None" and reg = "Some r" and k = INCOMING, OF ok1 p al reg l]
  have e1: "t' = t" and t: "t < w_ts_count w1"
    using assign_effect(1) [where P = "\<lambda>r. r \<noteq> None" and reg = "Some r" and k = INCOMING, OF ok1 p al reg l]
      assign_effect(4) [where P = "\<lambda>r. r \<noteq> None" and reg = "Some r", OF ok1 p al reg l] asg by simp_all
  have ok2: "slots_ok w2"
    using assign_ok [where P = "\<lambda>r. r \<noteq> None" and reg = "Some r" and k = INCOMING, OF ok1 p al reg clock1] asg by simp
  have w2: "w2 = emit ListCommit (sip_allocate u (si_cid m) INCOMING (Some r) t (emit ListModify w1))"
    using e(1) e1 asg by simp
  have a: "w_idle w2 = rest" "ts_handler (w_slots w2 t) = ReleaseHandler" "ts_cid (w_slots w2 t) = si_cid m"
    "ts_registry (w_slots w2 t) = Some r" "w_ts_count w2 = w_ts_count w1" "w_fault w2 = w_fault w1"
    "env_of w2 = env_of w1" "\<And>j. mutex_depth j (w_trace w2) = mutex_depth j (w_trace w1)"
    "ts_stats (w_slots w2 t) = INCOMING" "\<And>j. j \<noteq> t \<Longrightarrow> w_slots w2 j = w_slots w1 j"
    using e(2) e1 l by (simp_all add: w2 allocated_def)
  show "ts_stats (w_slots w2 t) = INCOMING" by (rule a(9))
  show "w_slots w2 j = w_slots w j" if "j \<noteq> t" for j using a(10) [OF that] by (simp add: w1)
  show "w_idle w = t # w_idle w2" using l e1 idle a(1) by simp
  show t2: "t < w_ts_count w2" using t a by simp
  show h2: "in_call (ts_handler (w_slots w2 t))" and "ts_cid (w_slots w2 t) = si_cid m"
    and "ts_registry (w_slots w2 t) = Some r" using a by simp_all
  show s2: "invite_safe w w2" using s1 ok2 a by (simp add: invite_safe_def)
  show cs: "call_step t w2 (invite_call u te r t req m w2)" by (rule call_step_invite_call) (simp add: a(4))
  have "slots_ok (invite_call u te r t req m w2)" by (rule call_step_slots_ok [OF cs ok2 t2 h2])
  with s2 cs show "invite_safe w (invite_call u te r t req m w2)" by (simp add: invite_safe_def call_step_def)
qed

lemma invite_safe_always:
  assumes "ucommon_ok u" and "slots_ok w" and "w_clock w \<noteq> 0" and "0 \<le> si_cid m"
  shows "invite_safe w (invite u te req m w)"
proof (cases rule: invite_cases [of u te req m w])
  case (refused code)
  have "invite_safe w w" using assms(2) by (simp add: invite_safe_def)
  with refused(2) show ?thesis by (simp add: safe_answer)
next
  case (full r w1)
  with safe_answer [OF full_safe [OF assms(2) full(1)]] show ?thesis by simp
next
  case (placed uuid r w1 t w2)
  with placed_steps(10) [OF assms placed(3,4)] show ?thesis by simp
qed

lemma full_refused:
  assumes "stats_apart w" and "\<And>r. reg_current r INCOMING w < 65535"
    and "Registration_attach r INCOMING w = (True, w1)" and "w_idle w1 = []"
  shows "invite_refused te m w (answer te (si_tid m) SIP_TEMPORARILY_UNAVAILABLE
    (Registration_release_stat r INCOMING (emit ListCommit (emit ListModify w1))))"
proof -
  let ?w2 = "emit ListCommit (emit ListModify w1)"
  have w1: "w1 = snd (Registration_attach r INCOMING w)" and adm: "fst (Registration_attach r INCOMING w)"
    using assms(3) by simp_all
  have "reg_calls q (Registration_release_stat r INCOMING ?w2) = reg_calls q w" for q
    by (rule release_undoes_attach [OF assms(1) adm assms(2)]) (simp_all add: w1)
  moreover have "w_idle w = []" using assms(4) by (simp add: w1)
  ultimately show ?thesis by (intro refused_answer) (simp_all add: w1 sip_thread_codes)
qed

lemma placed_counts:
  assumes u: "ucommon_ok u" and ok: "slots_ok w" and clock: "w_clock w \<noteq> 0" and cid: "0 \<le> si_cid m"
    and apart: "stats_apart w" and cur: "\<And>r. reg_current r INCOMING w < 65535"
    and att: "Registration_attach r INCOMING w = (True, w1)"
    and asg: "Timeslot_assign (sip_allocate u) (Some r) INCOMING (si_cid m) w1 = (Some t, w2)"
  shows "invite_placed r m w (invite_call u te r t req m w2)"
proof -
  note p = placed_steps [OF u ok clock cid att asg]
  have apart1: "stats_apart w1" using apart env_ofD [OF p(2)] by (simp add: stats_apart_def)
  have calls2: "reg_calls q w2 = reg_calls q w1" for q
    using assign_calls(1) [OF apart1, of q u "Some r" INCOMING "si_cid m"] asg by simp
  have calls1: "reg_calls q w1 = reg_calls q w + (if q = r \<and> rg_stats (w_regs w r) \<noteq> None then 1 else 0)" for q
    using attach_calls_all [OF apart cur, of q r] att by simp
  have "reg_calls q (invite_call u te r t req m w2) = reg_calls q w2" for q
    by (rule call_step_calls(1) [OF p(9)])
  moreover have "w_slots (invite_call u te r t req m w2) j = w_slots w j" if "j \<noteq> t" for j
    using that p(9,12) by (simp add: call_step_def)
  moreover have "t \<in> set (w_assigned (invite_call u te r t req m w2) (ts_path (si_cid m)))"
  proof -
    have "slots_ok w2" using p(8) by (simp add: invite_safe_def)
    then have "t \<in> set (w_assigned w2 (ts_path (si_cid m)))" using slots_assigned [of w2 t] p(4-6) by simp
    then show ?thesis using p(9) by (simp add: call_step_def)
  qed
  ultimately show ?thesis using p calls2 calls1 by (simp add: invite_placed_def call_step_def)
qed

text \<open>
  C6. An \<open>INVITE\<close> is booked exactly once or not at all. Either it is answered with an error
  status, and no timeslot, no list and no registration's count of calls in progress has changed, nor any statistic while there is a
  free timeslot (for lack of one the count is taken and given back, which leaves its mark on total and peak);
  or the timeslot at the head of the idle list, and that one alone, carries its call id and the registration its
  request names and is entered under that id, and that registration, if it has statistics, alone counts one call more,
  whatever is answered to the caller then.
  Either way the server stays consistent and every mutex is as it was.
\<close>

theorem invite_books_once:
  assumes u: "ucommon_ok u" and ok: "slots_ok w" and clock: "w_clock w \<noteq> 0" and cid: "0 \<le> si_cid m"
    and apart: "stats_apart w" and cur: "\<And>r. reg_current r INCOMING w < 65535"
  shows "invite_safe w (invite u te req m w) \<and>
    (invite_refused te m w (invite u te req m w) \<or>
     (\<exists>r uuid. sr_user req = Some uuid \<and> sip_contact u uuid w = Some r \<and> invite_placed r m w (invite u te req m w)))"
proof
  show "invite_safe w (invite u te req m w)" by (rule invite_safe_always [OF u ok clock cid])
  show "invite_refused te m w (invite u te req m w) \<or>
     (\<exists>r uuid. sr_user req = Some uuid \<and> sip_contact u uuid w = Some r \<and> invite_placed r m w (invite u te req m w))"
  proof (cases rule: invite_cases [of u te req m w])
    case (refused code)
    with refused_answer [OF refl refl refl refl refl refused(1)] show ?thesis by simp
  next
    case (full r w1)
    with full_refused [OF apart cur full(1,2)] show ?thesis by simp
  next
    case (placed uuid r w1 t w2)
    with placed_counts [OF u ok clock cid apart cur placed(3,4)] show ?thesis by auto
  qed
qed

section \<open>The driver as a machine\<close>

text \<open>
  What can happen to a running server: an event from the SIP stack on one of its threads, a tick
  of the timer thread for a timeslot, or an event that the operator posts to one.
\<close>

datatype sip_op = Stack thread_env sip_event | Tick nat nat | Operator nat event_id

fun sip_step :: "ucommon \<Rightarrow> (nat \<Rightarrow> world \<Rightarrow> bool) \<Rightarrow> bool \<Rightarrow> world \<Rightarrow> sip_op \<Rightarrow> world" where
  "sip_step u stp legacy w (Stack te ev) =
     (case run_event u stp legacy te ev w of Some w' \<Rightarrow> w' | None \<Rightarrow> w)"
| "sip_step u stp legacy w (Tick i elapsed) =
     Timeslot_expire (sip_vtable u stp) i (snd (sip_getExpires elapsed i w))"
| "sip_step u stp legacy w (Operator i ev) = snd (Timeslot_post (sip_vtable u stp) i (ev, w))"

fun sip_guard :: "world \<Rightarrow> sip_op \<Rightarrow> bool" where
  "sip_guard w (Stack te ev) \<longleftrightarrow> 0 \<le> si_cid (se_invite ev)"
| "sip_guard w (Tick i elapsed) \<longleftrightarrow> i < w_ts_count w"
| "sip_guard w (Operator i ev) \<longleftrightarrow> i < w_ts_count w \<and> shutdown_safe ev (ts_handler (w_slots w i))"

definition server_ok :: "world \<Rightarrow> bool" where
  "server_ok w \<longleftrightarrow> slots_ok w \<and> \<not> w_fault w \<and> w_clock w \<noteq> 0 \<and> (\<forall>r. rg_fwd (w_regs w r) = None) \<and>
     (\<forall>j. mutex_depth j (w_trace w) = 0)"

text \<open>What a step may do as far as \<open>server_ok\<close> can see.\<close>

definition server_step :: "world \<Rightarrow> world \<Rightarrow> bool" where
  "server_step w w' \<longleftrightarrow> slots_ok w' \<and> w_fault w' = w_fault w \<and> w_clock w' = w_clock w \<and>
     (\<forall>r. rg_fwd (w_regs w' r) = rg_fwd (w_regs w r)) \<and>
     (\<forall>j. mutex_depth j (w_trace w') = mutex_depth j (w_trace w))"

lemma server_stepD: "server_step w w' \<Longrightarrow> server_ok w \<Longrightarrow> server_ok w'"
  by (simp add: server_step_def server_ok_def)

lemma server_step_trans: "server_step w v \<Longrightarrow> server_step v x \<Longrightarrow> server_step w x"
  by (simp add: server_step_def)

lemma server_step_env:
  assumes "slots_ok w'" and "w_fault w' = w_fault w" and "env_of w' = env_of w"
    and "\<And>j. mutex_depth j (w_trace w') = mutex_depth j (w_trace w)"
  shows "server_step w w'"
  using assms(1,2,4) env_ofD(1,4) [OF assms(3)] by (simp add: server_step_def)

lemma server_step_safe: "invite_safe w w' \<Longrightarrow> server_step w w'"
  by (rule server_step_env) (simp_all add: invite_safe_def)

lemma server_step_emit: "slots_ok w \<Longrightarrow> no_mutex e \<Longrightarrow> server_step w (emit e w)"
  by (rule server_step_env) (simp_all add: no_mutex_depth del: mutex_depth.simps)

lemma server_step_answer: "slots_ok w \<Longrightarrow> server_step w (answer te tid code w)"
  unfolding answer_def by (rule server_step_emit) (simp_all add: no_mutex_def)

lemma slots_ok_regs [simp]: "slots_ok (upd_reg r f w) \<longleftrightarrow> slots_ok w"
  by (simp add: slots_ok_def)

lemma server_step_upd_reg:
  "slots_ok w \<Longrightarrow> rg_fwd (f (w_regs w r)) = rg_fwd (w_regs w r) \<Longrightarrow> server_step w (upd_reg r f w)"
  by (simp add: server_step_def)

lemma server_step_reg_release: "slots_ok w \<Longrightarrow> server_step w (Registration_release r w)"
  unfolding Registration_release_def by (rule server_step_upd_reg) simp_all

lemma registrar_server_step:
  assumes "slots_ok w" and "rg_fwd (w_regs w r) = None"
  shows "\<exists>w'. registrar_step r w x = Some w' \<and> server_step w w'"
  using assms by (cases x) (simp_all add: reg_unfold sip_release_reg_def Registration_release_def Let_def
      server_step_def no_mutex_depth)

lemma locate_server_step: "slots_ok w \<Longrightarrow> server_step w (snd (sip_locate rid w)) \<and>
    rg_fwd (w_regs (snd (sip_locate rid w)) r) = rg_fwd (w_regs w r)"
  by (simp add: sip_locate_def server_step_def split: option.split)

lemma server_step_slots: "server_step w w' \<Longrightarrow> slots_ok w'"
  by (simp add: server_step_def)

context ucommon_lib
begin

lemma get_in_range:
  assumes "slots_ok w" and "Timeslot_get cid w = (Some t, w1)"
  shows "t < w_ts_count w \<and> ts_handler (w_slots w t) \<noteq> IdleHandler"
proof -
  have "find_cid (w_slots w) cid (w_assigned w (ts_path cid)) = Some t"
    using assms(2) by (simp add: Timeslot_get_def Let_def split: if_splits)
  with find_cid_Some have "t \<in> set (w_assigned w (ts_path cid))" by blast
  with slots_assigned [OF assms(1)] have "t < w_ts_count w \<and> in_call (ts_handler (w_slots w t))" by blast
  then show ?thesis by (cases "ts_handler (w_slots w t)") simp_all
qed

lemma post_server_step:
  assumes "slots_ok w" and "i < w_ts_count w" and "shutdown_safe ev (ts_handler (w_slots w i))"
  shows "server_step w (snd (Timeslot_post (sip_vtable u stp) i (ev, w)))"
proof (rule server_step_env)
  show "slots_ok (snd (Timeslot_post (sip_vtable u stp) i (ev, w)))"
    "w_fault (snd (Timeslot_post (sip_vtable u stp) i (ev, w))) = w_fault w"
    "mutex_depth j (w_trace (snd (Timeslot_post (sip_vtable u stp) i (ev, w)))) = mutex_depth j (w_trace w)"
    "env_of (snd (Timeslot_post (sip_vtable u stp) i (ev, w))) = env_of w" for j
    using sip.post_ok [OF assms] by simp_all
qed

lemma post_to_call_step:
  assumes "slots_ok w" and "0 \<le> cid" and "ev \<noteq> EvSHUTDOWN"
  shows "server_step w (snd (post_to_call u stp ev cid w))"
proof -
  obtain t w1 where g: "Timeslot_get cid w = (t, w1)" by (rule prod.exhaust)
  have w1: "w1 = emit ListRelease (emit ListAccess w)"
    using g ts_path_bound [OF assms(2)] by (auto simp: Timeslot_get_def Let_def)
  have s1: "server_step w w1" using assms(1) by (simp add: w1 server_step_def)
  show ?thesis
  proof (cases t)
    case None
    with g s1 show ?thesis by (simp add: post_to_call_def)
  next
    case (Some i)
    have "i < w_ts_count w1" using get_in_range [OF assms(1)] g Some w1 by simp
    then have "server_step w1 (snd (Timeslot_post (sip_vtable u stp) i (ev, w1)))"
      by (intro post_server_step) (use s1 assms(3) in \<open>simp_all add: server_step_def shutdown_safe_def\<close>)
    with s1 g Some show ?thesis by (auto simp: post_to_call_def intro: server_step_trans)
  qed
qed

lemma message_new_step:
  assumes "slots_ok w" and "0 \<le> si_cid (se_invite ev)"
  shows "server_step w (message_new u stp te ev w)"
proof -
  have o: "server_step w (options te tid w)" for tid
    unfolding options_def using assms(1) by (simp add: server_step_emit no_mutex_def)
  have p: "server_step w (snd (post_to_call u stp EvDROP (si_cid (se_invite ev)) w))"
    by (rule post_to_call_step) (use assms in simp_all)
  have r: "server_step w w" using assms(1) by (simp add: server_step_def)
  have a: "server_step w v \<Longrightarrow> server_step w (answer te tid code v)" for v tid code
    using server_step_trans [OF _ server_step_answer] server_step_slots by blast
  show ?thesis using o p r
    by (auto simp: message_new_def Let_def intro!: a split: option.split sip_method.split prod.split)
qed

lemma registrar_event_step:
  assumes "slots_ok w" and "\<And>r. rg_fwd (w_regs w r) = None"
    and f: "\<And>r v. slots_ok v \<Longrightarrow> rg_fwd (w_regs v r) = None \<Longrightarrow> \<exists>w'. f r v = Some w' \<and> server_step v w'"
  shows "\<exists>w'. (case sip_locate rid w of (Some r, w1) \<Rightarrow> f r w1 | (None, w1) \<Rightarrow> Some w1) = Some w' \<and> server_step w w'"
proof -
  obtain r w1 where l: "sip_locate rid w = (r, w1)" by (rule prod.exhaust)
  have s1: "server_step w w1" using locate_server_step [OF assms(1), of rid] l by simp
  show ?thesis
  proof (cases r)
    case None
    with l s1 show ?thesis by simp
  next
    case (Some q)
    have "rg_fwd (w_regs w1 q) = None" using s1 assms(2) by (simp add: server_step_def)
    from f [OF server_step_slots [OF s1] this] obtain w' where "f q w1 = Some w'" "server_step w1 w'" by blast
    with l Some server_step_trans [OF s1] show ?thesis by auto
  qed
qed

lemma registration_failure_step:
  assumes "slots_ok w" and "\<And>r. rg_fwd (w_regs w r) = None"
  shows "\<exists>w'. registration_failure te ev w = Some w' \<and> server_step w w'"
proof (cases "se_status ev = Some 401")
  case True
  have "registration_failure te ev w = (case sip_locate (se_rid ev) w of (Some r, w1) \<Rightarrow>
      (\<lambda>r w1. Some (sip_authenticate r (te_unquote te (challenge_realm ev)) w1)) r w1 | (None, w1) \<Rightarrow> Some w1)"
    using True by (simp add: registration_failure_def split: prod.split option.split)
  then show ?thesis
    using registrar_event_step [OF assms, of "\<lambda>r w1. Some (sip_authenticate r (te_unquote te (challenge_realm ev)) w1)"]
    by (simp add: sip_authenticate_def Let_def server_step_emit no_mutex_def)
next
  case False
  have f: "\<And>r v. slots_ok v \<Longrightarrow> rg_fwd (w_regs v r) = None \<Longrightarrow> \<exists>w'. sip_failed r v = Some w' \<and> server_step v w'"
    using registrar_server_step [where x = Fail] by simp
  have "registration_failure te ev w = (case sip_locate (se_rid ev) w of (Some r, w1) \<Rightarrow> sip_failed r w1
      | (None, w1) \<Rightarrow> Some w1)"
    using False by (simp add: registration_failure_def split: prod.split option.split)
  then show ?thesis using registrar_event_step [OF assms f] by simp
qed

lemma run_event_step:
  assumes "server_ok w" and "0 \<le> si_cid (se_invite ev)"
  shows "\<exists>w'. run_event u stp legacy te ev w = Some w' \<and> server_step w w'"
proof -
  have ok: "slots_ok w" and fwd: "\<And>r. rg_fwd (w_regs w r) = None" and clock: "w_clock w \<noteq> 0"
    using assms(1) by (simp_all add: server_ok_def)
  have confirm: "\<exists>w'. (case sip_locate (se_rid ev) w of (Some r, w1) \<Rightarrow> sip_confirm r w1 | (None, w1) \<Rightarrow> Some w1)
      = Some w' \<and> server_step w w'"
    by (rule registrar_event_step [OF ok fwd]) (use registrar_server_step [where x = Confirm] in simp)
  have cancel: "\<exists>w'. (case sip_locate (se_rid ev) w of (Some r, w1) \<Rightarrow> sip_cancel r w1 | (None, w1) \<Rightarrow> Some w1)
      = Some w' \<and> server_step w w'"
    by (rule registrar_event_step [OF ok fwd]) (use registrar_server_step [where x = Cancel] in simp)
  have unsupported: "server_step w (emit (Log s) w)" for s
    by (rule server_step_emit [OF ok]) (simp add: no_mutex_def)
  have inv: "server_step w (invite u te req (se_invite ev) w)" for req
    by (rule server_step_safe, rule invite_safe_always [OF lib ok clock assms(2)])
  have post: "server_step w (snd (post_to_call u stp e (si_cid (se_invite ev)) w))" if "e \<noteq> EvSHUTDOWN" for e
    by (rule post_to_call_step [OF ok assms(2) that])
  show ?thesis
    using confirm cancel unsupported inv post message_new_step [OF ok assms(2)]
      registration_failure_step [OF ok fwd, of te ev]
    by (cases "se_type ev") (simp_all add: run_event_def Let_def split: option.split)
qed

lemma tick_step:
  assumes "slots_ok w" and "i < w_ts_count w"
  shows "server_step w (Timeslot_expire (sip_vtable u stp) i (snd (sip_getExpires elapsed i w)))"
proof -
  let ?g = "snd (sip_getExpires elapsed i w)"
  have g: "w_ts_count ?g = w_ts_count w" "w_fault ?g = w_fault w" "env_of ?g = env_of w"
    "mutex_depth j (w_trace ?g) = mutex_depth j (w_trace w) + (if j = i then 1 else 0)" for j
    by (simp_all add: sip_getExpires_def Let_def)
  have "slots_eq w ?g" by (simp add: sip_getExpires_def Let_def slots_eq_def)
  from slots_ok_eq [OF this] assms(1) have okg: "slots_ok ?g" by simp
  have ig: "i < w_ts_count ?g" using assms(2) g(1) by simp
  note e = sip.expire_ok [OF okg ig, where stp = stp]
  show ?thesis by (rule server_step_env) (use e g in simp_all)
qed

end

sublocale ucommon_lib < server: machine "sip_step u stp legacy" sip_guard server_ok for stp legacy
proof
  fix w x
  assume inv: "server_ok w" and g: "sip_guard w x"
  have ok: "slots_ok w" using inv by (simp add: server_ok_def)
  show "server_ok (sip_step u stp legacy w x)"
  proof (cases x)
    case (Stack te ev)
    with g run_event_step [OF inv, of ev stp legacy te] inv show ?thesis by (auto intro: server_stepD)
  next
    case (Tick i elapsed)
    with g tick_step [OF ok] inv show ?thesis by (auto intro: server_stepD)
  next
    case (Operator i ev)
    with g post_server_step [OF ok] inv show ?thesis by (auto intro: server_stepD)
  qed
qed

context ucommon_lib
begin

lemma server_run:
  "server_ok w \<Longrightarrow> guarded_ops (sip_step u stp legacy) sip_guard w ops \<Longrightarrow>
     server_ok (run_ops (sip_step u stp legacy) w ops)"
  by (rule server.run_inv)

end

text \<open>
  C5. The server survives any sequence of events: from a consistent state, whatever comes from
  the SIP stack, the timer and the operator, in whatever order, every timeslot is on the list
  that its state calls for, nothing is indexed outside the table of calls, no registration
  is followed for ever, and every mutex taken has been released (events with a negative call
  id, and shutdowns of timeslots that wait for their release or are off line, aside).
\<close>

theorem sip_server_invariant:
  assumes "ucommon_ok u" and "server_ok w" and "guarded_ops (sip_step u stp legacy) sip_guard w ops"
  shows "server_ok (run_ops (sip_step u stp legacy) w ops)"
  by (rule ucommon_lib.server_run [OF ucommon_lib.intro [OF assms(1)] assms(2,3)])

definition sip_server :: world where
  "sip_server = (fresh_world 2)\<lparr>w_regs := (\<lambda>_. blank_registration)(0 := blank_registration\<lparr>rg_context := Some 1,
     rg_rid := 7, rg_limit := 2, rg_uuid := ''u1'', rg_stats := Some 0, rg_script := Some ''main''\<rparr>),
     w_registrations := [0], w_out_context := Some 1\<rparr>"

definition sip_env :: "string option \<Rightarrow> thread_env" where
  "sip_env realm = \<lparr>te_context = Some 1, te_realm = realm, te_builds = True, te_unquote = (\<lambda>_. []),
     te_script = \<lparr>se_incoming = (\<lambda>_. True), se_attach = (\<lambda>_ _. True), se_voice = None,
       se_digits_sym = True, se_voice_sym = True\<rparr>\<rparr>"

definition plain_invite :: "int \<Rightarrow> sip_invite" where
  "plain_invite cid = \<lparr>si_tid = 3, si_did = 4, si_cid = cid, si_to = None, si_from = None, si_via = None\<rparr>"

definition invite_event :: "int \<Rightarrow> sip_event" where
  "invite_event cid = \<lparr>se_type = CALL_INVITE, se_rid = 0, se_status = None, se_prx_auth = None,
     se_www_auth = None, se_request = Some \<lparr>sr_method = OTHER_METHOD, sr_parts = True, sr_user = Some ''u1'',
       sr_auth = None\<rparr>, se_invite = plain_invite cid\<rparr>"

lemma sip_server_ok: "server_ok sip_server"
proof -
  have "env_of (construct_all u n v) = env_of v" for u n v
    by (induction n) (simp_all add: Timeslot_construct_def)
  moreover have "slots_eq (fresh_world 2) sip_server" by (simp add: slots_eq_def sip_server_def)
  ultimately show ?thesis
    using slots_ok_eq by (auto simp: server_ok_def sip_server_def blank_registration_def)
qed

theorem sip_server_invariant_witness:
  "server_ok (run_ops (sip_step ucommon_ref (\<lambda>_ _. True) False) sip_server
     [Stack (sip_env None) (invite_event 5), Stack (sip_env None) ((invite_event 5)\<lparr>se_type := CALL_RELEASED\<rparr>)])"
  by (rule sip_server_invariant [OF ucommon_ref_ok sip_server_ok])
    (simp add: invite_event_def plain_invite_def)

lemma construct_all_stats: "env_of (construct_all u n v) = env_of v" "w_sta (construct_all u n v) = w_sta v"
  by (induction n) (simp_all add: Timeslot_construct_def)

lemma sip_server_apart: "stats_apart sip_server" "reg_current r INCOMING sip_server < 65535"
proof -
  have b: "w_boards (fresh_world 2) = w_boards blank_world" "w_spans (fresh_world 2) = w_spans blank_world"
    "w_drv_stats (fresh_world 2) = w_drv_stats blank_world" "w_sta (fresh_world 2) = w_sta blank_world"
    unfolding fresh_world_def using env_ofD [OF construct_all_stats(1)] construct_all_stats(2) by simp_all
  show "stats_apart sip_server"
    by (auto simp: stats_apart_def sip_server_def b blank_world_def blank_segment_def blank_registration_def)
  show "reg_current r INCOMING sip_server < 65535"
    by (simp add: reg_current_def sip_server_def b blank_world_def blank_registration_def zero_node_def)
qed

theorem invite_books_once_witness:
  "invite_safe sip_server (invite ucommon_ref (sip_env None) \<lparr>sr_method = OTHER_METHOD, sr_parts = True,
     sr_user = Some ''u1'', sr_auth = None\<rparr> (plain_invite 5) sip_server)"
proof -
  have "slots_ok sip_server" "w_clock sip_server \<noteq> 0" using sip_server_ok by (simp_all add: server_ok_def)
  moreover have "0 \<le> si_cid (plain_invite 5)" by (simp add: plain_invite_def)
  ultimately show ?thesis
    using invite_books_once [OF ucommon_ref_ok _ _ _ sip_server_apart, of "plain_invite 5"] by blast
qed

end
