(* ===== verification/SipCalls.thy ===== *)
theory SipCalls
  imports SipProps
begin

text \<open>
  Further properties of the SIP driver: who is let in, what the timer of a timeslot delivers, the
  matching of target and local names, and the answers to messages outside a call.
\<close>

section \<open>Who is let in\<close>

lemma sip_contact_uuid:
  assumes "ucommon_ok u" and "sip_contact u uuid w = Some r"
  shows "rg_uuid (w_regs w r) = uuid"
proof -
  have "find_reg P w l = Some r \<Longrightarrow> P (w_regs w r)" for P l
    by (induction l) (auto split: if_splits)
  from this [of "\<lambda>g. u_eq u (rg_uuid g) uuid"] assms show ?thesis by (simp add: sip_contact_def)
qed

lemma remove_quotes_quoted: "remove_quotes (CHR ''\"'' # name @ [c]) = name"
  by (simp add: remove_quotes_def)

lemma answer_realm [simp]: "answer (te\<lparr>te_realm := x\<rparr>) tid code w = answer te tid code w"
  by (simp add: answer_def)

lemma sip_allocate_env: "env_of (sip_allocate u cid k reg i w) = env_of w"
  by (simp add: sip_allocate_def allocate_env split: option.split)

lemma assign_env: "env_of (snd (Timeslot_assign (sip_allocate u) reg k cid w)) = env_of w"
  by (simp add: Timeslot_assign_def Let_def sip_allocate_env split: list.split)

text \<open>
  A server with a realm does not check a caller's credentials: an \<open>INVITE\<close> whose
  authorization header has a response, whatever it is and whatever nonce it answers, and
  whose quoted user name is the user of the request's own address, is treated as if the server
  had no realm. The address of the request is all a caller needs to know.
\<close>

theorem invite_response_unchecked:
  assumes "ucommon_ok u" and "sr_user req = Some uuid" and "sr_auth req = Some a"
    and "sa_username a = Some (CHR ''\"'' # uuid @ ''\"'')" and "sa_response a = Some response"
    and "sa_uri a \<noteq> None" and "sa_nonce a \<noteq> None"
  shows "invite u te req m w = invite u (te\<lparr>te_realm := None\<rparr>) req m w"
proof -
  have step: "invite_call u te r t req m v = invite_call u (te\<lparr>te_realm := None\<rparr>) r t req m v"
    if "rg_uuid (w_regs v r) = uuid" for r t v
  proof -
    have "authorized u (te_realm te) (sr_auth req) (rg_uuid (w_regs v r)) = Some True"
      using assms that remove_quotes_quoted [of uuid "CHR ''\"''"]
      by (simp add: authorized_def split: option.split)
    moreover have "authorized u None a' x = Some True" for a' x by (simp add: authorized_def)
    moreover have "\<not> auth_asserts rl (sr_auth req)" for rl
      using assms(3,6,7) by (simp add: auth_asserts_def split: option.split)
    ultimately show ?thesis by (simp add: invite_call_def split: prod.split)
  qed
  have uuid: "rg_uuid (w_regs w2 r) = uuid"
    if c: "sip_contact u uuid w = Some r" and att: "Registration_attach r INCOMING w = (b, w1)"
      and asg: "Timeslot_assign (sip_allocate u) (Some r) INCOMING (si_cid m) w1 = (ts, w2)" for r b w1 ts w2
  proof -
    have "w_regs w1 = w_regs w" using att attach_frame [of w r INCOMING] by (simp add: same_but_statsD)
    moreover have "w_regs w2 = w_regs w1"
      using env_ofD [OF assign_env [of u "Some r" INCOMING "si_cid m" w1]] asg by simp
    ultimately show ?thesis using sip_contact_uuid [OF assms(1) c] by simp
  qed
  show ?thesis
    unfolding invite_eq Let_def assms(2)
    by (auto simp: step uuid split: option.split prod.split bool.split)
qed

theorem invite_response_unchecked_witness:
  "invite ucommon_ref (sip_env (Some ''realm'')) \<lparr>sr_method = OTHER_METHOD, sr_parts = True,
      sr_user = Some ''u1'', sr_auth = Some \<lparr>sa_username = Some ''\"u1\"'', sa_uri = Some [], sa_nonce = Some [],
        sa_response = Some ''forged''\<rparr>\<rparr> (plain_invite 5) sip_server =
   invite ucommon_ref (sip_env None) \<lparr>sr_method = OTHER_METHOD, sr_parts = True,
      sr_user = Some ''u1'', sr_auth = Some \<lparr>sa_username = Some ''\"u1\"'', sa_uri = Some [], sa_nonce = Some [],
        sa_response = Some ''forged''\<rparr>\<rparr> (plain_invite 5) sip_server"
proof -
  have "(sip_env (Some ''realm''))\<lparr>te_realm := None\<rparr> = sip_env None" by (simp add: sip_env_def)
  then show ?thesis
    using invite_response_unchecked [OF ucommon_ref_ok, of "\<lparr>sr_method = OTHER_METHOD, sr_parts = True,
      sr_user = Some ''u1'', sr_auth = Some \<lparr>sa_username = Some ''\"u1\"'', sa_uri = Some [], sa_nonce = Some [],
        sa_response = Some ''forged''\<rparr>\<rparr>" "''u1''" "\<lparr>sa_username = Some ''\"u1\"'', sa_uri = Some [], sa_nonce = Some [],
        sa_response = Some ''forged''\<rparr>" "''forged''" "sip_env (Some ''realm'')" "plain_invite 5" sip_server]
    by simp
qed

section \<open>Names in a list\<close>

lemma strstr_first: "name \<noteq> [] \<Longrightarrow> strstr (name @ rest) name = Some (name @ rest)"
  by (cases name) simp_all

lemma strstr_skip: "hd name \<notin> set x \<Longrightarrow> name \<noteq> [] \<Longrightarrow> strstr (x @ s) name = strstr s name"
proof (induction x)
  case (Cons c x)
  then have "\<not> prefix name (c # x @ s)" by (cases name) auto
  with Cons show ?case by simp
qed simp

text \<open>
  A name in the list of targets (or of local names) is looked for by its first occurrence
  only, and nothing is asked of what stands before it. So an entry is not found behind a longer
  entry that begins with it, whatever the rest of the list holds; and the end of a longer
  entry is taken for an entry.
\<close>

theorem listed_first_occurrence:
  assumes "name \<noteq> []"
  shows "(\<not> c_isspace c \<and> c \<notin> set '',;:'' \<longrightarrow> \<not> listed (name @ c # rest) name) \<and>
    (hd name \<notin> set x \<longrightarrow> listed (x @ name) name)"
proof
  show "\<not> c_isspace c \<and> c \<notin> set '',;:'' \<longrightarrow> \<not> listed (name @ c # rest) name"
    using strstr_first [OF assms, of "c # rest"] by (simp add: listed_def)
  show "hd name \<notin> set x \<longrightarrow> listed (x @ name) name"
    using strstr_skip [OF _ assms, of x name] strstr_first [OF assms, of "[]"] assms
    by (simp add: listed_def)
qed

theorem listed_first_occurrence_witness:
  "\<not> listed ''1000,100'' ''100'' \<and> listed ''7100'' ''100''"
  using listed_first_occurrence [of "''100''" "CHR ''0''" "'',100''" "''7''"]
  by (simp add: c_isspace_def)

section \<open>Messages outside a call\<close>

text \<open>
  An \<open>OPTIONS\<close> request is answered twice: by \<open>options\<close> and again by the code
  that follows for every message.
\<close>

theorem options_answered_twice:
  assumes "se_request ev = Some req" and "sr_method req = OPTIONS"
  shows "w_trace (message_new u stp te ev w) = w_trace w @
    [if te_builds te then SendOptions (te_context te) (si_tid (se_invite ev)) 200 True
     else SendOptions (te_context te) (si_tid (se_invite ev)) 400 False,
     SendAnswer (te_context te) (si_tid (se_invite ev)) 200 False]"
  using assms by (simp add: message_new_def Let_def options_def answer_def SIP_OK_def SIP_BAD_REQUEST_def)

theorem options_answered_twice_witness:
  "w_trace (message_new ucommon_ref (\<lambda>_ _. True) (sip_env None) ((invite_event 5)\<lparr>se_request :=
      Some \<lparr>sr_method = OPTIONS, sr_parts = True, sr_user = None, sr_auth = None\<rparr>\<rparr>) blank_world) =
   [SendOptions (Some 1) 3 200 True, SendAnswer (Some 1) 3 200 False]"
  using options_answered_twice [of "(invite_event 5)\<lparr>se_request :=
      Some \<lparr>sr_method = OPTIONS, sr_parts = True, sr_user = None, sr_auth = None\<rparr>\<rparr>"
      "\<lparr>sr_method = OPTIONS, sr_parts = True, sr_user = None, sr_auth = None\<rparr>"]
  by (simp add: invite_event_def plain_invite_def sip_env_def blank_world_def)

section \<open>The timer of a timeslot\<close>

text \<open>A timer tick for timeslot \<open>i\<close>, \<open>elapsed\<close> after its timer was set.\<close>

definition sip_tick :: "ucommon \<Rightarrow> (nat \<Rightarrow> world \<Rightarrow> bool) \<Rightarrow> nat \<Rightarrow> nat \<Rightarrow> world \<Rightarrow> world" where
  "sip_tick u stp elapsed i w = Timeslot_expire (sip_vtable u stp) i (snd (sip_getExpires elapsed i w))"

definition timer_due :: "nat \<Rightarrow> slot \<Rightarrow> bool" where
  "timer_due elapsed s \<longleftrightarrow> (case ts_timer s of None \<Rightarrow> False | Some t \<Rightarrow> t \<le> elapsed)"

lemma sip_getExpires_effect:
  "ts_expires (w_slots (snd (sip_getExpires elapsed i w)) i) = map_option (\<lambda>t. t - elapsed) (ts_timer (w_slots w i))"
  "ts_timer (w_slots (snd (sip_getExpires elapsed i w)) i) =
     (if timer_due elapsed (w_slots w i) then None else ts_timer (w_slots w i))"
  "quiet i (emit (MutexLock i) w) (snd (sip_getExpires elapsed i w))"
proof -
  have q: "quiet i v (upd_slot i (\<lambda>s. s\<lparr>ts_timer := None\<rparr>) (upd_slot i (\<lambda>s. s\<lparr>ts_expires := e\<rparr>) v))"
    "quiet i v (upd_slot i (\<lambda>s. s\<lparr>ts_expires := e\<rparr>) v)" for v e
    by (rule quiet_trans [OF quiet_upd_slot quiet_upd_slot] quiet_upd_slot; simp)+
  show "ts_expires (w_slots (snd (sip_getExpires elapsed i w)) i) = map_option (\<lambda>t. t - elapsed) (ts_timer (w_slots w i))"
    "quiet i (emit (MutexLock i) w) (snd (sip_getExpires elapsed i w))"
    using q by (simp_all add: sip_getExpires_def Let_def)
  show "ts_timer (w_slots (snd (sip_getExpires elapsed i w)) i) =
     (if timer_due elapsed (w_slots w i) then None else ts_timer (w_slots w i))"
    by (auto simp: sip_getExpires_def Let_def timer_due_def split: option.split)
qed

lemma sip_tick_effect:
  assumes u: "ucommon_ok u" and ok: "slots_ok w" and i: "i < w_ts_count w"
    and h: "ts_handler (w_slots w i) = ReleaseHandler"
  shows "if timer_due elapsed (w_slots w i)
    then w_idle (sip_tick u stp elapsed i w) = i # w_idle w \<and>
         ts_handler (w_slots (sip_tick u stp elapsed i w) i) = IdleHandler \<and>
         ts_registry (w_slots (sip_tick u stp elapsed i w) i) = None
    else w_idle (sip_tick u stp elapsed i w) = w_idle w \<and>
         ts_handler (w_slots (sip_tick u stp elapsed i w) i) = ReleaseHandler \<and>
         ts_timer (w_slots (sip_tick u stp elapsed i w) i) = ts_timer (w_slots w i)"
proof -
  let ?g = "snd (sip_getExpires elapsed i w)"
  note e = sip_getExpires_effect [where elapsed = elapsed and i = i and w = w]
  note q = quietD [OF e(3)]
  have hg: "ts_handler (w_slots ?g i) = ReleaseHandler" and okg: "slots_ok (emit (MutexLock i) w)"
    using q h ok slots_ok_eq [of w "emit (MutexLock i) w"] by (simp_all add: slots_eq_def)
  show ?thesis
  proof (cases "timer_due elapsed (w_slots w i)")
    case True
    then have ex: "ts_expires (w_slots ?g i) = Some 0"
      by (auto simp: e(1) timer_due_def split: option.splits)
    let ?d = "sip_drop i ?g"
    have p: "ts_path (ts_cid (w_slots ?d i)) < TIMESLOT_INDEX_SIZE"
      using slots_path [OF ok i] h quietD [OF sip_drop_quiet] q by simp
    obtain ev' w' where r: "Timeslot_release u sip_disarm i (EvTIMEOUT, ?d) = (ev', w')" by (rule prod.exhaust)
    have timer: "slot_timer u sip_disarm" by unfold_locales (simp_all add: u sip_disarm_quiet)
    note f = slot_timer.release_effect [OF timer r p]
    have t: "sip_tick u stp elapsed i w = upd_slot i (\<lambda>s. s\<lparr>ts_expires := None\<rparr>) w'"
      using hg ex r f(1)
      by (simp add: sip_tick_def Timeslot_expire_def run_handler_def Timeslot_releaseHandler_def
          sip_vtable_def sip_release_def)
    have "w_idle ?d = w_idle w" using quietD(2) [OF sip_drop_quiet] q by simp
    with True t f(2,6,10) show ?thesis by simp
  next
    case False
    then have ex: "ts_expires (w_slots ?g i) \<noteq> Some 0"
      by (auto simp: e(1) timer_due_def split: option.splits)
    then have t: "sip_tick u stp elapsed i w = emit (MutexUnlock i) (upd_slot i (\<lambda>s. s\<lparr>ts_expires := None\<rparr>) ?g)"
      by (simp add: sip_tick_def Timeslot_expire_def)
    with False q hg e(2) show ?thesis by simp
  qed
qed

text \<open>
  A call that waits for its release is released by the timer exactly when the timer that was
  set has run out: then the timeslot is idle and heads the idle list; before, and for ever where
  no timer is set, a tick leaves the call where it is.
\<close>

theorem sip_timer_releases:
  assumes u: "ucommon_ok u" and ok: "slots_ok w" and i: "i < w_ts_count w"
    and h: "ts_handler (w_slots w i) = ReleaseHandler"
  shows "if timer_due elapsed (w_slots w i)
    then w_idle (sip_tick u stp elapsed i w) = i # w_idle w \<and>
         ts_handler (w_slots (sip_tick u stp elapsed i w) i) = IdleHandler \<and>
         ts_registry (w_slots (sip_tick u stp elapsed i w) i) = None
    else w_idle (sip_tick u stp elapsed i w) = w_idle w \<and>
         ts_handler (w_slots (sip_tick u stp elapsed i w) i) = ReleaseHandler \<and>
         ts_timer (w_slots (sip_tick u stp elapsed i w) i) = ts_timer (w_slots w i)"
  by (rule sip_tick_effect [OF assms])

theorem sip_timer_releases_witness:
  "w_idle (sip_tick ucommon_ref (\<lambda>_ _. True) 16000 1 (upd_slot 1 (\<lambda>s. s\<lparr>ts_timer := Some 16000\<rparr>) busy_world)) =
     1 # w_idle busy_world"
proof -
  let ?w = "upd_slot (Suc 0) (\<lambda>s. s\<lparr>ts_timer := Some 16000\<rparr>) busy_world"
  have "slots_eq busy_world ?w" by (simp add: slots_eq_def)
  from slots_ok_eq [OF this] have ok: "slots_ok ?w" by simp
  from sip_timer_releases [OF ucommon_ref_ok this, of "Suc 0" 16000 "\<lambda>_ _. True"]
  show ?thesis by (simp add: timer_due_def)
qed

end
