(* ===== verification/Background.thy ===== *)
theory Background
  imports SipCalls
begin

text \<open>
  The background thread (\<open>common/thread.cpp\<close>, and \<open>background\<close> of \<open>sipw/thread.cpp\<close>): the scan of
  all timeslots for timers that have run out, the passes of its loop, and the order of the
  accesses to its shared state while it is started and shut down.
\<close>

section \<open>The scan\<close>

text \<open>Of two timeouts the earlier; \<open>None\<close> is \<open>Timer::inf\<close>, the largest value.\<close>

definition earlier :: "nat option \<Rightarrow> nat option \<Rightarrow> bool" where
  "earlier a b \<longleftrightarrow> (case a of None \<Rightarrow> False | Some x \<Rightarrow> (case b of None \<Rightarrow> True | Some y \<Rightarrow> x < y))"

text \<open>
  From the last timeslot down to the first. \<open>gx\<close> is the virtual \<open>getExpires\<close>, which takes the mutex
  of the timeslot, and \<open>xp\<close> is \<open>expire\<close>, which gives it back.
\<close>

fun background_scan ::
    "(nat \<Rightarrow> world \<Rightarrow> nat option \<times> world) \<Rightarrow> (nat \<Rightarrow> world \<Rightarrow> world) \<Rightarrow> nat \<Rightarrow> nat option \<Rightarrow> world \<Rightarrow>
     nat option \<times> world"
where
  "background_scan gx xp 0 timeout w = (timeout, w)"
| "background_scan gx xp (Suc tsid) timeout w =
     (let (current, w1) = gx tsid w;
          timeout1 = (if current \<noteq> Some 0 \<and> earlier current timeout then current else timeout)
      in background_scan gx xp tsid timeout1 (xp tsid w1))"

section \<open>The passes of the loop\<close>

text \<open>
  The static structure \<open>bk\<close>, and the timer \<open>expires\<close> of the loop as the time at which it runs out,
  in milliseconds.
\<close>

record background =
  bk_running :: bool
  bk_signalled :: bool
  bk_slice :: nat
  bk_expires :: "nat option"

definition Background_construct :: background where
  "Background_construct = \<lparr>bk_running = False, bk_signalled = False, bk_slice = 500, bk_expires = None\<rparr>"

definition Background_schedule :: "nat \<Rightarrow> background \<Rightarrow> background" where
  "Background_schedule t b = b\<lparr>bk_slice := t\<rparr>"

definition Background_notify :: "background \<Rightarrow> background" where
  "Background_notify b = b\<lparr>bk_signalled := True\<rparr>"

definition Background_begin :: "background \<Rightarrow> background" where
  "Background_begin b = b\<lparr>bk_expires := None, bk_running := True\<rparr>"

definition timer_get :: "nat \<Rightarrow> nat option \<Rightarrow> nat option" where
  "timer_get now t = map_option (\<lambda>d. d - now) t"

text \<open>
  One pass: the time at its start, the time after the wait (the same if there is none), whether
  \<open>notify\<close> was called by another thread while it waited or during the scan, and the time after the scan.
\<close>

record pass_env =
  pe_now :: nat
  pe_wake :: nat
  pe_notified :: bool
  pe_renotified :: bool
  pe_done :: nat

text \<open>How long the pass waits, if it does.\<close>

definition background_wait :: "nat \<Rightarrow> background \<Rightarrow> nat option" where
  "background_wait now b =
     (if \<not> bk_signalled b \<and> timer_get now (bk_expires b) \<noteq> Some 0
      then Some (case timer_get now (bk_expires b) of
             None \<Rightarrow> bk_slice b | Some t \<Rightarrow> if t > bk_slice b then bk_slice b else t)
      else None)"

text \<open>
  \<open>scan\<close> is the scan of all timeslots with no timeout yet, at the given time. A handler that runs
  in it and sets a timer calls \<open>notify\<close> too. The result \<open>None\<close> is the end of the thread.
\<close>

definition notifies :: "world \<Rightarrow> nat" where
  "notifies w = length (filter (\<lambda>e. e = Notify) (w_trace w))"

definition background_pass ::
    "(nat \<Rightarrow> world \<Rightarrow> nat option \<times> world) \<Rightarrow> pass_env \<Rightarrow> background \<times> world \<Rightarrow> (background \<times> world) option"
where
  "background_pass scan pe = (\<lambda>(b, w).
     (if \<not> bk_running b then None
      else let b1 = (if background_wait (pe_now pe) b \<noteq> None \<and> pe_notified pe then Background_notify b else b)
           in if bk_signalled b1 \<or> timer_get (pe_wake pe) (bk_expires b1) = Some 0
              then let (timeout, w1) = scan (pe_wake pe) w
                   in Some (b1\<lparr>bk_signalled := pe_renotified pe \<or> notifies w < notifies w1,
                               bk_expires := map_option (\<lambda>t. pe_done pe + t) timeout\<rparr>, w1)
              else Some (b1\<lparr>bk_signalled := False\<rparr>, w)))"

fun background_passes ::
    "(nat \<Rightarrow> world \<Rightarrow> nat option \<times> world) \<Rightarrow> pass_env list \<Rightarrow> background \<times> world \<Rightarrow> (background \<times> world) option"
where
  "background_passes scan [] s = Some s"
| "background_passes scan (pe # pes) s =
     (case background_pass scan pe s of None \<Rightarrow> None | Some s1 \<Rightarrow> background_passes scan pes s1)"

text \<open>
  The scan of the SIP driver at time \<open>now\<close>; the timer of timeslot \<open>i\<close> was set at \<open>since i\<close>.
\<close>

definition sip_scan ::
    "ucommon \<Rightarrow> (nat \<Rightarrow> world \<Rightarrow> bool) \<Rightarrow> (nat \<Rightarrow> nat) \<Rightarrow> nat \<Rightarrow> world \<Rightarrow> nat option \<times> world"
where
  "sip_scan u stp since now w =
     background_scan (\<lambda>i. sip_getExpires (now - since i) i) (Timeslot_expire (sip_vtable u stp)) (w_ts_count w) None w"

text \<open>\<open>background::automatic\<close>: each context that exists gets its automatic actions.\<close>

definition sip_automatic :: "nat option \<Rightarrow> nat option \<Rightarrow> nat option \<Rightarrow> nat list" where
  "sip_automatic udp tcp tls = List.map_filter (\<lambda>c. c) [udp, tcp, tls]"

section \<open>What a scan does\<close>

definition earliest :: "nat set \<Rightarrow> nat option" where
  "earliest S = (if S = {} then None else Some (Min S))"

lemma earliest_absorb:
  "finite S \<Longrightarrow> finite R \<Longrightarrow> earliest (set_option (earliest S) \<union> R) = earliest (S \<union> R)"
  by (cases "R = {}") (simp_all add: earliest_def Min_Un)

lemma earliest_set_option [simp]: "earliest (set_option x) = x"
  by (cases x) (simp_all add: earliest_def)

lemma earlier_earliest:
  "(if earlier a b then a else b) = earliest (set_option a \<union> set_option b)"
  by (cases a; cases b) (simp_all add: earlier_def earliest_def min_def)

text \<open>The time that the timer of a slot has left, if it is set and has not run out.\<close>

definition time_left :: "nat \<Rightarrow> slot \<Rightarrow> nat option" where
  "time_left elapsed s = (case ts_timer s of None \<Rightarrow> None | Some t \<Rightarrow> if t \<le> elapsed then None else Some (t - elapsed))"

lemma sip_getExpires_current: "fst (sip_getExpires elapsed i w) = time_left elapsed (w_slots w i)"
  by (auto simp: sip_getExpires_def time_left_def Let_def split: option.split)

lemma time_left_pos: "time_left elapsed s \<noteq> Some 0"
  by (auto simp: time_left_def split: option.split)

context ucommon_lib
begin

lemma tick_frame:
  assumes "slots_ok w" and "i < w_ts_count w"
  shows "w_ts_count (sip_tick u stp elapsed i w) = w_ts_count w"
    "j \<noteq> i \<Longrightarrow> w_slots (sip_tick u stp elapsed i w) j = w_slots w j"
proof -
  let ?g = "snd (sip_getExpires elapsed i w)"
  note q = quietD [OF sip_getExpires_effect(3) [where elapsed = elapsed and i = i and w = w]]
  have g: "w_ts_count ?g = w_ts_count w" "w_slots ?g j = w_slots w j" if "j \<noteq> i" for j
    using that by (simp_all add: sip_getExpires_def Let_def)
  have "slots_eq w ?g" by (simp add: sip_getExpires_def Let_def slots_eq_def)
  from slots_ok_eq [OF this] assms(1) have okg: "slots_ok ?g" by simp
  have cg: "w_ts_count ?g = w_ts_count w" by (simp add: sip_getExpires_def Let_def)
  with assms(2) have ig: "i < w_ts_count ?g" by simp
  note e = sip.expire_ok [OF okg ig, where stp = stp]
  show "w_ts_count (sip_tick u stp elapsed i w) = w_ts_count w" by (simp add: sip_tick_def e(2) cg)
  show "j \<noteq> i \<Longrightarrow> w_slots (sip_tick u stp elapsed i w) j = w_slots w j" by (simp add: sip_tick_def e(6) g(2))
qed

lemma tick_server_ok:
  "server_ok w \<Longrightarrow> i < w_ts_count w \<Longrightarrow> server_ok (sip_tick u stp elapsed i w)"
  using tick_step [of w i stp elapsed] server_stepD by (auto simp: sip_tick_def server_ok_def)

end


text \<open>What becomes of timeslot \<open>i\<close> from \<open>w\<close> to \<open>w'\<close> when its timer is looked at after \<open>elapsed\<close>.\<close>

definition call_served :: "nat \<Rightarrow> nat \<Rightarrow> world \<Rightarrow> world \<Rightarrow> bool" where
  "call_served elapsed i w w' \<longleftrightarrow>
     (if timer_due elapsed (w_slots w i) then ts_handler (w_slots w' i) = IdleHandler
      else ts_handler (w_slots w' i) = ReleaseHandler \<and> ts_timer (w_slots w' i) = ts_timer (w_slots w i))"

text \<open>The times left on the timers of the first \<open>n\<close> timeslots.\<close>

definition times_left :: "(nat \<Rightarrow> nat) \<Rightarrow> nat \<Rightarrow> world \<Rightarrow> nat set" where
  "times_left elapsed n w = (\<Union>i < n. set_option (time_left (elapsed i) (w_slots w i)))"

lemma times_left_Suc:
  "times_left e (Suc n) w = set_option (time_left (e n) (w_slots w n)) \<union> times_left e n w"
  by (simp add: times_left_def lessThan_Suc)

lemma times_left_finite: "finite (times_left e n w)"
  by (simp add: times_left_def)

lemma times_left_cong: "(\<And>i. i < n \<Longrightarrow> w_slots v i = w_slots w i) \<Longrightarrow> times_left e n v = times_left e n w"
  by (simp add: times_left_def)

lemma finite_set_option [simp]: "finite (set_option x)"
  by (cases x) simp_all

text \<open>A call that waits for its release, with a timer of \<open>t\<close>.\<close>

definition awaits :: "nat \<Rightarrow> nat \<Rightarrow> world \<Rightarrow> bool" where
  "awaits i t w \<longleftrightarrow> i < w_ts_count w \<and> ts_handler (w_slots w i) = ReleaseHandler \<and> ts_timer (w_slots w i) = Some t"

text \<open>What a scan of the first \<open>n\<close> timeslots promises.\<close>

definition scan_result :: "(nat \<Rightarrow> nat) \<Rightarrow> nat \<Rightarrow> nat option \<Rightarrow> world \<Rightarrow> nat option \<Rightarrow> world \<Rightarrow> bool" where
  "scan_result elapsed n timeout w timeout' w' \<longleftrightarrow>
     server_ok w' \<and> w_ts_count w' = w_ts_count w \<and> (\<forall>j. n \<le> j \<longrightarrow> w_slots w' j = w_slots w j) \<and>
     (\<forall>i < n. ts_handler (w_slots w i) = ReleaseHandler \<longrightarrow> call_served (elapsed i) i w w') \<and>
     (\<forall>i < n. \<forall>t. awaits i t w' \<longrightarrow> awaits i t w \<and> elapsed i < t) \<and>
     timeout' = earliest (set_option timeout \<union> times_left elapsed n w)"

lemma scan_resultI:
  assumes "server_ok w'" and "w_ts_count w' = w_ts_count w" and "\<And>j. n \<le> j \<Longrightarrow> w_slots w' j = w_slots w j"
    and "\<And>i. i < n \<Longrightarrow> ts_handler (w_slots w i) = ReleaseHandler \<Longrightarrow> call_served (elapsed i) i w w'"
    and "\<And>i t. i < n \<Longrightarrow> awaits i t w' \<Longrightarrow> awaits i t w \<and> elapsed i < t"
    and "timeout' = earliest (set_option timeout \<union> times_left elapsed n w)"
  shows "scan_result elapsed n timeout w timeout' w'"
  using assms by (simp add: scan_result_def)

lemma scan_resultD:
  assumes "scan_result elapsed n timeout w timeout' w'"
  shows "server_ok w'" and "w_ts_count w' = w_ts_count w" and "n \<le> j \<Longrightarrow> w_slots w' j = w_slots w j"
    and "i < n \<Longrightarrow> ts_handler (w_slots w i) = ReleaseHandler \<Longrightarrow> call_served (elapsed i) i w w'"
    and "i < n \<Longrightarrow> awaits i t w' \<Longrightarrow> awaits i t w \<and> elapsed i < t"
    and "timeout' = earliest (set_option timeout \<union> times_left elapsed n w)"
  using assms by (simp_all add: scan_result_def)

context ucommon_lib
begin

lemma tick_serves:
  assumes "server_ok w" and "i < w_ts_count w" and "ts_handler (w_slots w i) = ReleaseHandler"
  shows "call_served elapsed i w (sip_tick u stp elapsed i w)"
  using sip_tick_effect [OF lib _ assms(2,3), of elapsed stp] assms(1)
  by (auto simp: call_served_def server_ok_def split: if_splits)

lemma tick_awaits:
  assumes "server_ok w" and i: "i < w_ts_count w" and a: "awaits i t (sip_tick u stp elapsed i w)"
  shows "awaits i t w \<and> elapsed < t"
proof -
  let ?g = "snd (sip_getExpires elapsed i w)"
  have ok: "slots_ok w" using assms(1) by (simp add: server_ok_def)
  note e = sip_getExpires_effect [where elapsed = elapsed and i = i and w = w]
  have hg: "ts_handler (w_slots ?g i) = ts_handler (w_slots w i)" using quietD [OF e(3)] by simp
  have due: "ts_expires (w_slots ?g i) = Some 0 \<longleftrightarrow> timer_due elapsed (w_slots w i)"
    by (auto simp: e(1) timer_due_def split: option.split)
  have t: "sip_tick u stp elapsed i w = (let (ev1, w1) = (if timer_due elapsed (w_slots w i)
        then run_handler (sip_vtable u stp) i (EvTIMEOUT, ?g) else (EvTIMEOUT, ?g));
      w2 = upd_slot i (\<lambda>s. s\<lparr>ts_expires := None\<rparr>) w1 in if ev1 \<noteq> EvRELEASE then emit (MutexUnlock i) w2 else w2)"
    by (simp add: sip_tick_def Timeslot_expire_def due)
  have r: "ts_handler (w_slots w i) = ReleaseHandler"
  proof (cases "ts_handler (w_slots w i)")
    case ScriptHandler
    then show ?thesis
      using a t hg by (cases "timer_due elapsed (w_slots w i)"; cases "stp i ?g")
        (simp_all add: awaits_def run_handler_def Timeslot_scriptHandler_def sip_vtable_def sip_arm_def
          sip_hangup_def Timeslot_disconnect_def sip_disarm_def set_mapped_def)
  qed (use a t hg in \<open>cases "timer_due elapsed (w_slots w i)";
        simp add: awaits_def run_handler_def Timeslot_idleHandler_def Timeslot_offlineHandler_def\<close>)+
  from sip_tick_effect [OF lib ok i r, of elapsed stp] a r i show ?thesis
    by (cases "timer_due elapsed (w_slots w i)") (auto simp: awaits_def timer_due_def split: option.splits)
qed

lemma scan_Suc:
  "background_scan (\<lambda>i. sip_getExpires (elapsed i) i) (Timeslot_expire (sip_vtable u stp)) (Suc n) timeout w =
   background_scan (\<lambda>i. sip_getExpires (elapsed i) i) (Timeslot_expire (sip_vtable u stp)) n
     (earliest (set_option (time_left (elapsed n) (w_slots w n)) \<union> set_option timeout))
     (sip_tick u stp (elapsed n) n w)"
  by (simp add: sip_tick_def case_prod_beta Let_def sip_getExpires_current time_left_pos
      flip: earlier_earliest cong: if_cong)

lemma scan_serves:
  assumes "server_ok w" and "n \<le> w_ts_count w"
    and "background_scan (\<lambda>i. sip_getExpires (elapsed i) i) (Timeslot_expire (sip_vtable u stp)) n timeout w = (timeout', w')"
  shows "scan_result elapsed n timeout w timeout' w'"
  using assms
proof (induction n arbitrary: timeout w)
  case 0
  then show ?case by (simp add: scan_result_def times_left_def)
next
  case (Suc n)
  let ?v = "sip_tick u stp (elapsed n) n w" and ?cur = "time_left (elapsed n) (w_slots w n)"
  let ?t1 = "earliest (set_option ?cur \<union> set_option timeout)"
  have i: "n < w_ts_count w" and ok: "slots_ok w" using Suc.prems(1,2) by (simp_all add: server_ok_def)
  note frame = tick_frame [OF ok i, where stp = stp and elapsed = "elapsed n"]
  have "scan_result elapsed n ?t1 ?v timeout' w'"
  proof (rule Suc.IH)
    show "server_ok ?v" using Suc.prems(1) i by (rule tick_server_ok)
    show "n \<le> w_ts_count ?v" using i by (simp add: frame(1))
  qed (use Suc.prems(3) in \<open>simp only: scan_Suc\<close>)
  note I = scan_resultD [OF this]
  show ?case
  proof (rule scan_resultI)
    show "server_ok w'" "w_ts_count w' = w_ts_count w" using I(1,2) frame(1) by simp_all
    show "w_slots w' j = w_slots w j" if "Suc n \<le> j" for j using I(3) [of j] frame(2) [of j] that by simp
    show "call_served (elapsed j) j w w'" if "j < Suc n" "ts_handler (w_slots w j) = ReleaseHandler" for j
    proof (cases "j = n")
      case True
      have "w_slots w' n = w_slots ?v n" using I(3) by simp
      with tick_serves [OF Suc.prems(1) i, of "elapsed n" stp] that True show ?thesis by (simp add: call_served_def)
    next
      case False
      with that I(4) [of j] frame(2) [of j] show ?thesis by (simp add: call_served_def)
    qed
    show "awaits j t w \<and> elapsed j < t" if "j < Suc n" "awaits j t w'" for j t
    proof (cases "j = n")
      case True
      have "w_slots w' n = w_slots ?v n" using I(3) by simp
      with that(2) True I(2) have "awaits n t ?v" by (simp add: awaits_def)
      with tick_awaits [OF Suc.prems(1) i] True show ?thesis by simp
    next
      case False
      with that I(5) [of j t] have "awaits j t ?v \<and> elapsed j < t" by simp
      with False frame show ?thesis by (simp add: awaits_def)
    qed
    have "times_left elapsed n ?v = times_left elapsed n w" by (rule times_left_cong) (simp add: frame(2))
    with I(6) have "timeout' = earliest ((set_option ?cur \<union> set_option timeout) \<union> times_left elapsed n w)"
      by (simp add: earliest_absorb times_left_finite)
    then show "timeout' = earliest (set_option timeout \<union> times_left elapsed (Suc n) w)"
      by (simp add: times_left_Suc ac_simps)
  qed
qed

end


section \<open>What the passes do\<close>

text \<open>
  The invariant of the loop: unless it has been notified, it does not sleep longer than the timers
  of the calls run, give or take the time \<open>late\<close> that a scan takes.
\<close>

definition deadline_covers :: "(nat \<Rightarrow> nat) \<Rightarrow> nat \<Rightarrow> background \<Rightarrow> world \<Rightarrow> bool" where
  "deadline_covers since late b w \<longleftrightarrow>
     bk_signalled b \<or> (\<forall>i t. awaits i t w \<longrightarrow> (\<exists>d. bk_expires b = Some d \<and> d \<le> since i + t + late))"

definition timely :: "nat \<Rightarrow> pass_env \<Rightarrow> bool" where
  "timely late pe \<longleftrightarrow> pe_done pe \<le> pe_wake pe + late"

section \<open>Properties of the scan\<close>

text \<open>
  C30. A scan of the background thread leaves a consistent server, serves every call that waits for
  its release (released if its timer has run out, else left as it was), and
  returns the least time that is left on any timer, none if no timer is running.
\<close>

theorem background_scan_serves:
  assumes "ucommon_ok u" and "server_ok w" and "sip_scan u stp since now w = (timeout, w')"
  shows "server_ok w' \<and>
    (\<forall>i < w_ts_count w. ts_handler (w_slots w i) = ReleaseHandler \<longrightarrow> call_served (now - since i) i w w') \<and>
    timeout = earliest (times_left (\<lambda>i. now - since i) (w_ts_count w) w)"
proof -
  have lib: "ucommon_lib u" by unfold_locales (rule assms(1))
  have "scan_result (\<lambda>i. now - since i) (w_ts_count w) None w timeout w'"
    using assms(3) by (intro ucommon_lib.scan_serves [OF lib assms(2) order_refl]) (simp add: sip_scan_def)
  from scan_resultD [OF this] show ?thesis by simp
qed

definition waiting_world :: world where
  "waiting_world = upd_slot 0 (\<lambda>s. s\<lparr>ts_timer := Some 20000\<rparr>)
     (upd_slot 1 (\<lambda>s. s\<lparr>ts_timer := Some 16000\<rparr>) busy_world)"

lemma waiting_world_ok: "server_ok waiting_world"
proof -
  have "slots_eq busy_world waiting_world" by (simp add: slots_eq_def waiting_world_def)
  from slots_ok_eq [OF this] have "slots_ok waiting_world" by simp
  moreover have "env_of waiting_world = env_of (blank_world\<lparr>w_ts_count := 2, w_clock := 1000\<rparr>)"
    by (simp add: waiting_world_def fresh_world_def construct_all_stats)
  from env_ofD(1,4) [OF this] have "w_clock waiting_world = 1000" "w_regs waiting_world = w_regs blank_world"
    by simp_all
  ultimately show ?thesis
    by (simp add: server_ok_def waiting_world_def blank_world_def blank_registration_def)
qed

theorem background_scan_serves_witness:
  "fst (sip_scan ucommon_ref (\<lambda>_ _. True) (\<lambda>_. 1000) 17000 waiting_world) = Some 4000 \<and>
   ts_handler (w_slots (snd (sip_scan ucommon_ref (\<lambda>_ _. True) (\<lambda>_. 1000) 17000 waiting_world)) 1) = IdleHandler"
proof -
  obtain t w' where s: "sip_scan ucommon_ref (\<lambda>_ _. True) (\<lambda>_. 1000) 17000 waiting_world = (t, w')" by (rule prod.exhaust)
  have h: "ts_handler (w_slots waiting_world 1) = ReleaseHandler" "ts_timer (w_slots waiting_world 1) = Some 16000"
    "w_ts_count waiting_world = 2" "ts_timer (w_slots waiting_world 0) = Some 20000"
    by (simp_all add: waiting_world_def)
  from background_scan_serves [OF ucommon_ref_ok waiting_world_ok s] h show ?thesis
    by (simp add: s call_served_def timer_due_def times_left_def time_left_def lessThan_Suc numeral_2_eq_2 earliest_def)
qed


section \<open>Calls are released in time\<close>

lemma earliest_le: "finite S \<Longrightarrow> x \<in> S \<Longrightarrow> \<exists>d. earliest S = Some d \<and> d \<le> x"
  by (auto simp: earliest_def)

context ucommon_lib
begin

lemma sip_scan_result:
  assumes "server_ok w" and "sip_scan u stp since now w = (timeout, w')"
  shows "scan_result (\<lambda>i. now - since i) (w_ts_count w) None w timeout w'"
  using assms(2) by (intro scan_serves [OF assms(1) order_refl]) (simp add: sip_scan_def)

text \<open>A pass that scans establishes the invariant anew, one that does not keeps it.\<close>

lemma scanned_covers:
  assumes "server_ok w" and "sip_scan u stp since now w = (timeout, w')" and "fin \<le> now + late"
    and a: "awaits i t w'"
  shows "\<exists>d. map_option (\<lambda>t. fin + t) timeout = Some d \<and> d \<le> since i + t + late"
proof -
  note r = scan_resultD [OF sip_scan_result [OF assms(1,2)]]
  have i: "i < w_ts_count w" using a r(2) by (simp add: awaits_def)
  have w: "awaits i t w \<and> now - since i < t" by (rule r(5) [OF i a])
  then have "t - (now - since i) \<in> times_left (\<lambda>i. now - since i) (w_ts_count w) w"
    using i by (force simp: times_left_def time_left_def awaits_def)
  from earliest_le [OF times_left_finite this] r(6)
  obtain d where d: "timeout = Some d" "d \<le> t - (now - since i)" by auto
  have "fin + d \<le> since i + t + late" using d(2) conjunct2 [OF w] assms(3) by arith
  with d(1) show ?thesis by simp
qed

lemma pass_cases:
  assumes "background_pass (sip_scan u stp since) pe (b, w) = Some (b', w')"
  obtains (idle) "\<not> bk_signalled b" "timer_get (pe_wake pe) (bk_expires b) \<noteq> Some 0" "b' = b" "w' = w"
  | (scan) timeout where "sip_scan u stp since (pe_wake pe) w = (timeout, w')" "bk_running b'"
      "bk_expires b' = map_option (\<lambda>t. pe_done pe + t) timeout"
  using assms
  by (auto simp: background_pass_def Background_notify_def Let_def split: if_splits prod.splits)

lemma pass_keeps:
  assumes "server_ok w" and "deadline_covers since late b w" and "timely late pe"
    and "background_pass (sip_scan u stp since) pe (b, w) = Some (b', w')"
  shows "server_ok w' \<and> w_ts_count w' = w_ts_count w \<and> deadline_covers since late b' w'"
  using assms(4)
proof (cases rule: pass_cases)
  case (scan timeout)
  from scan_resultD(1,2) [OF sip_scan_result [OF assms(1) scan(1)]] scanned_covers [OF assms(1) scan(1)]
    assms(3) scan(3)
  show ?thesis by (auto simp: deadline_covers_def timely_def)
qed (use assms in simp)

lemma passes_keep:
  "server_ok w \<Longrightarrow> deadline_covers since late b w \<Longrightarrow> list_all (timely late) pes \<Longrightarrow>
     background_passes (sip_scan u stp since) pes (b, w) = Some (b', w') \<Longrightarrow>
     server_ok w' \<and> w_ts_count w' = w_ts_count w \<and> deadline_covers since late b' w'"
proof (induction pes arbitrary: b w)
  case (Cons pe pes)
  obtain b1 w1 where p: "background_pass (sip_scan u stp since) pe (b, w) = Some (b1, w1)"
    "background_passes (sip_scan u stp since) pes (b1, w1) = Some (b', w')"
    using Cons.prems(4) by (auto split: option.splits)
  have "server_ok w1 \<and> w_ts_count w1 = w_ts_count w \<and> deadline_covers since late b1 w1"
    by (rule pass_keeps [OF Cons.prems(1,2) _ p(1)]) (use Cons.prems(3) in simp)
  with Cons.IH [of w1 b1] Cons.prems(3) p(2) show ?case by simp
qed simp

lemma pass_releases:
  assumes "server_ok w" and "deadline_covers since late b w"
    and p: "background_pass (sip_scan u stp since) pe (b, w) = Some (b', w')"
    and "awaits i t w" and "since i + t + late \<le> pe_wake pe"
  shows "ts_handler (w_slots w' i) = IdleHandler"
  using p
proof (cases rule: pass_cases)
  case idle
  with assms(2,4,5) show ?thesis by (force simp: deadline_covers_def timer_get_def)
next
  case (scan timeout)
  from assms(4,5) have "timer_due (pe_wake pe - since i) (w_slots w i)"
    by (auto simp: timer_due_def awaits_def)
  with scan_resultD(4) [OF sip_scan_result [OF assms(1) scan(1)], of i] assms(4) show ?thesis
    by (simp add: call_served_def awaits_def)
qed

end

text \<open>
  C17. The background thread releases calls in time. If what it sleeps for covers the timers of all
  calls, that stays so through any passes whose scans take at most \<open>late\<close>, and a pass that wakes
  \<open>late\<close> or more after the timer of a call has run out releases the call.
\<close>

theorem background_releases_in_time:
  assumes "ucommon_ok u" and "server_ok w" and "deadline_covers since late b w" and "list_all (timely late) pes"
    and "background_passes (sip_scan u stp since) pes (b, w) = Some (b1, w1)"
    and "background_pass (sip_scan u stp since) pe (b1, w1) = Some (b2, w2)"
    and "awaits i t w1" and "since i + t + late \<le> pe_wake pe"
  shows "server_ok w1 \<and> deadline_covers since late b1 w1 \<and> ts_handler (w_slots w2 i) = IdleHandler"
proof -
  have lib: "ucommon_lib u" by unfold_locales (rule assms(1))
  note k = ucommon_lib.passes_keep [OF lib assms(2-5)]
  with ucommon_lib.pass_releases [OF lib _ _ assms(6-8)] show ?thesis by blast
qed

theorem background_releases_in_time_witness:
  "ts_handler (w_slots (snd (the (background_pass (sip_scan ucommon_ref (\<lambda>_ _. True) (\<lambda>_. 1000))
     \<lparr>pe_now = 17000, pe_wake = 17000, pe_notified = False, pe_renotified = False, pe_done = 17000\<rparr>
     (\<lparr>bk_running = True, bk_signalled = False, bk_slice = 500, bk_expires = Some 17000\<rparr>, waiting_world)))) 1) =
   IdleHandler"
proof -
  let ?scan = "sip_scan ucommon_ref (\<lambda>_ _. True) (\<lambda>_. 1000)"
  let ?b = "\<lparr>bk_running = True, bk_signalled = False, bk_slice = 500, bk_expires = Some 17000\<rparr>"
  let ?pe = "\<lparr>pe_now = 17000, pe_wake = 17000, pe_notified = False, pe_renotified = False, pe_done = 17000\<rparr>"
  let ?early = "\<lparr>pe_now = 16000, pe_wake = 16500, pe_notified = False, pe_renotified = False, pe_done = 16500\<rparr>"
  have cov: "deadline_covers (\<lambda>_. 1000) 0 ?b waiting_world"
  proof -
    have "16000 \<le> t" if "awaits i t waiting_world" for i t
      using that by (cases "i = 0"; cases "i = 1") (auto simp: awaits_def waiting_world_def)
    then show ?thesis by (fastforce simp: deadline_covers_def)
  qed
  have run: "background_passes ?scan [?early] (?b, waiting_world) = Some (?b, waiting_world)"
    by (simp add: background_pass_def background_wait_def timer_get_def)
  obtain b2 w2 where p: "background_pass ?scan ?pe (?b, waiting_world) = Some (b2, w2)"
    by (cases "?scan 17000 waiting_world") (auto simp: background_pass_def background_wait_def timer_get_def)
  have "awaits 1 16000 waiting_world" by (simp add: awaits_def waiting_world_def)
  from background_releases_in_time [OF ucommon_ref_ok waiting_world_ok cov _ run p this]
  show ?thesis by (simp add: p timely_def)
qed

section \<open>Starting and stopping the thread\<close>

text \<open>
  The same loop as accesses to the shared state, to see what \<open>shutdown\<close> can rely on. \<open>due\<close>
  tells whether the timer of the loop has run out.

  \<^item> \<open>BNew\<close>: not yet running; \<open>BLock\<close>: about to take the lock; \<open>BTest\<close>: has it, tests \<open>running\<close>
  \<^item> \<open>BWhether\<close>: has it, decides to wait; \<open>BWait\<close>: waits, lock given back
  \<^item> \<open>BHeld\<close>: has the lock again; \<open>BScan\<close>: scans; \<open>BAuto\<close>: in \<open>automatic\<close>
  \<^item> \<open>BEnd\<close>: has given the lock back and will clear \<open>signalled\<close>; \<open>BExit\<close>: has returned
\<close>

datatype bpc = BNew | BLock | BTest | BWhether | BWait | BHeld | BScan | BAuto | BEnd | BExit

datatype spc = SUp | SClear | SNotify | SWait | SDone bool

record bsys =
  bs_pc :: bpc
  bs_main :: spc
  bs_running :: bool
  bs_signalled :: bool
  bs_locked :: bool

definition background_access :: "bool \<Rightarrow> bsys \<Rightarrow> bsys" where
  "background_access due s =
     (case bs_pc s of
        BNew \<Rightarrow> s\<lparr>bs_running := True, bs_pc := BLock\<rparr>
      | BLock \<Rightarrow> if bs_locked s then s else s\<lparr>bs_locked := True, bs_pc := BTest\<rparr>
      | BTest \<Rightarrow> if bs_running s then s\<lparr>bs_pc := BWhether\<rparr> else s\<lparr>bs_locked := False, bs_pc := BEnd\<rparr>
      | BWhether \<Rightarrow> if bs_signalled s \<or> due then s\<lparr>bs_pc := BHeld\<rparr> else s\<lparr>bs_locked := False, bs_pc := BWait\<rparr>
      | BWait \<Rightarrow> if bs_locked s then s else s\<lparr>bs_locked := True, bs_pc := BHeld\<rparr>
      | BHeld \<Rightarrow> s\<lparr>bs_pc := (if bs_signalled s \<or> due then BScan else BAuto), bs_signalled := False, bs_locked := False\<rparr>
      | BScan \<Rightarrow> s\<lparr>bs_pc := BAuto\<rparr>
      | BAuto \<Rightarrow> s\<lparr>bs_pc := BLock\<rparr>
      | BEnd \<Rightarrow> s\<lparr>bs_signalled := False, bs_pc := BExit\<rparr>
      | BExit \<Rightarrow> s)"

text \<open>
  \<open>Background::shutdown\<close>; \<open>SDone True\<close> if it found the thread running. \<open>notify\<close> takes the
  lock, sets \<open>signalled\<close> and gives the lock back.
\<close>

definition background_shutdown :: "bsys \<Rightarrow> bsys" where
  "background_shutdown s =
     (case bs_main s of
        SUp \<Rightarrow> s\<lparr>bs_main := (if bs_running s then SClear else SDone False)\<rparr>
      | SClear \<Rightarrow> s\<lparr>bs_running := False, bs_main := SNotify\<rparr>
      | SNotify \<Rightarrow> if bs_locked s then s else s\<lparr>bs_signalled := True, bs_main := SWait\<rparr>
      | SWait \<Rightarrow> if bs_signalled s then s else s\<lparr>bs_main := SDone True\<rparr>
      | SDone b \<Rightarrow> s)"

inductive bsys_step :: "bsys \<Rightarrow> bsys \<Rightarrow> bool" where
  thread: "bsys_step s (background_access due s)"
| main: "bsys_step s (background_shutdown s)"

inductive bsys_reach :: "bsys \<Rightarrow> bsys \<Rightarrow> bool" for s0 where
  start: "bsys_reach s0 s0"
| step: "bsys_reach s0 s \<Longrightarrow> bsys_step s t \<Longrightarrow> bsys_reach s0 t"

inductive_cases bsys_stepE: "bsys_step s t"

definition bsys_init :: bsys where
  "bsys_init = \<lparr>bs_pc = BNew, bs_main = SUp, bs_running = False, bs_signalled = False, bs_locked = False\<rparr>"

text \<open>
  What \<open>shutdown\<close> can rely on: a thread that holds the lock and has passed the test saw \<open>running\<close>
  set; once \<open>running\<close> is cleared and the notification taken, the thread never waits again.
\<close>

definition bsys_inv :: "bsys \<Rightarrow> bool" where
  "bsys_inv s \<longleftrightarrow>
     (bs_locked s \<longleftrightarrow> bs_pc s \<in> {BTest, BWhether, BHeld}) \<and>
     (bs_pc s = BNew \<longrightarrow> \<not> bs_running s) \<and>
     (bs_main s \<in> {SClear, SNotify, SWait, SDone True} \<longrightarrow> bs_pc s \<noteq> BNew) \<and>
     (bs_main s \<in> {SNotify, SWait, SDone True} \<longrightarrow> \<not> bs_running s) \<and>
     (bs_main s = SClear \<or> bs_main s = SUp \<and> bs_pc s \<noteq> BNew \<longrightarrow> bs_running s \<and> bs_pc s \<noteq> BEnd \<and> bs_pc s \<noteq> BExit) \<and>
     (bs_main s = SWait \<longrightarrow> bs_pc s \<noteq> BWhether \<and> (bs_pc s = BWait \<or> bs_pc s = BHeld \<longrightarrow> bs_signalled s)) \<and>
     (bs_main s = SDone True \<longrightarrow> bs_pc s \<in> {BLock, BTest, BScan, BAuto, BEnd, BExit})"

lemma bsys_inv_init: "bsys_inv bsys_init"
  by (simp add: bsys_inv_def bsys_init_def)

lemma bsys_inv_thread: "bsys_inv s \<Longrightarrow> bsys_inv (background_access due s)"
  by (cases "bs_pc s"; cases "bs_main s") (auto simp: bsys_inv_def background_access_def)

lemma bsys_inv_main: "bsys_inv s \<Longrightarrow> bsys_inv (background_shutdown s)"
  by (cases "bs_main s"; cases "bs_pc s") (auto simp: bsys_inv_def background_shutdown_def)


lemma bsys_inv_step: "bsys_step s t \<Longrightarrow> bsys_inv s \<Longrightarrow> bsys_inv t"
  by (auto elim!: bsys_stepE intro: bsys_inv_thread bsys_inv_main)

lemma bsys_inv_reach: "bsys_reach bsys_init s \<Longrightarrow> bsys_inv s"
  by (induction rule: bsys_reach.induct) (auto intro: bsys_inv_init bsys_inv_step)

text \<open>A schedule: \<open>None\<close> is the main thread, \<open>Some due\<close> the background thread.\<close>

definition bact :: "bool option \<Rightarrow> bsys \<Rightarrow> bsys" where
  "bact a s = (case a of None \<Rightarrow> background_shutdown s | Some due \<Rightarrow> background_access due s)"

lemma bact_reach: "bsys_reach s0 s \<Longrightarrow> bsys_reach s0 (fold bact as s)"
proof (induction "as" arbitrary: s)
  case (Cons a as)
  have "bsys_step s (bact a s)" by (cases a) (auto simp: bact_def intro: bsys_step.intros)
  with Cons show ?case by (auto intro: bsys_reach.step)
qed simp

text \<open>
  When \<open>Background::shutdown\<close> returns after having found the thread running, the thread is
  at most in its last pass: \<open>running\<close> is clear and it never waits again.
\<close>

theorem background_last_pass:
  assumes "bsys_reach bsys_init s" and "bs_main s = SDone True"
  shows "\<not> bs_running s \<and> bs_pc s \<in> {BLock, BTest, BScan, BAuto, BEnd, BExit}"
  using bsys_inv_reach [OF assms(1)] assms(2) by (simp add: bsys_inv_def)

text \<open>Up to the wait, then the shutdown, then the pass it wakes up.\<close>

definition early_return :: "bool option list" where
  "early_return = [Some False, Some False, Some False, Some False, None, None, None, Some False, Some False, None]"

theorem background_last_pass_witness:
  "bs_main (fold bact early_return bsys_init) = SDone True \<and>
   \<not> bs_running (fold bact early_return bsys_init) \<and> bs_pc (fold bact early_return bsys_init) = BScan"
proof -
  have s: "bs_main (fold bact early_return bsys_init) = SDone True"
    "bs_pc (fold bact early_return bsys_init) = BScan"
    by (simp_all add: early_return_def bact_def bsys_init_def background_access_def background_shutdown_def)
  with background_last_pass [OF bact_reach [OF bsys_reach.start], of early_return] show ?thesis by simp
qed

lemma stuck_shutdown:
  "bsys_reach s t \<Longrightarrow> bs_main s = SWait \<and> bs_pc s = BExit \<and> bs_signalled s \<Longrightarrow>
     bs_main t = SWait \<and> bs_pc t = BExit \<and> bs_signalled t"
  by (induction rule: bsys_reach.induct)
    (auto elim!: bsys_stepE simp: background_access_def background_shutdown_def)

lemma stuck_states:
  assumes "bs_main s = SWait \<and> bs_pc s = BExit \<and> bs_signalled s"
  shows "{(bs_main t, bs_pc t) | t. bsys_reach s t} = {(SWait, BExit)}"
proof -
  have "(bs_main t, bs_pc t) = (SWait, BExit)" if "bsys_reach s t" for t
    using stuck_shutdown [OF that assms] by simp
  moreover have "(SWait, BExit) = (bs_main s, bs_pc s)" using assms by simp
  ultimately show ?thesis using bsys_reach.start [of s] by blast
qed

lemma unstopped_thread:
  "bsys_reach s t \<Longrightarrow> bs_main s = SDone False \<and> bs_pc s \<notin> {BEnd, BExit} \<and> (bs_pc s \<noteq> BNew \<longrightarrow> bs_running s) \<Longrightarrow>
     bs_main t = SDone False \<and> bs_pc t \<notin> {BEnd, BExit} \<and> (bs_pc t \<noteq> BNew \<longrightarrow> bs_running t)"
proof (induction rule: bsys_reach.induct)
  case (step t v)
  note I = step.IH [OF step.prems]
  from step.hyps(2) show ?case
  proof (rule bsys_stepE)
    fix due assume "v = background_access due t"
    with I show ?thesis by (cases "bs_pc t") (auto simp: background_access_def)
  next
    assume "v = background_shutdown t"
    with I show ?thesis by (simp add: background_shutdown_def)
  qed
qed simp

lemma unstopped_states:
  assumes "bs_main s = SDone False \<and> bs_pc s \<notin> {BEnd, BExit} \<and> (bs_pc s \<noteq> BNew \<longrightarrow> bs_running s)"
  shows "BExit \<notin> {bs_pc t | t. bsys_reach s t}"
proof
  assume "BExit \<in> {bs_pc t | t. bsys_reach s t}"
  then obtain t where "bsys_reach s t" "bs_pc t = BExit" by auto
  with unstopped_thread [OF this(1) assms] show False by simp
qed

text \<open>
  \<open>Background::shutdown\<close> may never return, and may not stop the thread at all. If the thread
  leaves between the clearing of \<open>running\<close> and the notification, nobody clears \<open>signalled\<close> any more;
  and if the thread has not begun yet, \<open>shutdown\<close> returns at once and the thread never ends.
\<close>

theorem background_shutdown_races:
  "(\<exists>s. bsys_reach bsys_init s \<and> {(bs_main t, bs_pc t) | t. bsys_reach s t} = {(SWait, BExit)}) \<and>
   (\<exists>s. bsys_reach bsys_init s \<and> bs_main s = SDone False \<and> BExit \<notin> {bs_pc t | t. bsys_reach s t})"
proof (intro conjI exI)
  let ?as = "[Some False, None, None, Some False, Some False, Some False, None]"
  let ?s = "fold bact ?as bsys_init" and ?u = "background_shutdown bsys_init"
  note eval = bact_def bsys_init_def background_access_def background_shutdown_def
  show "bsys_reach bsys_init ?s" by (rule bact_reach [OF bsys_reach.start])
  have "bs_main ?s = SWait \<and> bs_pc ?s = BExit \<and> bs_signalled ?s" by (simp add: eval)
  then show "{(bs_main t, bs_pc t) | t. bsys_reach ?s t} = {(SWait, BExit)}" by (rule stuck_states)
  show "bsys_reach bsys_init ?u" by (rule bsys_reach.step [OF bsys_reach.start bsys_step.main])
  show "bs_main ?u = SDone False" by (simp add: eval)
  have "bs_main ?u = SDone False \<and> bs_pc ?u \<notin> {BEnd, BExit} \<and> (bs_pc ?u \<noteq> BNew \<longrightarrow> bs_running ?u)"
    by (simp add: eval)
  then show "BExit \<notin> {bs_pc t | t. bsys_reach ?u t}" by (rule unstopped_states)
qed

end
