(* ===== verification/Driver.thy ===== *)
theory Driver
  imports Segment
begin

text \<open>
  The base class of all drivers: \<^verbatim>\<open>inc/bayonne/driver.h\<close>,
  \<^verbatim>\<open>common/driver.cpp\<close>. A driver object is one loaded configuration with the compiled
  scripts; the static members of the class are the state that outlives a reload. Parameters of
  the model are the script compiler (a library), the plugins and the files. Of the messages to the log
  those of errors are kept. The part on timeslots, boards and spans is in \<open>Core\<close>.
\<close>

section \<open>Configurations\<close>

text \<open>The script compiler: compiling a definition file on top of others, compiling a service with the
  definitions, the number of errors of an image, its file name and the lines and messages of its listing, and whether it
  has a label.\<close>

record script_lib =
  sl_define :: "nat option \<Rightarrow> string \<Rightarrow> nat option"
  sl_compile :: "string \<Rightarrow> nat option \<Rightarrow> nat option"
  sl_errors :: "nat \<Rightarrow> nat"
  sl_filename :: "nat \<Rightarrow> string"
  sl_listing :: "nat \<Rightarrow> (nat \<times> string) list"
  sl_find :: "nat \<Rightarrow> string \<Rightarrow> bool"

record image =
  im_id :: string
  im_script :: nat

text \<open>
  A configuration: its key sections, the definitions, the images by number, and the list of
  them. \<open>keyfile::get\<close> is \<open>dc_sections\<close>, with the keys in order. \<open>dc_log\<close> is no member of the object: it is what the
  constructor that made it has logged as errors, in order.
\<close>

record driver_config =
  dc_sections :: "string \<Rightarrow> (string \<times> string) list option"
  dc_definitions :: "nat option"
  dc_images :: "image list"
  dc_services :: "nat list"
  dc_log :: "string list"

definition script_file :: "ucommon \<Rightarrow> string \<Rightarrow> bool" where
  "script_file u name = (case strrchr name (CHR ''.'') of None \<Rightarrow> False | Some ep \<Rightarrow> u_eq u ep ''.bcs'')"

definition script_id :: "string \<Rightarrow> string" where
  "script_id name = (case strrchr name (CHR ''.'') of None \<Rightarrow> name | Some ep \<Rightarrow> take (length name - length ep) name)"

fun compile_definitions :: "ucommon \<Rightarrow> script_lib \<Rightarrow> string \<Rightarrow> nat option \<Rightarrow> string list \<Rightarrow> nat option" where
  "compile_definitions u sl path def [] = def"
| "compile_definitions u sl path def (n # ns) =
     compile_definitions u sl path
       (if script_file u n then sl_define sl def (path @ ''/'' @ n) else def) ns"

text \<open>\<open>errors\<close>: what it logs of the listing of an image.\<close>

definition Driver_errors :: "script_lib \<Rightarrow> nat \<Rightarrow> string list" where
  "Driver_errors sl img =
     map (\<lambda>(line, msg). sl_filename sl img @ ''('' @ show_nat line @ ''): '' @ msg) (sl_listing sl img)"

definition compile_service :: "ucommon \<Rightarrow> script_lib \<Rightarrow> string \<Rightarrow> string \<Rightarrow> driver_config \<Rightarrow> driver_config" where
  "compile_service u sl path n d =
     (if \<not> script_file u n then d
      else case sl_compile sl (path @ ''/'' @ n) (dc_definitions d) of
             None \<Rightarrow> d\<lparr>dc_log := dc_log d @ [n @ '': failed'']\<rparr>
           | Some img \<Rightarrow>
               (let d1 = d\<lparr>dc_log := dc_log d @ Driver_errors sl img\<rparr>
                in if sl_errors sl img \<noteq> 0 then d1
                   else d1\<lparr>dc_images := dc_images d @ [\<lparr>im_id = script_id n, im_script = img\<rparr>],
                           dc_services := u_enlist u (length (dc_images d)) (dc_services d)\<rparr>))"

text \<open>
  The constructor. \<open>defs\<close> and \<open>scripts\<close> are the two directories: path and names of the
  files as they are read, \<open>None\<close> where a directory cannot be opened. A directory of scripts
  that cannot be opened ends the constructor before the definitions are stored.
\<close>

definition Driver_construct ::
    "ucommon \<Rightarrow> script_lib \<Rightarrow> (string \<Rightarrow> (string \<times> string) list option) \<Rightarrow> (string \<times> string list) option \<Rightarrow>
     (string \<times> string list) option \<Rightarrow> driver_config"
where
  "Driver_construct u sl sections defs scripts =
     (let d = \<lparr>dc_sections = sections, dc_definitions = None, dc_images = [], dc_services = [],
            dc_log = (if defs = None then [''cannot compile definitions from %s''] else [])\<rparr>;
          def = (case defs of None \<Rightarrow> None
                 | Some (path, names) \<Rightarrow> compile_definitions u sl (u_set u 256 path) None names)
      in case scripts of
           None \<Rightarrow> d\<lparr>dc_log := dc_log d @ [''cannot compile from %s'']\<rparr>
         | Some (path, names) \<Rightarrow>
             fold (compile_service u sl (u_set u 256 path)) names (d\<lparr>dc_definitions := def\<rparr>))"

fun find_image :: "ucommon \<Rightarrow> image list \<Rightarrow> string \<Rightarrow> nat list \<Rightarrow> nat option" where
  "find_image u imgs name [] = None"
| "find_image u imgs name (k # ks) =
     (if u_eq u (im_id (imgs ! k)) name then Some (im_script (imgs ! k)) else find_image u imgs name ks)"

section \<open>The static part\<close>

text \<open>The limits of the script engine that a configuration sets.\<close>

record script_settings =
  sx_stacking :: "32 word"
  sx_decimals :: "32 word"
  sx_stepping :: "32 word"
  sx_paging :: int
  sx_sizing :: "32 word"
  sx_indexing :: "32 word"

datatype hub_effect =
    LockAccess | LockRelease | LockModify | LockCommit | RegfileRelease
  | CbReload nat | CbStart nat | CbStop nat | CbErrlog nat string | CbQuery nat
  | Sleep nat | Retain nat | ReleaseScript nat | Delete driver_config

record hub =
  hb_active :: "driver_config option"
  hb_callbacks :: "nat list"
  hb_settings :: script_settings
  hb_fault :: bool
  hb_trace :: "hub_effect list"

definition hub_do :: "hub_effect list \<Rightarrow> hub \<Rightarrow> hub" where
  "hub_do es h = h\<lparr>hb_trace := hb_trace h @ es\<rparr>"

definition Driver_active :: "hub \<Rightarrow> driver_config option \<times> hub" where
  "Driver_active h =
     (let h1 = hub_do [LockAccess] h
      in case hb_active h1 of None \<Rightarrow> (None, hub_do [LockRelease] h1) | Some d \<Rightarrow> (Some d, h1))"

definition Driver_release_driver :: "driver_config option \<Rightarrow> hub \<Rightarrow> hub" where
  "Driver_release_driver d h = (case d of None \<Rightarrow> h | Some _ \<Rightarrow> hub_do [RegfileRelease, LockRelease] h)"

definition Driver_release_keys :: "bool \<Rightarrow> hub \<Rightarrow> hub" where
  "Driver_release_keys keys h = (if keys then hub_do [LockRelease] h else h)"

definition Driver_release_script :: "nat option \<Rightarrow> hub \<Rightarrow> hub" where
  "Driver_release_script img h = (case img of None \<Rightarrow> h | Some s \<Rightarrow> hub_do [ReleaseScript s] h)"

text \<open>The common part of \<open>getIncoming\<close> and \<open>getOutgoing\<close>, up to the test of the label.\<close>

definition Driver_getImage :: "ucommon \<Rightarrow> string \<Rightarrow> hub \<Rightarrow> nat option \<times> hub" where
  "Driver_getImage u name h =
     (case Driver_active h of
        (None, h1) \<Rightarrow> (None, h1)
      | (Some d, h1) \<Rightarrow>
          (case find_image u (dc_images d) name (dc_services d) of
             None \<Rightarrow> (None, Driver_release_driver (Some d) h1)
           | Some s \<Rightarrow> (Some s, Driver_release_driver (Some d) (hub_do [Retain s] h1))))"

definition Driver_getOutgoing :: "ucommon \<Rightarrow> script_lib \<Rightarrow> string \<Rightarrow> hub \<Rightarrow> nat option \<times> hub" where
  "Driver_getOutgoing u sl name h =
     (case Driver_getImage u name h of
        (None, h1) \<Rightarrow> (None, h1)
      | (Some s, h1) \<Rightarrow> if sl_find sl s ''@outgoing'' then (Some s, h1) else (None, hub_do [ReleaseScript s] h1))"

definition Driver_getIncoming :: "ucommon \<Rightarrow> script_lib \<Rightarrow> string \<Rightarrow> hub \<Rightarrow> nat option \<times> hub" where
  "Driver_getIncoming u sl name h =
     (case Driver_getImage u name h of
        (None, h1) \<Rightarrow> (None, h1)
      | (Some s, h1) \<Rightarrow> if sl_find sl s ''@incoming'' then (Some s, h1) else (None, hub_do [ReleaseScript s] h1))"

text \<open>\<open>update\<close>: each key of the section \<^verbatim>\<open>script\<close> that is known sets its limit.\<close>

definition update_setting :: "ucommon \<Rightarrow> string \<times> string \<Rightarrow> script_settings \<Rightarrow> script_settings" where
  "update_setting u = (\<lambda>(k, v) s.
     if u_eq u k ''stacking'' then s\<lparr>sx_stacking := atoi v\<rparr>
     else if u_eq u k ''decimals'' then s\<lparr>sx_decimals := atoi v\<rparr>
     else if u_eq u k ''stepping'' then s\<lparr>sx_stepping := atoi v\<rparr>
     else if u_eq u k ''paging'' then s\<lparr>sx_paging := strtol10 v\<rparr>
     else if u_eq u k ''symbols'' then s\<lparr>sx_sizing := atoi v\<rparr>
     else if u_eq u k ''indexing'' then s\<lparr>sx_indexing := atoi v\<rparr>
     else s)"

definition Driver_update :: "ucommon \<Rightarrow> driver_config \<Rightarrow> script_settings \<Rightarrow> script_settings" where
  "Driver_update u d s =
     (case dc_sections d ''script'' of None \<Rightarrow> s | Some kvs \<Rightarrow> fold (update_setting u) kvs s)"

definition Driver_commit :: "ucommon \<Rightarrow> driver_config \<Rightarrow> hub \<Rightarrow> hub" where
  "Driver_commit u d h =
     (let h1 = h\<lparr>hb_settings := Driver_update u d (hb_settings h)\<rparr>;
          h2 = hub_do (map CbReload (hb_callbacks h1)) h1;
          h3 = hub_do [LockModify] h2;
          orig = hb_active h3;
          h4 = hub_do [LockCommit] (h3\<lparr>hb_active := Some d\<rparr>)
      in case orig of None \<Rightarrow> h4 | Some d0 \<Rightarrow> hub_do [Sleep 1000, Delete d0] h4)"

text \<open>\<open>reload\<close> calls a method of the active driver; \<open>fresh\<close> is what \<open>create\<close> returns.\<close>

definition Driver_reload :: "ucommon \<Rightarrow> driver_config \<Rightarrow> hub \<Rightarrow> hub" where
  "Driver_reload u fresh h =
     (let h1 = hub_do [LockAccess] h
      in case hb_active h1 of
           None \<Rightarrow> h1\<lparr>hb_fault := True\<rparr>
         | Some _ \<Rightarrow> Driver_commit u fresh (hub_do [LockRelease] h1))"

definition Driver_errlog :: "string \<Rightarrow> hub \<Rightarrow> hub" where
  "Driver_errlog text h = hub_do (map (\<lambda>c. CbErrlog c text) (hb_callbacks h)) h"

section \<open>Call records\<close>

fun ask_callbacks :: "(nat \<Rightarrow> dbi_rec \<Rightarrow> bool) \<Rightarrow> dbi_rec \<Rightarrow> nat list \<Rightarrow> nat list" where
  "ask_callbacks q data [] = []"
| "ask_callbacks q data (c # cs) = (if q c data then [c] else c # ask_callbacks q data cs)"

definition show_int :: "int \<Rightarrow> string" where
  "show_int n = (if n < 0 then CHR ''-'' # show_nat (nat (- n)) else show_nat (nat n))"

definition show_word :: "32 word \<Rightarrow> string" where
  "show_word x = show_nat (unat x)"

definition cdr_line :: "(int \<Rightarrow> string) \<Rightarrow> dbi_rec \<Rightarrow> string" where
  "cdr_line date r =
     show_word (dr_timeslot r) @ '':'' @ show_word (dr_sequence r) @ '' '' @ dr_reason r @ '' '' @ date (dr_starting r) @
     '' '' @ show_int (sint (dr_duration r)) @ '' '' @ dr_source r @ '' '' @ dr_target r @ '' '' @ dr_script r @ '' '' @
     (case dr_optional r of None \<Rightarrow> ''-'' | Some x \<Rightarrow> x) @ [CHR 0x0A]"

text \<open>
  \<open>query\<close>: the plugins are asked in order until one takes the record; the record of a finished
  call goes to the file in any case, if there is one. \<open>date\<close> formats a time.
\<close>

definition Driver_query ::
    "(int \<Rightarrow> string) \<Rightarrow> (nat \<Rightarrow> dbi_rec \<Rightarrow> bool) \<Rightarrow> bool \<Rightarrow> dbi_rec \<Rightarrow> hub \<Rightarrow> string \<times> hub"
where
  "Driver_query date q fp data h =
     (let h1 = hub_do (map CbQuery (ask_callbacks q data (hb_callbacks h))) h
      in if \<not> fp \<or> dr_type data \<noteq> STOP then ([], h1) else (cdr_line date data, h1))"

section \<open>Commands, start and stop\<close>

text \<open>
  \<open>dispatch\<close>: a missing argument is the null pointer, which the library's comparison takes
  for an empty text. \<open>rel\<close> is the \<open>release\<close> of the driver's registrations.
\<close>

definition arg :: "string list \<Rightarrow> nat \<Rightarrow> string" where
  "arg argv n = (if n < length argv then argv ! n else [])"

fun find_registration :: "ucommon \<Rightarrow> world \<Rightarrow> string \<Rightarrow> nat list \<Rightarrow> nat option" where
  "find_registration u w name [] = None"
| "find_registration u w name (r # rs) =
     (if u_eq u (rg_id (w_regs w r)) name then Some r else find_registration u w name rs)"

definition Driver_dispatch ::
    "ucommon \<Rightarrow> (nat \<Rightarrow> world \<Rightarrow> world) \<Rightarrow> string list \<Rightarrow> world \<Rightarrow> string option \<times> world"
where
  "Driver_dispatch u rel argv w =
     (if u_eq u (arg argv 0) ''release''
      then (case find_registration u w (arg argv 1) (w_registrations w) of
              Some r \<Rightarrow> (None, rel r w)
            | None \<Rightarrow> (Some ''unknown resource'', w))
      else if u_eq u (arg argv 0) ''drop'' \<or> u_eq u (arg argv 0) ''hangup'' \<or>
              u_eq u (arg argv 0) ''enable'' \<or> u_eq u (arg argv 0) ''disable''
      then (Some ''unknown resource'', w)
      else (Some ''unknown command'', w))"

text \<open>
  The lists of boards and spans that \<open>start\<close> writes for the utilities. \<open>opens\<close> tells
  whether the file can be opened; there is no file without boards (or spans).
\<close>

definition segment_line :: "segment \<Rightarrow> string" where
  "segment_line s = pad_zero 3 (show_nat (sg_instance s)) @ '' '' @ pad_zero 4 (show_nat (sg_first s)) @ '' '' @
     pad_zero 4 (show_nat (sg_count s)) @ '' '' @ sg_description s @ [CHR 0x0A]"

definition segment_file :: "bool \<Rightarrow> nat \<Rightarrow> (nat \<Rightarrow> segment) \<Rightarrow> string option" where
  "segment_file opens n segs =
     (if 0 < n \<and> opens then Some (concat (map (\<lambda>k. segment_line (segs k)) [0..<n])) else None)"

definition Driver_start :: "bool \<Rightarrow> bool \<Rightarrow> hub \<Rightarrow> world \<Rightarrow> (string option \<times> string option) \<times> hub \<times> world" where
  "Driver_start boards spans h w =
     (let w1 = w\<lparr>w_dbi := dbi_start (w_dbi w)\<rparr>
      in ((segment_file boards (w_board_count w1) (w_boards w1), segment_file spans (w_span_count w1) (w_spans w1)),
          hub_do (map CbStart (hb_callbacks h)) h, w1))"

fun post_all :: "vtable \<Rightarrow> event_id \<Rightarrow> nat \<Rightarrow> nat \<Rightarrow> world \<Rightarrow> world" where
  "post_all vt ev 0 i w = w"
| "post_all vt ev (Suc n) i w = post_all vt ev n (i + 1) (snd (Timeslot_post vt i (ev, w)))"

definition Driver_stop :: "vtable \<Rightarrow> hub \<Rightarrow> world \<Rightarrow> hub \<times> world" where
  "Driver_stop vt h w =
     (let w1 = post_all vt EvSHUTDOWN (w_ts_count w) 0 w
      in (hub_do (map CbStop (hb_callbacks h)) h, w1\<lparr>w_dbi := dbi_stop (w_dbi w1)\<rparr>))"

section \<open>Which services there are\<close>

lemma script_file_iff: "ucommon_ok u \<Longrightarrow> script_file u name \<longleftrightarrow> (\<exists>nm. name = nm @ ''.bcs'')"
proof
  assume u: "ucommon_ok u" and f: "script_file u name"
  have "\<exists>a. s = a @ t" if "strrchr s c = Some t" for s t :: string and c
    using that by (induction s) (auto split: option.splits if_splits intro: exI [of _ "_ # _"])
  with u f show "\<exists>nm. name = nm @ ''.bcs''" by (auto simp: script_file_def split: option.splits)
next
  assume u: "ucommon_ok u" and "\<exists>nm. name = nm @ ''.bcs''"
  then obtain nm where "name = nm @ CHR ''.'' # ''bcs''" by auto
  then show "script_file u name"
    using u strrchr_append_notin [of "CHR ''.''" "''bcs''" nm] by (simp add: script_file_def)
qed

lemma script_id_append [simp]: "script_id (nm @ ''.bcs'') = nm"
  using strrchr_append_notin [of "CHR ''.''" "''bcs''" nm] by (simp add: script_id_def)

text \<open>The images of a configuration are numbered in the order they were compiled, the last one first in the list.\<close>

definition images_ok :: "ucommon \<Rightarrow> script_lib \<Rightarrow> string \<Rightarrow> nat option \<Rightarrow> string list \<Rightarrow> driver_config \<Rightarrow> bool" where
  "images_ok u sl path def names d \<longleftrightarrow> dc_definitions d = def \<and> set (dc_services d) \<subseteq> {..<length (dc_images d)} \<and>
     (\<forall>nm s. find_image u (dc_images d) nm (dc_services d) = Some s \<longleftrightarrow>
        nm @ ''.bcs'' \<in> set names \<and> sl_compile sl (path @ ''/'' @ nm @ ''.bcs'') def = Some s \<and> sl_errors sl s = 0)"

lemma find_image_append:
  "set ks \<subseteq> {..<length imgs} \<Longrightarrow> find_image u (imgs @ xs) name ks = find_image u imgs name ks"
  by (induction ks) (auto simp: nth_append)

lemma compile_service_ok:
  assumes u: "ucommon_ok u" and ok: "images_ok u sl path def names d"
  shows "images_ok u sl path def (names @ [n]) (compile_service u sl path n d)"
proof (cases "script_file u n")
  case False
  then have "\<And>nm. n \<noteq> nm @ ''.bcs''" using script_file_iff [OF u] by blast
  with ok False show ?thesis by (auto simp: images_ok_def compile_service_def)
next
  case True
  then obtain nm where n: "n = nm @ ''.bcs''" using script_file_iff [OF u] by blast
  have def: "dc_definitions d = def" and sub: "set (dc_services d) \<subseteq> {..<length (dc_images d)}"
    using ok by (simp_all add: images_ok_def)
  note f = find_image_append [OF sub]
  show ?thesis
  proof (cases "sl_compile sl (path @ ''/'' @ n) def")
    case None
    with True ok def n show ?thesis by (auto simp: images_ok_def compile_service_def Let_def)
  next
    case (Some img)
    show ?thesis
    proof (cases "sl_errors sl img = 0")
      case False
      with True Some ok def n show ?thesis by (auto simp: images_ok_def compile_service_def Let_def)
    next
      case ok0: True
      with True Some def n have d': "compile_service u sl path n d =
          d\<lparr>dc_images := dc_images d @ [\<lparr>im_id = nm, im_script = img\<rparr>],
            dc_services := length (dc_images d) # dc_services d, dc_log := dc_log d @ Driver_errors sl img\<rparr>"
        using u by (simp add: compile_service_def Let_def del: append_assoc)
      show ?thesis
        using ok sub ok0 Some n u unfolding images_ok_def d' by (auto simp: f nth_append)
    qed
  qed
qed

lemma compile_services_ok:
  assumes u: "ucommon_ok u"
  shows "images_ok u sl path def names0 d \<Longrightarrow>
    images_ok u sl path def (names0 @ names) (fold (compile_service u sl path) names d)"
proof (induction names arbitrary: names0 d)
  case (Cons n names)
  from Cons.IH [OF compile_service_ok [OF u Cons.prems, of n]] show ?case by simp
qed simp

text \<open>
  C29. The services of a configuration are exactly the files of the script directory whose names end
  in \<^verbatim>\<open>.bcs\<close> and which compile without errors on top of the definitions, each found
  under its name without that ending; where the script directory cannot be read there is no
  service, and the compiled definitions are lost too.
\<close>

theorem driver_services:
  assumes u: "ucommon_ok u"
  shows "(let d = Driver_construct u sl sections defs (Some (path, names));
              def = (case defs of None \<Rightarrow> None
                     | Some (dpath, dnames) \<Rightarrow> compile_definitions u sl (u_set u 256 dpath) None dnames)
          in dc_definitions d = def \<and>
             (\<forall>nm s. find_image u (dc_images d) nm (dc_services d) = Some s \<longleftrightarrow>
                nm @ ''.bcs'' \<in> set names \<and>
                sl_compile sl (take 255 path @ ''/'' @ nm @ ''.bcs'') def = Some s \<and> sl_errors sl s = 0)) \<and>
         (let d = Driver_construct u sl sections defs None in dc_definitions d = None \<and> dc_services d = [])"
proof -
  let ?def = "case defs of None \<Rightarrow> None
    | Some (dpath, dnames) \<Rightarrow> compile_definitions u sl (u_set u 256 dpath) None dnames"
  let ?d = "\<lparr>dc_sections = sections, dc_definitions = ?def, dc_images = [], dc_services = [],
    dc_log = (if defs = None then [''cannot compile definitions from %s''] else [])\<rparr>"
  have "images_ok u sl (take 255 path) ?def [] ?d" by (simp add: images_ok_def)
  from compile_services_ok [OF u this, of names] u
  have "images_ok u sl (take 255 path) ?def names (Driver_construct u sl sections defs (Some (path, names)))"
    by (simp add: Driver_construct_def Let_def)
  then show ?thesis by (simp add: images_ok_def Let_def) (simp add: Driver_construct_def Let_def)
qed

definition sample_lib :: script_lib where
  "sample_lib = \<lparr>sl_define = (\<lambda>def path. Some 100), sl_compile = (\<lambda>path def. Some (length path)),
     sl_errors = (\<lambda>s. 0), sl_filename = (\<lambda>s. []), sl_listing = (\<lambda>s. []), sl_find = (\<lambda>s label. label = ''@incoming'')\<rparr>"

theorem driver_services_witness:
  "find_image ucommon_ref (dc_images (Driver_construct ucommon_ref sample_lib (\<lambda>_. None) None
       (Some (''dir'', [''main.bcs'', ''notes.txt'']))))
     ''main'' (dc_services (Driver_construct ucommon_ref sample_lib (\<lambda>_. None) None
       (Some (''dir'', [''main.bcs'', ''notes.txt''])))) = Some 12"
  using driver_services [OF ucommon_ref_ok, of sample_lib "\<lambda>_. None" None "''dir''" "[''main.bcs'', ''notes.txt'']"]
  by (simp add: sample_lib_def Let_def)

section \<open>Locks and references\<close>

fun lock_depth :: "hub_effect list \<Rightarrow> int" where
  "lock_depth [] = 0"
| "lock_depth (LockAccess # es) = lock_depth es + 1"
| "lock_depth (LockModify # es) = lock_depth es + 1"
| "lock_depth (LockRelease # es) = lock_depth es - 1"
| "lock_depth (LockCommit # es) = lock_depth es - 1"
| "lock_depth (_ # es) = lock_depth es"

fun script_refs :: "nat \<Rightarrow> hub_effect list \<Rightarrow> int" where
  "script_refs s [] = 0"
| "script_refs s (Retain x # es) = script_refs s es + (if x = s then 1 else 0)"
| "script_refs s (ReleaseScript x # es) = script_refs s es - (if x = s then 1 else 0)"
| "script_refs s (_ # es) = script_refs s es"

lemma lock_depth_append [simp]: "lock_depth (a @ b) = lock_depth a + lock_depth b"
  by (induction a rule: lock_depth.induct) simp_all

lemma script_refs_append [simp]: "script_refs s (a @ b) = script_refs s a + script_refs s b"
  by (induction s a rule: script_refs.induct) simp_all

lemma lock_depth_callbacks [simp]:
  "lock_depth (map CbReload cs) = 0" "lock_depth (map CbStart cs) = 0" "lock_depth (map CbStop cs) = 0"
  "lock_depth (map CbQuery cs) = 0" "script_refs s (map CbReload cs) = 0"
  by (induction cs) simp_all

lemma hub_do_simps [simp]:
  "hb_active (hub_do es h) = hb_active h" "hb_callbacks (hub_do es h) = hb_callbacks h"
  "hb_settings (hub_do es h) = hb_settings h" "hb_fault (hub_do es h) = hb_fault h"
  "hb_trace (hub_do es h) = hb_trace h @ es"
  by (simp_all add: hub_do_def)

text \<open>
  Looking up a script neither keeps the driver locked nor loses a reference: the lock is as it
  was whatever the outcome; a script is returned exactly when the active configuration has a
  service of that name with the entry label asked for; and the one reference taken is left with
  the caller exactly when the script is returned.
\<close>

theorem driver_lookup_balanced:
  shows "let (r, h') = Driver_getIncoming u sl name h;
             found = Option.bind (hb_active h) (\<lambda>d. find_image u (dc_images d) name (dc_services d))
         in r = (case found of None \<Rightarrow> None | Some s \<Rightarrow> if sl_find sl s ''@incoming'' then Some s else None) \<and>
            lock_depth (hb_trace h') = lock_depth (hb_trace h) \<and> hb_active h' = hb_active h \<and>
            (\<forall>s. script_refs s (hb_trace h') = script_refs s (hb_trace h) + (if r = Some s then 1 else 0))"
  by (auto simp: Driver_getIncoming_def Driver_getImage_def Driver_active_def Driver_release_driver_def Let_def
      split: option.split)

text \<open>
  A reload replaces the active configuration by the new one, tells every plugin of it first,
  in order, and deletes the old one once, after the exclusive lock under which the pointer was
  changed has been given back; reloading before a configuration is active is a null pointer access.
\<close>

theorem driver_reload_swaps:
  "let h' = Driver_reload u d h
   in (case hb_active h of
         None \<Rightarrow> hb_fault h' \<and> lock_depth (hb_trace h') = lock_depth (hb_trace h) + 1
       | Some d0 \<Rightarrow> hb_active h' = Some d \<and> hb_fault h' = hb_fault h \<and>
           hb_settings h' = Driver_update u d (hb_settings h) \<and>
           lock_depth (hb_trace h') = lock_depth (hb_trace h) \<and>
           hb_trace h' = hb_trace h @ [LockAccess, LockRelease] @ map CbReload (hb_callbacks h) @
             [LockModify, LockCommit, Sleep 1000, Delete d0])"
  by (simp add: Driver_reload_def Driver_commit_def Let_def split: option.split)

section \<open>Where call records go\<close>

lemma ask_callbacks_takes: "ask_callbacks q data cs = takeWhile (\<lambda>c. \<not> q c data) cs @ take 1 (dropWhile (\<lambda>c. \<not> q c data) cs)"
  by (induction cs) auto

text \<open>
  A plugin that takes a record keeps it from the plugins behind it, but never from the call
  log: the line of a finished call is written whenever the file is open, and no other record is ever
  written.
\<close>

theorem driver_query_logs:
  "let (text, h') = Driver_query date q fp data h
   in text = (if fp \<and> dr_type data = STOP then cdr_line date data else []) \<and>
      hb_trace h' = hb_trace h @ map CbQuery (takeWhile (\<lambda>c. \<not> q c data) (hb_callbacks h) @
        take 1 (dropWhile (\<lambda>c. \<not> q c data) (hb_callbacks h)))"
  by (simp add: Driver_query_def ask_callbacks_takes Let_def del: map_append)

end
