(* ===== verification/Voip.thy ===== *)
theory Voip
  imports Prelude
begin

text \<open>
  The wrappers around the SIP stack: \<^verbatim>\<open>sipw/voip.h\<close>, \<^verbatim>\<open>sipw/voip.cpp\<close>.
  The source holds two versions of each, for the two interfaces of the eXosip library; they differ
  in that the newer one (\<open>API4\<close>) has a lock per context and passes the context to each
  call. Each definition covers both, and where they differ in more than that it says so. The
  library itself is a parameter: what it builds for a request, what it returns.
\<close>

section \<open>The library\<close>

datatype sip_api = API4 | Legacy

text \<open>What the library is asked to build; messages are numbers.\<close>

datatype xbuild =
    MessageRequest string string string "string option" | MessageAnswer int nat
  | OptionsAnswer int nat | CallAnswer int nat | Ack int | Prack int
  | DialogRequest int string | DialogNotify int nat | DialogUpdate int | DialogRefer int string
  | DialogInfo int | DialogOptions int
  | InitialInvite string string "string option" string
  | InitialRegister string string string nat | Register int nat
  | PublishRequest string string string string string string

datatype xcall =
    Build xbuild
  | SendMessageAnswer int nat "nat option" | SendOptionsAnswer int nat "nat option"
  | SendCallAnswer int nat "nat option" | SendAck int "nat option" | SendPrack int "nat option"
  | SendRequest nat | SendDialog int nat | SendInvite nat | SendRegister int nat | Publish nat string
  | Terminate int int | SetReference int nat | SetOption int nat
  | AddAuthInfo string string string string | AutomaticAction | DefaultAction nat

datatype xeffect = XLock "nat option" | XUnlock "nat option" | XCall "nat option" xcall | XFree nat

definition xctx :: "sip_api \<Rightarrow> nat option \<Rightarrow> nat option" where
  "xctx api ctx = (case api of API4 \<Rightarrow> ctx | Legacy \<Rightarrow> None)"

type_synonym xtrace = "xeffect list"

text \<open>
  A call made on its own, under the lock.
\<close>

definition xlocked :: "sip_api \<Rightarrow> nat option \<Rightarrow> xcall list \<Rightarrow> xtrace \<Rightarrow> xtrace" where
  "xlocked api ctx xs t = t @ [XLock (xctx api ctx)] @ map (XCall (xctx api ctx)) xs @ [XUnlock (xctx api ctx)]"

text \<open>
  The common shape of the \<open>make_\<close> functions: without a place for the message, nothing; otherwise
  the lock is taken, and kept exactly when a message was built.
\<close>

definition make_message ::
    "sip_api \<Rightarrow> nat option \<Rightarrow> (xbuild \<Rightarrow> nat option) \<Rightarrow> bool \<Rightarrow> xbuild \<Rightarrow> xtrace \<Rightarrow> nat option \<times> xtrace"
where
  "make_message api ctx builds place b t =
     (if \<not> place then (None, t)
      else let c = xctx api ctx; t1 = t @ [XLock c, XCall c (Build b)]
           in case builds b of None \<Rightarrow> (None, t1 @ [XUnlock c]) | Some m \<Rightarrow> (Some m, t1))"

text \<open>The two shapes of \<open>send_\<close>: without a message, lock and send the status alone, or do nothing.\<close>

definition send_status :: "sip_api \<Rightarrow> nat option \<Rightarrow> (nat option \<Rightarrow> xcall) \<Rightarrow> nat option \<Rightarrow> xtrace \<Rightarrow> xtrace" where
  "send_status api ctx x msg t =
     (let c = xctx api ctx; t1 = (if msg = None then t @ [XLock c] else t)
      in t1 @ [XCall c (x msg), XUnlock c])"

definition send_built :: "sip_api \<Rightarrow> nat option \<Rightarrow> (nat \<Rightarrow> xcall) \<Rightarrow> nat option \<Rightarrow> xtrace \<Rightarrow> xtrace" where
  "send_built api ctx x msg t =
     (case msg of None \<Rightarrow> t | Some m \<Rightarrow> t @ [XCall (xctx api ctx) (x m), XUnlock (xctx api ctx)])"

section \<open>The wrappers\<close>

definition voip_publish ::
    "sip_api \<Rightarrow> nat option \<Rightarrow> (xbuild \<Rightarrow> nat option) \<Rightarrow> string \<Rightarrow> string \<Rightarrow> string \<Rightarrow> string \<Rightarrow> string \<Rightarrow> string \<Rightarrow>
     xtrace \<Rightarrow> bool \<times> xtrace"
where
  "voip_publish api ctx builds uri contact event duration ty body t =
     (let b = PublishRequest uri contact event duration ty body
      in case builds b of
           Some m \<Rightarrow> (True, xlocked api ctx [Build b, Publish m uri] t)
         | None \<Rightarrow> (False, xlocked api ctx [Build b] t))"

definition voip_call_reference :: "sip_api \<Rightarrow> nat option \<Rightarrow> int \<Rightarrow> nat \<Rightarrow> xtrace \<Rightarrow> xtrace" where
  "voip_call_reference api ctx cid route t = xlocked api ctx [SetReference cid route] t"

definition voip_option :: "sip_api \<Rightarrow> nat option \<Rightarrow> int \<Rightarrow> nat option \<Rightarrow> xtrace \<Rightarrow> xtrace" where
  "voip_option api ctx opt v t =
     (case (ctx, v) of (Some _, Some x) \<Rightarrow> xlocked api ctx [SetOption opt x] t | _ \<Rightarrow> t)"

definition voip_add_authentication ::
    "sip_api \<Rightarrow> nat option \<Rightarrow> string \<Rightarrow> string \<Rightarrow> string \<Rightarrow> bool \<Rightarrow> xtrace \<Rightarrow> xtrace"
where
  "voip_add_authentication api ctx user secret realm automatic t =
     xlocked api ctx ([AddAuthInfo user user secret realm] @ (if automatic then [AutomaticAction] else [])) t"

text \<open>\<open>free_message_request\<close> gives up a message that was made: it ends the lock that \<open>make_\<close> took.\<close>

definition voip_free_message_request :: "sip_api \<Rightarrow> nat option \<Rightarrow> nat option \<Rightarrow> xtrace \<Rightarrow> xtrace" where
  "voip_free_message_request api ctx msg t =
     t @ (case msg of None \<Rightarrow> [] | Some m \<Rightarrow> [XFree m]) @ [XUnlock (xctx api ctx)]"

definition voip_make_request_message where
  "voip_make_request_message api ctx builds method to from place route =
     make_message api ctx builds place (MessageRequest method to from route)"

definition voip_make_response_message where
  "voip_make_response_message api ctx builds tid status place =
     make_message api ctx builds place (MessageAnswer tid status)"

definition voip_send_response_message where
  "voip_send_response_message api ctx tid status = send_status api ctx (SendMessageAnswer tid status)"

definition voip_make_ack_message where
  "voip_make_ack_message api ctx builds did place = make_message api ctx builds place (Ack did)"

definition voip_send_ack_message where
  "voip_send_ack_message api ctx tid = send_status api ctx (SendAck tid)"

definition voip_make_prack_message where
  "voip_make_prack_message api ctx builds tid place = make_message api ctx builds place (Prack tid)"

definition voip_send_prack_message where
  "voip_send_prack_message api ctx tid = send_status api ctx (SendPrack tid)"

definition voip_make_options_response where
  "voip_make_options_response api ctx builds tid status place =
     make_message api ctx builds place (OptionsAnswer tid status)"

definition voip_send_options_response where
  "voip_send_options_response api ctx tid status = send_status api ctx (SendOptionsAnswer tid status)"

definition voip_make_answer_response where
  "voip_make_answer_response api ctx builds tid status place =
     make_message api ctx builds place (CallAnswer tid status)"

definition voip_send_answer_response where
  "voip_send_answer_response api ctx tid status = send_status api ctx (SendCallAnswer tid status)"

definition voip_send_request_message where
  "voip_send_request_message api ctx = send_built api ctx SendRequest"

definition voip_release_call :: "sip_api \<Rightarrow> nat option \<Rightarrow> int \<Rightarrow> int \<Rightarrow> xtrace \<Rightarrow> xtrace" where
  "voip_release_call api ctx cid did t = xlocked api ctx [Terminate cid did] t"

definition voip_make_dialog_request where
  "voip_make_dialog_request api ctx builds did method place =
     make_message api ctx builds place (DialogRequest did method)"

definition voip_make_dialog_notify where
  "voip_make_dialog_notify api ctx builds did status place =
     make_message api ctx builds place (DialogNotify did status)"

definition voip_make_dialog_update where
  "voip_make_dialog_update api ctx builds did place = make_message api ctx builds place (DialogUpdate did)"

definition voip_make_dialog_refer where
  "voip_make_dialog_refer api ctx builds did to place = make_message api ctx builds place (DialogRefer did to)"

definition voip_make_dialog_info where
  "voip_make_dialog_info api ctx builds did place = make_message api ctx builds place (DialogInfo did)"

definition voip_make_dialog_options where
  "voip_make_dialog_options api ctx builds did place = make_message api ctx builds place (DialogOptions did)"

definition voip_send_dialog_message where
  "voip_send_dialog_message api ctx did = send_built api ctx (SendDialog did)"

text \<open>The place for the message is not tested here.\<close>

definition voip_make_invite_request where
  "voip_make_invite_request api ctx builds to from subject route =
     make_message api ctx builds True (InitialInvite to from route subject)"

text \<open>\<open>rtn\<close> is what the library returns for the call.\<close>

definition voip_send_invite_request :: "sip_api \<Rightarrow> nat option \<Rightarrow> int \<Rightarrow> nat option \<Rightarrow> xtrace \<Rightarrow> int \<times> xtrace" where
  "voip_send_invite_request api ctx rtn msg t =
     ((if msg = None then - 1 else rtn), send_built api ctx SendInvite msg t)"

text \<open>
  A registration: the library returns its id, and the message if it could build one. The newer
  version gives the lock back when there is no message. The older one tests the place for the message
  instead of the message, a second time, and keeps the lock.
\<close>

definition voip_make_registry_request ::
    "nat option \<Rightarrow> (xbuild \<Rightarrow> int \<times> nat option) \<Rightarrow> string \<Rightarrow> string \<Rightarrow> string \<Rightarrow> nat \<Rightarrow> xtrace \<Rightarrow>
     int \<times> nat option \<times> xtrace"
where
  "voip_make_registry_request ctx registers uri s c ex t =
     (let b = InitialRegister uri s c ex; (rid, msg) = registers b; t1 = t @ [XLock ctx, XCall ctx (Build b)]
      in (rid, msg, if msg = None then t1 @ [XUnlock ctx] else t1))"

definition legacy_make_registry_request ::
    "(xbuild \<Rightarrow> int \<times> nat option) \<Rightarrow> bool \<Rightarrow> string \<Rightarrow> string \<Rightarrow> string \<Rightarrow> nat \<Rightarrow> xtrace \<Rightarrow>
     int \<times> nat option \<times> xtrace"
where
  "legacy_make_registry_request registers place uri s c ex t =
     (if \<not> place then (- 1, None, t)
      else let b = InitialRegister uri s c ex; (rid, msg) = registers b; t1 = t @ [XLock None, XCall None (Build b)]
           in (rid, msg, if \<not> place then t1 @ [XUnlock None] else t1))"

definition voip_send_registry_request where
  "voip_send_registry_request api ctx rid = send_built api ctx (SendRegister rid)"

definition voip_release_registry ::
    "sip_api \<Rightarrow> nat option \<Rightarrow> (xbuild \<Rightarrow> nat option) \<Rightarrow> int \<Rightarrow> xtrace \<Rightarrow> bool \<times> xtrace"
where
  "voip_release_registry api ctx builds rid t =
     (let b = Register rid 0
      in case builds b of
           Some m \<Rightarrow> (True, xlocked api ctx [Build b, SendRegister rid m] t)
         | None \<Rightarrow> (False, xlocked api ctx [Build b] t))"

definition voip_default_action :: "sip_api \<Rightarrow> nat option \<Rightarrow> nat \<Rightarrow> xtrace \<Rightarrow> xtrace" where
  "voip_default_action api ctx ev t = xlocked api ctx [DefaultAction ev] t"

definition voip_automatic_action :: "sip_api \<Rightarrow> nat option \<Rightarrow> xtrace \<Rightarrow> xtrace" where
  "voip_automatic_action api ctx t = xlocked api ctx [AutomaticAction] t"

text \<open>The two parts of the timeout that \<open>get_event\<close> passes on, as \<open>int\<close>s.\<close>

definition voip_get_event :: "64 word \<Rightarrow> 32 word \<times> 32 word" where
  "voip_get_event timeout = (ucast (timeout div 1000), ucast (timeout mod 1000))"

text \<open>
  The address, port and mode that \<open>listen\<close> asks the library for; \<open>listens\<close> is the
  library's answer, 0 for success. Only the newer version tests the context.
\<close>

definition listen_args :: "bool \<Rightarrow> string option \<Rightarrow> 32 word \<Rightarrow> bool \<Rightarrow> string option \<times> 32 word \<times> bool" where
  "listen_args ipv6 addr port tls =
     (let addr1 = (if ipv6 \<and> (addr = Some ''::0'' \<or> addr = Some ''::*'') then None else addr);
          addr2 = (if addr1 = Some ''*'' then None else addr1);
          port1 = port AND 0xfffe
      in (addr2, if tls then port1 + 1 else port1, tls))"

definition legacy_listen ::
    "(string option \<times> 32 word \<times> bool \<Rightarrow> int) \<Rightarrow> bool \<Rightarrow> string option \<Rightarrow> 32 word \<Rightarrow> bool \<Rightarrow> bool"
where
  "legacy_listen listens ipv6 addr port tls \<longleftrightarrow> listens (listen_args ipv6 addr port tls) = 0"

definition voip_listen ::
    "sip_api \<Rightarrow> (string option \<times> 32 word \<times> bool \<Rightarrow> int) \<Rightarrow> bool \<Rightarrow> nat option \<Rightarrow> string option \<Rightarrow> 32 word \<Rightarrow> bool \<Rightarrow> bool"
where
  "voip_listen api listens ipv6 ctx addr port tls =
     (case api of
        API4 \<Rightarrow> ctx \<noteq> None \<and> listens (listen_args ipv6 addr port tls) = 0
      | Legacy \<Rightarrow> legacy_listen listens ipv6 addr port tls)"

text \<open>
  The contexts: \<open>st_made\<close> counts those that the newer library has given out, \<open>st_active\<close> is the flag
  of the older version, which has one context in all.
\<close>

record stack_state =
  st_made :: nat
  st_active :: bool
  st_family6 :: bool
  st_quit :: "nat option list"

definition legacy_create :: "bool \<Rightarrow> stack_state \<Rightarrow> nat option \<times> stack_state" where
  "legacy_create ipv6 st =
     (if st_active st then (None, st)
      else (Some (st_made st), st\<lparr>st_made := st_made st + 1, st_active := True, st_family6 := ipv6\<rparr>))"

definition legacy_release :: "nat option \<Rightarrow> stack_state \<Rightarrow> stack_state" where
  "legacy_release ctx st =
     (if ctx = None \<or> \<not> st_active st then st else st\<lparr>st_active := False, st_quit := st_quit st @ [ctx]\<rparr>)"

definition voip_create :: "sip_api \<Rightarrow> bool \<Rightarrow> stack_state \<Rightarrow> nat option \<times> stack_state" where
  "voip_create api ipv6 st =
     (case api of
        API4 \<Rightarrow> (Some (st_made st), st\<lparr>st_made := st_made st + 1, st_family6 := ipv6\<rparr>)
      | Legacy \<Rightarrow> legacy_create ipv6 st)"

definition voip_release :: "sip_api \<Rightarrow> nat option \<Rightarrow> stack_state \<Rightarrow> stack_state" where
  "voip_release api ctx st =
     (case api of
        API4 \<Rightarrow> if ctx = None then st else st\<lparr>st_quit := st_quit st @ [ctx]\<rparr>
      | Legacy \<Rightarrow> legacy_release ctx st)"

section \<open>The lock of the stack\<close>

text \<open>
  The depth of each lock after some effects; \<open>None\<close> if a call was made, or a lock given back,
  without it being held.
\<close>

fun xwalk :: "(nat option \<Rightarrow> nat) \<Rightarrow> xtrace \<Rightarrow> (nat option \<Rightarrow> nat) option" where
  "xwalk d [] = Some d"
| "xwalk d (XLock c # es) = xwalk (d(c := d c + 1)) es"
| "xwalk d (XUnlock c # es) = (if d c = 0 then None else xwalk (d(c := d c - 1)) es)"
| "xwalk d (XFree m # es) = xwalk d es"
| "xwalk d (XCall c x # es) = (if d c = 0 then None else xwalk d es)"

lemma xwalk_append: "xwalk d (a @ b) = Option.bind (xwalk d a) (\<lambda>d1. xwalk d1 b)"
proof (induction a arbitrary: d)
  case (Cons e a)
  then show ?case by (cases e) (simp_all add: fun_upd_def)
qed simp

lemma xwalk_calls [simp]: "xwalk d (map (XCall c) xs) = (if xs \<noteq> [] \<and> d c = 0 then None else Some d)"
  by (induction xs) auto

text \<open>A message is made and sent, or only its status is sent: what the callers of the wrappers do.\<close>

definition exchange :: "(xtrace \<Rightarrow> nat option \<times> xtrace) \<Rightarrow> (nat option \<Rightarrow> xtrace \<Rightarrow> xtrace) \<Rightarrow> xtrace \<Rightarrow> xtrace" where
  "exchange mk sd t = (let (m, t1) = mk t in sd m t1)"

text \<open>An operation is clean when it calls the stack only under its lock and leaves the locks as they were.\<close>

definition xclean :: "(xtrace \<Rightarrow> xtrace) \<Rightarrow> bool" where
  "xclean f \<longleftrightarrow> (\<forall>t. \<exists>es. f t = t @ es \<and> (\<forall>d. xwalk d es = Some d))"

lemma xcleanI: "(\<And>t. \<exists>es. f t = t @ es \<and> (\<forall>d. xwalk d es = Some d)) \<Longrightarrow> xclean f"
  by (simp add: xclean_def)

lemma xlocked_clean [simp]: "xclean (xlocked api ctx xs)"
proof (rule xcleanI)
  fix t
  let ?c = "xctx api ctx"
  show "\<exists>es. xlocked api ctx xs t = t @ es \<and> (\<forall>d. xwalk d es = Some d)"
    by (rule exI [of _ "[XLock ?c] @ map (XCall ?c) xs @ [XUnlock ?c]"]) (simp add: xlocked_def xwalk_append)
qed

text \<open>
  The interface between a pair of wrappers and their callers: what making promises of the
  lock, and sending with and without a message.
\<close>

locale stack_pair =
  fixes mk :: "xtrace \<Rightarrow> nat option \<times> xtrace" and sd :: "nat option \<Rightarrow> xtrace \<Rightarrow> xtrace"
    and c :: "nat option"
  assumes make_law: "\<exists>es. snd (mk t) = t @ es \<and>
      (\<forall>d. xwalk d es = Some (if fst (mk t) = None then d else d(c := d c + 1)))"
    and send_law: "\<exists>es. sd m t = t @ es \<and>
      (\<forall>d. (m \<noteq> None \<longrightarrow> 0 < d c) \<longrightarrow> xwalk d es = Some (if m = None then d else d(c := d c - 1)))"
begin

lemma exchange_clean: "xclean (exchange mk sd)"
proof (rule xcleanI)
  fix t
  obtain m t1 where m: "mk t = (m, t1)" by (rule prod.exhaust)
  obtain es1 where e1: "t1 = t @ es1" "\<And>d. xwalk d es1 = Some (if m = None then d else d(c := d c + 1))"
    using make_law [of t] m by auto
  obtain es2 where e2: "sd m t1 = t1 @ es2"
    "\<And>d. (m \<noteq> None \<longrightarrow> 0 < d c) \<Longrightarrow> xwalk d es2 = Some (if m = None then d else d(c := d c - 1))"
    using send_law [of m t1] by auto
  have "xwalk d (es1 @ es2) = Some d" for d
    using e2(2) [of "if m = None then d else d(c := d c + 1)"] by (simp add: xwalk_append e1(2))
  with m e1(1) e2(1) show "\<exists>es. exchange mk sd t = t @ es \<and> (\<forall>d. xwalk d es = Some d)"
    by (auto simp: exchange_def)
qed

end

lemma make_message_law:
  "\<exists>es. snd (make_message api ctx builds place b t) = t @ es \<and>
    (\<forall>d. xwalk d es = Some (if fst (make_message api ctx builds place b t) = None then d
       else d(xctx api ctx := d (xctx api ctx) + 1)))"
  by (auto simp: make_message_def Let_def split: option.split)

lemma send_status_law:
  "\<exists>es. send_status api ctx x m t = t @ es \<and>
    (\<forall>d. (m \<noteq> None \<longrightarrow> 0 < d (xctx api ctx)) \<longrightarrow>
       xwalk d es = Some (if m = None then d else d(xctx api ctx := d (xctx api ctx) - 1)))"
  by (auto simp: send_status_def Let_def)

lemma send_built_law:
  "\<exists>es. send_built api ctx x m t = t @ es \<and>
    (\<forall>d. (m \<noteq> None \<longrightarrow> 0 < d (xctx api ctx)) \<longrightarrow>
       xwalk d es = Some (if m = None then d else d(xctx api ctx := d (xctx api ctx) - 1)))"
  by (auto simp: send_built_def split: option.split)

interpretation status: stack_pair "make_message api ctx builds place b" "send_status api ctx x" "xctx api ctx"
  for api ctx builds place b x
  by unfold_locales (rule make_message_law, rule send_status_law)

interpretation built: stack_pair "make_message api ctx builds place b" "send_built api ctx x" "xctx api ctx"
  for api ctx builds place b x
  by unfold_locales (rule make_message_law, rule send_built_law)

lemma registry_make_law:
  "\<exists>es. snd (snd (voip_make_registry_request ctx registers uri s c ex t)) = t @ es \<and>
    (\<forall>d. xwalk d es = Some (if fst (snd (voip_make_registry_request ctx registers uri s c ex t)) = None then d
       else d(ctx := d ctx + 1)))"
  by (auto simp: voip_make_registry_request_def Let_def split: prod.split)

interpretation registry: stack_pair "\<lambda>t. snd (voip_make_registry_request ctx registers uri s c ex t)"
    "voip_send_registry_request API4 ctx rid" "ctx"
  for ctx registers uri s c ex rid
  using registry_make_law send_built_law [of API4 ctx "SendRegister rid", unfolded xctx_def sip_api.case]
  by unfold_locales (simp_all add: voip_send_registry_request_def xctx_def)

lemmas voip_status_defs = voip_make_response_message_def voip_send_response_message_def
  voip_make_ack_message_def voip_send_ack_message_def voip_make_prack_message_def voip_send_prack_message_def
  voip_make_options_response_def voip_send_options_response_def voip_make_answer_response_def
  voip_send_answer_response_def

lemmas voip_built_defs = voip_make_request_message_def voip_send_request_message_def
  voip_make_dialog_request_def voip_make_dialog_notify_def voip_make_dialog_update_def
  voip_make_dialog_refer_def voip_make_dialog_info_def voip_make_dialog_options_def
  voip_send_dialog_message_def

text \<open>The requests inside a dialog, each made by its own wrapper and all sent by the same.\<close>

definition dialog_makers :: "sip_api \<Rightarrow> nat option \<Rightarrow> (xbuild \<Rightarrow> nat option) \<Rightarrow> int \<Rightarrow>
    (xtrace \<Rightarrow> nat option \<times> xtrace) list" where
  "dialog_makers api ctx builds did =
     [voip_make_dialog_request api ctx builds did ''MESSAGE'' True, voip_make_dialog_notify api ctx builds did 200 True,
      voip_make_dialog_update api ctx builds did True, voip_make_dialog_refer api ctx builds did ''sip:x'' True,
      voip_make_dialog_info api ctx builds did True, voip_make_dialog_options api ctx builds did True]"

lemma legacy_registry_fails:
  assumes "snd (registers (InitialRegister uri s c ex)) = None"
  shows "\<exists>es. exchange (\<lambda>t. snd (legacy_make_registry_request registers True uri s c ex t))
        (voip_send_registry_request Legacy ctx rid) t = t @ es \<and> xwalk d es = Some (d(None := d None + 1))"
proof -
  obtain r where "registers (InitialRegister uri s c ex) = (r, None)" using assms by (metis prod.collapse)
  then show ?thesis
    by (simp add: exchange_def legacy_make_registry_request_def voip_send_registry_request_def send_built_def Let_def)
qed

lemma legacy_registry_clean:
  "xclean (exchange (\<lambda>t. snd (legacy_make_registry_request registers place uri s c ex t))
      (voip_send_registry_request Legacy ctx rid)) = (\<not> place \<or> snd (registers (InitialRegister uri s c ex)) \<noteq> None)"
  (is "xclean ?f = ?built")
proof
  assume x: "xclean ?f"
  show ?built
  proof (rule ccontr)
    assume "\<not> ?built"
    then have place and n: "snd (registers (InitialRegister uri s c ex)) = None" by simp_all
    obtain es where e: "?f [] = [] @ es" "xwalk (\<lambda>_. 0) es = Some ((\<lambda>_. 0)(None := 0 + 1))"
      using legacy_registry_fails [where registers = registers and uri = uri and s = s and c = c and ex = ex
        and t = "[]" and d = "\<lambda>_. 0" and ctx = ctx and rid = rid, OF n] \<open>place\<close> by auto
    from x obtain es' where "?f [] = [] @ es'" "xwalk (\<lambda>_. 0) es' = Some (\<lambda>_. 0)"
      unfolding xclean_def by meson
    with e have "((\<lambda>_. 0)(None := 0 + 1)) = (\<lambda>_ :: nat option. 0 :: nat)" by simp
    then show False by (metis fun_upd_same add_0 zero_neq_one)
  qed
next
  assume b: ?built
  show "xclean ?f"
  proof (rule xcleanI)
    fix t
    show "\<exists>es. ?f t = t @ es \<and> (\<forall>d. xwalk d es = Some d)"
    proof (cases place)
      case True
      with b obtain r m where "registers (InitialRegister uri s c ex) = (r, Some m)" by (metis not_None_eq prod.collapse)
      with True show ?thesis
        by (simp add: exchange_def legacy_make_registry_request_def voip_send_registry_request_def send_built_def
            xctx_def Let_def)
    qed (simp add: exchange_def legacy_make_registry_request_def voip_send_registry_request_def send_built_def)
  qed
qed

text \<open>
  C20. The exchanges with the stack are clean but for one: whatever the library builds or fails to build, each
  of its calls is made with the lock of its context held, and in the end every lock is as it was.
  This holds for answers and acknowledgements, where the status alone is sent when no message
  can be built, for requests and invitations, where nothing is sent then, and in the newer version for registrations.
  The older version's registration is clean if and only if the library builds its message, or the caller
  has no place for one: where it is not built the lock is kept.
\<close>

theorem voip_exchanges_clean:
  "xclean (exchange (voip_make_response_message api ctx builds tid st place) (voip_send_response_message api ctx tid st)) \<and>
   xclean (exchange (voip_make_options_response api ctx builds tid st place) (voip_send_options_response api ctx tid st)) \<and>
   xclean (exchange (voip_make_answer_response api ctx builds tid st place) (voip_send_answer_response api ctx tid st)) \<and>
   xclean (exchange (voip_make_ack_message api ctx builds tid place) (voip_send_ack_message api ctx tid)) \<and>
   xclean (exchange (voip_make_prack_message api ctx builds tid place) (voip_send_prack_message api ctx tid)) \<and>
   xclean (exchange (voip_make_request_message api ctx builds method to from place route) (voip_send_request_message api ctx)) \<and>
   (\<forall>mk \<in> set (dialog_makers api ctx builds did). xclean (exchange mk (voip_send_dialog_message api ctx did))) \<and>
   xclean (exchange (voip_make_invite_request api ctx builds to from subj route)
     (\<lambda>m t. snd (voip_send_invite_request api ctx rtn m t))) \<and>
   xclean (exchange (\<lambda>t. snd (voip_make_registry_request ctx registers uri s c ex t)) (voip_send_registry_request API4 ctx rid)) \<and>
   (xclean (exchange (\<lambda>t. snd (legacy_make_registry_request registers place uri s c ex t))
      (voip_send_registry_request Legacy ctx rid)) = (\<not> place \<or> snd (registers (InitialRegister uri s c ex)) \<noteq> None))"
  by (simp add: voip_status_defs voip_built_defs dialog_makers_def voip_make_invite_request_def legacy_registry_clean
      voip_send_invite_request_def status.exchange_clean built.exchange_clean registry.exchange_clean)

theorem voip_exchanges_clean_witness:
  "xclean (exchange (voip_make_options_response API4 (Some 1) (\<lambda>_. None) 3 200 True)
     (voip_send_options_response API4 (Some 1) 3 200))"
  using voip_exchanges_clean [of API4 "Some 1" "\<lambda>_. None" 3 200 True] by simp

text \<open>
  The older version loses its lock when a registration cannot be built: the caller then sends
  nothing, and the lock of the whole stack, which every other thread needs, stays taken, once more
  for every section of the registry that fails.
\<close>

theorem legacy_registry_keeps_lock:
  assumes "\<And>b. snd (registers b) = None"
  shows "\<exists>es. (case legacy_make_registry_request registers True uri s c ex t of
        (rid, m, t1) \<Rightarrow> voip_send_registry_request Legacy ctx rid m t1) = t @ es \<and>
      xwalk d es = Some (d(None := d None + 1))"
proof -
  let ?b = "InitialRegister uri s c ex"
  have "snd (registers ?b) = None" by (rule assms)
  then obtain r where "registers ?b = (r, None)" by (metis prod.collapse)
  then show ?thesis
    by (simp add: legacy_make_registry_request_def voip_send_registry_request_def send_built_def Let_def)
qed

theorem legacy_registry_keeps_lock_witness:
  "\<exists>es. (case legacy_make_registry_request (\<lambda>_. (- 1, None)) True ''sip:a'' ''sip:b'' ''sip:c'' 300 [] of
        (rid, m, t1) \<Rightarrow> voip_send_registry_request Legacy None rid m t1) = [] @ es \<and>
      xwalk (\<lambda>_. 0) es = Some ((\<lambda>_. 0)(None := 0 + 1))"
  by (rule legacy_registry_keeps_lock) simp

lemma and_even_port: "unat (port :: 32 word) \<le> 65535 \<Longrightarrow> unat (port AND 0xfffe) = 2 * (unat port div 2)"
proof -
  assume n: "unat port \<le> 65535"
  have "unat port AND 0xfffe = 2 * ((unat port div 2) AND 0x7fff)"
    by (subst and_rec) simp
  also have "(unat port div 2) AND 0x7fff = unat port div 2"
    using n take_bit_nat_eq_self [of "unat port div 2" 15] by (simp add: take_bit_eq_mask mask_eq_exp_minus_1)
  finally show ?thesis by (simp add: unsigned_and_eq)
qed

text \<open>
  Whatever port is configured, plain SIP listens on an even port and TLS on the odd port behind
  it, so the two never meet; but where the configured port is odd, plain SIP does not listen on it:
  it listens one below, and TLS on the configured port itself.
\<close>

theorem voip_listen_ports:
  assumes "unat port \<le> 65535"
  shows "let (_, plain, _) = listen_args ipv6 addr port False; (_, tls, _) = listen_args ipv6 addr port True
     in even (unat plain) \<and> unat tls = unat plain + 1 \<and> unat tls \<le> 65535 \<and>
        (even (unat port) \<longrightarrow> plain = port) \<and> (odd (unat port) \<longrightarrow> unat plain = unat port - 1 \<and> tls = port)"
proof -
  have p: "unat (port AND 0xfffe) = 2 * (unat port div 2)" by (rule and_even_port [OF assms])
  have t: "unat ((port AND 0xfffe) + 1) = 2 * (unat port div 2) + 1"
  proof -
    have "unat (port AND 0xfffe) < 2 ^ LENGTH(32) - 1" using p assms by simp
    from unat_inc [OF this] p show ?thesis by simp
  qed
  have "port AND 0xfffe = port" if "even (unat port)"
    using p that by (simp add: word_unat_eq_iff)
  moreover have "(port AND 0xfffe) + 1 = port" if "odd (unat port)"
    using t that by (simp add: word_unat_eq_iff)
  ultimately show ?thesis
    using p t assms by (auto simp: listen_args_def Let_def elim!: oddE)
qed

theorem voip_listen_ports_witness:
  "unat (fst (snd (listen_args False None 5061 False))) = 5060 \<and> fst (snd (listen_args False None 5061 True)) = 5061"
  using voip_listen_ports [of 5061 False None] by (simp add: Let_def split: prod.splits)

end
