(* ===== verification/SipDriver.thy ===== *)
theory SipDriver
  imports SipCalls Driver Voip
begin

text \<open>
  The SIP driver as a whole: \<^verbatim>\<open>sipw/driver.cpp\<close>. Its settings, start, stop and
  reload. The transports it opens are the contexts of \<open>Voip\<close>. The value of a numeric option
  is \<open>None\<close> unless it was given on the command line.
\<close>

section \<open>Settings\<close>

record sip_static =
  ss_tcp :: "nat option"
  ss_udp :: "nat option"
  ss_tls :: "nat option"
  ss_out :: "nat option"
  ss_ipv6 :: bool
  ss_over_tcp :: bool
  ss_realm :: "string option"
  ss_expires :: "32 word"
  ss_iface :: "string option"
  ss_registries :: "32 word"
  ss_port :: "16 word"
  ss_count :: "32 word"
  ss_agent :: string
  ss_stack :: int
  ss_priority :: "32 word"
  ss_started :: bool

record sip_options =
  so_ipv6 :: bool
  so_port :: "int option"
  so_realm :: "string option"
  so_tcp :: bool
  so_slots :: "int option"

text \<open>The static members before \<open>start\<close>, with its locals \<open>agent\<close>, \<open>stack\<close>, \<open>priority\<close>.\<close>

definition sip_defaults :: "string \<Rightarrow> sip_static" where
  "sip_defaults version = \<lparr>ss_tcp = None, ss_udp = None, ss_tls = None, ss_out = None, ss_ipv6 = False,
     ss_over_tcp = False, ss_realm = None, ss_expires = 300, ss_iface = None, ss_registries = 40,
     ss_port = 5060, ss_count = 16, ss_agent = ''bayonne-'' @ version @ ''/exosip2'', ss_stack = 0, ss_priority = 1,
     ss_started = False\<rparr>"

definition driver_realm :: "sip_options \<Rightarrow> sip_static \<Rightarrow> string option" where
  "driver_realm opts st =
     (case so_realm opts of
        Some r \<Rightarrow> Some r
      | None \<Rightarrow> (case ss_realm st of Some r \<Rightarrow> if r \<noteq> [] then Some r else None | None \<Rightarrow> None))"

definition start_key :: "ucommon \<Rightarrow> string \<times> string \<Rightarrow> sip_static \<Rightarrow> sip_static" where
  "start_key u = (\<lambda>(k, v) st.
     if u_eq u k ''iface''
     then (let st1 = (if CHR '':'' \<in> set v then st\<lparr>ss_ipv6 := True\<rparr> else st)
           in if u_eq u v '':::'' \<or> u_eq u v ''::0'' \<or> u_eq u v ''*'' \<or> v = [] then st1\<lparr>ss_iface := None\<rparr>
              else st1\<lparr>ss_iface := Some v\<rparr>)
     else if u_eq u k ''protocol'' \<or> u_eq u k ''transport''
     then (if u_eq u v ''tcp'' then st\<lparr>ss_over_tcp := True\<rparr> else st)
     else if u_eq u k ''agent'' then st\<lparr>ss_agent := v\<rparr>
     else if u_eq u k ''port'' then st\<lparr>ss_port := ucast (atoi v)\<rparr>
     else if u_eq u k ''stack'' then st\<lparr>ss_stack := sint (atoi v) * 1024\<rparr>
     else if u_eq u k ''expires'' then st\<lparr>ss_expires := atoi v\<rparr>
     else if u_eq u k ''priority'' then st\<lparr>ss_priority := atoi v\<rparr>
     else if u_eq u k ''sessions'' then st\<lparr>ss_count := atoi v\<rparr>
     else if u_eq u k ''timeslots'' then st\<lparr>ss_count := atoi v\<rparr>
     else if u_eq u k ''registries'' then st\<lparr>ss_registries := atoi v\<rparr>
     else if u_eq u k ''realm'' then st\<lparr>ss_realm := Some v\<rparr>
     else st)"

definition sip_settings :: "ucommon \<Rightarrow> sip_options \<Rightarrow> (string \<times> string) list option \<Rightarrow> sip_static \<Rightarrow> sip_static" where
  "sip_settings u opts keys st =
     (let st0 = st\<lparr>ss_count := 16\<rparr>;
          st1 = (case keys of None \<Rightarrow> st0 | Some kvs \<Rightarrow> fold (start_key u) kvs st0);
          st2 = (case so_slots opts of None \<Rightarrow> st1 | Some n \<Rightarrow> st1\<lparr>ss_count := word_of_int n\<rparr>);
          st3 = (case so_port opts of None \<Rightarrow> st2 | Some p \<Rightarrow> st2\<lparr>ss_port := word_of_int p\<rparr>);
          st4 = (if so_tcp opts then st3\<lparr>ss_over_tcp := True\<rparr> else st3)
      in if so_ipv6 opts then st4\<lparr>ss_ipv6 := True\<rparr> else st4)"

section \<open>Start\<close>

text \<open>The transports, in the order the chosen one asks for; TLS only where the build has it.\<close>

definition sip_contexts :: "sip_api \<Rightarrow> bool \<Rightarrow> sip_static \<Rightarrow> stack_state \<Rightarrow> sip_static \<times> stack_state" where
  "sip_contexts api openssl st stk =
     (let (st1, stk1) =
            (if ss_over_tcp st
             then (let (tcp, s1) = voip_create api (ss_ipv6 st) stk; (udp, s2) = voip_create api (ss_ipv6 st) s1
                   in (st\<lparr>ss_tcp := tcp, ss_udp := udp, ss_out := tcp\<rparr>, s2))
             else (let (udp, s1) = voip_create api (ss_ipv6 st) stk; (tcp, s2) = voip_create api (ss_ipv6 st) s1
                   in (st\<lparr>ss_udp := udp, ss_tcp := tcp, ss_out := udp\<rparr>, s2)))
      in if openssl then (let (tls, s3) = voip_create api (ss_ipv6 st) stk1 in (st1\<lparr>ss_tls := tls\<rparr>, s3))
         else (st1, stk1))"

text \<open>What each transport that exists listens on, and whether it could.\<close>

datatype transport = UDP | TCP | TLS

definition sip_listen ::
    "sip_api \<Rightarrow> (transport \<Rightarrow> string option \<times> 32 word \<times> bool \<Rightarrow> int) \<Rightarrow> sip_static \<Rightarrow> (transport \<times> bool) list"
where
  "sip_listen api listens st =
     (let try = (\<lambda>tr ctx tls. if ctx = None then []
            else [(tr, voip_listen api (listens tr) (ss_ipv6 st) ctx (ss_iface st) (ucast (ss_port st)) tls)])
      in try UDP (ss_udp st) False @ try TCP (ss_tcp st) False @ try TLS (ss_tls st) True)"

fun sip_construct_all :: "ucommon \<Rightarrow> nat \<Rightarrow> world \<Rightarrow> world" where
  "sip_construct_all u 0 w = w"
| "sip_construct_all u (Suc n) w = sip_construct u n (sip_construct_all u n w)"

text \<open>
  The sections of the registry, each registration under the next number; the texts are the errors
  that are logged. A SIP driver has no boards, so \<open>statmap::create\<close> allocates nothing for them.
\<close>

fun sip_activate_all ::
    "ucommon \<Rightarrow> 32 word \<Rightarrow> 16 word \<Rightarrow> nat \<Rightarrow> (string \<times> (string \<Rightarrow> string option) \<times> reg_env) list \<Rightarrow> world \<Rightarrow>
     string option list \<times> world"
where
  "sip_activate_all u ex port r [] w = ([], w)"
| "sip_activate_all u ex port r ((name, keys, env) # secs) w =
     (let (err, w1) = sip_activate u env r name keys ex port w;
          (errs, w2) = sip_activate_all u ex port (r + 1) secs w1
      in (err # errs, w2))"

definition sip_start_stats :: "sip_static \<Rightarrow> world \<Rightarrow> world" where
  "sip_start_stats st w =
     (case statmap_create (ss_registries st) (ss_count st) (\<lambda>m. m) (w_sta w) of
        None \<Rightarrow> w\<lparr>w_fault := True\<rparr>
      | Some (k, m) \<Rightarrow> w\<lparr>w_sta := m, w_drv_stats := Some k\<rparr>)"

definition sip_start ::
    "ucommon \<Rightarrow> sip_api \<Rightarrow> bool \<Rightarrow> sip_options \<Rightarrow> (transport \<Rightarrow> string option \<times> 32 word \<times> bool \<Rightarrow> int) \<Rightarrow>
     (string \<times> (string \<Rightarrow> string option) \<times> reg_env) list \<Rightarrow> driver_config \<Rightarrow> sip_static \<Rightarrow> stack_state \<Rightarrow> hub \<Rightarrow> world \<Rightarrow>
     (transport \<times> bool) list \<times> sip_static \<times> stack_state \<times> hub \<times> world"
where
  "sip_start u api openssl opts listens secs drv st stk h w =
     (let st1 = sip_settings u opts (dc_sections drv ''sip'') st;
          (st2, stk1) = sip_contexts api openssl st1 stk;
          w1 = sip_start_stats st2 (w\<lparr>w_ts_count := unat (ss_count st2), w_out_context := ss_out st2\<rparr>);
          w2 = sip_construct_all u (w_ts_count w1) w1;
          (_, h1, w3) = Driver_start True True h w2;
          w4 = snd (sip_activate_all u (ss_expires st2) (ss_port st2) 0 secs w3)
      in (sip_listen api listens st2, st2\<lparr>ss_started := True\<rparr>, stk1, Driver_release_driver (Some drv) h1, w4))"

section \<open>Reload and stop\<close>

text \<open>The constructor of the driver, also run by \<open>create\<close> for each reload.\<close>

definition sip_new :: "sip_static \<Rightarrow> world \<Rightarrow> sip_static \<times> world" where
  "sip_new st w = (st\<lparr>ss_udp := None, ss_tcp := None, ss_tls := None, ss_out := None\<rparr>, w\<lparr>w_out_context := None\<rparr>)"

definition update_key :: "ucommon \<Rightarrow> string \<times> string \<Rightarrow> string option \<times> int option \<times> world \<Rightarrow> string option \<times> int option \<times> world" where
  "update_key u = (\<lambda>(k, v) (realm, timing, w).
     if u_eq u k ''timing'' then (realm, Some (strtol10 v), w)
     else if u_eq u k ''stepping'' then (realm, timing, w\<lparr>w_stepping := nat (strtol10 v mod 2 ^ 64)\<rparr>)
     else if u_eq u k ''realm'' then (Some v, timing, w)
     else (realm, timing, w))"

text \<open>
  \<open>update\<close>: the new realm, the timing of the background thread where it is set, and the
  stepping of scripts. The realm is forgotten where the section does not name one.
\<close>

definition sip_update :: "ucommon \<Rightarrow> driver_config \<Rightarrow> sip_static \<Rightarrow> world \<Rightarrow> sip_static \<times> int option \<times> world" where
  "sip_update u d st w =
     (let keys = first_of (dc_sections d ''sip'') (dc_sections d ''sips'');
          (realm, timing, w1) =
            (case keys of None \<Rightarrow> (None, None, w) | Some kvs \<Rightarrow> fold (update_key u) kvs (None, None, w))
      in (st\<lparr>ss_realm := realm\<rparr>, timing, w1))"

text \<open>A reload: the new driver is created, and committed, which updates the settings from it.\<close>

definition sip_reload :: "ucommon \<Rightarrow> driver_config \<Rightarrow> sip_static \<Rightarrow> hub \<Rightarrow> world \<Rightarrow> sip_static \<times> hub \<times> world" where
  "sip_reload u d st h w =
     (let h1 = Driver_reload u d h
      in if hb_active h = None then (st, h1, w)
         else let (st1, w1) = sip_new st w; (st2, _, w2) = sip_update u d st1 w1 in (st2, h1, w2))"

text \<open>
  \<open>stop\<close>: every registration is released, then the threads are ended and the contexts
  released, then the timeslots are told.
\<close>

definition sip_stop ::
    "ucommon \<Rightarrow> (nat \<Rightarrow> world \<Rightarrow> bool) \<Rightarrow> sip_api \<Rightarrow> sip_static \<Rightarrow> stack_state \<Rightarrow> hub \<Rightarrow> world \<Rightarrow>
     stack_state \<times> hub \<times> world"
where
  "sip_stop u stp api st stk h w =
     (let w1 = fold sip_release_reg (w_registrations w) w;
          stk1 = voip_release api (ss_tls st) (voip_release api (ss_udp st) (voip_release api (ss_tcp st) stk));
          (h1, w2) = Driver_stop (sip_vtable u stp) h w1
      in (stk1, h1, w2))"

section \<open>A started server is consistent\<close>

lemma sip_construct_all_effect:
  assumes "ucommon_ok u"
  shows "w_idle (sip_construct_all u n w) = rev [0..<n] @ w_idle w \<and>
    w_assigned (sip_construct_all u n w) = w_assigned w \<and> w_ts_count (sip_construct_all u n w) = w_ts_count w \<and>
    w_fault (sip_construct_all u n w) = w_fault w \<and> w_trace (sip_construct_all u n w) = w_trace w \<and>
    env_of (sip_construct_all u n w) = env_of w \<and>
    (\<forall>i < n. ts_handler (w_slots (sip_construct_all u n w) i) = IdleHandler \<and>
      mp_started (w_slots (sip_construct_all u n w) i) = 0)"
  using assms
  by (induction n) (auto simp: sip_construct_def Timeslot_construct_def construct_slot_def less_Suc_eq)

lemma sip_activate_frame:
  assumes "sip_activate u env r name keys ex port w = (err, w')"
  shows "w_slots w' = w_slots w" "w_idle w' = w_idle w" "w_assigned w' = w_assigned w" "w_ts_count w' = w_ts_count w"
    "w_fault w' = w_fault w" "w_clock w' = w_clock w" "mutex_depth j (w_trace w') = mutex_depth j (w_trace w)"
    "rg_fwd (w_regs w' q) = (if q = r then None else rg_fwd (w_regs w q))"
proof -
  have w': "w' = sip_registration u env r name keys ex port (upd_reg r (\<lambda>_. blank_registration) w)"
    using assms by (auto simp: sip_activate_def Let_def split: if_splits)
  have c: "w_slots (Registration_construct u r name keys sid v) = w_slots v"
    "w_idle (Registration_construct u r name keys sid v) = w_idle v"
    "w_assigned (Registration_construct u r name keys sid v) = w_assigned v"
    "w_ts_count (Registration_construct u r name keys sid v) = w_ts_count v"
    "w_fault (Registration_construct u r name keys sid v) = w_fault v"
    "w_clock (Registration_construct u r name keys sid v) = w_clock v"
    "w_trace (Registration_construct u r name keys sid v) = w_trace v"
    "q \<noteq> r \<Longrightarrow> w_regs (Registration_construct u r name keys sid v) q = w_regs v q" for sid v q
    by (simp_all add: Registration_construct_def Let_def split: prod.split)
  show "w_slots w' = w_slots w" "w_idle w' = w_idle w" "w_assigned w' = w_assigned w" "w_ts_count w' = w_ts_count w"
    "w_fault w' = w_fault w" "w_clock w' = w_clock w" "mutex_depth j (w_trace w') = mutex_depth j (w_trace w)"
    "rg_fwd (w_regs w' q) = (if q = r then None else rg_fwd (w_regs w q))"
    by (simp_all add: w' sip_registration_def Let_def c split: option.split prod.split)
qed

lemma sip_activate_all_ok:
  "server_ok w \<Longrightarrow> server_ok (snd (sip_activate_all u ex port r secs w))"
proof (induction secs arbitrary: r w)
  case (Cons sec secs)
  obtain name keys env where sec: "sec = (name, keys, env)" by (rule prod_cases3)
  obtain err w1 where a: "sip_activate u env r name keys ex port w = (err, w1)" by (rule prod.exhaust)
  note f = sip_activate_frame [OF a]
  have "server_ok w1" using Cons.prems f unfolding server_ok_def slots_ok_def by simp
  from Cons.IH [OF this, of "r + 1"] a sec show ?case by (simp add: Let_def case_prod_beta)
qed simp

lemma started_ok:
  assumes "ucommon_ok u" and "w_idle w = []" and "w_assigned w = (\<lambda>_. [])" and "w_trace w = []"
    and "w_clock w \<noteq> 0" and "\<And>r. rg_fwd (w_regs w r) = None" and "\<not> w_fault w" and "sta_used (w_sta w) = 0"
    and "sip_start u api openssl opts listens secs drv st stk h w = (ports, st', stk', h', w')"
    and "ss_registries st' \<noteq> - 1"
  shows "server_ok w'"
proof -
  let ?st1 = "sip_settings u opts (dc_sections drv ''sip'') st"
  obtain st2 stk1 where c: "sip_contexts api openssl ?st1 stk = (st2, stk1)" by (rule prod.exhaust)
  let ?w0 = "w\<lparr>w_ts_count := unat (ss_count st2), w_out_context := ss_out st2\<rparr>"
  let ?w1 = "sip_start_stats st2 ?w0"
  let ?w2 = "sip_construct_all u (w_ts_count ?w1) ?w1"
  have s: "st' = st2\<lparr>ss_started := True\<rparr>"
    and w': "w' = snd (sip_activate_all u (ss_expires st2) (ss_port st2) 0 secs (?w2\<lparr>w_dbi := dbi_start (w_dbi ?w2)\<rparr>))"
    using assms(9) c by (auto simp: sip_start_def Driver_start_def Let_def)
  have "ss_registries st2 + 1 \<noteq> 0" using assms(10) s by (simp add: eq_neg_iff_add_eq_0)
  then have "unat (ss_registries st2 + 1) \<noteq> 0" by (simp add: unat_eq_0)
  then have f: "\<exists>m k. ?w1 = ?w0\<lparr>w_sta := m, w_drv_stats := Some k\<rparr>"
    using assms(8) by (auto simp: sip_start_stats_def statmap_create_def Let_def)
  then have w1: "w_idle ?w1 = []" "w_assigned ?w1 = (\<lambda>_. [])" "w_trace ?w1 = []" "w_clock ?w1 = w_clock w"
    "w_regs ?w1 = w_regs w" "\<not> w_fault ?w1"
    using assms by auto
  note e = sip_construct_all_effect [OF assms(1), of "w_ts_count ?w1" ?w1]
  have env: "env_of ?w2 = env_of ?w1" using e by simp
  have "slots_ok ?w2"
    using e w1 by (auto simp: slots_ok_def slots_inv_def slot_at_def)
  moreover have "w_clock ?w2 = w_clock w" "w_regs ?w2 = w_regs w"
    using env_ofD [OF env] w1 by simp_all
  ultimately have "server_ok (?w2\<lparr>w_dbi := dbi_start (w_dbi ?w2)\<rparr>)"
    using e w1 assms(5,6) by (simp add: server_ok_def slots_ok_def)
  then show ?thesis unfolding w' by (rule sip_activate_all_ok)
qed

text \<open>
  A started server is consistent: whatever the settings, the command line, the registry and the
  answers of the SIP stack are, when \<open>start\<close> returns every timeslot is idle and on the idle list,
  no call is assigned, no registration is followed for ever and no mutex is held; so the invariant of
  the running server holds from the start.
\<close>

theorem sip_start_consistent:
  assumes "ucommon_ok u" and "w_idle w = []" and "w_assigned w = (\<lambda>_. [])" and "w_trace w = []"
    and "w_clock w \<noteq> 0" and "\<And>r. rg_fwd (w_regs w r) = None" and "\<not> w_fault w" and "sta_used (w_sta w) = 0"
    and "sip_start u api openssl opts listens secs drv st stk h w = (ports, st', stk', h', w')"
    and "ss_registries st' \<noteq> - 1"
  shows "server_ok w'"
  by (rule started_ok [OF assms])

text \<open>Memory before the server starts, and a start with default settings.\<close>

definition boot_world :: world where
  "boot_world = blank_world\<lparr>w_clock := 1000\<rparr>"

definition plain_options :: sip_options where
  "plain_options = \<lparr>so_ipv6 = False, so_port = None, so_realm = None, so_tcp = False, so_slots = Some 2\<rparr>"

definition empty_config :: driver_config where
  "empty_config = \<lparr>dc_sections = (\<lambda>_. None), dc_definitions = None, dc_images = [], dc_services = [], dc_log = []\<rparr>"

definition new_stack :: stack_state where
  "new_stack = \<lparr>st_made = 0, st_active = False, st_family6 = False, st_quit = []\<rparr>"

definition empty_hub :: hub where
  "empty_hub = \<lparr>hb_active = Some empty_config, hb_callbacks = [], hb_settings = \<lparr>sx_stacking = 0, sx_decimals = 0,
     sx_stepping = 0, sx_paging = 0, sx_sizing = 0, sx_indexing = 0\<rparr>, hb_fault = False, hb_trace = []\<rparr>"

definition booted :: "(transport \<times> bool) list \<times> sip_static \<times> stack_state \<times> hub \<times> world" where
  "booted = sip_start ucommon_ref API4 False plain_options (\<lambda>_ _. 0) [] empty_config (sip_defaults []) new_stack
     empty_hub boot_world"

theorem sip_start_consistent_witness: "server_ok (snd (snd (snd (snd booted))))"
proof -
  obtain ports st' stk' h' w' where b: "booted = (ports, st', stk', h', w')" by (rule prod_cases5)
  have "ss_registries st' = 40"
    using b by (auto simp: booted_def sip_start_def sip_settings_def sip_contexts_def empty_config_def sip_defaults_def
        plain_options_def Let_def split: prod.splits)
  then have "ss_registries st' \<noteq> - 1" by simp
  moreover have "w_idle boot_world = []" "w_assigned boot_world = (\<lambda>_. [])" "w_trace boot_world = []"
    "w_clock boot_world \<noteq> 0" "rg_fwd (w_regs boot_world r) = None" "\<not> w_fault boot_world"
    "sta_used (w_sta boot_world) = 0" for r
    by (simp_all add: boot_world_def blank_world_def blank_registration_def)
  ultimately show ?thesis
    using sip_start_consistent [OF ucommon_ref_ok, of boot_world] b unfolding booted_def by simp
qed

section \<open>After a reload\<close>

definition contexts_of :: "sip_static \<Rightarrow> contexts" where
  "contexts_of st = \<lparr>cx_out = ss_out st, cx_udp = ss_udp st, cx_tcp = ss_tcp st, cx_tls = ss_tls st\<rparr>"

lemma fst_case_None:
  "fst (case r of None \<Rightarrow> (None, b) | Some (addr, p, v6) \<Rightarrow> (None, f addr p v6)) = None"
  by (cases r) auto

lemma srv_route_no_context:
  assumes "cx_out cx = None" "cx_udp cx = None" "cx_tcp cx = None" "cx_tls cx = None"
  shows "fst (srv_route u is_numeric resolve cx sz uri0) = None"
proof -
  let ?T = "if u_eqn u uri0 ''sips:'' 5 then (''sips'', cx_tls cx, uri0)
    else if u_eqn u uri0 ''tcp:'' 4 then (''sip'', cx_tcp cx, drop 4 uri0)
    else if u_eqn u uri0 ''udp:'' 4 then (''sip'', cx_udp cx, drop 4 uri0)
    else (''sip'', cx_out cx, uri0)"
  obtain schema ctx uri where T: "?T = (schema, ctx, uri)" by (rule prod_cases3)
  then have "ctx = None" using assms by (auto split: if_splits)
  then show ?thesis
    unfolding srv_route_def T Let_def prod.case by (simp only: fst_case_None)
qed

text \<open>
  A reload loses the transports: creating the new driver clears the static contexts that the
  running threads go on using. From then on no uri has a route, so no registration can be made; a
  call whose registration has no context of its own gets none; and stopping the server releases none of
  them. The realm survives only if the new configuration names it.
\<close>

theorem sip_reload_drops_contexts:
  assumes "ucommon_ok u" and "hb_active h \<noteq> None"
  shows "case sip_reload u d st h w of (st', h', w') \<Rightarrow>
      fst (srv_route u is_numeric resolve (contexts_of st') sz uri) = None \<and>
      w_out_context w' = None \<and> fst (sip_stop u stp api st' stk h' w') = stk \<and>
      (first_of (dc_sections d ''sip'') (dc_sections d ''sips'') = None \<longrightarrow> ss_realm st' = None)"
proof -
  have f: "w_out_context (snd (snd (fold (update_key u) kvs (r, t, v)))) = w_out_context v" for kvs r t v
  proof (induction kvs arbitrary: r t v)
    case (Cons kv kvs)
    obtain r1 t1 v1 where k: "update_key u kv (r, t, v) = (r1, t1, v1)" by (rule prod_cases3)
    then have "w_out_context v1 = w_out_context v"
      by (auto simp: update_key_def split: prod.splits if_splits)
    with Cons k show ?case by simp
  qed simp
  obtain st' t w' where up: "sip_update u d (st\<lparr>ss_udp := None, ss_tcp := None, ss_tls := None, ss_out := None\<rparr>)
      (w\<lparr>w_out_context := None\<rparr>) = (st', t, w')" by (rule prod_cases3)
  have st': "ss_udp st' = None" "ss_tcp st' = None" "ss_tls st' = None" "ss_out st' = None"
    "first_of (dc_sections d ''sip'') (dc_sections d ''sips'') = None \<Longrightarrow> ss_realm st' = None"
    using up by (auto simp: sip_update_def Let_def split: prod.splits)
  have w': "w_out_context w' = None"
  proof (cases "first_of (dc_sections d ''sip'') (dc_sections d ''sips'')")
    case None
    with up show ?thesis by (auto simp: sip_update_def)
  next
    case (Some kvs)
    with up f [of kvs None None "w\<lparr>w_out_context := None\<rparr>"] show ?thesis
      by (auto simp: sip_update_def Let_def split: prod.splits)
  qed
  have r: "sip_reload u d st h w = (st', Driver_reload u d h, w')"
    using assms(2) up by (auto simp: sip_reload_def sip_new_def Let_def)
  have v: "voip_release api None k = k" for k by (cases api) (simp_all add: voip_release_def legacy_release_def)
  show ?thesis
    using st' w' by (simp add: r srv_route_no_context contexts_of_def sip_stop_def v Let_def split: prod.split)
qed

theorem sip_reload_drops_contexts_witness:
  "w_out_context (snd (snd (sip_reload ucommon_ref empty_config (sip_defaults []) empty_hub sip_server))) = None"
proof -
  obtain st' h' w' where r: "sip_reload ucommon_ref empty_config (sip_defaults []) empty_hub sip_server = (st', h', w')"
    by (rule prod_cases3)
  have "hb_active empty_hub \<noteq> None" by (simp add: empty_hub_def)
  from sip_reload_drops_contexts [OF ucommon_ref_ok this, where d = empty_config and st = "sip_defaults []" and w = sip_server]
  show ?thesis by (simp add: r)
qed

section \<open>Stopping\<close>

lemma shutdown_post:
  assumes "ucommon_ok u" and w': "w' = snd (Timeslot_post (sip_vtable u stp) i (EvSHUTDOWN, w))"
  shows "w_slots w' i = w_slots w i \<or> ts_handler (w_slots w i) \<noteq> ScriptHandler"
    and "ts_handler (w_slots w' i) = (if ts_handler (w_slots w i) = ScriptHandler then ScriptHandler else IdleHandler)"
    and "j \<noteq> i \<Longrightarrow> w_slots w' j = w_slots w j" and "w_idle w' = w_idle w" and "w_assigned w' = w_assigned w"
    and "w_sta w' = w_sta w" and "w_dbi w' = w_dbi w"
  using assms(1) unfolding w'
  by (cases "ts_handler (w_slots w i)";
      simp add: Timeslot_post_def run_handler_def Timeslot_idleHandler_def Timeslot_releaseHandler_def
        Timeslot_scriptHandler_def Timeslot_offlineHandler_def sip_vtable_def Timeslot_shutdown_def
        Timeslot_running_def Timeslot_setIdle_def idle_slot_def sip_disarm_def)+

lemma post_all_shutdown:
  assumes "ucommon_ok u" and vt: "vt = sip_vtable u stp"
  shows "(\<forall>j. (j < i \<or> i + n \<le> j \<or> ts_handler (w_slots w j) = ScriptHandler \<longrightarrow>
            w_slots (post_all vt EvSHUTDOWN n i w) j = w_slots w j) \<and>
          (i \<le> j \<and> j < i + n \<and> ts_handler (w_slots w j) \<noteq> ScriptHandler \<longrightarrow>
            ts_handler (w_slots (post_all vt EvSHUTDOWN n i w) j) = IdleHandler)) \<and>
    w_idle (post_all vt EvSHUTDOWN n i w) = w_idle w \<and> w_assigned (post_all vt EvSHUTDOWN n i w) = w_assigned w \<and>
    w_sta (post_all vt EvSHUTDOWN n i w) = w_sta w \<and> w_dbi (post_all vt EvSHUTDOWN n i w) = w_dbi w"
proof (induction n arbitrary: i w)
  case (Suc n)
  let ?w1 = "snd (Timeslot_post vt i (EvSHUTDOWN, w))"
  have w1: "?w1 = snd (Timeslot_post (sip_vtable u stp) i (EvSHUTDOWN, w))" by (simp add: vt)
  note p = shutdown_post [OF assms(1) w1]
  note ih = Suc.IH [of "i + 1" ?w1]
  have s: "w_slots (post_all vt EvSHUTDOWN (Suc n) i w) j = w_slots (post_all vt EvSHUTDOWN n (i + 1) ?w1) j" for j
    by simp
  have "(j < i \<or> i + Suc n \<le> j \<or> ts_handler (w_slots w j) = ScriptHandler \<longrightarrow>
            w_slots (post_all vt EvSHUTDOWN (Suc n) i w) j = w_slots w j) \<and>
        (i \<le> j \<and> j < i + Suc n \<and> ts_handler (w_slots w j) \<noteq> ScriptHandler \<longrightarrow>
            ts_handler (w_slots (post_all vt EvSHUTDOWN (Suc n) i w) j) = IdleHandler)" for j
  proof (cases "j = i")
    case True
    then have "w_slots (post_all vt EvSHUTDOWN (Suc n) i w) i = w_slots ?w1 i" using ih by (simp del: post_all.simps add: s)
    with True p(1,2) show ?thesis by auto
  next
    case False
    then have "w_slots ?w1 j = w_slots w j" by (rule p(3))
    then show ?thesis
      unfolding s using ih [THEN conjunct1, THEN spec, of j] False by auto
  qed
  moreover have "w_idle (post_all vt EvSHUTDOWN (Suc n) i w) = w_idle w"
    "w_assigned (post_all vt EvSHUTDOWN (Suc n) i w) = w_assigned w"
    "w_sta (post_all vt EvSHUTDOWN (Suc n) i w) = w_sta w" "w_dbi (post_all vt EvSHUTDOWN (Suc n) i w) = w_dbi w"
    using ih p(4-7) by simp_all
  ultimately show ?case by blast
qed auto

text \<open>
  C38. Stopping the server ends no call: a timeslot that runs a script refuses the shutdown and
  is left exactly as it is; every other timeslot is made idle, but without its call record being
  posted, its count released, or its place in the lists changed.
\<close>

theorem sip_stop_ends_no_call:
  assumes "ucommon_ok u" and "i < w_ts_count w"
  shows "case Driver_stop (sip_vtable u stp) h w of (h', w') \<Rightarrow>
      (if ts_handler (w_slots w i) = ScriptHandler then w_slots w' i = w_slots w i
       else ts_handler (w_slots w' i) = IdleHandler) \<and>
      w_idle w' = w_idle w \<and> w_assigned w' = w_assigned w \<and> w_sta w' = w_sta w \<and> w_dbi w' = dbi_stop (w_dbi w)"
  using post_all_shutdown [OF assms(1) refl, where stp = stp and n = "w_ts_count w" and i = 0 and w = w] assms(2)
  by (simp add: Driver_stop_def Let_def)

theorem sip_stop_ends_no_call_witness:
  "w_slots (snd (Driver_stop (sip_vtable ucommon_ref (\<lambda>_ _. True)) empty_hub
      (upd_slot 0 (\<lambda>s. s\<lparr>ts_handler := ScriptHandler\<rparr>) busy_world))) 0 =
   w_slots (upd_slot 0 (\<lambda>s. s\<lparr>ts_handler := ScriptHandler\<rparr>) busy_world) 0"
  using sip_stop_ends_no_call [OF ucommon_ref_ok, of 0 "upd_slot 0 (\<lambda>s. s\<lparr>ts_handler := ScriptHandler\<rparr>) busy_world"
      "\<lambda>_ _. True" empty_hub]
  by (simp split: prod.splits)


end
