(* ===== verification/Server.thy ===== *)
theory Server
  imports SipDriver
begin

text \<open>
  The control interface of the server: \<^verbatim>\<open>common/server.cpp\<close>, as built for a
  POSIX system. Requests are lines written to a named pipe; \<open>receive\<close> takes the reply
  target off the front of a line, \<open>dispatch\<close> acts on the rest, \<open>reply\<close> answers
  by a signal to the process that asked. Starting processes, changing users and loading modules
  are in \<open>Spawn\<close>, \<open>Startup\<close> and \<open>Setup\<close>.
\<close>

section \<open>Requests and replies\<close>

datatype control_effect = Signal "32 word" bool | ErrorLog string | Notice string | Level "32 word" | Concurrency "32 word"

text \<open>
  The state of the control loop. \<open>ct_target\<close> is \<open>replytarget\<close>; \<open>ct_driver\<close> is
  the local \<open>driver\<close> of \<open>dispatch\<close>, which keeps its value from one request to the
  next; \<open>ct_periodic\<close> is the time of the last statistics. There are two variables
  \<open>exit_code\<close>: the one of \<open>dispatch\<close> is \<open>ct_exit\<close>, that of the file, with
  which \<open>release\<close> ends the process, is \<open>ct_status\<close>.
\<close>

record control =
  ct_world :: world
  ct_hub :: hub
  ct_target :: "string option"
  ct_driver :: "driver_config option"
  ct_periodic :: int
  ct_exit :: nat
  ct_status :: nat
  ct_trace :: "control_effect list"

definition control_do :: "control_effect list \<Rightarrow> control \<Rightarrow> control" where
  "control_do es c = c\<lparr>ct_trace := ct_trace c @ es\<rparr>"

definition starts_digit :: "string \<Rightarrow> bool" where
  "starts_digit s = (case s of [] \<Rightarrow> False | x # _ \<Rightarrow> c_isdigit x)"

definition starts_slash :: "string \<Rightarrow> bool" where
  "starts_slash s = (case s of [] \<Rightarrow> False | x # _ \<Rightarrow> x = CHR ''/'')"

text \<open>
  One line: \<open>None\<close> where it is ignored, otherwise the reply target, if the line names one, and
  the command. A line ends with a newline, and \<open>strip\<close> overwrites what it removes from the end, so
  a line that is a target and nothing else has an empty command.
\<close>

definition parse_request :: "ucommon \<Rightarrow> string \<Rightarrow> (string option \<times> string) option" where
  "parse_request u line =
     (let cp = u_strip u line ('' '' @ [CHR 0x09, CHR 0x0D, CHR 0x0A])
      in if starts_slash cp \<and> (strstr cp ''..'' \<noteq> None \<or> \<not> u_eqn u cp ''/tmp/.reply.'' 12) then None
         else if starts_slash cp \<or> starts_digit cp
         then Some (Some (takeWhile (\<lambda>x. \<not> c_isspace x) cp), dropWhile c_isspace (dropWhile (\<lambda>x. \<not> c_isspace x) cp))
         else Some (None, cp))"

definition server_reply :: "string option \<Rightarrow> control \<Rightarrow> control" where
  "server_reply msg c =
     (let c1 = (case msg of None \<Rightarrow> c | Some m \<Rightarrow> control_do [ErrorLog (''control failed; '' @ m)] c)
      in case ct_target c1 of
           None \<Rightarrow> c1
         | Some t \<Rightarrow> (if starts_digit t then control_do [Signal (atoi t) (msg \<noteq> None)] c1 else c1)\<lparr>ct_target := None\<rparr>)"

text \<open>
  \<open>receive\<close> first answers the request before, if that was not done. At the end of the input it
  returns an empty command.
\<close>

fun receive_line :: "ucommon \<Rightarrow> string list \<Rightarrow> (string option \<times> string) \<times> string list" where
  "receive_line u [] = ((None, []), [])"
| "receive_line u (l # ls) = (case parse_request u l of None \<Rightarrow> receive_line u ls | Some r \<Rightarrow> (r, ls))"

definition server_receive :: "ucommon \<Rightarrow> string list \<Rightarrow> control \<Rightarrow> string \<times> string list \<times> control" where
  "server_receive u ls c =
     (let c1 = server_reply None c; ((target, cp), rest) = receive_line u ls
      in (cp, rest, case target of None \<Rightarrow> c1 | Some t \<Rightarrow> c1\<lparr>ct_target := Some t\<rparr>))"

section \<open>Commands\<close>

definition isTimeslot :: "string \<Rightarrow> bool" where
  "isTimeslot cp \<longleftrightarrow> cp \<noteq> [] \<and> list_all (\<lambda>x. c_isdigit x) cp"

text \<open>
  \<open>period\<close>: whether the statistics of a period were collected. \<open>now\<close> is the time;
  a period of zero minutes is a division by zero (\<open>None\<close>). The time of the last collection is not
  written by the function.
\<close>

definition server_period :: "bool \<Rightarrow> int \<Rightarrow> int \<Rightarrow> control \<Rightarrow> (bool \<times> control) option" where
  "server_period opens now slice0 c =
     (let slice = slice0 * 60
      in if slice = 0 then None
         else if now < (ct_periodic c div slice + 1) * slice then Some (False, c)
         else let (m, _) = sta_period opens (w_sta (ct_world c))
              in Some (True, c\<lparr>ct_world := (ct_world c)\<lparr>w_sta := m\<rparr>\<rparr>))"

text \<open>The report of \<open>snapshot\<close>; without an open file the code writes through a null pointer.\<close>

definition server_snapshot :: "bool \<Rightarrow> int \<Rightarrow> int \<Rightarrow> world \<Rightarrow> string option" where
  "server_snapshot opens now uptime w =
     (if opens
      then Some (''BAYONNE:'' @ [CHR 0x0A] @ ''  timeslots: '' @ show_nat (w_ts_count w) @ [CHR 0x0A] @
             ''  uptime:    '' @ show_int (now - uptime) @ [CHR 0x0A])
      else None)"

text \<open>
  What a driver brings along: the virtual methods of its timeslots, the \<open>release\<close> of its
  registrations, and \<open>Driver::reload\<close> with its own \<open>create\<close> and \<open>update\<close>.
\<close>

record driver_methods =
  dm_vt :: vtable
  dm_release :: "nat \<Rightarrow> world \<Rightarrow> world"
  dm_reload :: "driver_config \<Rightarrow> hub \<Rightarrow> world \<Rightarrow> hub \<times> world"

datatype outcome = Continue control | Quit control | Crash

definition invalid_argument :: "control \<Rightarrow> outcome" where
  "invalid_argument c = Continue (server_reply (Some ''missing or invalid argument'') c)"

text \<open>What is left to the driver: at \<open>error:\<close> the driver found last is released and the error is sent.\<close>

definition command_error :: "string option \<Rightarrow> control \<Rightarrow> outcome" where
  "command_error err c = Continue (server_reply err (c\<lparr>ct_hub := Driver_release_driver (ct_driver c) (ct_hub c)\<rparr>))"

definition driver_command ::
    "ucommon \<Rightarrow> driver_methods \<Rightarrow> string \<Rightarrow> string list \<Rightarrow> control \<Rightarrow> outcome"
where
  "driver_command u dm err argv c =
     (case Driver_active (ct_hub c) of
        (None, h1) \<Rightarrow> command_error (Some err) (c\<lparr>ct_hub := h1, ct_driver := None\<rparr>)
      | (Some d, h1) \<Rightarrow>
          (let (e, w1) = Driver_dispatch u (dm_release dm) argv (ct_world c)
           in command_error e (c\<lparr>ct_world := w1, ct_hub := h1, ct_driver := Some d\<rparr>)))"

definition post_command :: "vtable \<Rightarrow> event_id \<Rightarrow> string \<Rightarrow> control \<Rightarrow> outcome" where
  "post_command vt ev arg1 c =
     (case Driver_get (unat (atoi arg1)) (ct_world c) of
        None \<Rightarrow> Continue (server_reply (Some ''invalid timeslot'') c)
      | Some ts \<Rightarrow>
          (let (ev1, w1) = Timeslot_post vt ts (ev, ct_world c); c1 = c\<lparr>ct_world := w1\<rparr>
           in Continue (if ev1 = EvREJECT then server_reply (Some ''request rejected'') c1 else c1)))"

definition slot_event :: "ucommon \<Rightarrow> string \<Rightarrow> event_id option" where
  "slot_event u cmd =
     (if u_eq u cmd ''drop'' \<or> u_eq u cmd ''hangup'' then Some EvHANGUP
      else if u_eq u cmd ''enable'' then Some EvENABLE
      else if u_eq u cmd ''disable'' then Some EvDISABLE
      else None)"

definition slot_command ::
    "ucommon \<Rightarrow> driver_methods \<Rightarrow> event_id \<Rightarrow> string list \<Rightarrow> control \<Rightarrow> outcome"
where
  "slot_command u dm ev argv c =
     (if length argv \<noteq> 2 then invalid_argument c
      else if \<not> isTimeslot (arg argv 1) then driver_command u dm ''invalid timeslot'' argv c
      else post_command (dm_vt dm) ev (arg argv 1) c)"

text \<open>
  From the label \<open>timeslot:\<close> on. The form \<open>timeslot n command\<close> is turned into
  \<open>command n\<close> and goes back to the label.
\<close>

definition timeslot_command ::
    "ucommon \<Rightarrow> driver_methods \<Rightarrow> string list \<Rightarrow> control \<Rightarrow> outcome"
where
  "timeslot_command u dm argv c =
     (case slot_event u (arg argv 0) of
        Some ev \<Rightarrow> slot_command u dm ev argv c
      | None \<Rightarrow>
          if u_eq u (arg argv 0) ''timeslot''
          then (if length argv \<noteq> 3 then invalid_argument c
                else if \<not> isTimeslot (arg argv 1) then command_error (Some ''invalid timeslot'') c
                else case slot_event u (arg argv 2) of
                  Some ev \<Rightarrow> slot_command u dm ev [arg argv 2, arg argv 1] c
                | None \<Rightarrow> driver_command u dm ''unknown command'' argv c)
          else driver_command u dm ''unknown command'' argv c)"

definition board_command :: "(nat \<Rightarrow> world \<Rightarrow> string option \<times> world) \<Rightarrow> string list \<Rightarrow> control \<Rightarrow> outcome" where
  "board_command op argv c =
     (if length argv \<noteq> 2 then invalid_argument c
      else case Driver_getBoard (unat (atoi (arg argv 1))) (ct_world c) of
             None \<Rightarrow> Continue (server_reply (Some ''unknown board id'') c)
           | Some b \<Rightarrow>
               (let (err, w1) = op b (ct_world c); c1 = c\<lparr>ct_world := w1\<rparr>
                in Continue (if err = None then c1 else server_reply err c1)))"

text \<open>
  What the loop gets from outside for one request: the time, whether its files open, the new
  configuration of a reload.
\<close>

record control_env =
  ce_now :: int
  ce_uptime :: int
  ce_opens :: bool
  ce_fresh :: driver_config

definition command_words :: "ucommon \<Rightarrow> driver_methods \<Rightarrow> control_env \<Rightarrow> string list \<Rightarrow> control \<Rightarrow> outcome" where
  "command_words u dm ce argv c =
     (if argv = [] then Continue c
      else if u_eq u (arg argv 0) ''verbose''
      then (if length argv \<noteq> 2 then invalid_argument c else Continue (control_do [Level (atoi (arg argv 1))] c))
      else if u_eq u (arg argv 0) ''period''
      then (if length argv \<noteq> 2 then invalid_argument c
            else case server_period (ce_opens ce) (ce_now ce) (strtol10 (arg argv 1)) c of
                   None \<Rightarrow> Crash
                 | Some (True, c1) \<Rightarrow> Continue (control_do [Notice ''server period %s''] c1)
                 | Some (False, c1) \<Rightarrow> Continue c1)
      else if u_eq u (arg argv 0) ''concurrency''
      then (if length argv \<noteq> 2 then invalid_argument c else Continue (control_do [Concurrency (atoi (arg argv 1))] c))
      else if u_eq u (arg argv 0) ''suspend'' then board_command (Board_suspend (dm_vt dm)) argv c
      else if u_eq u (arg argv 0) ''resume'' then board_command (Board_resume (dm_vt dm)) argv c
      else timeslot_command u dm argv c)"

text \<open>One request. A reload logs what the constructor of the new configuration logs. The exit code that \<open>restart\<close> sets is a variable of the loop itself.\<close>

definition server_command :: "ucommon \<Rightarrow> driver_methods \<Rightarrow> control_env \<Rightarrow> string \<Rightarrow> control \<Rightarrow> outcome" where
  "server_command u dm ce cp c =
     (if u_eq u cp ''stop'' \<or> u_eq u cp ''down'' \<or> u_eq u cp ''exit'' then Quit c
      else if u_eq u cp ''reload''
      then (let c1 = control_do (Notice ''server reloading %s'' # map ErrorLog (dc_log (ce_fresh ce))) c;
                (h1, w1) = dm_reload dm (ce_fresh ce) (ct_hub c1) (ct_world c1)
            in if hb_fault h1 then Crash else Continue (c1\<lparr>ct_hub := h1, ct_world := w1\<rparr>))
      else if u_eq u cp ''check'' then Continue c
      else if u_eq u cp ''restart'' then Quit (c\<lparr>ct_exit := 6\<rparr>)
      else if u_eq u cp ''snapshot''
      then (case server_snapshot (ce_opens ce) (ce_now ce) (ce_uptime ce) (ct_world c) of
              None \<Rightarrow> Crash | Some _ \<Rightarrow> Continue c)
      else if u_eq u cp ''abort'' then Crash
      else command_words u dm ce (take 64 (u_tokens u cp ('' '' @ [CHR 0x09]) ''{}'')) c)"

text \<open>The loop over the requests that come in, one environment for each.\<close>

fun server_dispatch ::
    "ucommon \<Rightarrow> driver_methods \<Rightarrow> control_env list \<Rightarrow> string list \<Rightarrow> control \<Rightarrow> outcome"
where
  "server_dispatch u dm [] ls c = Continue c"
| "server_dispatch u dm (ce # ces) ls c =
     (let (cp, rest, c1) = server_receive u ls c
      in case server_command u dm ce cp c1 of
           Continue c2 \<Rightarrow> server_dispatch u dm ces rest c2
         | Quit c2 \<Rightarrow> Quit (control_do [Notice ''server shutdown, reason=%d %s''] c2)
         | Crash \<Rightarrow> Crash)"

end
