(* ===== verification/Setup.thy ===== *)
theory Setup
  imports Server
begin

text \<open>
  How the server sets itself up (\<open>common/server.cpp\<close>), as built for a POSIX system: the names of
  its files and directories, the level of logging, the modules it loads, its control pipe and the
  lines it writes to its log. The command line is in \<open>Options\<close>, the change of user and
  group in \<open>Startup\<close>.
\<close>

section \<open>The environment\<close>

text \<open>The directories that the build configures, and an entry of the password file.\<close>

record build_paths =
  bp_var :: string
  bp_cfg :: string
  bp_data :: string
  bp_lib :: string

record passwd =
  pw_name :: string
  pw_dir :: string
  pw_shell :: string

text \<open>\<open>env\<close> and \<open>set\<close>: the environment that a process starts with, and what it sets itself.\<close>

type_synonym environment = "string \<Rightarrow> string option"

fun set_env :: "(string \<times> string) list \<Rightarrow> environment \<Rightarrow> environment" where
  "set_env [] e = e"
| "set_env ((k, v) # kvs) e = set_env kvs (e(k \<mapsto> v))"

definition system_settings :: "build_paths \<Rightarrow> string \<Rightarrow> (string \<times> string) list" where
  "system_settings bp dname =
     [(''reply'', ''/tmp/.bayonne.''),
      (''users'', bp_cfg bp @ ''/bayonne/users.conf''),
      (''config'', bp_cfg bp @ ''/bayonne.conf''),
      (''configs'', bp_cfg bp @ ''/bayonne''),
      (''drivers'', bp_cfg bp @ ''/bayonne/'' @ dname @ ''.conf''),
      (''services'', bp_cfg bp @ ''/bayonne/scripts-enabled''),
      (''controls'', bp_var bp @ ''/run/bayonne''),
      (''control'', bp_var bp @ ''/run/bayonne/control''),
      (''snapshot'', bp_var bp @ ''/run/bayonne/snapshot''),
      (''boards'', bp_var bp @ ''/run/bayonne/boards''),
      (''spans'', bp_var bp @ ''/run/bayonne/spans''),
      (''logfiles'', bp_var bp @ ''/log''),
      (''logfile'', bp_var bp @ ''/log/bayonne.log''),
      (''calls'', bp_var bp @ ''/log/bayonne.calls''),
      (''stats'', bp_var bp @ ''/log/bayonne.stats''),
      (''prefix'', bp_var bp @ ''/lib/bayonne''),
      (''definitions'', bp_data bp @ ''/bayonne''),
      (''shell'', ''/bin/sh'')]"

definition user_settings :: "passwd \<Rightarrow> string \<Rightarrow> string \<Rightarrow> string \<Rightarrow> (string \<times> string) list" where
  "user_settings pw dname rundir home =
     [(''users'', pw_dir pw @ ''/.bayonne/users.conf''),
      (''config'', pw_dir pw @ ''/.bayonnerc''),
      (''configs'', home),
      (''drivers'', pw_dir pw @ ''/.bayonne/'' @ dname @ ''.conf''),
      (''services'', home @ ''/scripts-enabled''),
      (''controls'', rundir),
      (''control'', rundir @ ''/control''),
      (''snapshot'', rundir @ ''/snapshot''),
      (''boards'', rundir @ ''/boards''),
      (''spans'', rundir @ ''/spans''),
      (''logfiles'', rundir),
      (''logfile'', rundir @ ''/logfile''),
      (''definitions'', home @ ''/definitions''),
      (''calls'', rundir @ ''/calls''),
      (''stats'', rundir @ ''/stats''),
      (''prefix'', home),
      (''shell'', pw_shell pw)]"

record server_setup =
  su_env :: environment
  su_daemon :: bool
  su_prefix :: string
  su_rundir :: string
  su_plugins :: "string option"

text \<open>
  A user other than the superuser who can log in runs a server of his own. \<open>pw\<close> is his entry
  of the password file, if there is one; the flag \<open>daemon_flag\<close> is set to begin with.
\<close>

definition server_parse :: "ucommon \<Rightarrow> build_paths \<Rightarrow> string \<Rightarrow> nat \<Rightarrow> passwd option \<Rightarrow> environment \<Rightarrow> server_setup" where
  "server_parse u bp dname uid pw e0 =
     (let s0 = \<lparr>su_env = set_env (system_settings bp dname) e0, su_daemon = True,
                su_prefix = bp_var bp @ ''/lib/bayonne'', su_rundir = bp_var bp @ ''/run/bayonne'', su_plugins = None\<rparr>;
          s1 = (case pw of
                  None \<Rightarrow> s0
                | Some p \<Rightarrow>
                    if uid \<noteq> 0 \<and> starts_slash (pw_dir p)
                    then s0\<lparr>su_env := (su_env s0)(''prefix'' \<mapsto> pw_dir p),
                            su_daemon := u_eq u (pw_shell p) ''/bin/false'' \<or> u_eqn u (pw_dir p) ''/var/'' 5 \<or>
                              u_eqn u (pw_dir p) ''/srv/'' 5\<rparr>
                    else s0);
          s2 = (if uid = 0 then s1\<lparr>su_plugins := Some (bp_lib bp @ ''/bayonne'')\<rparr> else s1)
      in if su_daemon s2 then s2
         else case pw of
                None \<Rightarrow> s2
              | Some p \<Rightarrow>
                  (let rundir = ''/tmp/bayonne-'' @ pw_name p; home = pw_dir p @ ''/.bayonne''
                   in s2\<lparr>su_rundir := rundir, su_prefix := home,
                         su_env := set_env (user_settings p dname rundir home) (su_env s2)\<rparr>))"

section \<open>The level of logging\<close>

text \<open>The levels are those of the shell library; only their order matters.\<close>

record log_levels =
  lv_fail :: "32 word"
  lv_err :: "32 word"
  lv_warn :: "32 word"
  lv_notify :: "32 word"
  lv_info :: "32 word"
  lv_debug0 :: "32 word"

text \<open>
  \<open>verbose\<close> is the number of \<^verbatim>\<open>-v\<close> options, \<open>debuglevel\<close> the level of that option, if given; a
  name that is not known leaves \<open>verbose\<close> as it is.
\<close>

definition startup_level :: "ucommon \<Rightarrow> log_levels \<Rightarrow> 32 word option \<Rightarrow> string \<Rightarrow> 32 word option \<Rightarrow> 32 word" where
  "startup_level u lv verbose loglevel debuglevel =
     (let v = (case verbose of
                 Some n \<Rightarrow> n + lv_info lv
               | None \<Rightarrow>
                   if sint (atoi loglevel) > 0 then atoi loglevel
                   else if u_eq u loglevel ''0'' \<or> u_eqn u loglevel ''no'' 2 \<or> u_eqn u loglevel ''fail'' 4 then lv_fail lv
                   else if u_eqn u loglevel ''err'' 3 then lv_err lv
                   else if u_eqn u loglevel ''warn'' 4 then lv_warn lv
                   else if u_eqn u loglevel ''noti'' 4 then lv_notify lv
                   else if u_eq u loglevel ''info'' then lv_info lv
                   else if u_eqn u loglevel ''debug'' 5 then lv_debug0 lv + atoi (drop 5 loglevel)
                   else 0)
      in case debuglevel of None \<Rightarrow> v | Some d \<Rightarrow> lv_debug0 lv + d)"

section \<open>Modules\<close>

text \<open>
  The files tried for a list of modules. \<open>is_file\<close> tells which exist; a program that libtool has wrapped
  in the build tree looks there first.
\<close>

definition local_module :: "ucommon \<Rightarrow> string \<Rightarrow> string \<Rightarrow> string option" where
  "local_module u argv0 m =
     (let path = u_set u 256 argv0
      in case strstr path ''.libs'' of
           None \<Rightarrow> None
         | Some ep \<Rightarrow>
             (let base = take (length path - length ep) path
              in Some (base @ fit (256 - length base) (''../modules/.libs/'' @ m @ ''.so''))))"

definition module_path :: "ucommon \<Rightarrow> (string \<Rightarrow> bool) \<Rightarrow> build_paths \<Rightarrow> string \<Rightarrow> string \<Rightarrow> string" where
  "module_path u is_file bp argv0 m =
     (case local_module u argv0 m of
        Some p \<Rightarrow> if is_file p then p else fit 256 (bp_lib bp @ ''/bayonne/'' @ m @ ''.so'')
      | None \<Rightarrow> fit 256 (bp_lib bp @ ''/bayonne/'' @ m @ ''.so''))"

text \<open>The directory that \<open>auto\<close> searches, and the modules in it (\<open>eq_case\<close> ignores case).\<close>

definition auto_directory :: "ucommon \<Rightarrow> build_paths \<Rightarrow> string \<Rightarrow> string" where
  "auto_directory u bp argv0 =
     (let path = u_set u 256 argv0
      in case strstr path ''.libs'' of
           Some ep \<Rightarrow>
             (let base = take (length path - length ep) path
              in base @ u_set u (256 - length base) ''../modules/.libs'')
         | None \<Rightarrow> u_set u 256 (bp_lib bp @ ''/bayonne''))"

definition auto_modules ::
    "ucommon \<Rightarrow> (string \<Rightarrow> string \<Rightarrow> bool) \<Rightarrow> build_paths \<Rightarrow> string \<Rightarrow> (string \<Rightarrow> string list) \<Rightarrow> string list"
where
  "auto_modules u eq_case bp argv0 files =
     (let path = auto_directory u bp argv0
      in map (\<lambda>f. path @ fit (256 - length path) (''/'' @ f))
           (filter (\<lambda>f. case strrchr f (CHR ''.'') of None \<Rightarrow> False | Some ep \<Rightarrow> eq_case ep ''.so'') (files path)))"

definition server_load ::
    "ucommon \<Rightarrow> (string \<Rightarrow> string \<Rightarrow> bool) \<Rightarrow> (string \<Rightarrow> bool) \<Rightarrow> (string \<Rightarrow> string list) \<Rightarrow> build_paths \<Rightarrow> string \<Rightarrow> string \<Rightarrow>
     string list"
where
  "server_load u eq_case is_file files bp argv0 names =
     (if names = [] \<or> u_eq u names ''none'' then []
      else if u_eq u names ''auto'' then auto_modules u eq_case bp argv0 files
      else map (module_path u is_file bp argv0)
             (u_tokens u (u_set u 256 names) ('', ;:'' @ [CHR 0x0D, CHR 0x0A]) []))"

section \<open>The control pipe\<close>

text \<open>\<open>attach\<close> makes the pipe (\<open>fifos\<close> tells whether that works); \<open>cleanup\<close> removes it and the pid file beside it.\<close>

definition server_attach :: "ucommon \<Rightarrow> (string \<Rightarrow> bool) \<Rightarrow> environment \<Rightarrow> string option" where
  "server_attach u fifos e =
     (case e ''control'' of
        None \<Rightarrow> None
      | Some p \<Rightarrow> (let path = u_set u 128 p in if fifos path then Some path else None))"

definition server_cleanup :: "ucommon \<Rightarrow> string \<Rightarrow> string list" where
  "server_cleanup u path =
     (if path = [] then []
      else case strrchr path (CHR ''/'') of
             None \<Rightarrow> [path]
           | Some cp \<Rightarrow> [path, take (length path - length cp) path @ u_set u 10 ''/pidfile''])"

text \<open>The file of \<open>snapshot\<close>: the one that is configured, or one for the process that asked.\<close>

definition snapshot_file :: "ucommon \<Rightarrow> environment \<Rightarrow> nat \<Rightarrow> string" where
  "snapshot_file u e pid =
     (if pid > 0 then fit 256 (''/tmp/.bayonne.'' @ show_nat pid)
      else u_set u 256 (case e ''snapshot'' of None \<Rightarrow> [] | Some p \<Rightarrow> p))"

section \<open>The log\<close>

text \<open>
  A line for the log: at most 1022 characters of the text are formatted into a buffer of 1024. A newline that
  is missing is put where the text ended, over the terminating NUL. \<open>rest\<close> is what the
  memory behind that place holds from before; what is written goes up to the next NUL in it.
\<close>

definition printlog_line :: "string \<Rightarrow> string \<Rightarrow> string" where
  "printlog_line text rest =
     (let t = fit 1023 text
      in if t \<noteq> [] \<and> last t = CHR 0x0A then t
         else t @ [CHR 0x0A] @ takeWhile (\<lambda>c. c \<noteq> CHR 0x00) rest)"

text \<open>\<open>server::control\<close> counts what it writes and is not affected.\<close>

definition control_line :: "string \<Rightarrow> string" where
  "control_line text =
     (let t = fit 511 text in if t \<noteq> [] \<and> last t = CHR 0x0A then t else t @ [CHR 0x0A])"

section \<open>The thread that waits for signals\<close>

datatype signo = SIGALRM | SIGINT | SIGTERM | SIGUSR1 | SIGHUP | OTHER_SIGNAL

definition signal_request :: "signo \<Rightarrow> string option" where
  "signal_request s =
     (case s of
        SIGALRM \<Rightarrow> Some ''timer''
      | SIGINT \<Rightarrow> Some ''down''
      | SIGTERM \<Rightarrow> Some ''down''
      | SIGUSR1 \<Rightarrow> Some ''snapshot''
      | SIGHUP \<Rightarrow> Some ''reload''
      | OTHER_SIGNAL \<Rightarrow> None)"

text \<open>
  The loop of \<open>psignals::run\<close>: each signal with whether \<open>cancel\<close> has set \<open>shutdown\<close> by then; the result is
  the lines it writes to the control pipe. \<open>SIGALRM\<close> also comes when nothing else does for 900 seconds.
\<close>

fun psignals_run :: "(signo \<times> bool) list \<Rightarrow> string list" where
  "psignals_run [] = []"
| "psignals_run ((s, stopped) # ss) =
     (if stopped then []
      else (case signal_request s of None \<Rightarrow> [] | Some r \<Rightarrow> [control_line r]) @ psignals_run ss)"

end
