(* ===== verification/Control.thy ===== *)
theory Control
  imports Server
begin

text \<open>
  The control utility (\<open>utils/baycontrol.cpp\<close>), as built for a POSIX system: which request each
  command line sends, what the answer of the server makes of it, and the reports that are read from
  the shared memory of the server.
\<close>

section \<open>Effects and surroundings\<close>

text \<open>What a run of the tool does: text for the two outputs, a line for the pipe, a file removed.\<close>

datatype tool_effect = Out string | Err string | Written string | Removed string

text \<open>The signal that ends the wait for an answer.\<close>

datatype tool_signal = SigUSR1 | SigUSR2 | SigALRM

text \<open>
  The process and its surroundings: its number, the user's name, which of the two control pipes can be
  opened, whether all of a line is written, the signal that comes, the files (by path), the shared
  maps of statistics and timeslots, the time, and the version the tool was built as.
\<close>

record tool_env =
  tl_pid :: nat
  tl_user :: string
  tl_control :: bool
  tl_private :: bool
  tl_writes :: bool
  tl_signal :: tool_signal
  tl_files :: "string \<Rightarrow> string option"
  tl_stats :: "statmap list"
  tl_slots :: "slot list"
  tl_now :: int
  tl_version :: string

text \<open>The end of a run: its exit status and its effects.\<close>

type_synonym tool_run = "int \<times> tool_effect list"

definition tool_error :: "int \<Rightarrow> string \<Rightarrow> tool_run" where
  "tool_error code msg = (code, [Err (''*** bayonne: '' @ msg)])"

section \<open>Files\<close>

text \<open>
  \<open>fgets(buffer, size, fp)\<close> on what is left of a file: the text it stores, what is left then,
  and whether it met the end of the file. \<open>None\<close> at the end.
\<close>

fun fgets_run :: "nat \<Rightarrow> string \<Rightarrow> string \<times> string \<times> bool" where
  "fgets_run 0 s = ([], s, False)"
| "fgets_run (Suc n) [] = ([], [], True)"
| "fgets_run (Suc n) (c # cs) =
     (if c = CHR 0x0A then ([c], cs, False)
      else let (a, rest, eof) = fgets_run n cs in (c # a, rest, eof))"

lemma fgets_run_shorter: "fgets_run n s = (a, rest, eof) \<Longrightarrow> length rest + length a = length s"
  by (induction n s arbitrary: a rest eof rule: fgets_run.induct) (auto split: if_splits prod.splits)

lemma fgets_run_less: "(a, rest, eof) = fgets_run n s \<Longrightarrow> a \<noteq> [] \<Longrightarrow> length rest < length s"
  using fgets_run_shorter [of n s a rest eof] by (cases a) auto

text \<open>\<open>while(fgets(...)) fputs(buffer)\<close> and \<open>while(fgets(...) && !feof(fp)) puts(buffer)\<close>.\<close>

function copy_lines :: "nat \<Rightarrow> string \<Rightarrow> tool_effect list" where
  "copy_lines sz s =
     (case fgets_run (sz - 1) s of
        (a, rest, eof) \<Rightarrow> if a = [] then [] else Out a # copy_lines sz rest)"
  by pat_completeness auto
termination
  by (relation "measure (\<lambda>(sz, s). length s)") (auto dest: fgets_run_less)

function put_lines :: "nat \<Rightarrow> string \<Rightarrow> tool_effect list" where
  "put_lines sz s =
     (case fgets_run (sz - 1) s of
        (a, rest, eof) \<Rightarrow> if a = [] \<or> eof then [] else Out (a @ [CHR 0x0A]) # put_lines sz rest)"
  by pat_completeness auto
termination
  by (relation "measure (\<lambda>(sz, s). length s)") (auto dest: fgets_run_less)

declare copy_lines.simps [simp del] put_lines.simps [simp del]

text \<open>\<open>fopen(path, mode)\<close> for reading: a mode that does not begin with \<open>r\<close> opens nothing here.\<close>

definition fopen_read :: "tool_env \<Rightarrow> string \<Rightarrow> string \<Rightarrow> string option" where
  "fopen_read te path mode = (case mode of [] \<Rightarrow> None | m # _ \<Rightarrow> if m = CHR ''r'' then tl_files te path else None)"

definition tool_capture :: "tool_env \<Rightarrow> tool_effect list" where
  "tool_capture te =
     (let path = ''/tmp/.bayonne.'' @ show_nat (tl_pid te)
      in Removed path # (case fopen_read te path ''r'' of None \<Rightarrow> [] | Some s \<Rightarrow> copy_lines 512 s))"

text \<open>
  \<open>runfiles\<close>: the name of the command stands where \<open>fopen\<close> takes the mode, and the \<^verbatim>\<open>%s\<close> of the path stays
  as it is. \<open>var\<close> is the directory that the build configures.
\<close>

definition tool_runfiles :: "string \<Rightarrow> string list \<Rightarrow> tool_env \<Rightarrow> tool_run" where
  "tool_runfiles var argv te =
     (if length argv > 1 then tool_error (- 1) (arg argv 0 @ '': no arguments'')
      else let fp = fopen_read te (var @ ''/run/bayonne/%s'') (arg argv 0);
               fp1 = (if fp = None
                      then fopen_read te (fit 256 (''/tmp/bayonne-'' @ tl_user te @ ''/'' @ arg argv 0)) ''r''
                      else fp)
           in case fp1 of None \<Rightarrow> (0, [Out (''none'' @ [CHR 0x0A])]) | Some s \<Rightarrow> (0, put_lines 256 s))"

section \<open>Requests\<close>

text \<open>The pipes that are tried, the one of the system's server first.\<close>

definition tool_pipes :: "string \<Rightarrow> string \<Rightarrow> string list" where
  "tool_pipes var user = [var @ ''/run/bayonne/control'', fit 512 (''/tmp/bayonne-'' @ user @ ''/control'')]"

text \<open>The buffer of 512 characters: each word is appended with a space before it.\<close>

definition add_word :: "string \<Rightarrow> string \<Rightarrow> string" where
  "add_word buf w = buf @ fit (512 - length buf - 1) ('' '' @ w)"

definition request_text :: "nat option \<Rightarrow> string list \<Rightarrow> string" where
  "request_text pid argv = foldl add_word (case pid of None \<Rightarrow> [] | Some p \<Rightarrow> show_nat p) argv @ [CHR 0x0A]"

definition tool_command :: "string list \<Rightarrow> nat \<Rightarrow> tool_env \<Rightarrow> tool_run" where
  "tool_command argv timeout te =
     (if \<not> tl_control te \<and> \<not> tl_private te then tool_error 2 ''driver offline''
      else let line = request_text (if timeout \<noteq> 0 then Some (tl_pid te) else None) argv
           in if \<not> tl_writes te then (4, [Written line, Err ''*** bayonne: control failed''])
              else if timeout = 0 then (0, [Written line])
              else case tl_signal te of
                     SigUSR1 \<Rightarrow> (0, Written line # tool_capture te)
                   | SigALRM \<Rightarrow> (1, [Written line, Err ''*** bayonne: driver timed out''])
                   | SigUSR2 \<Rightarrow> (3, [Written line, Err ''*** bayonne: request failed'']))"

definition tool_single :: "string list \<Rightarrow> nat \<Rightarrow> tool_env \<Rightarrow> tool_run" where
  "tool_single argv timeout te =
     (if length argv > 1 then tool_error (- 1) (arg argv 0 @ '': too many arguments'') else tool_command argv timeout te)"

text \<open>\<open>resource\<close>, \<open>level\<close> and \<open>period\<close> differ in what they complain of.\<close>

definition tool_one_arg :: "string \<Rightarrow> string \<Rightarrow> string list \<Rightarrow> nat \<Rightarrow> tool_env \<Rightarrow> tool_run" where
  "tool_one_arg missing many argv timeout te =
     (if length argv < 2 then tool_error (- 1) (arg argv 0 @ missing)
      else if length argv > 2 then tool_error (- 1) (arg argv 0 @ many)
      else tool_command argv timeout te)"

definition tool_resource :: "string list \<Rightarrow> nat \<Rightarrow> tool_env \<Rightarrow> tool_run" where
  "tool_resource = tool_one_arg '': resource missing'' '': only one resource''"

definition tool_level :: "string list \<Rightarrow> nat \<Rightarrow> tool_env \<Rightarrow> tool_run" where
  "tool_level = tool_one_arg '': level missing'' '': too many arguments''"

definition tool_period :: "string list \<Rightarrow> tool_env \<Rightarrow> tool_run" where
  "tool_period argv = tool_one_arg '': interval missing'' '': too many arguments'' argv 10"

section \<open>Reports from the shared memory\<close>

definition newline :: string where
  "newline = [CHR 0x0A]"

definition stat_label :: "statmap \<Rightarrow> string" where
  "stat_label s = fit 80
     (let ts = pad_zero 5 (show_nat (unat (sm_timeslots s)))
      in case sm_type s of
           BOARD \<Rightarrow> ''board/'' @ pad_right 6 (sm_id s) @ '' '' @ ts
         | SPAN \<Rightarrow> ''span/'' @ pad_right 7 (sm_id s) @ '' '' @ ts
         | REGISTRY \<Rightarrow>
             if sm_timeslots s \<noteq> 0 then ''net/'' @ pad_right 8 (sm_id s) @ '' '' @ ts
             else ''net/'' @ pad_right 8 (sm_id s) @ '' -    ''
         | _ \<Rightarrow> pad_right 12 ''system'' @ '' '' @ ts)"

definition add_field :: "string \<Rightarrow> string \<Rightarrow> string" where
  "add_field text f = text @ fit (80 - length text) f"

definition pstats_field :: "stat_entry \<Rightarrow> string" where
  "pstats_field e = '' '' @ pad_zero 7 (show_nat (unat (st_pperiod e))) @ '' '' @
     pad_zero 5 (show_nat (unat (st_min e))) @ '' '' @ pad_zero 5 (show_nat (unat (st_max e)))"

definition pstats_line :: "statmap \<Rightarrow> string" where
  "pstats_line s = add_field (add_field (stat_label s) (pstats_field (sm_stats s INCOMING)))
     (pstats_field (sm_stats s OUTGOING))"

definition stats_field :: "stat_entry \<Rightarrow> string" where
  "stats_field e = '' '' @ pad_zero 9 (show_nat (unat (st_total e))) @ '' '' @
     pad_zero 5 (show_nat (unat (st_current e))) @ '' '' @ pad_zero 5 (show_nat (unat (st_peak e)))"

text \<open>How long ago the last call ended: a number and its unit.\<close>

definition stats_age :: "int \<Rightarrow> statmap \<Rightarrow> string" where
  "stats_age now s =
     (if statmap_active s \<noteq> 0 then ''0s''
      else if sm_lastcall s = 0 then ''-''
      else let age = now - sm_lastcall s
           in if age > 3600 * 99 then show_int (age div (3600 * 24)) @ ''d''
              else if age > 60 * 120 then show_int (age div 3600) @ ''h''
              else if age > 120 then show_int (age div 60) @ ''m''
              else show_int age @ ''s'')"

definition stats_line :: "int \<Rightarrow> statmap \<Rightarrow> string" where
  "stats_line now s = add_field (add_field (stat_label s) (stats_field (sm_stats s INCOMING)))
     (stats_field (sm_stats s OUTGOING)) @ '' '' @ stats_age now s"

text \<open>Both reports go through the nodes up to the first that is not used.\<close>

definition used_nodes :: "statmap list \<Rightarrow> statmap list" where
  "used_nodes ns = takeWhile (\<lambda>s. sm_type s \<noteq> UNUSED) ns"

definition tool_pstats :: "string list \<Rightarrow> tool_env \<Rightarrow> tool_run" where
  "tool_pstats argv te =
     (if length argv > 1 then tool_error (- 1) ''pstats: no arguments used''
      else if tl_stats te = [] then tool_error (- 1) ''driver offline''
      else (0, map (\<lambda>s. Out (pstats_line s @ newline)) (used_nodes (tl_stats te))))"

definition tool_stats :: "string list \<Rightarrow> tool_env \<Rightarrow> tool_run" where
  "tool_stats argv te =
     (if length argv > 1 then tool_error (- 1) ''stats: no arguments used''
      else if tl_stats te = [] then tool_error (- 1) ''driver offline''
      else (0, map (\<lambda>s. Out (stats_line (tl_now te) s @ newline)) (used_nodes (tl_stats te))))"

definition pad_left :: "nat \<Rightarrow> string \<Rightarrow> string" where
  "pad_left n s = replicate (n - length s) (CHR '' '') @ s"

text \<open>The lines of \<open>timeslots\<close>, from timeslot \<open>index\<close> on, and the number of those listed.\<close>

fun timeslot_lines :: "nat \<Rightarrow> slot list \<Rightarrow> string list" where
  "timeslot_lines index [] = []"
| "timeslot_lines index (s # ss) =
     (if mp_started s \<noteq> 0
      then (pad_left 4 (show_nat index) @ '' '' @ pad_right 12 (drop 1 (mp_state s)) @ '' '' @ mp_source s @ newline)
             # timeslot_lines (index + 1) ss
      else timeslot_lines (index + 1) ss)"

definition tool_timeslots :: "string list \<Rightarrow> tool_env \<Rightarrow> tool_run" where
  "tool_timeslots argv te =
     (if length argv > 1 then tool_error (- 1) ''timeslots: no arguments''
      else if tl_slots te = [] then tool_error (- 1) ''driver offline''
      else let ls = timeslot_lines 0 (tl_slots te)
           in (0, map Out ls @ [Out (show_nat (length ls) @ '' of '' @ show_nat (length (tl_slots te)) @
                 '' timeslots active'' @ newline)]))"

definition state_char :: "slot \<Rightarrow> char" where
  "state_char s = (case mp_state s of [] \<Rightarrow> CHR 0x00 | c # _ \<Rightarrow> c)"

definition tool_status :: "string list \<Rightarrow> tool_env \<Rightarrow> tool_run" where
  "tool_status argv te =
     (if length argv > 1 then tool_error (- 1) ''status: no arguments''
      else if tl_slots te = [] then tool_error (- 1) ''driver offline''
      else (0, [Out (map state_char (tl_slots te)), Out newline]))"

section \<open>The command line\<close>

definition is_one_of :: "ucommon \<Rightarrow> string \<Rightarrow> string list \<Rightarrow> bool" where
  "is_one_of u cmd names \<longleftrightarrow> list_ex (u_eq u cmd) names"

definition version_lines :: "string \<Rightarrow> string list" where
  "version_lines ver =
     [''Bayonne '' @ ver,
      ''Copyright (C) 2008,2009 David Sugar, Tycho Softworks'',
      ''License GPLv3+: GNU GPL version 3 or later <http://gnu.org/licenses/gpl.html>'',
      ''This is free software: you are free to change and redistribute it.'',
      ''There is NO WARRANTY, to the extent permitted by law.'']"

definition version_text :: "string \<Rightarrow> string" where
  "version_text ver = concat (map (\<lambda>l. l @ newline) (version_lines ver))"

definition usage_lines :: "string list" where
  "usage_lines =
     [''usage: bayonne command'',
      ''Commands:'',
      ''  abort                   Driver forced abort'',
      ''  boards                  Dump board configuration'',
      ''  check                   Driver deadlock check'',
      ''  concurrency <level>     Driver concurrency level'',
      ''  disable <resource>      Disable a timeslot or span'',
      ''  down                    Shut down server'',
      ''  enable <resource>       Enable a disabled timeslot or span'',
      ''  hangup <resource>       Hangup an active timeslot or span'',
      ''  history                 Dump recent errlog history records'',
      ''  period <interval>       Collect periodic statistics'',
      ''  pstats                  Dump periodic statistics'',
      ''  release <registry>      Release registration entry'',
      ''  reload                  Reload configuration'',
      ''  restart                 Driver daemon restart'',
      ''  resume <board>          Resume suspended board'',
      ''  snapshot                Driver snapshot'',
      ''  spans                   Dump span configuration'',
      ''  stats                   Dump server statistics'',
      ''  suspend <board>         Suspend an active board'',
      ''  verbose <level>         Driver loggin verbose level'']"

definition usage_text :: string where
  "usage_text = concat (map (\<lambda>l. l @ newline) usage_lines)"

text \<open>\<open>argv\<close> are the words behind the name of the program.\<close>

definition baycontrol :: "ucommon \<Rightarrow> string \<Rightarrow> string list \<Rightarrow> tool_env \<Rightarrow> tool_run" where
  "baycontrol u var argv te =
     (let cmd = arg argv 0; is = is_one_of u cmd
      in if argv = [] then (0, [Out usage_text])
         else if is [''version'', ''-version'', ''--version''] then (0, [Out (version_text (tl_version te))])
         else if is [''help'', ''-help'', ''--help''] then (0, [Out usage_text])
         else if is [''boards'', ''spans''] then tool_runfiles var argv te
         else if is [''reload'', ''check'', ''snapshot'', ''suspend'', ''resume''] then tool_single argv 30 te
         else if is [''history''] then (if length argv = 1 then tool_single argv 30 te else tool_level argv 10 te)
         else if is [''down'', ''restart'', ''abort''] then tool_single argv 0 te
         else if is [''verbose'', ''concurrency''] then tool_level argv 10 te
         else if is [''enable'', ''disable'', ''drop'', ''hangup''] then tool_resource argv 10 te
         else if is [''status''] then tool_status argv te
         else if is [''timeslots''] then tool_timeslots argv te
         else if is [''stats''] then tool_stats argv te
         else if is [''period''] then tool_period argv te
         else if is [''pstats''] then tool_pstats argv te
         else tool_error 1 (cmd @ '': unknown command or option''))"

end
