(* ===== verification/ServerProps.thy ===== *)
theory ServerProps
  imports Server
begin

text \<open>
  Properties of the control loop: every request is answered once, only those that asked are
  answered, the server stays consistent under any sequence of requests, and what the loop gets wrong.
\<close>

section \<open>Every request is answered once\<close>

fun signals :: "control_effect list \<Rightarrow> (32 word \<times> bool) list" where
  "signals [] = []"
| "signals (Signal p b # es) = (p, b) # signals es"
| "signals (_ # es) = signals es"

fun error_logs :: "control_effect list \<Rightarrow> string list" where
  "error_logs [] = []"
| "error_logs (ErrorLog m # es) = m # error_logs es"
| "error_logs (_ # es) = error_logs es"

lemma signals_append [simp]: "signals (a @ b) = signals a @ signals b"
  by (induction a rule: signals.induct) simp_all

lemma error_logs_append [simp]: "error_logs (a @ b) = error_logs a @ error_logs b"
  by (induction a rule: error_logs.induct) simp_all

text \<open>
  What is wrong with a request, in the words of the answer; \<open>None\<close> if nothing is. This is the table a user of
  the control pipe needs: each command with its arguments, and when it is refused. What
  the timeslots and boards themselves say depends on the driver.
\<close>

definition wrong_arguments :: "string option" where
  "wrong_arguments = Some ''missing or invalid argument''"

definition driver_refusal :: "string \<Rightarrow> string list \<Rightarrow> control \<Rightarrow> string option" where
  "driver_refusal err argv c =
     (if hb_active (ct_hub c) = None then Some err
      else if arg argv 0 = ''release''
      then if arg argv 1 \<in> (\<lambda>r. rg_id (w_regs (ct_world c) r)) ` set (w_registrations (ct_world c)) then None
           else Some ''unknown resource''
      else if arg argv 0 \<in> set [''drop'', ''hangup'', ''enable'', ''disable''] then Some ''unknown resource''
      else Some ''unknown command'')"

definition verb_event :: "string \<Rightarrow> event_id" where
  "verb_event verb = (if verb = ''enable'' then EvENABLE else if verb = ''disable'' then EvDISABLE else EvHANGUP)"

definition slot_refusal :: "vtable \<Rightarrow> string \<Rightarrow> string \<Rightarrow> control \<Rightarrow> string option" where
  "slot_refusal vt verb n c =
     (let i = unat (atoi n)
      in if \<not> isTimeslot n then driver_refusal ''invalid timeslot'' [verb, n] c
         else if w_ts_count (ct_world c) \<le> i then Some ''invalid timeslot''
         else if fst (Timeslot_post vt i (verb_event verb, ct_world c)) = EvREJECT then Some ''request rejected''
         else None)"

definition board_refusal :: "(nat \<Rightarrow> world \<Rightarrow> string option \<times> world) \<Rightarrow> string \<Rightarrow> control \<Rightarrow> string option" where
  "board_refusal op n c =
     (if unat (atoi n) < w_board_count (ct_world c) then fst (op (unat (atoi n)) (ct_world c)) else Some ''unknown board id'')"

definition words_refused :: "driver_methods \<Rightarrow> string list \<Rightarrow> control \<Rightarrow> string option" where
  "words_refused dm argv c =
     (case argv of
        [] \<Rightarrow> None
      | verb # args \<Rightarrow>
          if verb \<in> set [''verbose'', ''period'', ''concurrency''] then (if length args = 1 then None else wrong_arguments)
          else if verb = ''suspend''
          then (case args of [b] \<Rightarrow> board_refusal (Board_suspend (dm_vt dm)) b c | _ \<Rightarrow> wrong_arguments)
          else if verb = ''resume''
          then (case args of [b] \<Rightarrow> board_refusal (Board_resume (dm_vt dm)) b c | _ \<Rightarrow> wrong_arguments)
          else if verb \<in> set [''drop'', ''hangup'', ''enable'', ''disable'']
          then (case args of [n] \<Rightarrow> slot_refusal (dm_vt dm) verb n c | _ \<Rightarrow> wrong_arguments)
          else if verb = ''timeslot''
          then (case args of
                  [n, v] \<Rightarrow>
                    if \<not> isTimeslot n then Some ''invalid timeslot''
                    else if v \<in> set [''drop'', ''hangup'', ''enable'', ''disable''] then slot_refusal (dm_vt dm) v n c
                    else driver_refusal ''unknown command'' argv c
                | _ \<Rightarrow> wrong_arguments)
          else driver_refusal ''unknown command'' argv c)"

definition request_refused :: "ucommon \<Rightarrow> driver_methods \<Rightarrow> string \<Rightarrow> control \<Rightarrow> string option" where
  "request_refused u dm cp c =
     (if cp \<in> set [''reload'', ''check'', ''snapshot''] then None
      else words_refused dm (take 64 (u_tokens u cp ('' '' @ [CHR 0x09]) ''{}'')) c)"

lemma refused_target [simp]:
  "driver_refusal err argv (c\<lparr>ct_target := t\<rparr>) = driver_refusal err argv c"
  "slot_refusal vt verb n (c\<lparr>ct_target := t\<rparr>) = slot_refusal vt verb n c"
  "board_refusal op n (c\<lparr>ct_target := t\<rparr>) = board_refusal op n c"
  by (simp_all add: slot_refusal_def board_refusal_def driver_refusal_def Let_def)

lemma request_refused_target [simp]:
  "words_refused dm argv (c\<lparr>ct_target := t\<rparr>) = words_refused dm argv c"
  "request_refused u dm cp (c\<lparr>ct_target := t\<rparr>) = request_refused u dm cp c"
  by (simp_all add: request_refused_def words_refused_def cong: list.case_cong if_cong)

text \<open>Steps that answer nothing but log some errors, and outcomes that answer at most once, at their end.\<close>

definition silent :: "string list \<Rightarrow> control \<Rightarrow> control \<Rightarrow> bool" where
  "silent ls c x \<longleftrightarrow> ct_target x = ct_target c \<and> signals (ct_trace x) = signals (ct_trace c) \<and>
     error_logs (ct_trace x) = error_logs (ct_trace c) @ ls"

definition answers_once :: "string list \<Rightarrow> string option \<Rightarrow> control \<Rightarrow> outcome \<Rightarrow> bool" where
  "answers_once ls msg c out \<longleftrightarrow> (case out of
      Continue c' \<Rightarrow> msg = None \<and> silent ls c c' \<or> (\<exists>x. silent ls c x \<and> c' = server_reply msg x)
    | _ \<Rightarrow> True)"

lemma answers_silent: "silent ls c c' \<Longrightarrow> answers_once ls None c (Continue c')"
  by (simp add: answers_once_def)

lemma answers_reply: "silent ls c x \<Longrightarrow> answers_once ls msg c (Continue (server_reply msg x))"
  by (auto simp: answers_once_def)

lemma answers_error: "silent ls c x \<Longrightarrow> answers_once ls err c (command_error err x)"
  unfolding command_error_def by (rule answers_reply) (simp add: silent_def)

lemma answers_invalid: "answers_once [] wrong_arguments c (invalid_argument c)"
  unfolding invalid_argument_def wrong_arguments_def by (rule answers_reply) (simp add: silent_def)

lemma find_registration_some:
  "ucommon_ok u \<Longrightarrow> (\<exists>r. find_registration u w name rs = Some r) \<longleftrightarrow> name \<in> (\<lambda>r. rg_id (w_regs w r)) ` set rs"
  by (induction rs) auto

lemma dispatch_refusal:
  assumes "ucommon_ok u" and "hb_active (ct_hub c) \<noteq> None"
  shows "fst (Driver_dispatch u rel argv (ct_world c)) = driver_refusal err argv c"
  using assms find_registration_some [OF assms(1), of "ct_world c" "arg argv 1" "w_registrations (ct_world c)"]
  by (auto simp: Driver_dispatch_def driver_refusal_def split: option.split)

lemma answers_driver:
  assumes "ucommon_ok u"
  shows "answers_once [] (driver_refusal err argv c) c (driver_command u dm err argv c)"
proof (cases "hb_active (ct_hub c)")
  case None
  then have "driver_refusal err argv c = Some err" by (simp add: driver_refusal_def)
  with None show ?thesis
    by (auto simp: driver_command_def Driver_active_def silent_def hub_do_def Let_def intro!: answers_error)
next
  case (Some d)
  obtain e w1 where e: "Driver_dispatch u (dm_release dm) argv (ct_world c) = (e, w1)" by (rule prod.exhaust)
  with dispatch_refusal [OF assms, of c "dm_release dm" argv err] Some have "driver_refusal err argv c = e" by simp
  with Some e show ?thesis
    by (auto simp: driver_command_def Driver_active_def silent_def hub_do_def Let_def intro!: answers_error)
qed

lemma slot_event_verb:
  assumes "ucommon_ok u"
  shows "slot_event u verb = (if verb \<in> set [''drop'', ''hangup'', ''enable'', ''disable''] then Some (verb_event verb) else None)"
  using assms by (auto simp: slot_event_def verb_event_def)

lemma answers_post:
  assumes "isTimeslot n"
  shows "answers_once [] (slot_refusal vt verb n c) c (post_command vt (verb_event verb) n c)"
proof -
  have e: "answers_once [] m c (Continue (server_reply m (c\<lparr>ct_world := w\<rparr>)))" "answers_once [] m c (Continue (server_reply m c))"
    "answers_once [] None c (Continue (c\<lparr>ct_world := w\<rparr>))" for m w
    by (rule answers_reply answers_silent, simp add: silent_def)+
  show ?thesis
    using assms by (simp add: post_command_def slot_refusal_def Driver_get_def e Let_def split: prod.split)
qed

lemma answers_slot:
  assumes "ucommon_ok u"
  shows "answers_once [] (slot_refusal (dm_vt dm) verb n c) c (slot_command u dm (verb_event verb) [verb, n] c)"
  using answers_driver [OF assms, where err = "''invalid timeslot''" and argv = "[verb, n]" and c = c and dm = dm]
    answers_post [where n = n and vt = "dm_vt dm" and verb = verb and c = c]
  by (simp add: slot_command_def slot_refusal_def arg_def)

lemma slot_wrong: "length argv \<noteq> 2 \<Longrightarrow> slot_command u dm ev argv c = invalid_argument c"
  by (simp add: slot_command_def)

lemma answers_board: "length argv = 2 \<Longrightarrow> answers_once [] (board_refusal op (arg argv 1) c) c (board_command op argv c)"
proof -
  assume n: "length argv = 2"
  have e: "answers_once [] m c (Continue (server_reply m (c\<lparr>ct_world := w\<rparr>)))" "answers_once [] m c (Continue (server_reply m c))"
    "answers_once [] None c (Continue (c\<lparr>ct_world := w\<rparr>))" for m w
    by (rule answers_reply answers_silent, simp add: silent_def)+
  show ?thesis
    using n by (simp add: board_command_def board_refusal_def Driver_getBoard_def e Let_def split: prod.split)
qed

lemma board_wrong: "length argv \<noteq> 2 \<Longrightarrow> board_command op argv c = invalid_argument c"
  by (simp add: board_command_def)

lemma period_silent: "server_period opens now n c = Some (b, c') \<Longrightarrow> silent [] c c'"
  by (auto simp: server_period_def silent_def Let_def split: if_splits prod.splits)

lemma answers_timeslot:
  assumes u: "ucommon_ok u" and v: "verb \<notin> set [''verbose'', ''period'', ''concurrency'', ''suspend'', ''resume'']"
  shows "answers_once [] (words_refused dm (verb # args) c) c (timeslot_command u dm (verb # args) c)"
proof (cases "verb \<in> set [''drop'', ''hangup'', ''enable'', ''disable'']")
  case slot: True
  then have t: "timeslot_command u dm (verb # args) c = slot_command u dm (verb_event verb) (verb # args) c"
    by (simp add: timeslot_command_def slot_event_verb [OF u] arg_def)
  show ?thesis
  proof (cases "\<exists>n. args = [n]")
    case True
    then obtain n where "args = [n]" ..
    with t slot v answers_slot [OF u, of dm verb n c] show ?thesis by (auto simp: words_refused_def)
  next
    case False
    then have w: "words_refused dm (verb # args) c = wrong_arguments" and "length (verb # args) \<noteq> 2"
      using slot by (auto simp: words_refused_def length_Suc_conv split: list.split)
    then show ?thesis using t slot_wrong [of "verb # args"] answers_invalid [of c] by simp
  qed
next
  case other: False
  then have n: "slot_event u verb = None" by (simp only: slot_event_verb [OF u] if_False)
  show ?thesis
  proof (cases "verb = ''timeslot''")
    case False
    have "timeslot_command u dm (verb # args) c = driver_command u dm ''unknown command'' (verb # args) c"
      using False n u by (simp add: timeslot_command_def arg_def)
    moreover have "words_refused dm (verb # args) c = driver_refusal ''unknown command'' (verb # args) c"
      using False other v by (simp add: words_refused_def)
    ultimately show ?thesis using answers_driver [OF u] by simp
  next
    case True
    show ?thesis
    proof (cases "\<exists>a b. args = [a, b]")
      case False
      then have w: "words_refused dm (verb # args) c = wrong_arguments" and l: "length (verb # args) \<noteq> 3"
        using True by (auto simp: words_refused_def length_Suc_conv numeral_3_eq_3 split: list.split)
      then have "timeslot_command u dm (verb # args) c = invalid_argument c"
        using True n u by (simp add: timeslot_command_def arg_def)
      with w show ?thesis using answers_invalid [of c] by simp
    next
      case two: True
      then obtain a b where args: "args = [a, b]" by blast
      have r: "words_refused dm (verb # args) c = (if \<not> isTimeslot a then Some ''invalid timeslot''
          else if b \<in> set [''drop'', ''hangup'', ''enable'', ''disable''] then slot_refusal (dm_vt dm) b a c
          else driver_refusal ''unknown command'' (verb # args) c)"
        using True args by (simp add: words_refused_def)
      have t: "timeslot_command u dm (verb # args) c = (if \<not> isTimeslot a then command_error (Some ''invalid timeslot'') c
          else if b \<in> set [''drop'', ''hangup'', ''enable'', ''disable''] then slot_command u dm (verb_event b) [b, a] c
          else driver_command u dm ''unknown command'' (verb # args) c)"
        using True args n u by (simp add: timeslot_command_def slot_event_verb [OF u] arg_def)
      show ?thesis
        unfolding r t using answers_slot [OF u] answers_driver [OF u] answers_error [of "[]" c c] by (simp add: silent_def)
    qed
  qed
qed

lemma answers_words:
  assumes u: "ucommon_ok u"
  shows "answers_once [] (words_refused dm argv c) c (command_words u dm ce argv c)"
proof (cases argv)
  case Nil
  then show ?thesis using answers_silent [of "[]" c c] by (simp add: words_refused_def command_words_def silent_def)
next
  case (Cons verb args)
  have one: "length argv = 2 \<longleftrightarrow> length args = 1" using Cons by simp
  have inv: "length args \<noteq> 1 \<Longrightarrow> answers_once [] wrong_arguments c (invalid_argument c)" by (rule answers_invalid)
  have n: "silent [] c x \<Longrightarrow> silent [] c (control_do [Notice s] x)" for x s
    by (simp add: silent_def control_do_def)
  have p: "answers_once [] None c (case server_period (ce_opens ce) (ce_now ce) k c of None \<Rightarrow> Crash
      | Some (True, c1) \<Rightarrow> Continue (control_do [Notice s] c1) | Some (False, c1) \<Rightarrow> Continue c1)" for k s
    using period_silent [of "ce_opens ce" "ce_now ce" k c]
    by (auto simp: answers_once_def split: option.split bool.split intro: n)
  have l: "answers_once [] None c (Continue (control_do [Level v] c))" "answers_once [] None c (Continue (control_do [Concurrency v] c))" for v
    by (rule answers_silent, simp add: silent_def control_do_def)+
  have b: "answers_once [] (case args of [x] \<Rightarrow> board_refusal op x c | _ \<Rightarrow> wrong_arguments) c (board_command op argv c)" for op
  proof (cases "\<exists>x. args = [x]")
    case True
    with answers_board [of argv op c] Cons show ?thesis by (auto simp: arg_def)
  next
    case False
    then have "length argv \<noteq> 2" "(case args of [x] \<Rightarrow> board_refusal op x c | _ \<Rightarrow> wrong_arguments) = wrong_arguments"
      using Cons by (auto simp: length_Suc_conv split: list.split)
    then show ?thesis using answers_invalid [of c] board_wrong by simp
  qed
  note cw = command_words_def Cons arg_def
  consider "verb = ''verbose''" | "verb = ''period''" | "verb = ''concurrency''" | "verb = ''suspend''" | "verb = ''resume''"
    | "verb \<notin> set [''verbose'', ''period'', ''concurrency'', ''suspend'', ''resume'']" by auto
  then show ?thesis
  proof cases
    case 1
    with u l answers_invalid [of c] show ?thesis by (simp add: cw words_refused_def)
  next
    case 2
    with u p answers_invalid [of c] show ?thesis by (simp add: cw words_refused_def)
  next
    case 3
    with u l answers_invalid [of c] show ?thesis by (simp add: cw words_refused_def)
  next
    case 4
    with u b [unfolded Cons] show ?thesis by (simp add: cw words_refused_def)
  next
    case 5
    with u b [unfolded Cons] show ?thesis by (simp add: cw words_refused_def)
  next
    case 6
    with u have "command_words u dm ce argv c = timeslot_command u dm argv c" by (simp add: cw)
    with answers_timeslot [OF u 6] Cons show ?thesis by simp
  qed
qed

lemma error_logs_map [simp]: "error_logs (map ErrorLog ls) = ls" "signals (map ErrorLog ls) = []"
  by (induction ls) simp_all

definition reload_logs :: "control_env \<Rightarrow> string \<Rightarrow> string list" where
  "reload_logs ce cp = (if cp = ''reload'' then dc_log (ce_fresh ce) else [])"

lemma answers_command:
  assumes u: "ucommon_ok u"
  shows "answers_once (reload_logs ce cp) (request_refused u dm cp c) c (server_command u dm ce cp c)"
proof -
  have s: "answers_once [] None c (Continue c)" "answers_once ls m c (Quit c)" "answers_once ls m c (Quit (c\<lparr>ct_exit := 6\<rparr>))"
    "answers_once ls m c Crash" for ls m
    by (simp_all add: answers_once_def silent_def)
  have r: "answers_once ls None c (let c1 = control_do (Notice t # map ErrorLog ls) c; (h1, w1) = f (ct_hub c1) (ct_world c1)
      in if hb_fault h1 then Crash else Continue (c1\<lparr>ct_hub := h1, ct_world := w1\<rparr>))" for ls t f
    by (auto simp: s Let_def control_do_def silent_def split: prod.split intro!: answers_silent)
  have w: "cp \<notin> {''stop'', ''down'', ''exit'', ''reload'', ''check'', ''restart'', ''snapshot'', ''abort''} \<Longrightarrow>
      answers_once (reload_logs ce cp) (request_refused u dm cp c) c (server_command u dm ce cp c)"
    using answers_words [OF u, of dm "take 64 (u_tokens u cp ('' '' @ [CHR 0x09]) ''{}'')" c ce] u
    by (simp add: server_command_def reload_logs_def request_refused_def)
  show ?thesis
  proof (cases "cp \<in> {''stop'', ''down'', ''exit'', ''reload'', ''check'', ''restart'', ''snapshot'', ''abort''}")
    case True
    then show ?thesis
      using u s r [where f = "dm_reload dm (ce_fresh ce)" and t = "''server reloading %s''" and ls = "dc_log (ce_fresh ce)"]
      by (auto simp: server_command_def reload_logs_def request_refused_def split: option.split)
  qed (rule w)
qed

lemma quit_command:
  assumes u: "ucommon_ok u" and q: "server_command u dm ce cp c = Quit c'"
  shows "cp \<in> {''stop'', ''down'', ''exit'', ''restart''} \<and> ct_trace c' = ct_trace c \<and> ct_target c' = ct_target c"
proof -
  have d: "driver_command u dm err argv c \<noteq> Quit c'" for err argv
    by (auto simp: driver_command_def command_error_def split: prod.split option.split)
  have p: "post_command vt ev n c \<noteq> Quit c'" for vt ev n
    by (auto simp: post_command_def Let_def split: prod.split option.split)
  have s: "slot_command u dm ev argv c \<noteq> Quit c'" for ev argv
    using d p by (simp add: slot_command_def invalid_argument_def)
  have t: "timeslot_command u dm argv c \<noteq> Quit c'" for argv
    using d s by (simp add: timeslot_command_def invalid_argument_def command_error_def split: option.split)
  have b: "board_command op argv c \<noteq> Quit c'" for op argv
    by (auto simp: board_command_def invalid_argument_def Let_def split: prod.split option.split)
  have "command_words u dm ce argv c \<noteq> Quit c'" for argv
    using b t by (simp add: command_words_def invalid_argument_def split: option.split prod.split bool.split)
  with u q show ?thesis by (auto simp: server_command_def Let_def split: if_splits prod.splits option.splits)
qed

lemma answered_once:
  assumes "ucommon_ok u" and "ct_target c = Some t" and "starts_digit t" and "server_command u dm ce cp c = Continue c'"
  shows "signals (ct_trace (server_reply None c')) = signals (ct_trace c) @ [(atoi t, request_refused u dm cp c \<noteq> None)]"
    "ct_target (server_reply None c') = None"
    "error_logs (ct_trace c') = error_logs (ct_trace c) @ reload_logs ce cp @
      (case request_refused u dm cp c of None \<Rightarrow> [] | Some m \<Rightarrow> [''control failed; '' @ m])"
proof -
  from answers_command [OF assms(1), of ce cp dm c] assms(4)
  consider "silent (reload_logs ce cp) c c'" "request_refused u dm cp c = None"
    | x where "silent (reload_logs ce cp) c x" "c' = server_reply (request_refused u dm cp c) x"
    by (auto simp: answers_once_def)
  then have "signals (ct_trace (server_reply None c')) = signals (ct_trace c) @ [(atoi t, request_refused u dm cp c \<noteq> None)] \<and>
    ct_target (server_reply None c') = None \<and> error_logs (ct_trace c') = error_logs (ct_trace c) @ reload_logs ce cp @
      (case request_refused u dm cp c of None \<Rightarrow> [] | Some m \<Rightarrow> [''control failed; '' @ m])"
  proof cases
    case 1
    with assms(2,3) show ?thesis by (auto simp: silent_def server_reply_def control_do_def Let_def)
  next
    case 2
    with assms(2,3) show ?thesis
      by (cases "request_refused u dm cp c") (auto simp: silent_def server_reply_def control_do_def Let_def)
  qed
  then show "signals (ct_trace (server_reply None c')) = signals (ct_trace c) @ [(atoi t, request_refused u dm cp c \<noteq> None)]"
    "ct_target (server_reply None c') = None"
    "error_logs (ct_trace c') = error_logs (ct_trace c) @ reload_logs ce cp @
      (case request_refused u dm cp c of None \<Rightarrow> [] | Some m \<Rightarrow> [''control failed; '' @ m])" by blast+
qed

text \<open>
  C24. What a process that asks for something is told. Where the server goes on, it is sent exactly one signal
  before the next request is looked at, and the signal says failure exactly when the request is refused by the table
  above; a refusal is logged once, in the same words. The requests that end the server, \<^verbatim>\<open>stop\<close>, \<^verbatim>\<open>down\<close>, \<^verbatim>\<open>exit\<close> and
  \<^verbatim>\<open>restart\<close>, are sent no signal at all. A reload is always answered as a success: what the compiler finds
  wrong with the scripts is logged as errors, and told to nobody.
\<close>

theorem server_answers_once:
  assumes "ucommon_ok u" and "ct_target c = Some t" and "starts_digit t"
  shows "case server_command u dm ce cp c of
      Continue c' \<Rightarrow>
        signals (ct_trace (server_reply None c')) = signals (ct_trace c) @ [(atoi t, request_refused u dm cp c \<noteq> None)] \<and>
        ct_target (server_reply None c') = None \<and>
        error_logs (ct_trace c') = error_logs (ct_trace c) @ (if cp = ''reload'' then dc_log (ce_fresh ce) else []) @
          (case request_refused u dm cp c of None \<Rightarrow> [] | Some m \<Rightarrow> [''control failed; '' @ m])
    | Quit c' \<Rightarrow> cp \<in> set [''stop'', ''down'', ''exit'', ''restart''] \<and> ct_trace c' = ct_trace c \<and> ct_target c' = Some t
    | Crash \<Rightarrow> True"
proof (cases "server_command u dm ce cp c")
  case (Continue c')
  from answered_once [OF assms this] Continue show ?thesis by (simp add: reload_logs_def)
next
  case (Quit c')
  from quit_command [OF assms(1) this] Quit assms(2) show ?thesis by simp
qed simp


definition request_env :: control_env where
  "request_env = \<lparr>ce_now = 2000, ce_uptime = 1000, ce_opens = True, ce_fresh = empty_config\<rparr>"

definition sip_methods :: "ucommon \<Rightarrow> (nat \<Rightarrow> world \<Rightarrow> bool) \<Rightarrow> driver_methods" where
  "sip_methods u stp = \<lparr>dm_vt = sip_vtable u stp, dm_release = sip_release_reg,
     dm_reload = (\<lambda>d h w. snd (sip_reload u d (sip_defaults []) h w))\<rparr>"

definition idle_control :: control where
  "idle_control = \<lparr>ct_world = sip_server, ct_hub = empty_hub, ct_target = None, ct_driver = None,
     ct_periodic = 1000, ct_exit = 0, ct_status = 0, ct_trace = []\<rparr>"

theorem server_answers_once_witness:
  "signals (ct_trace (server_reply None (idle_control\<lparr>ct_target := Some ''77''\<rparr>))) = [(atoi ''77'', False)]"
proof -
  let ?c = "idle_control\<lparr>ct_target := Some ''77''\<rparr>"
  have "server_command ucommon_ref (sip_methods ucommon_ref (\<lambda>_ _. True)) request_env ''check'' ?c = Continue ?c"
    by (simp add: server_command_def)
  with server_answers_once [OF ucommon_ref_ok, where c = ?c and t = "''77''" and dm = "sip_methods ucommon_ref (\<lambda>_ _. True)"
      and ce = request_env and cp = "''check''"]
  show ?thesis by (simp add: starts_digit_def c_isdigit_def idle_control_def request_refused_def)
qed

section \<open>Who is answered\<close>

lemma prefix_takeWhile: "prefix p s \<Longrightarrow> \<forall>x \<in> set p. P x \<Longrightarrow> prefix p (takeWhile P s)"
  by (auto simp: prefix_def takeWhile_append)

lemma strstr_None: "strstr s pat = None \<Longrightarrow> s \<noteq> a @ pat @ b"
proof (induction s arbitrary: a)
  case Nil
  then show ?case by (auto split: if_splits)
next
  case (Cons x s)
  show ?case
  proof (cases a)
    case Nil
    with Cons.prems show ?thesis by (auto simp: prefix_def split: if_splits)
  next
    case (Cons y a')
    with Cons.IH [of a'] Cons.prems show ?thesis by (auto split: if_splits)
  qed
qed

text \<open>
  C26. A request can have its answer sent to a process, by its number, or to a file of
  \<^verbatim>\<open>/tmp\<close> named by the prefix of replies and with no way up the directory tree; a
  line that names any other file is not executed at all.
\<close>

theorem server_reply_target_safe:
  assumes "ucommon_ok u" and "parse_request u line = Some (Some t, cmd)"
  shows "starts_digit t \<or> prefix ''/tmp/.reply.'' t \<and> (\<forall>a b. t \<noteq> a @ ''..'' @ b)"
proof -
  let ?cp = "strip_chars line ('' '' @ [CHR 0x09, CHR 0x0D, CHR 0x0A])"
  let ?P = "\<lambda>x. \<not> c_isspace x"
  have t: "t = takeWhile ?P ?cp" and s: "starts_slash ?cp \<or> starts_digit ?cp"
    and ok: "starts_slash ?cp \<Longrightarrow> strstr ?cp ''..'' = None \<and> take 12 ?cp = take 12 ''/tmp/.reply.''"
    using assms by (auto simp: parse_request_def Let_def split: if_splits)
  show ?thesis
  proof (cases "starts_slash ?cp")
    case False
    with s obtain x xs where x: "?cp = x # xs" "c_isdigit x"
      by (auto simp: starts_digit_def split: list.splits)
    with c_isdigit_not_special [OF x(2)] t have "starts_digit t" by (simp add: starts_digit_def)
    then show ?thesis ..
  next
    case True
    with ok have n: "strstr ?cp ''..'' = None" and p: "take 12 ?cp = ''/tmp/.reply.''" by simp_all
    have "prefix ''/tmp/.reply.'' ?cp" unfolding p [symmetric] by (rule take_is_prefix)
    then have "prefix ''/tmp/.reply.'' t"
      unfolding t by (rule prefix_takeWhile) (simp add: c_isspace_def)
    moreover have "t \<noteq> a @ ''..'' @ b" for a b
      using strstr_None [OF n, of a "b @ dropWhile ?P ?cp"] takeWhile_dropWhile_id [of ?P ?cp] t
      by (metis append.assoc)
    ultimately show ?thesis by blast
  qed
qed

theorem server_reply_target_safe_witness:
  "\<exists>t cmd. parse_request ucommon_ref ''77 check'' = Some (Some t, cmd) \<and> starts_digit t"
proof -
  have p: "parse_request ucommon_ref ''77 check'' = Some (Some ''77'', ''check'')"
    by (simp add: parse_request_def strip_chars_def starts_slash_def starts_digit_def c_isdigit_def c_isspace_def
        ucommon_ref_def Let_def)
  from server_reply_target_safe [OF ucommon_ref_ok p] p show ?thesis by (auto simp: prefix_def)
qed

section \<open>Timeslot numbers\<close>

text \<open>
  The number of a timeslot in a command is read as a 32-bit integer: a number of at most 18
  digits names the timeslot that it is modulo \<open>2 ^ 32\<close>, so a number that is too large hits
  a timeslot that was not meant where it should be refused.
\<close>

theorem server_timeslot_number_wraps:
  assumes "isTimeslot s" and "digits_value 0 s < 10 ^ 18"
  shows "post_command vt ev s c =
    (let n = digits_value 0 s mod 2 ^ 32
     in if n < w_ts_count (ct_world c)
        then (let (ev1, w1) = Timeslot_post vt n (ev, ct_world c); c1 = c\<lparr>ct_world := w1\<rparr>
              in Continue (if ev1 = EvREJECT then server_reply (Some ''request rejected'') c1 else c1))
        else Continue (server_reply (Some ''invalid timeslot'') c))"
proof -
  have "list_all c_isdigit s" "s \<noteq> []" using assms(1) by (simp_all add: isTimeslot_def)
  then have "atoi s = of_nat (digits_value 0 s)"
    using assms(2) by (simp add: atoi_def strtol10_digits)
  then have "unat (atoi s) = digits_value 0 s mod 2 ^ 32"
    by (simp add: unsigned_of_nat take_bit_eq_mod)
  then show ?thesis by (simp add: post_command_def Driver_get_def Let_def)
qed

theorem server_timeslot_number_wraps_witness:
  "post_command (sip_vtable ucommon_ref (\<lambda>_ _. True)) EvHANGUP ''4294967298'' idle_control =
   Continue (server_reply (Some ''invalid timeslot'') idle_control)"
  using server_timeslot_number_wraps [of "''4294967298''" "sip_vtable ucommon_ref (\<lambda>_ _. True)" EvHANGUP idle_control]
  by (simp add: isTimeslot_def c_isdigit_def digit_value_def idle_control_def sip_server_def Let_def)

section \<open>Faults of the loop\<close>

text \<open>
  The statistics are collected anew by every later request, however short a time after: the time of
  the last collection, against which the period is measured, never moves.
\<close>

theorem server_period_never_advances:
  assumes "server_period opens now n c = Some (True, c1)" and "now \<le> now'"
  shows "\<exists>c2. server_period opens' now' n c1 = Some (True, c2)"
  using assms by (auto simp: server_period_def Let_def split: if_splits prod.splits)

theorem server_period_never_advances_witness:
  "\<exists>c1 c2. server_period True 2000 1 idle_control = Some (True, c1) \<and> server_period True 2000 1 c1 = Some (True, c2)"
proof -
  have "\<exists>c1. server_period True 2000 1 idle_control = Some (True, c1)"
    by (simp add: server_period_def idle_control_def Let_def case_prod_beta)
  then obtain c1 where c: "server_period True 2000 1 idle_control = Some (True, c1)" by blast
  from server_period_never_advances [OF c order_refl, of True] c show ?thesis by blast
qed

lemma server_reply_frame [simp]:
  "ct_hub (server_reply m c) = ct_hub c" "ct_driver (server_reply m c) = ct_driver c"
  "ct_world (server_reply m c) = ct_world c" "ct_exit (server_reply m c) = ct_exit c"
  by (simp_all add: server_reply_def control_do_def Let_def split: option.split)

text \<open>
  The driver lock can be given back without having been taken. A command that is left to the
  driver takes and releases it, but leaves the pointer behind; a later \<open>timeslot\<close> command with a bad
  number releases through that pointer what it has not taken. Before the first such command
  nothing is wrong.
\<close>

theorem server_stale_driver_release:
  assumes "ucommon_ok u" and "\<not> isTimeslot a" and "hb_active (ct_hub c) = Some d"
  shows "\<exists>c1 c2. driver_command u dm err argv c = Continue c1 \<and>
    timeslot_command u dm [''timeslot'', a, b] c1 = Continue c2 \<and>
    lock_depth (hb_trace (ct_hub c1)) = lock_depth (hb_trace (ct_hub c)) \<and>
    lock_depth (hb_trace (ct_hub c2)) = lock_depth (hb_trace (ct_hub c)) - 1 \<and>
    (ct_driver c = None \<longrightarrow> (\<exists>c3. timeslot_command u dm [''timeslot'', a, b] c = Continue c3 \<and>
       lock_depth (hb_trace (ct_hub c3)) = lock_depth (hb_trace (ct_hub c))))"
  using assms
  by (auto simp: driver_command_def command_error_def Driver_active_def Driver_release_driver_def Let_def
      timeslot_command_def slot_event_def arg_def split: prod.split)

theorem server_stale_driver_release_witness:
  "\<exists>c1 c2. driver_command ucommon_ref (sip_methods ucommon_ref (\<lambda>_ _. True)) ''unknown command'' [''fnord''] idle_control = Continue c1 \<and>
    timeslot_command ucommon_ref (sip_methods ucommon_ref (\<lambda>_ _. True)) [''timeslot'', ''x'', ''drop''] c1 = Continue c2 \<and>
    lock_depth (hb_trace (ct_hub c2)) = - 1"
proof -
  have "\<not> isTimeslot ''x''" by (simp add: isTimeslot_def c_isdigit_def)
  moreover have "hb_active (ct_hub idle_control) = Some empty_config" "hb_trace (ct_hub idle_control) = []"
    by (simp_all add: idle_control_def empty_hub_def)
  ultimately show ?thesis
    using server_stale_driver_release [OF ucommon_ref_ok, of "''x''" idle_control empty_config
        "sip_methods ucommon_ref (\<lambda>_ _. True)" "''unknown command''" "[''fnord'']" "''drop''"] by auto
qed

section \<open>The control loop keeps the server consistent\<close>

text \<open>The SIP driver has no boards, so the commands for boards find none.\<close>

definition control_ok :: "control \<Rightarrow> bool" where
  "control_ok c \<longleftrightarrow> server_ok (ct_world c) \<and> w_board_count (ct_world c) = 0"

definition keeps_ok :: "outcome \<Rightarrow> bool" where
  "keeps_ok out \<longleftrightarrow> (case out of Continue c' \<Rightarrow> control_ok c' | Quit c' \<Rightarrow> control_ok c' | Crash \<Rightarrow> True)"

lemma keeps_ok_simps [simp]:
  "keeps_ok (Continue c) = control_ok c" "keeps_ok (Quit c) = control_ok c" "keeps_ok Crash"
  "keeps_ok (command_error e c) = control_ok c" "keeps_ok (invalid_argument c) = control_ok c"
  "control_ok (server_reply m c) = control_ok c" "control_ok (control_do es c) = control_ok c"
  by (simp_all add: keeps_ok_def control_ok_def command_error_def invalid_argument_def control_do_def)

lemma control_ok_update [simp]:
  "control_ok (c\<lparr>ct_hub := h\<rparr>) = control_ok c" "control_ok (c\<lparr>ct_driver := d\<rparr>) = control_ok c"
  "control_ok (c\<lparr>ct_target := t\<rparr>) = control_ok c" "control_ok (c\<lparr>ct_exit := n\<rparr>) = control_ok c"
  by (simp_all add: control_ok_def)

lemma server_ok_update [simp]:
  "server_ok (w\<lparr>w_out_context := a\<rparr>) = server_ok w" "server_ok (w\<lparr>w_stepping := n\<rparr>) = server_ok w"
  "server_ok (w\<lparr>w_sta := m\<rparr>) = server_ok w"
  by (simp_all add: server_ok_def slots_ok_def)

lemma update_keys_ok:
  "server_ok (snd (snd (fold (update_key u) kvs (r, t, w)))) = server_ok w \<and>
   w_board_count (snd (snd (fold (update_key u) kvs (r, t, w)))) = w_board_count w"
proof (induction kvs arbitrary: r t w)
  case (Cons kv kvs)
  obtain r1 t1 w1 where k: "update_key u kv (r, t, w) = (r1, t1, w1)" by (rule prod_cases3)
  then have "server_ok w1 = server_ok w \<and> w_board_count w1 = w_board_count w"
    by (auto simp: update_key_def split: prod.splits if_splits)
  with Cons k show ?case by simp
qed simp

lemma sip_reload_ok:
  "server_ok (snd (snd (sip_reload u d st h w))) = server_ok w \<and>
   w_board_count (snd (snd (sip_reload u d st h w))) = w_board_count w"
  using update_keys_ok [of u "the (first_of (dc_sections d ''sip'') (dc_sections d ''sips''))" None None
      "w\<lparr>w_out_context := None\<rparr>"]
  by (cases "first_of (dc_sections d ''sip'') (dc_sections d ''sips'')")
    (simp_all add: sip_reload_def sip_new_def sip_update_def Let_def case_prod_beta)

lemma driver_command_ok:
  assumes "control_ok c"
  shows "keeps_ok (driver_command u (sip_methods u stp) err argv c)"
proof -
  have r: "server_ok (sip_release_reg r (ct_world c)) \<and> w_board_count (sip_release_reg r (ct_world c)) = 0" for r
  proof
    have ok: "server_ok (ct_world c)" using assms by (simp add: control_ok_def)
    then have "slots_ok (ct_world c)" "rg_fwd (w_regs (ct_world c) r) = None" by (simp_all add: server_ok_def)
    from registrar_server_step [OF this, of Withdraw] server_stepD [OF _ ok]
    show "server_ok (sip_release_reg r (ct_world c))" by simp
    show "w_board_count (sip_release_reg r (ct_world c)) = 0"
      using assms by (simp add: control_ok_def sip_release_reg_def Registration_release_def upd_reg_def Let_def)
  qed
  then have "\<exists>e w1. Driver_dispatch u (dm_release (sip_methods u stp)) argv (ct_world c) = (e, w1) \<and>
      server_ok w1 \<and> w_board_count w1 = 0"
    using assms by (simp add: Driver_dispatch_def sip_methods_def control_ok_def split: option.split)
  then obtain e w1 where d: "Driver_dispatch u (dm_release (sip_methods u stp)) argv (ct_world c) = (e, w1)"
    "server_ok w1" "w_board_count w1 = 0" by blast
  show ?thesis
    using assms d by (simp add: driver_command_def d control_ok_def split: option.split prod.split)
qed

lemma post_command_ok:
  assumes u: "ucommon_ok u" and "control_ok c" and "ev \<noteq> EvSHUTDOWN"
  shows "keeps_ok (post_command (sip_vtable u stp) ev a c)"
proof (cases "Driver_get (unat (atoi a)) (ct_world c)")
  case None
  with assms(2) show ?thesis by (simp add: post_command_def)
next
  case (Some ts)
  then have t: "ts < w_ts_count (ct_world c)" by (simp add: Driver_get_def split: if_splits)
  have ok: "server_ok (ct_world c)" "w_board_count (ct_world c) = 0" using assms(2) by (simp_all add: control_ok_def)
  have lib: "ucommon_lib u" by unfold_locales (rule u)
  have safe: "shutdown_safe ev (ts_handler (w_slots (ct_world c) ts))" using assms(3) by (simp add: shutdown_safe_def)
  have sl: "slots_ok (ct_world c)" using ok(1) by (simp add: server_ok_def)
  obtain ev1 w1 where p: "Timeslot_post (sip_vtable u stp) ts (ev, ct_world c) = (ev1, w1)" by (rule prod.exhaust)
  have "server_ok w1"
    using server_stepD [OF ucommon_lib.post_server_step [OF lib sl t safe, of stp] ok(1)] p by simp
  moreover have "w_board_count w1 = 0"
    using env_ofD [OF slot_driver.post_ok(6) [OF ucommon_lib.sip_driver [OF lib, of stp] sl t safe]] p ok(2) by simp
  ultimately show ?thesis
    using Some p by (simp add: post_command_def control_ok_def Let_def)
qed

lemma slot_command_ok:
  assumes "ucommon_ok u" and "control_ok c" and "ev \<noteq> EvSHUTDOWN"
  shows "keeps_ok (slot_command u (sip_methods u stp) ev argv c)"
  using assms driver_command_ok [OF assms(2)] post_command_ok [OF assms]
  by (simp add: slot_command_def) (simp add: sip_methods_def)

lemma timeslot_command_ok:
  assumes "ucommon_ok u" and "control_ok c"
  shows "keeps_ok (timeslot_command u (sip_methods u stp) argv c)"
proof -
  have e: "slot_event u s = Some ev \<Longrightarrow> ev \<noteq> EvSHUTDOWN" for s ev
    by (auto simp: slot_event_def split: if_splits)
  show ?thesis
    using assms(2) by (auto simp: timeslot_command_def driver_command_ok
        intro!: slot_command_ok [OF assms] dest: e split: option.split)
qed

lemma command_words_ok:
  assumes "ucommon_ok u" and "control_ok c"
  shows "keeps_ok (command_words u (sip_methods u stp) ce argv c)"
proof -
  have b: "keeps_ok (board_command op argv c)" for op
    using assms(2) by (simp add: board_command_def Driver_getBoard_def control_ok_def)
  have p: "server_period opens now n c = Some (v, c1) \<Longrightarrow> control_ok c1" for opens now n v c1
    using assms(2) by (auto simp: server_period_def control_ok_def Let_def split: if_splits prod.splits)
  have q: "keeps_ok (case server_period (ce_opens ce) (ce_now ce) n c of None \<Rightarrow> Crash
      | Some (True, c1) \<Rightarrow> Continue (control_do es c1) | Some (False, c1) \<Rightarrow> Continue c1)" for n es
    using p [of "ce_opens ce" "ce_now ce" n] by (auto split: option.split bool.split)
  show ?thesis
    unfolding command_words_def using assms(2) by (simp add: b q timeslot_command_ok [OF assms])
qed

lemma server_command_ok:
  assumes "ucommon_ok u" and "control_ok c"
  shows "keeps_ok (server_command u (sip_methods u stp) ce cp c)"
proof -
  have r: "keeps_ok (let c1 = control_do es c;
        (h1, w1) = dm_reload (sip_methods u stp) (ce_fresh ce) (ct_hub c1) (ct_world c1)
      in if hb_fault h1 then Crash else Continue (c1\<lparr>ct_hub := h1, ct_world := w1\<rparr>))" for es
    using sip_reload_ok [of u "ce_fresh ce" "sip_defaults []" "ct_hub c" "ct_world c"] assms(2)
    by (auto simp: sip_methods_def control_ok_def control_do_def Let_def split: prod.split)
  show ?thesis
    unfolding server_command_def using assms(2) r
    by (simp add: command_words_ok [OF assms] split: option.split)
qed

lemma dispatch_keeps_control:
  "ucommon_ok u \<Longrightarrow> control_ok c \<Longrightarrow> keeps_ok (server_dispatch u (sip_methods u stp) ces ls c)"
proof (induction ces arbitrary: ls c)
  case (Cons ce ces)
  have r: "control_ok c \<Longrightarrow> control_ok (snd (snd (server_receive u ls c)))" for ls c
    by (simp add: server_receive_def Let_def split: prod.split option.split)
  obtain cp rest c1 where v: "server_receive u ls c = (cp, rest, c1)" by (rule prod_cases3)
  with r [OF Cons.prems(2), of ls] have "control_ok c1" by simp
  from server_command_ok [OF Cons.prems(1) this, of stp ce cp] Cons.IH [OF Cons.prems(1)] v
  show ?case by (cases "server_command u (sip_methods u stp) ce cp c1") simp_all
qed simp

text \<open>
  Whatever the operator sends, in whatever order, the server stays consistent: the whole
  loop over the requests keeps every timeslot on the list of its state, every mutex released, and
  no registration followed for ever, up to the request that ends it.
\<close>

theorem server_dispatch_keeps_invariant:
  assumes "ucommon_ok u" and "server_ok (ct_world c)" and "w_board_count (ct_world c) = 0"
  shows "case server_dispatch u (sip_methods u stp) ces ls c of
      Continue c' \<Rightarrow> server_ok (ct_world c') | Quit c' \<Rightarrow> server_ok (ct_world c') | Crash \<Rightarrow> True"
  using dispatch_keeps_control [OF assms(1), of c stp ces ls] assms(2,3)
  by (auto simp: keeps_ok_def control_ok_def split: outcome.splits)

theorem server_dispatch_keeps_invariant_witness:
  "case server_dispatch ucommon_ref (sip_methods ucommon_ref (\<lambda>_ _. True)) [request_env, request_env]
      [''check'', ''reload''] idle_control of
     Continue c' \<Rightarrow> server_ok (ct_world c') | Quit c' \<Rightarrow> server_ok (ct_world c') | Crash \<Rightarrow> True"
proof (rule server_dispatch_keeps_invariant [OF ucommon_ref_ok])
  have e: "w_board_count (fresh_world 2) = w_board_count blank_world"
    unfolding fresh_world_def using env_ofD [OF construct_all_stats(1)] by simp
  show "server_ok (ct_world idle_control)" by (simp add: idle_control_def sip_server_ok)
  show "w_board_count (ct_world idle_control) = 0"
    by (simp add: idle_control_def sip_server_def e blank_world_def)
qed

text \<open>The status of the process is written by no request.\<close>

definition keeps_status :: "control \<Rightarrow> outcome \<Rightarrow> bool" where
  "keeps_status c out \<longleftrightarrow> (case out of
      Continue c' \<Rightarrow> ct_status c' = ct_status c | Quit c' \<Rightarrow> ct_status c' = ct_status c | Crash \<Rightarrow> True)"

lemma keeps_status_simps [simp]:
  "ct_status (server_reply m x) = ct_status x" "ct_status (control_do es x) = ct_status x"
  "keeps_status c (Continue x) = (ct_status x = ct_status c)" "keeps_status c (Quit x) = (ct_status x = ct_status c)"
  "keeps_status c Crash" "keeps_status c (invalid_argument x) = (ct_status x = ct_status c)"
  "keeps_status c (command_error e x) = (ct_status x = ct_status c)"
  by (simp_all add: server_reply_def control_do_def keeps_status_def invalid_argument_def command_error_def Let_def
      split: option.split)

lemma command_status: "keeps_status c (server_command u dm ce cp c)"
proof -
  have d: "keeps_status c (driver_command u dm err argv c)" for err argv
    by (simp add: driver_command_def split: prod.split option.split)
  have p: "keeps_status c (post_command vt ev n c)" for vt ev n
    by (simp add: post_command_def Let_def split: prod.split option.split)
  have s: "keeps_status c (slot_command u dm ev argv c)" for ev argv
    using d p by (simp add: slot_command_def)
  have t: "keeps_status c (timeslot_command u dm argv c)" for argv
    using d s by (simp add: timeslot_command_def split: option.split)
  have b: "keeps_status c (board_command op argv c)" for op argv
    by (simp add: board_command_def Let_def split: prod.split option.split)
  have q: "server_period opens now n c = Some (v, c1) \<Longrightarrow> ct_status c1 = ct_status c" for opens now n v c1
    by (auto simp: server_period_def Let_def split: if_splits prod.splits)
  have "keeps_status c (command_words u dm ce argv c)" for argv
    using b t q by (auto simp: command_words_def split: option.split prod.split bool.split)
  then show ?thesis by (auto simp: server_command_def Let_def split: prod.split option.split)
qed

lemma dispatch_status:
  "case server_dispatch u dm ces ls c of
     Continue c' \<Rightarrow> ct_status c' = ct_status c | Quit c' \<Rightarrow> ct_status c' = ct_status c | Crash \<Rightarrow> True"
proof (induction ces arbitrary: ls c)
  case (Cons ce ces)
  obtain cp rest c1 where v: "server_receive u ls c = (cp, rest, c1)" by (rule prod_cases3)
  then have c1: "ct_status c1 = ct_status c"
    by (auto simp: server_receive_def Let_def split: prod.splits option.splits)
  note a = command_status [of c1 u dm ce cp]
  show ?case
  proof (cases "server_command u dm ce cp c1")
    case (Continue c2)
    with Cons.IH [where ls = rest and c = c2] a c1 v show ?thesis
      by (cases "server_dispatch u dm ces rest c2") simp_all
  qed (use v a c1 in simp_all)
qed simp

text \<open>
  The exit status of the process does not say why it ended: \<open>restart\<close> sets a variable of
  the loop, while the status that \<open>release\<close> exits with is never written.
\<close>

theorem server_exit_status_unset:
  assumes "server_dispatch u dm ces ls c = Quit c'"
  shows "ct_status c' = ct_status c"
  using dispatch_status [where c = c and ls = ls and ces = ces and u = u and dm = dm] assms by simp

theorem server_exit_status_unset_witness:
  "\<exists>c'. server_dispatch ucommon_ref (sip_methods ucommon_ref (\<lambda>_ _. True)) [request_env] [''restart''] idle_control = Quit c' \<and>
    ct_exit c' = 6 \<and> ct_status c' = 0"
proof -
  have p: "parse_request ucommon_ref ''restart'' = Some (None, ''restart'')"
    by (simp add: parse_request_def strip_chars_def starts_slash_def starts_digit_def c_isdigit_def
        ucommon_ref_def Let_def)
  then obtain c' where c: "server_dispatch ucommon_ref (sip_methods ucommon_ref (\<lambda>_ _. True)) [request_env] [''restart'']
      idle_control = Quit c'" "ct_exit c' = 6"
    by (simp add: server_receive_def server_command_def control_do_def Let_def)
  from server_exit_status_unset [OF c(1)] c show ?thesis by (auto simp: idle_control_def)
qed

end
