(* ===== verification/ControlProps.thy ===== *)
theory ControlProps
  imports Control ServerProps
begin

text \<open>
  Properties of the control utility: what it sends arrives at the server as it was meant, its exit
  status says what the server made of it, and its reports show what is in the shared memory.
\<close>

section \<open>The request on the wire\<close>

fun join_words :: "string list \<Rightarrow> string" where
  "join_words [] = []"
| "join_words (w # ws) = (if ws = [] then w else w @ '' '' @ join_words ws)"

definition plain_word :: "string \<Rightarrow> bool" where
  "plain_word w \<longleftrightarrow> w \<noteq> [] \<and> (\<forall>c \<in> set w. \<not> c_isspace c)"

lemma length_add_word: "length buf \<le> 510 \<Longrightarrow> length (add_word buf w) \<le> 510"
  by (simp add: add_word_def fit_def)

lemma length_add_words: "length buf \<le> 510 \<Longrightarrow> length (foldl add_word buf ws) \<le> 510"
  by (induction ws arbitrary: buf) (simp_all add: length_add_word)

definition spaced :: "string list \<Rightarrow> string" where
  "spaced ws = concat (map (\<lambda>w. '' '' @ w) ws)"

lemma spaced_simps [simp]: "spaced [] = []" "spaced (w # ws) = '' '' @ w @ spaced ws"
  by (simp_all add: spaced_def)

lemma spaced_join: "ws \<noteq> [] \<Longrightarrow> spaced ws = '' '' @ join_words ws"
  by (induction ws) auto

lemma add_words_fit: "length buf + length (spaced ws) \<le> 510 \<Longrightarrow> foldl add_word buf ws = buf @ spaced ws"
  by (induction ws arbitrary: buf) (simp_all add: add_word_def fit_def)

lemma join_words_ends:
  assumes "list_all plain_word ws" and "ws \<noteq> []"
  shows "join_words ws \<noteq> []" "\<not> c_isspace (hd (join_words ws))" "\<not> c_isspace (last (join_words ws))"
    "hd (join_words ws) = hd (hd ws)"
  using assms by (induction ws) (auto simp: plain_word_def hd_append last_append split: if_splits)

abbreviation blanks :: string where
  "blanks \<equiv> '' '' @ [CHR 0x09, CHR 0x0D, CHR 0x0A]"

lemma not_blank: "\<not> c_isspace c \<Longrightarrow> c \<notin> set blanks"
  by (auto simp: c_isspace_def)

lemma dropWhile_hd: "s \<noteq> [] \<Longrightarrow> \<not> P (hd s) \<Longrightarrow> dropWhile P s = s"
  by (cases s) auto

lemma strip_line:
  assumes "s \<noteq> []" and "\<not> c_isspace (hd s)" and "\<not> c_isspace (last s)" and "set a \<subseteq> set blanks"
  shows "strip_chars (a @ s @ newline) blanks = s"
proof -
  have "dropWhile (\<lambda>c. c \<in> set blanks) (a @ s @ newline) = s @ newline"
    using assms not_blank [OF assms(2)] by (cases s) (auto simp: subset_iff dropWhile_append)
  moreover have "dropWhile (\<lambda>c. c \<in> set blanks) (rev s) = rev s"
    by (rule dropWhile_hd) (use assms(1) not_blank [OF assms(3)] in \<open>auto simp: hd_rev\<close>)
  ultimately show ?thesis by (simp add: strip_chars_def newline_def)
qed

lemma takeWhile_word: "\<forall>x \<in> set a. \<not> P x \<Longrightarrow> P c \<Longrightarrow> takeWhile (\<lambda>x. \<not> P x) (a @ c # b) = a"
  "\<forall>x \<in> set a. \<not> P x \<Longrightarrow> P c \<Longrightarrow> dropWhile (\<lambda>x. \<not> P x) (a @ c # b) = c # b"
  by (induction a) auto

lemma show_nat_plain: "\<forall>c \<in> set (show_nat n). \<not> c_isspace c"
  using show_nat_digits [of n] c_isdigit_not_special by (auto simp: list_all_iff)

lemma show_nat_starts: "starts_digit (show_nat n @ s)"
  using show_nat_digits [of n] by (cases "show_nat n") (auto simp: starts_digit_def)

lemma tool_request_parsed:
  assumes "ucommon_ok u" and "list_all plain_word argv" and "argv \<noteq> []" and "length (show_nat pid) + length (spaced argv) \<le> 510"
  shows "parse_request u (request_text (Some pid) argv) = Some (Some (show_nat pid), join_words argv) \<and>
    (\<not> c_isdigit (hd (hd argv)) \<and> hd (hd argv) \<noteq> CHR ''/'' \<longrightarrow>
       parse_request u (request_text None argv) = Some (None, join_words argv))"
proof -
  note j = join_words_ends [OF assms(2,3)]
  have sp: "c_isspace (CHR '' '')" by (simp add: c_isspace_def)
  let ?s = "show_nat pid @ '' '' @ join_words argv"
  have f: "foldl add_word (show_nat pid) argv = show_nat pid @ '' '' @ join_words argv"
    "foldl add_word [] argv = '' '' @ join_words argv"
    using assms(4) add_words_fit [of "show_nat pid" argv] add_words_fit [of "[]" argv] spaced_join [OF assms(3)]
    by simp_all
  have "strip_chars ([] @ ?s @ newline) blanks = ?s"
    by (rule strip_line) (use j show_nat_plain [of pid] in \<open>auto simp: hd_append\<close>)
  then have a: "strip_chars (request_text (Some pid) argv) blanks = ?s"
    by (simp add: request_text_def f newline_def)
  have "starts_digit ?s" by (rule show_nat_starts)
  moreover from this have "\<not> starts_slash ?s" by (auto simp: starts_digit_def starts_slash_def c_isdigit_def split: list.splits)
  moreover have "takeWhile (\<lambda>x. \<not> c_isspace x) ?s = show_nat pid"
    "dropWhile c_isspace (dropWhile (\<lambda>x. \<not> c_isspace x) ?s) = join_words argv"
    using takeWhile_word [OF show_nat_plain [of pid] sp, of "join_words argv"] dropWhile_hd [where P = c_isspace, OF j(1,2)] sp
    by simp_all
  ultimately have "parse_request u (request_text (Some pid) argv) = Some (Some (show_nat pid), join_words argv)"
    using a assms(1) by (simp add: parse_request_def)
  moreover have "parse_request u (request_text None argv) = Some (None, join_words argv)"
    if "\<not> c_isdigit (hd (hd argv))" "hd (hd argv) \<noteq> CHR ''/''"
  proof -
    have "strip_chars ('' '' @ join_words argv @ newline) blanks = join_words argv"
      by (rule strip_line) (use j in auto)
    moreover have "request_text None argv = '' '' @ join_words argv @ newline"
      by (simp add: request_text_def f newline_def)
    moreover have "\<not> starts_digit (join_words argv)" "\<not> starts_slash (join_words argv)"
      using j that by (auto simp: starts_digit_def starts_slash_def split: list.splits)
    ultimately show ?thesis using assms(1) by (simp add: parse_request_def)
  qed
  ultimately show ?thesis by blast
qed

lemma fgets_line: "CHR 0x0A \<notin> set a \<Longrightarrow> length a < n \<Longrightarrow> fgets_run n (a @ CHR 0x0A # rest) = (a @ newline, rest, False)"
proof (induction a arbitrary: n)
  case Nil
  then show ?case by (cases n) (simp_all add: newline_def)
next
  case (Cons c a)
  then show ?case by (cases n) auto
qed

lemma add_words_newline:
  "CHR 0x0A \<notin> set buf \<Longrightarrow> \<forall>w \<in> set ws. CHR 0x0A \<notin> set w \<Longrightarrow> CHR 0x0A \<notin> set (foldl add_word buf ws)"
proof (induction ws arbitrary: buf)
  case (Cons w ws)
  have "CHR 0x0A \<notin> set (add_word buf w)"
    using Cons.prems by (auto simp: add_word_def fit_def dest: in_set_takeD)
  with Cons show ?case by simp
qed simp

lemma show_nat_newline: "CHR 0x0A \<notin> set (show_nat n)"
  using show_nat_plain [of n] by (auto simp: c_isspace_def)

text \<open>
  However many words there are and however long they are, the server reads a request
  completely with one call of \<open>fgets\<close> on its buffer of 512 characters, and nothing of the next.
\<close>

theorem tool_request_one_line:
  assumes "length (show_nat pid) \<le> 510" and "\<forall>w \<in> set argv. CHR 0x0A \<notin> set w" and "p = None \<or> p = Some pid"
  shows "fgets_run 511 (request_text p argv @ rest) = (request_text p argv, rest, False)"
proof -
  let ?b = "foldl add_word (case p of None \<Rightarrow> [] | Some n \<Rightarrow> show_nat n) argv"
  have "length ?b \<le> 510" by (rule length_add_words) (use assms(1,3) in auto)
  moreover have "CHR 0x0A \<notin> set ?b"
    by (rule add_words_newline) (use assms(2,3) show_nat_newline in auto)
  ultimately show ?thesis using fgets_line [of ?b 511 rest] by (simp add: request_text_def newline_def)
qed

theorem tool_request_one_line_witness:
  "fgets_run 511 (request_text (Some 77) [replicate 600 (CHR ''x'')] @ ''next'') =
     (request_text (Some 77) [replicate 600 (CHR ''x'')], ''next'', False)"
  by (rule tool_request_one_line [of 77]) (simp_all add: show_nat.simps)

section \<open>A request and its answer\<close>

definition sent_line :: "tool_run \<Rightarrow> string" where
  "sent_line r = concat (map (\<lambda>e. case e of Written l \<Rightarrow> l | _ \<Rightarrow> []) (snd r))"

text \<open>The signals sent to the waiting process: the first ends its wait, none lets it time out.\<close>

definition signal_seen :: "(32 word \<times> bool) list \<Rightarrow> tool_signal" where
  "signal_seen ss = (case ss of [] \<Rightarrow> SigALRM | (_, fail) # _ \<Rightarrow> if fail then SigUSR2 else SigUSR1)"

text \<open>
  The tool sends its line, the server receives it, acts on it and, at the next \<open>receive\<close>, answers what
  has not been answered; the tool ends with the signal it got.
\<close>

definition talk ::
    "ucommon \<Rightarrow> driver_methods \<Rightarrow> control_env \<Rightarrow> string \<Rightarrow> string list \<Rightarrow> tool_env \<Rightarrow> control \<Rightarrow> tool_run"
where
  "talk u dm ce var argv te c =
     (let run = baycontrol u var argv te;
          (cp, rest, c1) = server_receive u [sent_line run] c
      in case server_command u dm ce cp c1 of
           Continue c2 \<Rightarrow>
             baycontrol u var argv (te\<lparr>tl_signal := signal_seen
               (drop (length (signals (ct_trace c1))) (signals (ct_trace (server_reply None c2))))\<rparr>)
         | _ \<Rightarrow> run)"

definition request_words :: "tool_env \<Rightarrow> string list \<Rightarrow> bool" where
  "request_words te argv \<longleftrightarrow> list_all plain_word argv \<and> argv \<noteq> [] \<and>
     length (show_nat (tl_pid te)) + length (spaced argv) \<le> 510"

lemma no_reply [simp]: "ct_target c = None \<Longrightarrow> server_reply None c = c"
  by (simp add: server_reply_def)

lemma request_parsed:
  assumes "ucommon_ok u" and "request_words te argv"
  shows "parse_request u (request_text (Some (tl_pid te)) argv) = Some (Some (show_nat (tl_pid te)), join_words argv)"
  using tool_request_parsed [OF assms(1)] assms(2) by (simp add: request_words_def)

lemma copy_lines_out: "e \<in> set (copy_lines sz s) \<Longrightarrow> \<exists>t. e = Out t"
proof (induction sz s rule: copy_lines.induct)
  case (1 sz s)
  obtain a rest eof where f: "fgets_run (sz - 1) s = (a, rest, eof)" by (cases "fgets_run (sz - 1) s") auto
  show ?case
  proof (cases "a = []")
    case False
    with 1 f copy_lines.simps [of sz s] show ?thesis by auto
  qed (use 1 f copy_lines.simps [of sz s] in simp)
qed

lemma capture_sends_nothing: "concat (map (\<lambda>e. case e of Written l \<Rightarrow> l | _ \<Rightarrow> []) (tool_capture te)) = []"
  using copy_lines_out by (fastforce simp: tool_capture_def Let_def split: option.splits)

lemma talk_result:
  assumes u: "ucommon_ok u" and w: "request_words te argv" and t: "0 < timeout"
    and tool: "\<And>te'. baycontrol u var argv te' = tool_command argv timeout te'"
    and up: "tl_control te" "tl_writes te" and idle: "ct_target c = None"
    and sc: "server_command u dm ce (join_words argv) (c\<lparr>ct_target := Some (show_nat (tl_pid te))\<rparr>) = Continue c2"
  shows "fst (talk u dm ce var argv te c) = (if request_refused u dm (join_words argv) c = None then 0 else 3)"
proof -
  let ?p = "show_nat (tl_pid te)" and ?c1 = "c\<lparr>ct_target := Some (show_nat (tl_pid te))\<rparr>"
  have l: "sent_line (baycontrol u var argv te) = request_text (Some (tl_pid te)) argv"
    using t up capture_sends_nothing [of te]
    by (simp add: tool sent_line_def tool_command_def Let_def split: tool_signal.split)
  have r: "server_receive u [request_text (Some (tl_pid te)) argv] c = (join_words argv, [], ?c1)"
    using request_parsed [OF u w] idle by (simp add: server_receive_def)
  have "starts_digit ?p" using show_nat_starts [of "tl_pid te" "[]"] by simp
  from answered_once(1) [OF u _ this sc] obtain fail where
    f: "signals (ct_trace (server_reply None c2)) = signals (ct_trace c) @ [(atoi ?p, fail)]"
    "fail \<longleftrightarrow> request_refused u dm (join_words argv) c \<noteq> None" by simp
  have "talk u dm ce var argv te c = baycontrol u var argv (te\<lparr>tl_signal := if fail then SigUSR2 else SigUSR1\<rparr>)"
    by (simp add: talk_def l r sc f(1) signal_seen_def)
  then show ?thesis using t up f(2) by (simp add: tool tool_command_def Let_def)
qed

text \<open>The command lines that send a request and wait for its answer.\<close>

definition answered_command :: "string list \<Rightarrow> bool" where
  "answered_command argv \<longleftrightarrow>
     (case argv of
        [cmd] \<Rightarrow> cmd \<in> set [''reload'', ''check'', ''snapshot'', ''suspend'', ''resume'', ''history'']
      | [cmd, x] \<Rightarrow> cmd \<in> set [''history'', ''verbose'', ''concurrency'', ''enable'', ''disable'', ''drop'', ''hangup'', ''period'']
      | _ \<Rightarrow> False)"

lemmas tool_routes = baycontrol_def is_one_of_def tool_single_def tool_resource_def tool_level_def tool_period_def
  tool_one_arg_def arg_def Let_def

lemma answered_command_sends:
  assumes "ucommon_ok u" and "answered_command argv"
  shows "\<exists>timeout > 0. \<forall>te. baycontrol u var argv te = tool_command argv timeout te"
proof (cases argv)
  case (Cons cmd xs)
  show ?thesis
  proof (cases xs)
    case Nil
    with Cons assms have "\<forall>te. baycontrol u var argv te = tool_command argv 30 te"
      by (auto simp: answered_command_def tool_routes)
    then show ?thesis by (intro exI [of _ 30]) simp
  next
    case (Cons x ys)
    then have ys: "ys = []" using assms(2) \<open>argv = cmd # xs\<close> by (cases ys) (simp_all add: answered_command_def)
    then have c: "cmd \<in> set [''history'', ''verbose'', ''concurrency'', ''enable'', ''disable'', ''drop'', ''hangup'', ''period'']"
      using assms(2) Cons \<open>argv = cmd # xs\<close> by (simp add: answered_command_def)
    have "\<forall>te. baycontrol u var [cmd, x] te = tool_command [cmd, x] 10 te"
      using c assms(1) by (auto simp: tool_routes)
    then have "\<forall>te. baycontrol u var argv te = tool_command argv 10 te"
      by (simp add: ys Cons \<open>argv = cmd # xs\<close>)
    then show ?thesis by (intro exI [of _ 10]) simp
  qed
qed (use assms in \<open>simp add: answered_command_def\<close>)

lemma join_reload:
  assumes "answered_command argv"
  shows "join_words argv = ''reload'' \<longleftrightarrow> argv = [''reload'']"
proof
  assume j: "join_words argv = ''reload''"
  show "argv = [''reload'']"
  proof (cases argv)
    case (Cons cmd xs)
    show ?thesis
    proof (cases xs)
      case (Cons x ys)
      then have "join_words argv = cmd @ '' '' @ join_words (x # ys)" using \<open>argv = cmd # xs\<close> by simp
      then have "CHR '' '' \<in> set (join_words argv)" by simp
      then show ?thesis using j by simp
    qed (use Cons j in simp)
  qed (use j in simp)
qed simp

text \<open>
  C25. The control utility tells the truth about its request: when the server has treated it and goes on, the
  utility ends with status 0 if the request was not refused, and with 3 if it was; it was refused as the
  table of \<open>request_refused\<close> says, and the refusal is in the log of the server. That the request was not refused does not mean
  that all went well: a reload ends with status 0 whatever errors the compiler logged meanwhile.
\<close>

theorem tool_exit_truthful:
  assumes "ucommon_ok u" and "answered_command argv" and "request_words te argv"
    and "tl_control te" and "tl_writes te" and "ct_target c = None"
    and "server_command u dm ce (join_words argv) (c\<lparr>ct_target := Some (show_nat (tl_pid te))\<rparr>) = Continue c2"
  shows "fst (talk u dm ce var argv te c) = (if request_refused u dm (join_words argv) c = None then 0 else 3) \<and>
    error_logs (ct_trace c2) = error_logs (ct_trace c) @ (if argv = [''reload''] then dc_log (ce_fresh ce) else []) @
      (case request_refused u dm (join_words argv) c of None \<Rightarrow> [] | Some m \<Rightarrow> [''control failed; '' @ m])"
proof -
  obtain t where "0 < t" "\<And>te. baycontrol u var argv te = tool_command argv t te"
    using answered_command_sends [OF assms(1,2)] by blast
  then have e: "fst (talk u dm ce var argv te c) = (if request_refused u dm (join_words argv) c = None then 0 else 3)"
    by (rule talk_result [OF assms(1,3) _ _ assms(4-7)])
  have "starts_digit (show_nat (tl_pid te))" using show_nat_starts [of "tl_pid te" "[]"] by simp
  from answered_once(3) [OF assms(1) _ this assms(7)]
  have "error_logs (ct_trace c2) = error_logs (ct_trace c) @ reload_logs ce (join_words argv) @
      (case request_refused u dm (join_words argv) c of None \<Rightarrow> [] | Some m \<Rightarrow> [''control failed; '' @ m])"
    by simp
  moreover have "join_words argv = ''reload'' \<longleftrightarrow> argv = [''reload'']"
    by (rule join_reload [OF assms(2)])
  ultimately show ?thesis using e by (simp add: reload_logs_def)
qed

definition shell_env :: tool_env where
  "shell_env = \<lparr>tl_pid = 77, tl_user = ''root'', tl_control = True, tl_private = False, tl_writes = True,
     tl_signal = SigALRM, tl_files = (\<lambda>_. None), tl_stats = [], tl_slots = [], tl_now = 0, tl_version = ''3.0.0''\<rparr>"

lemma shell_env_words: "length (spaced argv) \<le> 500 \<Longrightarrow> list_all plain_word argv \<Longrightarrow> argv \<noteq> [] \<Longrightarrow> request_words shell_env argv"
  by (simp add: request_words_def shell_env_def show_nat.simps)

theorem tool_exit_truthful_witness:
  "fst (talk ucommon_ref (sip_methods ucommon_ref (\<lambda>_ _. True)) request_env ''/var'' [''check''] shell_env idle_control) = 0"
proof -
  have r: "request_words shell_env [''check'']"
    by (rule shell_env_words) (simp_all add: plain_word_def c_isspace_def)
  have s: "server_command ucommon_ref (sip_methods ucommon_ref (\<lambda>_ _. True)) request_env (join_words [''check''])
      (idle_control\<lparr>ct_target := Some (show_nat (tl_pid shell_env))\<rparr>) =
    Continue (idle_control\<lparr>ct_target := Some (show_nat (tl_pid shell_env))\<rparr>)"
    by (simp add: server_command_def)
  from tool_exit_truthful [OF ucommon_ref_ok _ r _ _ _ s, of "''/var''"]
  show ?thesis by (simp add: answered_command_def shell_env_def idle_control_def request_refused_def)
qed

text \<open>
  A board can be neither suspended nor resumed with the control utility: it takes no argument for
  the two commands, and without a board the server answers that an argument is missing.
\<close>

theorem tool_suspend_fails:
  assumes "ucommon_ok u" and "cmd \<in> {''suspend'', ''resume''}" and "u_tokens u cmd ('' '' @ [CHR 0x09]) ''{}'' = [cmd]"
    and "tl_control te" and "tl_writes te" and "length (show_nat (tl_pid te)) \<le> 500" and "ct_target c = None"
  shows "fst (talk u dm ce var [cmd] te c) = 3 \<and> fst (baycontrol u var [cmd, board] te) = - 1"
proof -
  have r: "request_words te [cmd]"
    using assms(2,6) by (auto simp: request_words_def plain_word_def c_isspace_def)
  let ?c = "c\<lparr>ct_target := Some (show_nat (tl_pid te))\<rparr>"
  have s: "server_command u dm ce (join_words [cmd]) ?c = Continue (server_reply (Some ''missing or invalid argument'') ?c)"
    using assms(1-3) by (auto simp: server_command_def command_words_def arg_def board_command_def invalid_argument_def)
  have l: "request_refused u dm (join_words [cmd]) c \<noteq> None"
    using assms(2,3) by (auto simp: request_refused_def words_refused_def wrong_arguments_def)
  have a: "answered_command [cmd]" using assms(2) by (auto simp: answered_command_def)
  obtain t where t: "0 < t" "\<And>te. baycontrol u var [cmd] te = tool_command [cmd] t te"
    using answered_command_sends [OF assms(1) a] by blast
  have "fst (talk u dm ce var [cmd] te c) = 3"
    using talk_result [OF assms(1) r t assms(4,5,7) s] l by simp
  moreover have "fst (baycontrol u var [cmd, board] te) = - 1"
    using assms(1,2) by (auto simp: tool_routes tool_error_def)
  ultimately show ?thesis ..
qed

definition word_tokens :: ucommon where
  "word_tokens = ucommon_ref\<lparr>u_tokens := (\<lambda>s cl q. if s = [] then [] else [s])\<rparr>"

theorem tool_suspend_fails_witness:
  "fst (talk word_tokens (sip_methods word_tokens (\<lambda>_ _. True)) request_env ''/var'' [''suspend''] shell_env idle_control) = 3"
proof -
  have "ucommon_ok word_tokens" by (simp add: ucommon_ok_def word_tokens_def ucommon_ref_def)
  from tool_suspend_fails [OF this, of "''suspend''" shell_env idle_control] show ?thesis
    by (simp add: word_tokens_def ucommon_ref_def shell_env_def idle_control_def show_nat.simps)
qed

section \<open>The usage text\<close>

text \<open>The command a line of the text is about.\<close>

definition listed_command :: "string \<Rightarrow> string" where
  "listed_command l = takeWhile (\<lambda>c. c \<noteq> CHR '' '') (dropWhile (\<lambda>c. c = CHR '' '') l)"

definition tool_commands :: "string list" where
  "tool_commands = [''version'', ''-version'', ''--version'', ''help'', ''-help'', ''--help'', ''boards'', ''spans'', ''reload'',
     ''check'', ''snapshot'', ''suspend'', ''resume'', ''history'', ''down'', ''restart'', ''abort'', ''verbose'', ''concurrency'',
     ''enable'', ''disable'', ''drop'', ''hangup'', ''status'', ''timeslots'', ''stats'', ''period'', ''pstats'']"

definition not_a_command :: "string \<Rightarrow> tool_run" where
  "not_a_command cmd = tool_error 1 (cmd @ '': unknown command or option'')"

lemma tool_knows:
  "tool_command argv t te \<noteq> not_a_command cmd" "tool_single argv t te \<noteq> not_a_command cmd"
  "tool_level argv t te \<noteq> not_a_command cmd" "tool_resource argv t te \<noteq> not_a_command cmd"
  "tool_period argv te \<noteq> not_a_command cmd" "tool_runfiles var argv te \<noteq> not_a_command cmd"
  "tool_status argv te \<noteq> not_a_command cmd" "tool_timeslots argv te \<noteq> not_a_command cmd"
  "tool_stats argv te \<noteq> not_a_command cmd" "tool_pstats argv te \<noteq> not_a_command cmd"
  by (auto simp: not_a_command_def tool_error_def tool_command_def tool_single_def tool_level_def tool_resource_def
      tool_period_def tool_one_arg_def tool_runfiles_def tool_status_def tool_timeslots_def tool_stats_def tool_pstats_def
      Let_def split: tool_signal.splits option.splits)

lemma tool_command_unknown:
  assumes "ucommon_ok u"
  shows "baycontrol u var (cmd # args) te = not_a_command cmd \<longleftrightarrow> cmd \<notin> set tool_commands"
proof
  assume "cmd \<notin> set tool_commands"
  then show "baycontrol u var (cmd # args) te = not_a_command cmd"
    using assms by (simp add: tool_commands_def baycontrol_def is_one_of_def arg_def Let_def not_a_command_def)
next
  assume r: "baycontrol u var (cmd # args) te = not_a_command cmd"
  have n: "(0, es) \<noteq> not_a_command cmd" for es by (simp add: not_a_command_def tool_error_def)
  show "cmd \<notin> set tool_commands"
    using assms r tool_knows n
    by (simp add: tool_commands_def baycontrol_def is_one_of_def arg_def Let_def split: if_splits)
qed

lemma usage_listed: "set (map listed_command (drop 2 usage_lines)) \<subseteq> insert ''release'' (set tool_commands)"
  "''release'' \<in> set (map listed_command (drop 2 usage_lines))" "''release'' \<notin> set tool_commands"
  by (simp_all add: usage_lines_def listed_command_def tool_commands_def)

lemma outside_of_insert: "x \<notin> S \<Longrightarrow> y \<in> insert x S \<Longrightarrow> y \<notin> S \<longleftrightarrow> y = x"
  by auto

lemma command_not_known:
  assumes "ucommon_ok u" and "u_tokens u ''history'' ('' '' @ [CHR 0x09]) ''{}'' = [''history'']"
  shows "\<exists>c2. server_command u dm ce ''history'' c = Continue c2" "request_refused u dm ''history'' c \<noteq> None"
proof -
  have "server_command u dm ce ''history'' c = driver_command u dm ''unknown command'' [''history''] c"
    using assms by (simp add: server_command_def command_words_def arg_def timeslot_command_def slot_event_def)
  then show "\<exists>c2. server_command u dm ce ''history'' c = Continue c2"
    by (auto simp: driver_command_def command_error_def split: prod.split option.split)
  show "request_refused u dm ''history'' c \<noteq> None"
    using assms by (simp add: request_refused_def words_refused_def driver_refusal_def arg_def)
qed

text \<open>
  What the usage text promises: every command it names is one the utility knows but \<open>release\<close>, which it
  refuses, though the server would understand it; and \<open>history\<close>, which it knows, it sends to a server that does not.
\<close>

theorem tool_usage_commands:
  assumes "ucommon_ok u" and "l \<in> set (drop 2 usage_lines)"
  shows "baycontrol u var (listed_command l # args) te = not_a_command (listed_command l) \<longleftrightarrow> listed_command l = ''release''"
proof -
  have "listed_command l \<in> set (map listed_command (drop 2 usage_lines))"
    unfolding set_map using assms(2) by (rule imageI)
  then have "listed_command l \<in> insert ''release'' (set tool_commands)" by (rule subsetD [OF usage_listed(1)])
  then show ?thesis unfolding tool_command_unknown [OF assms(1)] by (rule outside_of_insert [OF usage_listed(3)])
qed

theorem tool_history_fails:
  assumes "ucommon_ok u" and "u_tokens u ''history'' ('' '' @ [CHR 0x09]) ''{}'' = [''history'']"
    and "tl_control te" and "tl_writes te" and "length (show_nat (tl_pid te)) \<le> 500" and "ct_target c = None"
  shows "fst (talk u dm ce var [''history''] te c) = 3"
proof -
  have r: "request_words te [''history'']"
    using assms(5) by (simp add: request_words_def plain_word_def c_isspace_def)
  obtain c2 where s: "server_command u dm ce (join_words [''history'']) (c\<lparr>ct_target := Some (show_nat (tl_pid te))\<rparr>) = Continue c2"
    using command_not_known(1) [OF assms(1,2), of dm ce "c\<lparr>ct_target := Some (show_nat (tl_pid te))\<rparr>"] by auto
  obtain t where t: "0 < t" "\<And>te. baycontrol u var [''history''] te = tool_command [''history''] t te"
    using answered_command_sends [OF assms(1), of "[''history'']" var] by (auto simp: answered_command_def)
  show ?thesis using talk_result [OF assms(1) r t assms(3,4,6) s] command_not_known(2) [OF assms(1,2), of dm c] by simp
qed

section \<open>Reports\<close>

lemma put_lines_step:
  assumes "CHR 0x0A \<notin> set l" and "length l < 255"
  shows "put_lines 256 (l @ newline @ rest) = Out (l @ newline @ newline) # put_lines 256 rest"
  using fgets_line [OF assms, of rest] put_lines.simps [of 256 "l @ newline @ rest"] by (simp add: newline_def)

lemma fgets_end: "CHR 0x0A \<notin> set a \<Longrightarrow> length a < n \<Longrightarrow> fgets_run n a = (a, [], True)"
proof (induction a arbitrary: n)
  case Nil
  then show ?case by (cases n) simp_all
next
  case (Cons c a)
  then show ?case by (cases n) auto
qed

lemma put_lines_end: "CHR 0x0A \<notin> set l \<Longrightarrow> length l < 255 \<Longrightarrow> put_lines 256 l = []"
  using fgets_end [of l 255] put_lines.simps [of 256 l] by simp

lemma put_lines_file:
  assumes "\<forall>l \<in> set (e # ls). CHR 0x0A \<notin> set l \<and> length l < 255"
  shows "put_lines 256 (concat (map (\<lambda>l. l @ newline) ls) @ e) = map (\<lambda>l. Out (l @ newline @ newline)) ls"
  using assms
proof (induction ls)
  case (Cons l ls)
  then show ?case using put_lines_step [of l "concat (map (\<lambda>l. l @ newline) ls) @ e"] by simp
qed (simp add: put_lines_end)

text \<open>
  \<open>boards\<close> and \<open>spans\<close> never show the file of a server that runs as a system service, only that
  of a server of the same user; each line of it is followed by an empty one, and a last line without its
  newline is left out.
\<close>

theorem tool_runfiles_output:
  assumes "cmd = ''boards'' \<or> cmd = ''spans''" and "\<forall>l \<in> set (e # ls). CHR 0x0A \<notin> set l \<and> length l < 255"
    and "tl_files te (fit 256 (''/tmp/bayonne-'' @ tl_user te @ ''/'' @ cmd)) = file"
    and "file = None \<or> file = Some (concat (map (\<lambda>l. l @ newline) ls) @ e)"
  shows "tool_runfiles var [cmd] te =
    (0, case file of None \<Rightarrow> [Out (''none'' @ newline)] | Some f \<Rightarrow> map (\<lambda>l. Out (l @ newline @ newline)) ls)"
proof -
  have "fopen_read te path cmd = None" for path using assms(1) by (auto simp: fopen_read_def)
  then show ?thesis
    using assms(3,4) put_lines_file [OF assms(2)]
    by (auto simp: tool_runfiles_def arg_def fopen_read_def newline_def)
qed

theorem tool_runfiles_output_witness:
  "tool_runfiles ''/var'' [''boards''] (shell_env\<lparr>tl_files := (\<lambda>p. if p = ''/var/run/bayonne/boards'' then Some ''a board''
     else None)\<rparr>) = (0, [Out (''none'' @ newline)])"
  using tool_runfiles_output [of "''boards''" "[]" "[]" "shell_env\<lparr>tl_files := (\<lambda>p. if p = ''/var/run/bayonne/boards''
     then Some ''a board'' else None)\<rparr>" None "''/var''"]
  by (simp add: shell_env_def fit_def)

text \<open>
  The time since the last call that \<open>stats\<close> prints is the time rounded down to its unit, and
  the number stays below 121, or counts days; a node with calls or without a past one
  shows no time.
\<close>

theorem stats_age_rounds:
  assumes "sm_lastcall s \<noteq> 0" and "sm_lastcall s \<le> now" and "statmap_active s = 0"
  shows "\<exists>n sec unit. stats_age now s = show_nat n @ [unit] \<and>
    (unit, sec) \<in> {(CHR ''s'', 1), (CHR ''m'', 60), (CHR ''h'', 3600), (CHR ''d'', 86400)} \<and>
    int (n * sec) \<le> now - sm_lastcall s \<and> now - sm_lastcall s < int ((n + 1) * sec) \<and>
    (n \<le> 120 \<or> unit = CHR ''d'')"
proof -
  let ?age = "now - sm_lastcall s"
  have age: "0 \<le> ?age" using assms(2) by simp
  have d: "show_int (?age div k) = show_nat (nat (?age div k))" if "0 < k" for k
    using age that by (simp add: show_int_def not_less pos_imp_zdiv_nonneg_iff)
  have b: "int (nat (?age div int k) * k) \<le> ?age \<and> ?age < int ((nat (?age div int k) + 1) * k)" if "0 < k" for k
  proof -
    have "int (nat (?age div int k) * k) = ?age div int k * int k"
      using age that by (simp add: pos_imp_zdiv_nonneg_iff)
    moreover have "int ((nat (?age div int k) + 1) * k) = (?age div int k + 1) * int k"
      using age that by (simp add: pos_imp_zdiv_nonneg_iff distrib_right)
    moreover have "?age div int k * int k + ?age mod int k = ?age" by (rule div_mult_mod_eq)
    moreover have "?age mod int k < int k" "0 \<le> ?age mod int k" using that by simp_all
    ultimately show ?thesis by (simp only: distrib_right) linarith
  qed
  consider (days) "?age > 3600 * 99" | (hours) "?age \<le> 3600 * 99" "?age > 60 * 120"
    | (mins) "?age \<le> 60 * 120" "?age > 120" | (secs) "?age \<le> 120" by linarith
  then show ?thesis
  proof cases
    case days
    then show ?thesis
      using b [of 86400] d [of 86400] assms
      by (intro exI [of _ "nat (?age div 86400)"] exI [of _ 86400] exI [of _ "CHR ''d''"]) (simp add: stats_age_def Let_def)
  next
    case hours
    have "?age div 3600 < 100" using hours by simp
    with hours show ?thesis
      using b [of 3600] d [of 3600] assms age
      by (intro exI [of _ "nat (?age div 3600)"] exI [of _ 3600] exI [of _ "CHR ''h''"]) (simp add: stats_age_def Let_def)
  next
    case mins
    have "?age div 60 < 121" using mins by simp
    with mins show ?thesis
      using b [of 60] d [of 60] assms age
      by (intro exI [of _ "nat (?age div 60)"] exI [of _ 60] exI [of _ "CHR ''m''"]) (simp add: stats_age_def Let_def)
  next
    case secs
    then show ?thesis
      using assms age
      by (intro exI [of _ "nat ?age"] exI [of _ 1] exI [of _ "CHR ''s''"]) (simp add: stats_age_def show_int_def Let_def)
  qed
qed

theorem stats_age_rounds_witness:
  "\<exists>n sec unit. stats_age 9000 (zero_node\<lparr>sm_lastcall := 1000\<rparr>) = show_nat n @ [unit] \<and> int (n * sec) \<le> 8000"
proof -
  have "statmap_active (zero_node\<lparr>sm_lastcall := 1000\<rparr>) = 0"
    by (simp add: statmap_active_def zero_node_def zero_entry_def)
  from stats_age_rounds [of "zero_node\<lparr>sm_lastcall := 1000\<rparr>" 9000, OF _ _ this] obtain n sec unit where
    "stats_age 9000 (zero_node\<lparr>sm_lastcall := 1000\<rparr>) = show_nat n @ [unit]" "int (n * sec) \<le> 8000"
    by auto
  then show ?thesis by blast
qed

lemma timeslot_lines_length:
  "length (timeslot_lines n ss) = length (filter (\<lambda>s. mp_started s \<noteq> 0) ss)"
  by (induction ss arbitrary: n) simp_all

lemma active_slots:
  assumes "slots_ok w"
  shows "length (filter (\<lambda>s. mp_started s \<noteq> 0) (map (w_slots w) [0..<w_ts_count w])) + length (w_idle w) = w_ts_count w"
proof -
  let ?P = "\<lambda>i. mp_started (w_slots w i) \<noteq> 0" and ?l = "[0..<w_ts_count w]"
  have "set (filter (\<lambda>i. \<not> ?P i) ?l) = set (w_idle w)"
    using slots_idle [OF assms] slots_started [OF assms] by auto
  then have "length (filter (\<lambda>i. \<not> ?P i) ?l) = length (w_idle w)"
    using slots_distinct(1) [OF assms] by (metis distinct_card distinct_filter distinct_upt)
  then show ?thesis using sum_length_filter_compl [of ?P ?l] by (simp add: filter_map o_def)
qed

text \<open>
  On a consistent server the report of the timeslots counts as active exactly those that are not
  on the idle list: calls and timeslots that are off line together.
\<close>

theorem tool_timeslots_counts:
  assumes "slots_ok w" and "0 < w_ts_count w" and "tl_slots te = map (w_slots w) [0..<w_ts_count w]"
  shows "last (snd (tool_timeslots [cmd] te)) =
    Out (show_nat (w_ts_count w - length (w_idle w)) @ '' of '' @ show_nat (w_ts_count w) @ '' timeslots active'' @ newline)"
proof -
  have "length (timeslot_lines 0 (tl_slots te)) = w_ts_count w - length (w_idle w)"
    using active_slots [OF assms(1)] by (simp add: timeslot_lines_length assms(3))
  moreover have "tl_slots te \<noteq> []" using assms(2,3) by simp
  ultimately show ?thesis by (simp add: tool_timeslots_def Let_def assms(3))
qed

theorem tool_timeslots_counts_witness:
  "last (snd (tool_timeslots [''timeslots''] (shell_env\<lparr>tl_slots := map (w_slots (fresh_world 2)) [0..<2]\<rparr>))) =
     Out (''0 of 2 timeslots active'' @ newline)"
proof -
  have "slots_ok (fresh_world 2)" "0 < w_ts_count (fresh_world 2)" by simp_all
  from tool_timeslots_counts [OF this, of "shell_env\<lparr>tl_slots := map (w_slots (fresh_world 2)) [0..<2]\<rparr>"]
  show ?thesis by (simp add: show_nat.simps)
qed

section \<open>The report of the statistics\<close>

text \<open>The nodes that are given out are those in front, and only they are marked as used.\<close>

definition nodes_allocated :: "sta_map \<Rightarrow> bool" where
  "nodes_allocated m \<longleftrightarrow> sta_used m \<le> sta_count m \<and>
     (\<forall>k < sta_count m. sm_type (sta_nodes m k) = UNUSED \<longleftrightarrow> sta_used m \<le> k)"

datatype node_request = ForBoard nat "32 word option" | ForSpan nat "32 word option" | ForRegistry string "32 word"

fun node_step :: "sta_map \<Rightarrow> node_request \<Rightarrow> sta_map" where
  "node_step m (ForBoard b n) = snd (statmap_getBoard b n m)"
| "node_step m (ForSpan b n) = snd (statmap_getSpan b n m)"
| "node_step m (ForRegistry r n) = snd (statmap_getRegistry r n m)"

lemma take_allocated:
  assumes "nodes_allocated m" and "\<And>s. sm_type (f s) \<noteq> UNUSED"
  shows "nodes_allocated (snd (sta_take f m))"
  using assms by (auto simp: nodes_allocated_def sta_take_def)

interpretation allocation: machine node_step "\<lambda>_ _. True" nodes_allocated
proof
  fix m x
  assume "nodes_allocated m"
  then show "nodes_allocated (node_step m x)"
    by (cases x) (auto simp: statmap_getBoard_def statmap_getSpan_def statmap_getRegistry_def Let_def
        intro!: take_allocated split: option.splits)
qed

lemma create_allocated:
  "statmap_create tot ts_count (\<lambda>m. m) m0 = Some (k, m) \<Longrightarrow> sta_used m0 = 0 \<Longrightarrow> nodes_allocated m"
  by (auto simp: statmap_create_def nodes_allocated_def zero_node_def Let_def split: if_splits)

lemma takeWhile_upt: "k \<le> n \<Longrightarrow> (\<And>i. i < n \<Longrightarrow> P i \<longleftrightarrow> i < k) \<Longrightarrow> takeWhile P [0..<n] = [0..<k]"
proof -
  assume k: "k \<le> n" and P: "\<And>i. i < n \<Longrightarrow> P i \<longleftrightarrow> i < k"
  have "[0..<n] = [0..<k] @ [k..<n]" using upt_add_eq_append [of 0 k "n - k"] k by simp
  moreover have "takeWhile P [k..<n] = []" using P [of k] by (cases "k < n") (simp_all add: upt_rec)
  moreover have "\<forall>i \<in> set [0..<k]. P i" using P k by auto
  ultimately show ?thesis by (simp add: takeWhile_append)
qed

lemma used_nodes_front:
  assumes "nodes_allocated m"
  shows "used_nodes (map (sta_nodes m) [0..<sta_count m]) = map (sta_nodes m) [0..<sta_used m]"
  unfolding used_nodes_def takeWhile_map o_def
  by (subst takeWhile_upt [of "sta_used m"]) (use assms in \<open>auto simp: nodes_allocated_def\<close>)

text \<open>
  However the server's map of statistics was filled (boards, spans, registrations in any order and
  number, more than fit included), the report shows one line for each node that was given out and no other.
\<close>

theorem tool_stats_lists_nodes:
  assumes "statmap_create tot ts_count (\<lambda>m. m) m0 = Some (k, m)" and "sta_used m0 = 0"
    and "m' = run_ops node_step m reqs" and "tl_stats te = map (sta_nodes m') [0..<sta_count m']"
  shows "tool_stats [cmd] te =
    (0, map (\<lambda>j. Out (stats_line (tl_now te) (sta_nodes m' j) @ newline)) [0..<sta_used m']) \<and> 0 < sta_used m'"
proof -
  have a: "nodes_allocated m'"
    unfolding assms(3) by (rule allocation.run_inv_total) (use create_allocated [OF assms(1,2)] in simp_all)
  have mono: "sta_used n \<le> sta_used (run_ops node_step n rs)" for n rs
  proof (induction rs arbitrary: n)
    case (Cons r rs)
    have "sta_used n \<le> sta_used (node_step n r)"
      by (cases r; simp add: statmap_getBoard_def statmap_getSpan_def statmap_getRegistry_def sta_take_def)
    with Cons.IH [of "node_step n r"] show ?case by simp
  qed simp
  have "0 < sta_used m" using assms(1,2) by (auto simp: statmap_create_def Let_def split: if_splits)
  with mono [of m reqs] have used: "0 < sta_used m'" by (simp add: assms(3))
  with a have "tl_stats te \<noteq> []" by (auto simp: nodes_allocated_def assms(4))
  with used show ?thesis by (simp add: tool_stats_def assms(4) used_nodes_front [OF a])
qed

theorem tool_stats_lists_nodes_witness:
  "\<exists>m. statmap_create 2 0 (\<lambda>m. m) (w_sta blank_world) = Some (0, m) \<and>
     length (snd (tool_stats [''stats''] (shell_env\<lparr>tl_stats := map (sta_nodes (node_step m (ForRegistry ''uk'' 4))) [0..<3]\<rparr>))) = 2"
proof -
  obtain m where m: "statmap_create 2 0 (\<lambda>m. m) (w_sta blank_world) = Some (0, m)" "sta_used m = 1" "sta_count m = 3"
    by (simp add: statmap_create_def Let_def blank_world_def)
  have c: "sta_count (node_step m (ForRegistry ''uk'' 4)) = 3" "sta_used (node_step m (ForRegistry ''uk'' 4)) = 2"
    using m by (simp_all add: statmap_getRegistry_def sta_take_def)
  from tool_stats_lists_nodes [OF m(1), of "node_step m (ForRegistry ''uk'' 4)" "[ForRegistry ''uk'' 4]"
      "shell_env\<lparr>tl_stats := map (sta_nodes (node_step m (ForRegistry ''uk'' 4))) [0..<3]\<rparr>" "''stats''"] c m(1)
  show ?thesis by (intro exI [of _ m]) (simp add: blank_world_def)
qed

end
