(* ===== verification/SetupProps.thy ===== *)
theory SetupProps
  imports Setup ControlProps
begin

text \<open>
  Properties of the set-up of the server: the control utility finds the pipe of the server and the file
  of its answers, what a signal makes of the running server, and what the names of files, the levels of
  logging and the log get wrong.
\<close>

section \<open>Where the server and the control utility meet\<close>

lemma set_env_lookup: "set_env kvs e = e ++ map_of (rev kvs)"
proof (induction kvs e rule: set_env.induct)
  case (2 k v kvs e)
  have "e(k \<mapsto> v) = e ++ [k \<mapsto> v]" by simp
  with 2 show ?case by (simp del: map_add_upd map_add_empty add: map_add_assoc)
qed simp

lemma set_env_control:
  "set_env (system_settings bp dname) e ''control'' = Some (bp_var bp @ ''/run/bayonne/control'')"
  "set_env (user_settings pw dname rundir home) e ''control'' = Some (rundir @ ''/control'')"
  by (simp_all add: set_env_lookup system_settings_def user_settings_def)

lemma set_env_other:
  "k \<notin> fst ` set kvs \<Longrightarrow> set_env kvs e k = e k"
  by (simp add: set_env_lookup map_add_dom_app_simps(3) dom_map_of_conv_image_fst)

text \<open>
  The control utility finds the server: a server that runs as a service has the first pipe
  the utility tries, the server of a user who can log in the second one, if that user runs the utility.
\<close>

theorem server_pipe_found:
  assumes "ucommon_ok u" and "length (bp_var bp) < 100" and "length (pw_name pw) < 100"
    and "s = server_parse u bp dname uid (Some pw) e" and "\<And>p. fifos p"
  shows "server_attach u fifos (su_env s) =
    Some (if su_daemon s then tool_pipes (bp_var bp) (pw_name pw) ! 0 else tool_pipes (bp_var bp) (pw_name pw) ! 1)"
  using assms(2,3,5) ucommon_set [OF assms(1)]
  by (simp add: assms(4) server_parse_def Let_def set_env_control server_attach_def tool_pipes_def fit_def)

definition usual_paths :: build_paths where
  "usual_paths = \<lparr>bp_var = ''/var'', bp_cfg = ''/etc'', bp_data = ''/usr/share'', bp_lib = ''/usr/lib''\<rparr>"

definition some_user :: passwd where
  "some_user = \<lparr>pw_name = ''ann'', pw_dir = ''/home/ann'', pw_shell = ''/bin/sh''\<rparr>"

theorem server_pipe_found_witness:
  "server_attach ucommon_ref (\<lambda>_. True)
     (su_env (server_parse ucommon_ref usual_paths ''sip'' 1000 (Some some_user) (\<lambda>_. None))) =
   Some ''/tmp/bayonne-ann/control''"
proof -
  let ?s = "server_parse ucommon_ref usual_paths ''sip'' 1000 (Some some_user) (\<lambda>_. None)"
  have "\<not> su_daemon ?s"
    by (simp add: server_parse_def Let_def some_user_def starts_slash_def ucommon_ref_def)
  with server_pipe_found [OF ucommon_ref_ok _ _ refl, of usual_paths some_user "\<lambda>_. True" "''sip''" 1000 "\<lambda>_. None"]
  show ?thesis by (simp add: usual_paths_def some_user_def tool_pipes_def fit_def)
qed

section \<open>The file of an answer\<close>

lemma fgets_run_split: "fgets_run n s = (a, rest, eof) \<Longrightarrow> s = a @ rest"
  by (induction n s arbitrary: a rest eof rule: fgets_run.induct) (auto split: if_splits prod.splits)

lemma fgets_run_empty: "fgets_run (Suc n) s = ([], rest, eof) \<Longrightarrow> s = []"
  by (cases s) (auto split: if_splits prod.splits)

definition shown :: "tool_effect list \<Rightarrow> string" where
  "shown es = concat (map (\<lambda>e. case e of Out t \<Rightarrow> t | _ \<Rightarrow> []) es)"

lemma copy_lines_all: "shown (copy_lines (Suc (Suc n)) s) = s"
proof (induction "length s" arbitrary: s rule: less_induct)
  case less
  obtain a rest eof where f: "fgets_run (Suc n) s = (a, rest, eof)" by (cases "fgets_run (Suc n) s") auto
  note c = copy_lines.simps [of "Suc (Suc n)" s]
  show ?case
  proof (cases "a = []")
    case True
    with f fgets_run_empty [of n s] c show ?thesis by (simp add: shown_def)
  next
    case False
    with less [of rest] fgets_run_less [OF f [symmetric]] have "shown (copy_lines (Suc (Suc n)) rest) = rest" by simp
    with False f c fgets_run_split [OF f] show ?thesis by (simp add: shown_def)
  qed
qed

text \<open>
  What \<open>snapshot\<close> writes for a process, the control utility of that process shows, all of it and
  unchanged, and removes the file.
\<close>

theorem tool_shows_snapshot:
  assumes "0 < tl_pid te" and "length (show_nat (tl_pid te)) < 200" and "tl_control te" and "tl_writes te"
    and "tl_signal te = SigUSR1" and "0 < timeout"
    and "tl_files te (snapshot_file u e (tl_pid te)) = Some report"
  shows "fst (tool_command argv timeout te) = 0 \<and> shown (snd (tool_command argv timeout te)) = report \<and>
    Removed (snapshot_file u e (tl_pid te)) \<in> set (snd (tool_command argv timeout te))"
proof -
  have p: "snapshot_file u e (tl_pid te) = ''/tmp/.bayonne.'' @ show_nat (tl_pid te)"
    using assms(1,2) by (simp add: snapshot_file_def fit_def)
  have c: "tool_capture te = Removed (snapshot_file u e (tl_pid te)) # copy_lines 512 report"
    using assms(7) by (simp add: tool_capture_def fopen_read_def p)
  have "shown (copy_lines 512 report) = report" using copy_lines_all [of 510 report] by simp
  moreover have "tool_command argv timeout te = (0, Written (request_text (Some (tl_pid te)) argv) # tool_capture te)"
    using assms(3-6) by (simp add: tool_command_def Let_def)
  ultimately show ?thesis by (simp add: c shown_def)
qed

theorem tool_shows_snapshot_witness:
  "shown (snd (tool_command [''snapshot''] 30 (shell_env\<lparr>tl_signal := SigUSR1,
     tl_files := (\<lambda>p. if p = ''/tmp/.bayonne.77'' then Some ''BAYONNE:'' else None)\<rparr>))) = ''BAYONNE:''"
  using tool_shows_snapshot [of "shell_env\<lparr>tl_signal := SigUSR1,
     tl_files := (\<lambda>p. if p = ''/tmp/.bayonne.77'' then Some ''BAYONNE:'' else None)\<rparr>" 30 ucommon_ref "\<lambda>_. None"
     "''BAYONNE:''" "[''snapshot'']"]
  by (simp add: shell_env_def show_nat.simps snapshot_file_def fit_def)

section \<open>Signals\<close>

definition after_signal ::
    "ucommon \<Rightarrow> driver_methods \<Rightarrow> control_env \<Rightarrow> signo \<Rightarrow> control \<Rightarrow> outcome"
where
  "after_signal u dm ce s c =
     (case signal_request s of
        None \<Rightarrow> Continue c
      | Some r \<Rightarrow> (let (cp, rest, c1) = server_receive u [control_line r] c in server_command u dm ce cp c1))"

lemma control_line_requests:
  assumes "ucommon_ok u" and "signal_request s = Some r"
  shows "parse_request u (control_line r) = Some (None, r)"
proof -
  have r: "r \<in> {''timer'', ''down'', ''snapshot'', ''reload''}"
    using assms(2) by (cases s) (auto simp: signal_request_def)
  then have "control_line r = [] @ r @ newline" by (auto simp: control_line_def fit_def newline_def)
  moreover have "strip_chars ([] @ r @ newline) blanks = r"
    by (rule strip_line) (use r in \<open>auto simp: c_isspace_def\<close>)
  ultimately show ?thesis
    using assms(1) r by (auto simp: parse_request_def starts_slash_def starts_digit_def c_isdigit_def)
qed

lemma signal_received:
  assumes "ucommon_ok u" and "signal_request s = Some r"
  shows "server_receive u (control_line r # ls) c = (r, ls, server_reply None c)"
  using control_line_requests [OF assms] by (simp add: server_receive_def Let_def)

text \<open>
  What a signal does to the running server: \<^verbatim>\<open>SIGINT\<close> and \<^verbatim>\<open>SIGTERM\<close> end the loop, and
  \<^verbatim>\<open>SIGALRM\<close>, which comes after every 900 seconds without another signal, changes nothing but logs an error,
  because no command is called \<open>timer\<close>.
\<close>

theorem server_signal_actions:
  assumes "ucommon_ok u" and "ct_target c = None" and "u_tokens u ''timer'' ('' '' @ [CHR 0x09]) ''{}'' = [''timer'']"
  shows "after_signal u dm ce SIGINT c = Quit c \<and> after_signal u dm ce SIGTERM c = Quit c \<and>
    (\<exists>c'. after_signal u dm ce SIGALRM c = Continue c' \<and> ct_world c' = ct_world c \<and>
       signals (ct_trace c') = signals (ct_trace c) \<and>
       error_logs (ct_trace c') = error_logs (ct_trace c) @ [''control failed; unknown command''])"
proof -
  note rcv = signal_received [OF assms(1)]
  have down: "after_signal u dm ce s c = Quit c" if "s = SIGINT \<or> s = SIGTERM" for s
    using that rcv [of s "''down''" "[]" c] assms(1,2)
    by (auto simp: after_signal_def signal_request_def server_command_def)
  have cmd: "server_command u dm ce ''timer'' c = driver_command u dm ''unknown command'' [''timer''] c"
    using assms(1,3) by (simp add: server_command_def command_words_def timeslot_command_def slot_event_def arg_def)
  have alrm: "after_signal u dm ce SIGALRM c = driver_command u dm ''unknown command'' [''timer''] c"
    using rcv [of SIGALRM "''timer''" "[]" c] assms(2) cmd by (simp add: after_signal_def signal_request_def)
  have e: "\<exists>c'. command_error (Some ''unknown command'') x = Continue c' \<and> ct_world c' = ct_world c \<and>
      signals (ct_trace c') = signals (ct_trace c) \<and>
      error_logs (ct_trace c') = error_logs (ct_trace c) @ [''control failed; unknown command'']"
    if "ct_world x = ct_world c" "ct_trace x = ct_trace c" "ct_target x = None" for x
    using that by (simp add: command_error_def server_reply_def control_do_def Let_def)
  have "\<exists>c'. driver_command u dm ''unknown command'' [''timer''] c = Continue c' \<and> ct_world c' = ct_world c \<and>
      signals (ct_trace c') = signals (ct_trace c) \<and>
      error_logs (ct_trace c') = error_logs (ct_trace c) @ [''control failed; unknown command'']"
    using assms(1,2)
    by (simp add: driver_command_def Driver_dispatch_def arg_def e split: prod.split option.split)
  with down alrm show ?thesis by simp
qed

theorem server_signal_actions_witness:
  "after_signal word_tokens (sip_methods word_tokens (\<lambda>_ _. True)) request_env SIGTERM idle_control = Quit idle_control"
proof -
  have "ucommon_ok word_tokens" by (simp add: ucommon_ok_def word_tokens_def ucommon_ref_def)
  from server_signal_actions [OF this, of idle_control "sip_methods word_tokens (\<lambda>_ _. True)" request_env] show ?thesis
    by (simp add: word_tokens_def idle_control_def)
qed

text \<open>
  C33. A signal to end is obeyed: whatever signals come before, once \<^verbatim>\<open>SIGTERM\<close> or \<^verbatim>\<open>SIGINT\<close> is among those
  that the signal thread has passed on, the control loop does not go on waiting for requests.
\<close>

theorem server_term_ends_loop:
  assumes "ucommon_ok u" and "t = SIGTERM \<or> t = SIGINT" and "(t, False) \<in> set ss" and "list_all (\<lambda>x. \<not> snd x) ss"
    and "length ss \<le> length ces"
  shows "{c'. server_dispatch u dm ces (psignals_run ss) c = Continue c'} = {}"
  using assms(3-5)
proof (induction ss arbitrary: ces c)
  case (Cons x ss)
  obtain s where x: "x = (s, False)" using Cons.prems(2) by (cases x) auto
  obtain ce ces' where ces: "ces = ce # ces'" "length ss \<le> length ces'" using Cons.prems(3) by (cases ces) auto
  show ?case
  proof (cases "signal_request s")
    case None
    then have "s \<noteq> t" using assms(2) by (auto simp: signal_request_def)
    with Cons.IH [of ces] Cons.prems x None show ?thesis by simp
  next
    case (Some r)
    note rcv = signal_received [OF assms(1) Some, of "psignals_run ss" c]
    show ?thesis
    proof (cases "s = t")
      case True
      with assms(2) Some have "r = ''down''" by (auto simp: signal_request_def)
      with assms(1) x Some rcv ces(1) show ?thesis by (simp add: server_command_def)
    next
      case False
      with Cons.prems(1) x have "(t, False) \<in> set ss" by auto
      from Cons.IH [OF this _ ces(2)] Cons.prems(2) x Some rcv ces(1) show ?thesis
        by (auto split: outcome.splits)
    qed
  qed
qed simp

theorem server_term_ends_loop_witness:
  "{c'. server_dispatch ucommon_ref (sip_methods ucommon_ref (\<lambda>_ _. True)) [request_env, request_env]
     (psignals_run [(OTHER_SIGNAL, False), (SIGTERM, False)]) idle_control = Continue c'} = {}"
  by (rule server_term_ends_loop [of _ SIGTERM]) simp_all

section \<open>What the set-up gets wrong\<close>

lemma scripts_not_set: "''scripts'' \<notin> fst ` set (system_settings bp dname)"
  "''scripts'' \<notin> fst ` set (user_settings p dname rundir home)"
  by (simp_all add: system_settings_def user_settings_def)

text \<open>
  The set-up never names the directory of scripts: the driver looks it up as \<open>scripts\<close>, the set-up names
  it \<open>services\<close>. Unless the variable comes from outside, the driver is made without any service.
\<close>

theorem server_scripts_never_set:
  "su_env (server_parse u bp dname uid pw e) ''scripts'' = e ''scripts'' \<and>
   dc_services (Driver_construct u sl sections defs None) = []"
proof -
  have "su_env (server_parse u bp dname uid pw e) ''scripts'' = e ''scripts''"
    by (simp add: server_parse_def Let_def set_env_other scripts_not_set split: option.split)
  then show ?thesis by (simp add: Driver_construct_def Let_def)
qed

lemma atoi_no: "atoi (''no'' @ s) = 0"
  by (simp add: atoi_def strtol10_def c_isspace_def c_isdigit_def Let_def)

text \<open>
  Every name of a level that begins with \<open>no\<close> selects the level of failures, because \<open>no\<close> is tested
  before \<open>noti\<close>: the level of notices cannot be selected by its name.
\<close>

theorem startup_level_notify:
  assumes "ucommon_ok u"
  shows "startup_level u lv None (''no'' @ rest) None = lv_fail lv"
  using assms atoi_no [of rest] by (simp add: startup_level_def)

theorem startup_level_notify_witness:
  "startup_level ucommon_ref \<lparr>lv_fail = 0, lv_err = 1, lv_warn = 2, lv_notify = 3, lv_info = 4, lv_debug0 = 5\<rparr>
     None ''notify'' None = 0"
  using startup_level_notify [OF ucommon_ref_ok, of "\<lparr>lv_fail = 0, lv_err = 1, lv_warn = 2, lv_notify = 3, lv_info = 4,
     lv_debug0 = 5\<rparr>" "''tify''"] by simp

text \<open>
  A line for the log whose text does not end with a newline is written correctly only if the memory behind it
  happens to hold a NUL; otherwise what stands there is written to the log too.
\<close>

theorem printlog_stale_bytes:
  assumes "text \<noteq> []" and "last text \<noteq> CHR 0x0A" and "length text \<le> 1022"
  shows "printlog_line text rest = text @ [CHR 0x0A] \<longleftrightarrow> rest = [] \<or> hd rest = CHR 0x00"
  using assms by (cases rest) (auto simp: printlog_line_def fit_def Let_def)

theorem printlog_stale_bytes_witness:
  "printlog_line ''server starting'' ''xyz'' \<noteq> ''server starting'' @ [CHR 0x0A]"
  by (subst printlog_stale_bytes) simp_all

end
