(* ===== verification/Lint.thy ===== *)
theory Lint
  imports Driver
begin

text \<open>
  The script checker (\<open>utils/baylint.cpp\<close>): its options, the definitions it compiles a script on, and the
  checks that decide its exit status. The script compiler is the one of \<open>Driver\<close>; whether a
  path is a file or a directory is asked of the file system. At the end, what it says of the scripts
  that a server loads.
\<close>

section \<open>Options\<close>

record lint_options =
  lo_driver :: "string option"
  lo_modules :: "string option"
  lo_lintfiles :: string

datatype lint_parse = LintExit int | LintRun lint_options "string list"

text \<open>
  The loop over the arguments. Of an option that begins with two dashes the first is skipped. An option
  with a value takes the next argument or the text behind the equals sign.
\<close>

definition skip_dash :: "ucommon \<Rightarrow> string \<Rightarrow> string" where
  "skip_dash u a = (if u_eqn u a ''--'' 2 then drop 1 a else a)"

fun lint_parse_args :: "ucommon \<Rightarrow> lint_options \<Rightarrow> string list \<Rightarrow> lint_parse" where
  "lint_parse_args u lo [] = LintRun lo []"
| "lint_parse_args u lo (a # as) =
     (let b = skip_dash u a
      in if u_eq u a ''--'' then LintRun lo as
         else if u_eq u b ''-version'' then LintExit 0
         else if u_eq u b ''-l'' \<or> u_eq u b ''-lint''
         then (case as of [] \<Rightarrow> LintExit (- 1) | v # as' \<Rightarrow> lint_parse_args u (lo\<lparr>lo_lintfiles := v\<rparr>) as')
         else if u_eqn u b ''-lint='' 6 then lint_parse_args u (lo\<lparr>lo_lintfiles := drop 6 b\<rparr>) as
         else if u_eq u b ''-d'' \<or> u_eq u b ''-driver''
         then (case as of [] \<Rightarrow> LintExit (- 1) | v # as' \<Rightarrow> lint_parse_args u (lo\<lparr>lo_driver := Some v\<rparr>) as')
         else if u_eqn u b ''-driver='' 8 then lint_parse_args u (lo\<lparr>lo_driver := Some (drop 8 b)\<rparr>) as
         else if u_eq u b ''-m'' \<or> u_eq u b ''-modules''
         then (case as of [] \<Rightarrow> LintExit (- 1) | v # as' \<Rightarrow> lint_parse_args u (lo\<lparr>lo_modules := Some v\<rparr>) as')
         else if u_eqn u b ''-modules='' 9 then lint_parse_args u (lo\<lparr>lo_driver := Some (drop 9 b)\<rparr>) as
         else if u_eq u b ''-?'' \<or> u_eq u b ''-h'' \<or> u_eq u b ''-help'' then LintExit 0
         else if (case b of [] \<Rightarrow> False | c # _ \<Rightarrow> c = CHR ''-'') then LintExit (- 1)
         else LintRun lo (b # as))"

section \<open>Definitions\<close>

text \<open>
  The definitions that are asked for: the driver's, then one for each name in the list of modules. A name
  without a slash or a dot is a file of the lint directory.
\<close>

definition lint_defs :: "ucommon \<Rightarrow> lint_options \<Rightarrow> string list" where
  "lint_defs u lo =
     (case lo_driver lo of None \<Rightarrow> [] | Some d \<Rightarrow> [d]) @
     (case lo_modules lo of None \<Rightarrow> [] | Some m \<Rightarrow> u_tokens u m ('' '' @ [CHR 0x09] @ '',;:'') [])"

definition lint_path :: "lint_options \<Rightarrow> string \<Rightarrow> string" where
  "lint_path lo dn =
     (if strchr dn (CHR ''/'') = None \<and> strchr dn (CHR ''.'') = None
      then fit 256 (lo_lintfiles lo @ ''/'' @ dn @ ''.lint'') else dn)"

text \<open>
  Each file that exists is compiled on top of the others. When one cannot be compiled the list of its errors is
  taken from a null pointer (\<open>None\<close>).
\<close>

fun lint_compile_defs :: "(string \<Rightarrow> bool) \<Rightarrow> script_lib \<Rightarrow> lint_options \<Rightarrow> nat option \<Rightarrow> string list \<Rightarrow> nat option option" where
  "lint_compile_defs is_file sl lo lib [] = Some lib"
| "lint_compile_defs is_file sl lo lib (dn # dns) =
     (if \<not> is_file (lint_path lo dn) then lint_compile_defs is_file sl lo lib dns
      else case sl_define sl lib (lint_path lo dn) of
             None \<Rightarrow> None
           | Some l \<Rightarrow> lint_compile_defs is_file sl lo (Some l) dns)"

section \<open>The check of a script\<close>

definition script_extension :: "ucommon \<Rightarrow> string \<Rightarrow> bool" where
  "script_extension u fn =
     (let ext = (case strrchr fn (CHR ''.'') of None \<Rightarrow> [] | Some e \<Rightarrow> e)
      in u_eq u ext ''.ics'' \<or> u_eq u ext ''.ocs'' \<or> u_eq u ext ''.dcs'')"

text \<open>
  The exit status; \<open>None\<close> where the code uses a null pointer or writes behind the table of 128 definitions. \<open>lib0\<close> is the default lint directory of
  the build. A missing extension compares as an empty text.
\<close>

definition lint_check ::
    "ucommon \<Rightarrow> (string \<Rightarrow> bool) \<Rightarrow> (string \<Rightarrow> bool) \<Rightarrow> script_lib \<Rightarrow> lint_options \<Rightarrow> string list \<Rightarrow> int option"
where
  "lint_check u is_file is_dir sl lo args =
     (case args of
        [] \<Rightarrow> Some (- 1)
      | fn # _ \<Rightarrow>
          if \<not> is_file fn then Some (- 1)
          else if (lo_driver lo \<noteq> None \<or> lo_modules lo \<noteq> None) \<and> \<not> is_dir (lo_lintfiles lo) then Some (- 1)
          else if 128 < length (lint_defs u lo) then None
          else case lint_compile_defs is_file sl lo None (lint_defs u lo) of
                 None \<Rightarrow> None
               | Some lib \<Rightarrow>
                   (case sl_compile sl fn lib of
                      None \<Rightarrow> Some (- 1)
                    | Some img \<Rightarrow>
                        if \<not> script_extension u fn then Some 1
                        else if sl_errors sl img \<noteq> 0 then Some 2 else Some 0))"

definition baylint ::
    "ucommon \<Rightarrow> (string \<Rightarrow> bool) \<Rightarrow> (string \<Rightarrow> bool) \<Rightarrow> script_lib \<Rightarrow> string \<Rightarrow> string list \<Rightarrow> int option"
where
  "baylint u is_file is_dir sl lib0 argv =
     (case lint_parse_args u \<lparr>lo_driver = None, lo_modules = None, lo_lintfiles = lib0\<rparr> argv of
        LintExit n \<Rightarrow> Some n
      | LintRun lo args \<Rightarrow> lint_check u is_file is_dir sl lo args)"

section \<open>Lemmas\<close>

lemma lint_check_zero:
  assumes "lint_check u is_file is_dir sl lo args = Some 0"
  obtains fn rest lib img where "args = fn # rest" "is_file fn" "script_extension u fn"
    "lint_compile_defs is_file sl lo None (lint_defs u lo) = Some lib" "sl_compile sl fn lib = Some img"
    "sl_errors sl img = 0"
  using assms by (auto simp: lint_check_def split: list.splits if_splits option.splits)

lemma server_script_extension:
  assumes "ucommon_ok u" and "script_file u fn"
  shows "\<not> script_extension u (path @ ''/'' @ fn)"
proof -
  obtain nm where n: "fn = nm @ ''.bcs''" using script_file_iff [OF assms(1)] assms(2) by blast
  have "strrchr ((path @ ''/'' @ nm) @ CHR ''.'' # ''bcs'') (CHR ''.'') = Some ''.bcs''"
    by (subst strrchr_append_notin) simp_all
  then show ?thesis using assms(1) by (simp add: script_extension_def n)
qed

section \<open>Properties\<close>

text \<open>
  No script that a server loads passes the checker: the server compiles only files whose names end in
  \<^verbatim>\<open>.bcs\<close>, and the checker refuses that ending, whatever the file contains.
\<close>

theorem lint_refuses_services:
  assumes "ucommon_ok u" and "compile_service u sl path n d \<noteq> d"
  shows "lint_check u is_file is_dir sl' lo [path @ ''/'' @ n] \<noteq> Some 0"
proof
  have "script_file u n" using assms(2) by (auto simp: compile_service_def split: if_splits)
  note ext = server_script_extension [OF assms(1) this, of path]
  assume "lint_check u is_file is_dir sl' lo [path @ ''/'' @ n] = Some 0"
  then show False by (rule lint_check_zero) (use ext in auto)
qed

theorem lint_refuses_services_witness:
  "lint_check ucommon_ref (\<lambda>_. True) (\<lambda>_. True) sample_lib
     \<lparr>lo_driver = None, lo_modules = None, lo_lintfiles = ''lint''\<rparr> [''dir/main.bcs''] \<noteq> Some 0"
proof -
  let ?d = "\<lparr>dc_sections = (\<lambda>_. None), dc_definitions = None, dc_images = [], dc_services = [], dc_log = []\<rparr>"
  have "dc_images (compile_service ucommon_ref sample_lib ''dir'' ''main.bcs'' ?d) \<noteq> []"
    by (simp add: compile_service_def script_file_def sample_lib_def)
  then have "compile_service ucommon_ref sample_lib ''dir'' ''main.bcs'' ?d \<noteq> ?d" by auto
  from lint_refuses_services [OF ucommon_ref_ok this] show ?thesis by simp
qed

text \<open>
  The option for modules with an equals sign is taken for the driver: the modules are not looked at, and
  a driver named before is forgotten.
\<close>

lemma lint_modules_sets_driver:
  assumes "ucommon_ok u"
  shows "lint_parse_args u lo ((''--modules='' @ m) # as) = lint_parse_args u lo ((''--driver='' @ m) # as)"
  using assms by (simp add: skip_dash_def)

end
