(* ===== verification/Vpb.thy ===== *)
theory Vpb
  imports Segment Driver
begin

text \<open>
  The Voicetronix driver (\<open>vpb/board.cpp\<close>, \<open>vpb/driver.cpp\<close>): the boards and the ranges of timeslots
  they take, and \<open>start\<close>. What the vendor's library says of the cards (their number, the ports of each) is
  an argument. Its class of timeslots is declared but not written.
\<close>

section \<open>Boards\<close>

text \<open>The counters of the file, and that of the base class (\<open>boards\<close>).\<close>

record vpb_state =
  vb_tsid :: "32 word"
  vb_spcount :: "32 word"
  vb_boards :: nat

definition vpb_board :: "(nat \<Rightarrow> 32 word) \<Rightarrow> nat \<Rightarrow> vpb_state \<times> world \<Rightarrow> vpb_state \<times> world" where
  "vpb_board ports b = (\<lambda>(v, w).
     (let (boards, w1) = Board_construct b (vb_boards v) w;
          inst = sg_instance (w_boards w1 b);
          w2 = upd_seg (BoardRef b) (\<lambda>s. s\<lparr>sg_first := unat (vb_tsid v), sg_count := unat (ports inst)\<rparr>) w1;
          v1 = v\<lparr>vb_boards := boards, vb_tsid := vb_tsid v + ports inst\<rparr>;
          spans = sg_spans (w_boards w2 b)
      in if spans \<noteq> 0
         then (v1\<lparr>vb_spcount := vb_spcount v1 + of_nat spans\<rparr>,
               upd_seg (BoardRef b) (\<lambda>s. s\<lparr>sg_first := unat (vb_spcount v1)\<rparr>) w2)
         else (v1, w2)))"

text \<open>\<open>new board[n]\<close> constructs the boards in order.\<close>

definition vpb_boards :: "(nat \<Rightarrow> 32 word) \<Rightarrow> nat \<Rightarrow> vpb_state \<times> world \<Rightarrow> vpb_state \<times> world" where
  "vpb_boards ports n s = fold (vpb_board ports) [0..<n] s"

section \<open>Start\<close>

text \<open>
  \<open>start\<close> takes a reference to the active driver for its keys. The number of timeslots is not set here
  (the line is commented out), and nothing else in the driver sets it.
\<close>

definition vpb_start ::
    "(nat \<Rightarrow> 32 word) \<Rightarrow> nat \<Rightarrow> vpb_state \<Rightarrow> hub \<Rightarrow> world \<Rightarrow> (vpb_state \<times> hub \<times> world) option"
where
  "vpb_start ports cards v h w =
     (case Driver_active h of
        (None, h1) \<Rightarrow> None
      | (Some drv, h1) \<Rightarrow>
          (let w1 = w\<lparr>w_board_count := cards\<rparr>
           in if cards = 0 then Some (v, h1, w1)
              else let (v2, w2) = vpb_boards ports cards (v, w1)
                   in case statmap_create (of_nat cards + vb_spcount v2) (of_nat (w_ts_count w2)) (\<lambda>m. m) (w_sta w2) of
                        None \<Rightarrow> None
                      | Some (k, m) \<Rightarrow>
                          (let w3 = Board_allocate (vb_boards v2) (w2\<lparr>w_sta := m, w_drv_stats := Some k\<rparr>)
                           in if w_ts_count w3 = 0 then Some (v2, h1, w3)
                              else let (files, h2, w4) = Driver_start True True h1 w3
                                   in Some (v2, Driver_release_driver (Some drv) h2, w4))))"

section \<open>The ranges of the boards\<close>

text \<open>Ports of the boards before \<open>b\<close>.\<close>

definition ports_before :: "(nat \<Rightarrow> 32 word) \<Rightarrow> nat \<Rightarrow> nat" where
  "ports_before ports b = (\<Sum>i < b. unat (ports i))"

lemma ports_before_simps [simp]:
  "ports_before ports 0 = 0" "ports_before ports (Suc n) = ports_before ports n + unat (ports n)"
  by (simp_all add: ports_before_def)

lemma ports_before_mono: "a \<le> b \<Longrightarrow> ports_before ports a \<le> ports_before ports b"
  unfolding ports_before_def by (rule sum_mono2) auto

definition ranges_ok :: "(nat \<Rightarrow> 32 word) \<Rightarrow> nat \<Rightarrow> vpb_state \<times> world \<Rightarrow> bool" where
  "ranges_ok ports n = (\<lambda>(v, w). vb_boards v = n \<and> vb_spcount v = 0 \<and> unat (vb_tsid v) = ports_before ports n \<and>
     (\<forall>b < n. sg_first (w_boards w b) = ports_before ports b \<and> sg_count (w_boards w b) = unat (ports b) \<and>
        sg_instance (w_boards w b) = b \<and> sg_live (w_boards w b)))"

lemma vpb_board_ranges:
  assumes "ranges_ok ports n s" and "ports_before ports (Suc n) < 2 ^ 32"
  shows "ranges_ok ports (Suc n) (vpb_board ports n s)"
proof -
  obtain v w where s: "s = (v, w)" by (cases s)
  have v: "vb_boards v = n" "vb_spcount v = 0" "unat (vb_tsid v) = ports_before ports n"
    using assms(1) by (simp_all add: ranges_ok_def s)
  have "unat (vb_tsid v + ports n) = ports_before ports (Suc n)"
    using assms(2) v(3) by (simp add: unat_word_ariths)
  with assms(1) v show ?thesis
    by (auto simp: ranges_ok_def s vpb_board_def Board_construct_def Segment_construct_def Let_def less_Suc_eq)
qed

lemma vpb_boards_ranges:
  assumes "vb_boards v = 0" and "vb_tsid v = 0" and "vb_spcount v = 0" and "ports_before ports n < 2 ^ 32"
  shows "ranges_ok ports n (vpb_boards ports n (v, w))"
  using assms(4)
proof (induction n)
  case 0
  then show ?case using assms(1-3) by (simp add: ranges_ok_def vpb_boards_def)
next
  case (Suc n)
  have "ports_before ports n < 2 ^ 32" using Suc.prems ports_before_mono [of n "Suc n" ports] by simp
  from vpb_board_ranges [OF Suc.IH [OF this] Suc.prems] show ?case by (simp add: vpb_boards_def)
qed

text \<open>
  The boards of the Voicetronix driver share out the timeslots without gap or overlap: each begins where the
  one before ends, and their number of timeslots in all is where the last one ends.
\<close>

theorem vpb_boards_partition:
  assumes "vb_boards v = 0" and "vb_tsid v = 0" and "vb_spcount v = 0" and "ports_before ports n < 2 ^ 32"
    and "vpb_boards ports n (v, w) = (v', w')"
  shows "unat (vb_tsid v') = ports_before ports n \<and>
    (\<forall>t < ports_before ports n. \<exists>!b. b < n \<and> sg_first (w_boards w' b) \<le> t \<and>
       t < sg_first (w_boards w' b) + sg_count (w_boards w' b))"
proof -
  have ok: "ranges_ok ports n (v', w')" using vpb_boards_ranges [OF assms(1-4)] assms(5) by metis
  have ex: "\<exists>b < n. ports_before ports b \<le> t \<and> t < ports_before ports (Suc b)" if "t < ports_before ports n" for t
    using that by (induction n) (auto simp: less_Suc_eq, (metis add_lessD1 leI less_Suc_eq ports_before_simps(2))?)
  have un: "b = c" if "ports_before ports b \<le> t" "t < ports_before ports (Suc b)"
    "ports_before ports c \<le> t" "t < ports_before ports (Suc c)" for b c t
    using ports_before_mono [of "Suc b" c ports] ports_before_mono [of "Suc c" b ports] that
    by (cases b c rule: linorder_cases) auto
  have "\<exists>!b. b < n \<and> sg_first (w_boards w' b) \<le> t \<and> t < sg_first (w_boards w' b) + sg_count (w_boards w' b)"
    if t: "t < ports_before ports n" for t
  proof -
    obtain b where b: "b < n" "ports_before ports b \<le> t" "t < ports_before ports (Suc b)" using ex [OF t] by blast
    show ?thesis
    proof (rule ex1I [of _ b])
      show "b < n \<and> sg_first (w_boards w' b) \<le> t \<and> t < sg_first (w_boards w' b) + sg_count (w_boards w' b)"
        using ok b by (simp add: ranges_ok_def)
    next
      fix c
      assume a: "c < n \<and> sg_first (w_boards w' c) \<le> t \<and> t < sg_first (w_boards w' c) + sg_count (w_boards w' c)"
      have "ports_before ports c \<le> t" "t < ports_before ports (Suc c)"
        using ok a by (auto simp: ranges_ok_def)
      then show "c = b" using un b(2,3) by blast
    qed
  qed
  with ok show ?thesis by (simp add: ranges_ok_def)
qed

theorem vpb_boards_partition_witness:
  "\<exists>v' w'. vpb_boards (\<lambda>b. if b = 0 then 4 else 8) 2
       (\<lparr>vb_tsid = 0, vb_spcount = 0, vb_boards = 0\<rparr>, undefined) = (v', w') \<and> unat (vb_tsid v') = 12"
proof -
  let ?v = "\<lparr>vb_tsid = 0, vb_spcount = 0, vb_boards = 0\<rparr>" and ?p = "\<lambda>b. if b = 0 then 4 else 8 :: 32 word"
  obtain v' w' where r: "vpb_boards ?p 2 (?v, undefined) = (v', w')" by fastforce
  have two: "(2 :: nat) = Suc (Suc 0)" by simp
  have n: "ports_before ?p 2 = 12" by (simp only: two ports_before_simps) simp
  from vpb_boards_partition [OF _ _ _ _ r] n show ?thesis using r by simp
qed

lemma vpb_boards_ts_count: "w_ts_count (snd (vpb_boards ports n s)) = w_ts_count (snd s)"
  by (induction n) (auto simp: vpb_boards_def vpb_board_def Board_construct_def Let_def split: prod.splits)

lemma Board_allocate_ts_count [simp]: "w_ts_count (Board_allocate n w) = w_ts_count w"
  by (induction n) (auto simp: Board_allocate1_def Let_def split: prod.splits option.splits)

lemma Driver_active_cases:
  "Driver_active h = (None, h1) \<Longrightarrow> hb_active h = None"
  "Driver_active h = (Some d, h1) \<Longrightarrow> h1 = hub_do [LockAccess] h"
  by (auto simp: Driver_active_def Let_def split: option.splits)

lemma vpb_start_early:
  assumes "w_ts_count w = 0" and "vpb_start ports cards v h w = Some (v', h', w')"
  shows "hb_trace h' = hb_trace h @ [LockAccess] \<and> lock_depth (hb_trace h') = lock_depth (hb_trace h) + 1 \<and>
    w_ts_count w' = 0"
proof -
  from assms(2) obtain drv h1 where a: "Driver_active h = (Some drv, h1)"
    by (cases "Driver_active h" rule: prod.exhaust) (auto simp: vpb_start_def split: option.splits)
  have n: "w_ts_count x = 0" if "vpb_boards ports cards (v, w\<lparr>w_board_count := cards\<rparr>) = (y, x)" for x y
    using assms(1) that vpb_boards_ts_count [of ports cards "(v, w\<lparr>w_board_count := cards\<rparr>)"] by simp
  from assms have "h' = h1 \<and> w_ts_count w' = 0"
    by (auto dest!: n simp: vpb_start_def a Let_def split: if_splits prod.splits option.splits)
  with Driver_active_cases(2) [OF a] show ?thesis by simp
qed

text \<open>
  The Voicetronix driver never gets as far as the start of the base class: as nothing sets the number of its
  timeslots, \<open>start\<close> returns early, without its plugins having been told, without the thread that logs
  calls, and with the reference to the configuration it has taken, so that the lock on it is held from then on
  and a later reload waits for ever.
\<close>

theorem vpb_start_never_starts:
  assumes "w_ts_count w = 0" and "vpb_start ports cards v h w = Some (v', h', w')"
  shows "hb_trace h' = hb_trace h @ [LockAccess] \<and> lock_depth (hb_trace h') = lock_depth (hb_trace h) + 1 \<and>
    w_ts_count w' = 0"
  using assms by (rule vpb_start_early)

definition idle_hub :: hub where
  "idle_hub = \<lparr>hb_active = Some \<lparr>dc_sections = (\<lambda>_. None), dc_definitions = None, dc_images = [], dc_services = [], dc_log = []\<rparr>,
     hb_callbacks = [], hb_settings = \<lparr>sx_stacking = 0, sx_decimals = 0, sx_stepping = 0,
       sx_paging = 0, sx_sizing = 0, sx_indexing = 0\<rparr>, hb_fault = False, hb_trace = []\<rparr>"

theorem vpb_start_never_starts_witness:
  "\<exists>h'. vpb_start (\<lambda>_. 4) 0 \<lparr>vb_tsid = 0, vb_spcount = 0, vb_boards = 0\<rparr> idle_hub blank_world =
      Some (\<lparr>vb_tsid = 0, vb_spcount = 0, vb_boards = 0\<rparr>, h', blank_world) \<and> lock_depth (hb_trace h') = 1"
proof -
  let ?v = "\<lparr>vb_tsid = 0, vb_spcount = 0, vb_boards = 0\<rparr>"
  have s: "vpb_start (\<lambda>_. 4) 0 ?v idle_hub blank_world = Some (?v, hub_do [LockAccess] idle_hub, blank_world)"
    by (simp add: vpb_start_def Driver_active_def idle_hub_def hub_do_def blank_world_def)
  from vpb_start_never_starts [OF _ s] show ?thesis
    using s by (simp add: blank_world_def idle_hub_def)
qed

end
