(* ===== verification/VoipLegacy.thy ===== *)
theory VoipLegacy
  imports Voip
begin

text \<open>
  The second half of \<^verbatim>\<open>sipw/voip.cpp\<close>: the wrappers for the older interface of the eXosip library,
  which has one lock and one context in all, each written out as the source has it; and the setters of
  message headers and bodies, which both halves share. The two halves are compared: whatever the driver asks
  of them, and in whatever order, they ask the same of the library.
\<close>

section \<open>The wrappers of the older interface\<close>

definition legacy_locked :: "xcall list \<Rightarrow> xtrace \<Rightarrow> xtrace" where
  "legacy_locked xs t = t @ [XLock None] @ map (XCall None) xs @ [XUnlock None]"

definition legacy_make :: "(xbuild \<Rightarrow> nat option) \<Rightarrow> bool \<Rightarrow> xbuild \<Rightarrow> xtrace \<Rightarrow> nat option \<times> xtrace" where
  "legacy_make builds place b t =
     (if \<not> place then (None, t)
      else let t1 = t @ [XLock None, XCall None (Build b)]
           in case builds b of None \<Rightarrow> (None, t1 @ [XUnlock None]) | Some m \<Rightarrow> (Some m, t1))"

definition legacy_status :: "(nat option \<Rightarrow> xcall) \<Rightarrow> nat option \<Rightarrow> xtrace \<Rightarrow> xtrace" where
  "legacy_status x msg t =
     (let t1 = (if msg = None then t @ [XLock None] else t) in t1 @ [XCall None (x msg), XUnlock None])"

definition legacy_built :: "(nat \<Rightarrow> xcall) \<Rightarrow> nat option \<Rightarrow> xtrace \<Rightarrow> xtrace" where
  "legacy_built x msg t = (case msg of None \<Rightarrow> t | Some m \<Rightarrow> t @ [XCall None (x m), XUnlock None])"

definition legacy_publish ::
    "(xbuild \<Rightarrow> nat option) \<Rightarrow> string \<Rightarrow> string \<Rightarrow> string \<Rightarrow> string \<Rightarrow> string \<Rightarrow> string \<Rightarrow> xtrace \<Rightarrow> bool \<times> xtrace"
where
  "legacy_publish builds uri contact event duration ty body t =
     (let b = PublishRequest uri contact event duration ty body; t1 = t @ [XLock None, XCall None (Build b)]
      in case builds b of
           Some m \<Rightarrow> (True, t1 @ [XCall None (Publish m uri), XUnlock None])
         | None \<Rightarrow> (False, t1 @ [XUnlock None]))"

definition legacy_call_reference :: "int \<Rightarrow> nat \<Rightarrow> xtrace \<Rightarrow> xtrace" where
  "legacy_call_reference cid route = legacy_locked [SetReference cid route]"

definition legacy_option :: "nat option \<Rightarrow> int \<Rightarrow> nat option \<Rightarrow> xtrace \<Rightarrow> xtrace" where
  "legacy_option ctx opt v t =
     (if ctx \<noteq> None then (case v of None \<Rightarrow> t | Some x \<Rightarrow> legacy_locked [SetOption opt x] t) else t)"

definition legacy_add_authentication :: "string \<Rightarrow> string \<Rightarrow> string \<Rightarrow> bool \<Rightarrow> xtrace \<Rightarrow> xtrace" where
  "legacy_add_authentication user secret realm automatic =
     legacy_locked (AddAuthInfo user user secret realm # (if automatic then [AutomaticAction] else []))"

definition legacy_free_message_request :: "nat option \<Rightarrow> xtrace \<Rightarrow> xtrace" where
  "legacy_free_message_request msg t = t @ (case msg of None \<Rightarrow> [] | Some m \<Rightarrow> [XFree m]) @ [XUnlock None]"

definition legacy_make_request_message where
  "legacy_make_request_message builds method to from place route = legacy_make builds place (MessageRequest method to from route)"

definition legacy_make_response_message where
  "legacy_make_response_message builds tid status place = legacy_make builds place (MessageAnswer tid status)"

definition legacy_make_options_response where
  "legacy_make_options_response builds tid status place = legacy_make builds place (OptionsAnswer tid status)"

definition legacy_make_answer_response where
  "legacy_make_answer_response builds tid status place = legacy_make builds place (CallAnswer tid status)"

definition legacy_make_ack_message where
  "legacy_make_ack_message builds did place = legacy_make builds place (Ack did)"

definition legacy_make_prack_message where
  "legacy_make_prack_message builds tid place = legacy_make builds place (Prack tid)"

definition legacy_make_dialog_request where
  "legacy_make_dialog_request builds did method place = legacy_make builds place (DialogRequest did method)"

definition legacy_make_dialog_notify where
  "legacy_make_dialog_notify builds did status place = legacy_make builds place (DialogNotify did status)"

definition legacy_make_dialog_update where
  "legacy_make_dialog_update builds did place = legacy_make builds place (DialogUpdate did)"

definition legacy_make_dialog_refer where
  "legacy_make_dialog_refer builds did to place = legacy_make builds place (DialogRefer did to)"

definition legacy_make_dialog_info where
  "legacy_make_dialog_info builds did place = legacy_make builds place (DialogInfo did)"

definition legacy_make_dialog_options where
  "legacy_make_dialog_options builds did place = legacy_make builds place (DialogOptions did)"

definition legacy_send_response_message where
  "legacy_send_response_message tid status = legacy_status (SendMessageAnswer tid status)"

definition legacy_send_options_response where
  "legacy_send_options_response tid status = legacy_status (SendOptionsAnswer tid status)"

definition legacy_send_answer_response where
  "legacy_send_answer_response tid status = legacy_status (SendCallAnswer tid status)"

definition legacy_send_ack_message where
  "legacy_send_ack_message tid = legacy_status (SendAck tid)"

definition legacy_send_prack_message where
  "legacy_send_prack_message tid = legacy_status (SendPrack tid)"

definition legacy_send_request_message where
  "legacy_send_request_message = legacy_built SendRequest"

definition legacy_send_dialog_message where
  "legacy_send_dialog_message did = legacy_built (SendDialog did)"

definition legacy_make_invite_request where
  "legacy_make_invite_request builds to from subject route =
     legacy_make builds True (InitialInvite to from route subject)"

definition legacy_send_invite_request :: "int \<Rightarrow> nat option \<Rightarrow> xtrace \<Rightarrow> int \<times> xtrace" where
  "legacy_send_invite_request rtn msg t =
     (case msg of None \<Rightarrow> (- 1, t) | Some m \<Rightarrow> (rtn, t @ [XCall None (SendInvite m), XUnlock None]))"

definition legacy_send_registry_request where
  "legacy_send_registry_request rid = legacy_built (SendRegister rid)"

definition legacy_release_registry :: "(xbuild \<Rightarrow> nat option) \<Rightarrow> int \<Rightarrow> xtrace \<Rightarrow> bool \<times> xtrace" where
  "legacy_release_registry builds rid t =
     (let b = Register rid 0; t1 = t @ [XLock None, XCall None (Build b)]
      in case builds b of
           Some m \<Rightarrow> (True, t1 @ [XCall None (SendRegister rid m), XUnlock None])
         | None \<Rightarrow> (False, t1 @ [XUnlock None]))"

definition legacy_release_call :: "int \<Rightarrow> int \<Rightarrow> xtrace \<Rightarrow> xtrace" where
  "legacy_release_call cid did = legacy_locked [Terminate cid did]"

definition legacy_default_action :: "nat \<Rightarrow> xtrace \<Rightarrow> xtrace" where
  "legacy_default_action ev = legacy_locked [DefaultAction ev]"

definition legacy_automatic_action :: "xtrace \<Rightarrow> xtrace" where
  "legacy_automatic_action = legacy_locked [AutomaticAction]"

text \<open>\<open>get_event\<close> waits without the lock; what it gets is given back with \<open>release_event\<close>.\<close>

definition legacy_get_event :: "64 word \<Rightarrow> 32 word \<times> 32 word" where
  "legacy_get_event timeout = (let s = ucast (timeout div 1000); ms = ucast (timeout mod 1000) in (s, ms))"

definition voip_release_event :: "nat option \<Rightarrow> nat list" where
  "voip_release_event ev = (case ev of None \<Rightarrow> [] | Some e \<Rightarrow> [e])"

lemma get_event_agrees: "legacy_get_event timeout = voip_get_event timeout"
  by (simp add: legacy_get_event_def voip_get_event_def Let_def)

section \<open>Headers and bodies of messages\<close>

text \<open>
  What the setters ask of the message library, in order. \<open>ACCEPT\<close>, \<open>ALLOW\<close> and
  \<open>ALLOW_EVENTS\<close> are the names of headers.
\<close>

datatype osip_call =
    SetHeader string string | SetRequire string | SetSupported string | SetBody string nat | SetContentType string

definition voip_server_accepts :: "string \<Rightarrow> osip_call list" where
  "voip_server_accepts accept = [SetHeader accept ''application/sdp, text/plain'']"

definition voip_server_allows :: "string \<Rightarrow> osip_call list" where
  "voip_server_allows allow =
     [SetHeader allow ''INVITE,ACK,CANCEL,OPTIONS,INFO,REFER,MESSAGE,SUBSCRIBE,NOTIFY,REGISTER,PRACK'',
      SetHeader ''allow-events'' ''talk, hold, refer'']"

definition voip_server_requires :: "string \<Rightarrow> osip_call list" where
  "voip_server_requires txt = [SetRequire txt]"

definition voip_server_supports :: "string \<Rightarrow> osip_call list" where
  "voip_server_supports txt = [SetSupported txt]"

definition voip_header :: "string \<Rightarrow> string \<Rightarrow> osip_call list" where
  "voip_header key value = [SetHeader key value]"

definition voip_attach_sized :: "string option \<Rightarrow> string option \<Rightarrow> nat \<Rightarrow> osip_call list" where
  "voip_attach_sized ty body n =
     (case body of None \<Rightarrow> [] | Some b \<Rightarrow> [SetBody b n]) @
     (case ty of None \<Rightarrow> [] | Some x \<Rightarrow> [SetContentType x])"

text \<open>Without a size the length of the body is asked for first, of a null pointer if there is none.\<close>

definition voip_attach :: "string option \<Rightarrow> string option \<Rightarrow> osip_call list option" where
  "voip_attach ty body =
     (case body of None \<Rightarrow> None | Some b \<Rightarrow> Some (voip_attach_sized ty body (length b)))"

text \<open>\<open>show\<close> prints a message as the library writes it, if it can, and frees that text.\<close>

definition voip_show :: "string option \<Rightarrow> nat \<Rightarrow> string option" where
  "voip_show txt tlen = map_option (take tlen) txt"

section \<open>The two versions side by side\<close>

text \<open>
  What the driver asks of the stack, one constructor for each wrapper. The handles it passes are message numbers
  that it was given before.
\<close>

datatype voip_op =
    Make_publish string string string string string string | Call_reference int nat
    | Set_option int "nat option" | Add_authentication string string string bool | Free_message "nat option"
    | Make_request_message string string string bool "string option" | Make_response_message int nat bool
    | Make_options_response int nat bool | Make_answer_response int nat bool | Make_ack_message int bool
    | Make_prack_message int bool | Make_dialog_request int string bool | Make_dialog_notify int nat bool
    | Make_dialog_update int bool | Make_dialog_refer int string bool | Make_dialog_info int bool
    | Make_dialog_options int bool | Send_response_message int nat "nat option"
    | Send_options_response int nat "nat option" | Send_answer_response int nat "nat option"
    | Send_ack_message int "nat option" | Send_prack_message int "nat option"
    | Send_request_message "nat option" | Send_dialog_message int "nat option"
    | Make_invite_request string string string "string option" | Send_invite_request "nat option"
    | Make_registry_request string string string nat | Send_registry_request int "nat option"
    | Release_registry int | Release_call int int | Default_action nat | Automatic_action

datatype voip_answer = RDone | RBool bool | RInt int | RMsg "nat option" | RReg int "nat option"

text \<open>
  The library: its answers may depend on everything that was asked of it before. It knows nothing of
  the contexts of a trace, which \<open>bare\<close> takes away.
\<close>

record voip_library =
  lb_builds :: "xtrace \<Rightarrow> xbuild \<Rightarrow> nat option"
  lb_registers :: "xtrace \<Rightarrow> xbuild \<Rightarrow> int \<times> nat option"
  lb_invites :: "xtrace \<Rightarrow> int"

fun bare_effect :: "xeffect \<Rightarrow> xeffect" where
  "bare_effect (XLock c) = XLock None"
| "bare_effect (XUnlock c) = XUnlock None"
| "bare_effect (XCall c x) = XCall None x"
| "bare_effect (XFree m) = XFree m"

definition bare :: "xtrace \<Rightarrow> xtrace" where
  "bare t = map bare_effect t"

fun newer_step :: "voip_library \<Rightarrow> nat option \<Rightarrow> voip_op \<Rightarrow> xtrace \<Rightarrow> voip_answer \<times> xtrace" where
  "newer_step lib ctx (Make_publish uri contact event duration ty body) t =
     map_prod RBool (\<lambda>x. x) (voip_publish API4 ctx (lb_builds lib (bare t)) uri contact event duration ty body t)"
| "newer_step lib ctx (Call_reference cid route) t = (RDone, voip_call_reference API4 ctx cid route t)"
| "newer_step lib ctx (Set_option opt v) t = (RDone, voip_option API4 ctx opt v t)"
| "newer_step lib ctx (Add_authentication user secret realm automatic) t =
     (RDone, voip_add_authentication API4 ctx user secret realm automatic t)"
| "newer_step lib ctx (Free_message msg) t = (RDone, voip_free_message_request API4 ctx msg t)"
| "newer_step lib ctx (Make_request_message method to from place route) t =
     map_prod RMsg (\<lambda>x. x) (voip_make_request_message API4 ctx (lb_builds lib (bare t)) method to from place route t)"
| "newer_step lib ctx (Make_response_message tid status place) t =
     map_prod RMsg (\<lambda>x. x) (voip_make_response_message API4 ctx (lb_builds lib (bare t)) tid status place t)"
| "newer_step lib ctx (Make_options_response tid status place) t =
     map_prod RMsg (\<lambda>x. x) (voip_make_options_response API4 ctx (lb_builds lib (bare t)) tid status place t)"
| "newer_step lib ctx (Make_answer_response tid status place) t =
     map_prod RMsg (\<lambda>x. x) (voip_make_answer_response API4 ctx (lb_builds lib (bare t)) tid status place t)"
| "newer_step lib ctx (Make_ack_message did place) t =
     map_prod RMsg (\<lambda>x. x) (voip_make_ack_message API4 ctx (lb_builds lib (bare t)) did place t)"
| "newer_step lib ctx (Make_prack_message tid place) t =
     map_prod RMsg (\<lambda>x. x) (voip_make_prack_message API4 ctx (lb_builds lib (bare t)) tid place t)"
| "newer_step lib ctx (Make_dialog_request did method place) t =
     map_prod RMsg (\<lambda>x. x) (voip_make_dialog_request API4 ctx (lb_builds lib (bare t)) did method place t)"
| "newer_step lib ctx (Make_dialog_notify did status place) t =
     map_prod RMsg (\<lambda>x. x) (voip_make_dialog_notify API4 ctx (lb_builds lib (bare t)) did status place t)"
| "newer_step lib ctx (Make_dialog_update did place) t =
     map_prod RMsg (\<lambda>x. x) (voip_make_dialog_update API4 ctx (lb_builds lib (bare t)) did place t)"
| "newer_step lib ctx (Make_dialog_refer did to place) t =
     map_prod RMsg (\<lambda>x. x) (voip_make_dialog_refer API4 ctx (lb_builds lib (bare t)) did to place t)"
| "newer_step lib ctx (Make_dialog_info did place) t =
     map_prod RMsg (\<lambda>x. x) (voip_make_dialog_info API4 ctx (lb_builds lib (bare t)) did place t)"
| "newer_step lib ctx (Make_dialog_options did place) t =
     map_prod RMsg (\<lambda>x. x) (voip_make_dialog_options API4 ctx (lb_builds lib (bare t)) did place t)"
| "newer_step lib ctx (Send_response_message tid status msg) t =
     (RDone, voip_send_response_message API4 ctx tid status msg t)"
| "newer_step lib ctx (Send_options_response tid status msg) t =
     (RDone, voip_send_options_response API4 ctx tid status msg t)"
| "newer_step lib ctx (Send_answer_response tid status msg) t =
     (RDone, voip_send_answer_response API4 ctx tid status msg t)"
| "newer_step lib ctx (Send_ack_message tid msg) t = (RDone, voip_send_ack_message API4 ctx tid msg t)"
| "newer_step lib ctx (Send_prack_message tid msg) t = (RDone, voip_send_prack_message API4 ctx tid msg t)"
| "newer_step lib ctx (Send_request_message msg) t = (RDone, voip_send_request_message API4 ctx msg t)"
| "newer_step lib ctx (Send_dialog_message did msg) t = (RDone, voip_send_dialog_message API4 ctx did msg t)"
| "newer_step lib ctx (Make_invite_request to from subject route) t =
     map_prod RMsg (\<lambda>x. x) (voip_make_invite_request API4 ctx (lb_builds lib (bare t)) to from subject route t)"
| "newer_step lib ctx (Send_invite_request msg) t =
     map_prod RInt (\<lambda>x. x) (voip_send_invite_request API4 ctx (lb_invites lib (bare t)) msg t)"
| "newer_step lib ctx (Make_registry_request uri s c ex) t =
     (case voip_make_registry_request ctx (lb_registers lib (bare t)) uri s c ex t of (rid, m, t1) \<Rightarrow> (RReg rid m, t1))"
| "newer_step lib ctx (Send_registry_request rid msg) t = (RDone, voip_send_registry_request API4 ctx rid msg t)"
| "newer_step lib ctx (Release_registry rid) t =
     map_prod RBool (\<lambda>x. x) (voip_release_registry API4 ctx (lb_builds lib (bare t)) rid t)"
| "newer_step lib ctx (Release_call cid did) t = (RDone, voip_release_call API4 ctx cid did t)"
| "newer_step lib ctx (Default_action ev) t = (RDone, voip_default_action API4 ctx ev t)"
| "newer_step lib ctx Automatic_action t = (RDone, voip_automatic_action API4 ctx t)"

fun older_step :: "voip_library \<Rightarrow> nat option \<Rightarrow> voip_op \<Rightarrow> xtrace \<Rightarrow> voip_answer \<times> xtrace" where
  "older_step lib ctx (Make_publish uri contact event duration ty body) t =
     map_prod RBool (\<lambda>x. x) (legacy_publish (lb_builds lib t) uri contact event duration ty body t)"
| "older_step lib ctx (Call_reference cid route) t = (RDone, legacy_call_reference cid route t)"
| "older_step lib ctx (Set_option opt v) t = (RDone, legacy_option ctx opt v t)"
| "older_step lib ctx (Add_authentication user secret realm automatic) t =
     (RDone, legacy_add_authentication user secret realm automatic t)"
| "older_step lib ctx (Free_message msg) t = (RDone, legacy_free_message_request msg t)"
| "older_step lib ctx (Make_request_message method to from place route) t =
     map_prod RMsg (\<lambda>x. x) (legacy_make_request_message (lb_builds lib t) method to from place route t)"
| "older_step lib ctx (Make_response_message tid status place) t =
     map_prod RMsg (\<lambda>x. x) (legacy_make_response_message (lb_builds lib t) tid status place t)"
| "older_step lib ctx (Make_options_response tid status place) t =
     map_prod RMsg (\<lambda>x. x) (legacy_make_options_response (lb_builds lib t) tid status place t)"
| "older_step lib ctx (Make_answer_response tid status place) t =
     map_prod RMsg (\<lambda>x. x) (legacy_make_answer_response (lb_builds lib t) tid status place t)"
| "older_step lib ctx (Make_ack_message did place) t =
     map_prod RMsg (\<lambda>x. x) (legacy_make_ack_message (lb_builds lib t) did place t)"
| "older_step lib ctx (Make_prack_message tid place) t =
     map_prod RMsg (\<lambda>x. x) (legacy_make_prack_message (lb_builds lib t) tid place t)"
| "older_step lib ctx (Make_dialog_request did method place) t =
     map_prod RMsg (\<lambda>x. x) (legacy_make_dialog_request (lb_builds lib t) did method place t)"
| "older_step lib ctx (Make_dialog_notify did status place) t =
     map_prod RMsg (\<lambda>x. x) (legacy_make_dialog_notify (lb_builds lib t) did status place t)"
| "older_step lib ctx (Make_dialog_update did place) t =
     map_prod RMsg (\<lambda>x. x) (legacy_make_dialog_update (lb_builds lib t) did place t)"
| "older_step lib ctx (Make_dialog_refer did to place) t =
     map_prod RMsg (\<lambda>x. x) (legacy_make_dialog_refer (lb_builds lib t) did to place t)"
| "older_step lib ctx (Make_dialog_info did place) t =
     map_prod RMsg (\<lambda>x. x) (legacy_make_dialog_info (lb_builds lib t) did place t)"
| "older_step lib ctx (Make_dialog_options did place) t =
     map_prod RMsg (\<lambda>x. x) (legacy_make_dialog_options (lb_builds lib t) did place t)"
| "older_step lib ctx (Send_response_message tid status msg) t =
     (RDone, legacy_send_response_message tid status msg t)"
| "older_step lib ctx (Send_options_response tid status msg) t =
     (RDone, legacy_send_options_response tid status msg t)"
| "older_step lib ctx (Send_answer_response tid status msg) t =
     (RDone, legacy_send_answer_response tid status msg t)"
| "older_step lib ctx (Send_ack_message tid msg) t = (RDone, legacy_send_ack_message tid msg t)"
| "older_step lib ctx (Send_prack_message tid msg) t = (RDone, legacy_send_prack_message tid msg t)"
| "older_step lib ctx (Send_request_message msg) t = (RDone, legacy_send_request_message msg t)"
| "older_step lib ctx (Send_dialog_message did msg) t = (RDone, legacy_send_dialog_message did msg t)"
| "older_step lib ctx (Make_invite_request to from subject route) t =
     map_prod RMsg (\<lambda>x. x) (legacy_make_invite_request (lb_builds lib t) to from subject route t)"
| "older_step lib ctx (Send_invite_request msg) t =
     map_prod RInt (\<lambda>x. x) (legacy_send_invite_request (lb_invites lib t) msg t)"
| "older_step lib ctx (Make_registry_request uri s c ex) t =
     (case legacy_make_registry_request (lb_registers lib t) True uri s c ex t of (rid, m, t1) \<Rightarrow> (RReg rid m, t1))"
| "older_step lib ctx (Send_registry_request rid msg) t = (RDone, legacy_send_registry_request rid msg t)"
| "older_step lib ctx (Release_registry rid) t =
     map_prod RBool (\<lambda>x. x) (legacy_release_registry (lb_builds lib t) rid t)"
| "older_step lib ctx (Release_call cid did) t = (RDone, legacy_release_call cid did t)"
| "older_step lib ctx (Default_action ev) t = (RDone, legacy_default_action ev t)"
| "older_step lib ctx Automatic_action t = (RDone, legacy_automatic_action t)"

fun stack_run :: "(voip_op \<Rightarrow> xtrace \<Rightarrow> voip_answer \<times> xtrace) \<Rightarrow> voip_op list \<Rightarrow> xtrace \<Rightarrow> voip_answer list \<times> xtrace" where
  "stack_run step [] t = ([], t)"
| "stack_run step (x # xs) t =
     (let (r, t1) = step x t; (rs, t2) = stack_run step xs t1 in (r # rs, t2))"

text \<open>Whether the library builds the registration that a request asks for, and all that are asked for in a run.\<close>

definition registration_builds :: "voip_library \<Rightarrow> voip_op \<Rightarrow> xtrace \<Rightarrow> bool" where
  "registration_builds lib x t =
     (case x of Make_registry_request uri s c ex \<Rightarrow> snd (lb_registers lib t (InitialRegister uri s c ex)) \<noteq> None | _ \<Rightarrow> True)"

fun registrations_build :: "voip_library \<Rightarrow> nat option \<Rightarrow> voip_op list \<Rightarrow> xtrace \<Rightarrow> bool" where
  "registrations_build lib ctx [] t = True"
| "registrations_build lib ctx (x # xs) t =
     (registration_builds lib x t \<and> registrations_build lib ctx xs (snd (older_step lib ctx x t)))"

section \<open>Lemmas\<close>

lemma bare_simps [simp]:
  "bare [] = []" "bare (a @ b) = bare a @ bare b" "bare (e # t) = bare_effect e # bare t"
  "bare (map (XCall c) xs) = map (XCall None) xs"
  by (simp_all add: bare_def)

lemma bare_bare [simp]: "bare (bare t) = bare t"
proof -
  have "bare_effect (bare_effect e) = bare_effect e" for e by (cases e) simp_all
  then show ?thesis by (simp add: bare_def)
qed

text \<open>Each shape of a wrapper, without the context, is the shape of the older version.\<close>

lemma bare_make_message:
  "map_prod f bare (make_message API4 ctx builds place b t) = map_prod f (\<lambda>x. x) (legacy_make builds place b (bare t))"
  by (simp add: make_message_def legacy_make_def xctx_def Let_def split: option.split)

lemma bare_shapes:
  "bare (xlocked API4 ctx xs t) = legacy_locked xs (bare t)"
  "bare (send_status API4 ctx x msg t) = legacy_status x msg (bare t)"
  "bare (send_built API4 ctx y msg t) = legacy_built y msg (bare t)"
  by (simp_all add: xlocked_def legacy_locked_def send_status_def legacy_status_def send_built_def legacy_built_def
      xctx_def Let_def split: option.split)

lemmas newer_defs = voip_status_defs voip_built_defs voip_make_invite_request_def voip_send_registry_request_def
  voip_call_reference_def voip_add_authentication_def voip_release_call_def voip_default_action_def
  voip_automatic_action_def

lemmas older_make_defs = legacy_make_request_message_def
  legacy_make_response_message_def
  legacy_make_options_response_def
  legacy_make_answer_response_def
  legacy_make_ack_message_def
  legacy_make_prack_message_def
  legacy_make_dialog_request_def
  legacy_make_dialog_notify_def
  legacy_make_dialog_update_def
  legacy_make_dialog_refer_def
  legacy_make_dialog_info_def
  legacy_make_dialog_options_def

lemmas older_send_defs = legacy_send_response_message_def
  legacy_send_options_response_def
  legacy_send_answer_response_def
  legacy_send_ack_message_def
  legacy_send_prack_message_def
  legacy_send_request_message_def legacy_send_dialog_message_def legacy_make_invite_request_def
  legacy_send_registry_request_def legacy_call_reference_def legacy_add_authentication_def
  legacy_release_call_def legacy_default_action_def legacy_automatic_action_def

lemma map_prod_compose: "map_prod (\<lambda>x. x) bare (map_prod f (\<lambda>x. x) p) = map_prod f bare p"
  by (cases p) simp

lemma newer_older_step:
  assumes "registration_builds lib x (bare t)"
  shows "map_prod (\<lambda>x. x) bare (newer_step lib ctx x t) = older_step lib ctx x (bare t)"
proof (cases x)
  case (Make_registry_request uri s c ex)
  obtain rid m where "lb_registers lib (bare t) (InitialRegister uri s c ex) = (rid, Some m)"
    using assms Make_registry_request by (cases "lb_registers lib (bare t) (InitialRegister uri s c ex)") (auto simp: registration_builds_def)
  then show ?thesis
    by (simp add: Make_registry_request voip_make_registry_request_def legacy_make_registry_request_def Let_def)
next
  case (Make_publish uri contact event duration ty body)
  then show ?thesis
    by (simp add: voip_publish_def legacy_publish_def xlocked_def xctx_def Let_def split: option.split)
next
  case (Set_option opt v)
  then show ?thesis by (simp add: voip_option_def legacy_option_def bare_shapes split: option.split)
next
  case (Free_message msg)
  then show ?thesis
    by (simp add: voip_free_message_request_def legacy_free_message_request_def xctx_def split: option.split)
next
  case (Send_invite_request msg)
  then show ?thesis
    by (simp add: voip_send_invite_request_def legacy_send_invite_request_def send_built_def xctx_def split: option.split)
next
  case (Release_registry rid)
  then show ?thesis
    by (simp add: voip_release_registry_def legacy_release_registry_def xlocked_def xctx_def Let_def split: option.split)
qed (simp_all add: map_prod_compose bare_make_message bare_shapes newer_defs older_make_defs older_send_defs)

lemma newer_older_unbuilt:
  assumes "\<not> registration_builds lib x (bare t)"
  shows "older_step lib ctx x (bare t) = (r, t1) \<Longrightarrow>
    map_prod (\<lambda>x. x) bare (newer_step lib ctx x t) = (r, t1 @ [XUnlock None])"
  using assms by (cases x) (auto simp: registration_builds_def voip_make_registry_request_def
      legacy_make_registry_request_def Let_def split: prod.splits)

lemma newer_older_run:
  "registrations_build lib ctx xs (bare t) \<Longrightarrow> stack_run (older_step lib ctx) xs (bare t) =
    (fst (stack_run (newer_step lib ctx) xs t), bare (snd (stack_run (newer_step lib ctx) xs t)))"
proof (induction xs arbitrary: t)
  case (Cons x xs)
  obtain r t1 where s: "newer_step lib ctx x t = (r, t1)" by (rule prod.exhaust)
  with newer_older_step [of lib x t ctx] Cons.prems have o: "older_step lib ctx x (bare t) = (r, bare t1)" by simp
  with s Cons.IH [of t1] Cons.prems show ?case by (simp split: prod.split)
qed simp

lemma stack_run_append:
  "stack_run step (xs @ ys) t = (fst (stack_run step xs t) @ fst (stack_run step ys (snd (stack_run step xs t))),
     snd (stack_run step ys (snd (stack_run step xs t))))"
  by (induction xs arbitrary: t) (simp_all add: Let_def split: prod.split)

section \<open>Properties\<close>

text \<open>
  C21. The two versions are the same to the driver as long as the registrations it asks for can be built: any
  sequence of requests then gets the same answers from both, and both ask the library for the same things under the
  same locks, but for the context that only the newer one passes. And where they part is known: at the
  first registration that cannot be built both still give the same answer, and the newer one gives back
  the lock that the older one keeps.
\<close>

theorem voip_versions_agree:
  assumes "registrations_build lib ctx xs (bare t)"
  shows "stack_run (older_step lib ctx) xs (bare t) =
      (fst (stack_run (newer_step lib ctx) xs t), bare (snd (stack_run (newer_step lib ctx) xs t))) \<and>
    (registration_builds lib x (snd (stack_run (older_step lib ctx) xs (bare t))) \<or>
      fst (stack_run (newer_step lib ctx) (xs @ [x]) t) = fst (stack_run (older_step lib ctx) (xs @ [x]) (bare t)) \<and>
      bare (snd (stack_run (newer_step lib ctx) (xs @ [x]) t)) =
        snd (stack_run (older_step lib ctx) (xs @ [x]) (bare t)) @ [XUnlock None])"
proof -
  note r = newer_older_run [OF assms]
  obtain a t1 where o: "older_step lib ctx x (bare (snd (stack_run (newer_step lib ctx) xs t))) = (a, t1)" by (rule prod.exhaust)
  obtain b t2 where n: "newer_step lib ctx x (snd (stack_run (newer_step lib ctx) xs t)) = (b, t2)" by (rule prod.exhaust)
  show ?thesis
  proof (cases "registration_builds lib x (bare (snd (stack_run (newer_step lib ctx) xs t)))")
    case False
    from newer_older_unbuilt [OF this o] n have "b = a" "bare t2 = t1 @ [XUnlock None]" by simp_all
    with r o n show ?thesis by (simp add: stack_run_append)
  qed (simp add: r)
qed

theorem voip_versions_agree_witness:
  "fst (stack_run (older_step \<lparr>lb_builds = (\<lambda>t b. Some (length t)), lb_registers = (\<lambda>t b. (1, None)), lb_invites = (\<lambda>t. 3)\<rparr> (Some 0))
      [Make_invite_request ''sip:a'' ''sip:b'' ''call'' None, Send_invite_request (Some 0)] []) = [RMsg (Some 0), RInt 3]"
proof -
  let ?lib = "\<lparr>lb_builds = (\<lambda>t b. Some (length t)), lb_registers = (\<lambda>t b. (1, None)), lb_invites = (\<lambda>t. 3)\<rparr>"
  let ?xs = "[Make_invite_request ''sip:a'' ''sip:b'' ''call'' None, Send_invite_request (Some 0)]"
  have "registrations_build ?lib (Some 0) ?xs (bare [])" by (simp add: registration_builds_def)
  from voip_versions_agree [OF this, of Automatic_action] show ?thesis
    by (simp add: voip_make_invite_request_def make_message_def voip_send_invite_request_def xctx_def Let_def)
qed

end
