(* ===== verification/Srv.thy ===== *)
theory Srv
  imports Uri
begin

text \<open>
  The service records of the name system: the rest of \<open>uri::set\<close> in \<^verbatim>\<open>common/uri.cpp\<close>, which reads the
  answer of \<open>res_query\<close> byte by byte, or falls back to \<open>getaddrinfo\<close>. The resolver is a parameter:
  the answer it leaves in the buffer, the names it expands, the addresses it knows. The head of the function is
  \<open>uri_set_hint\<close> and the walk over the records that were found is \<open>uri_next\<close>, both of \<open>Uri\<close>.
\<close>

section \<open>Reading an answer\<close>

text \<open>
  The buffer (\<open>query reply\<close>) has 1024 bytes; it holds what it held before wherever the resolver did not write.
  \<open>rs_query\<close> is what \<open>res_query\<close> returns for a zone, with the buffer after it; \<open>rs_expand\<close> is
  \<open>dn_expand\<close> for the end of the message and a position in it.
\<close>

record resolver =
  rs_query :: "string \<Rightarrow> int \<times> (nat \<Rightarrow> 8 word)"
  rs_expand :: "(nat \<Rightarrow> 8 word) \<Rightarrow> nat \<Rightarrow> nat \<Rightarrow> int \<times> string"
  rs_address :: "string \<Rightarrow> 16 word \<Rightarrow> sockaddr option"
  rs_random :: "nat \<Rightarrow> 16 word"
  rs_addrinfo :: "resolve_hint \<Rightarrow> string \<Rightarrow> sockaddr list"

definition max_packet :: nat where
  "max_packet = 1024"

text \<open>Two bytes in network order; \<open>None\<close> is a read outside the buffer.\<close>

definition net16 :: "(nat \<Rightarrow> 8 word) \<Rightarrow> nat \<Rightarrow> 16 word option" where
  "net16 r i = (if i + 1 < max_packet then Some (word_cat (r i) (r (i + 1))) else None)"

fun skip_questions :: "resolver \<Rightarrow> (nat \<Rightarrow> 8 word) \<Rightarrow> nat \<Rightarrow> nat \<Rightarrow> nat \<Rightarrow> nat option" where
  "skip_questions e r ep 0 cp = Some cp"
| "skip_questions e r ep (Suc q) cp =
     (if \<not> cp < ep then Some cp
      else let (result, _) = rs_expand e r ep cp
           in if result < 0 then None else skip_questions e r ep q (cp + nat result + 4))"

text \<open>The weight that is kept of a record: drawn at random, in 16 bits.\<close>

definition srv_weight :: "16 word \<Rightarrow> 16 word \<Rightarrow> 16 word" where
  "srv_weight rand weight =
     (if weight = 0 then weight else of_nat ((1 + unat (rand AND 0x7fff)) mod (10000 * unat weight)))"

text \<open>
  A record whose host has an address is entered into the array, which has so many \<open>places\<close>; \<open>None\<close> is a write behind
  its end. \<open>current\<close> is a variable of the block and null each time, so each record becomes the entry.
\<close>

definition srv_store :: "resolver \<Rightarrow> nat \<Rightarrow> 16 word \<Rightarrow> 16 word \<Rightarrow> 16 word \<Rightarrow> string \<Rightarrow> uri_state \<Rightarrow> uri_state option" where
  "srv_store e places priority weight hport host s =
     (case rs_address e host hport of
        None \<Rightarrow> Some s
      | Some sp \<Rightarrow>
          let count = length (us_srvlist s)
          in if places \<le> count then None
             else Some \<lparr>us_srvlist = us_srvlist s @
                    [\<lparr>sv_addr = sp, sv_weight = srv_weight (rs_random e count) weight, sv_priority = priority\<rparr>],
                  us_entry = Some sp, us_pri = priority\<rparr>)"

text \<open>
  The loop over the answers. It ends well, gives up (\<open>goto nosrv\<close>) with what it has entered so far,
  reads outside the buffer, or writes outside the array.
\<close>

datatype srv_outcome = SrvDone uri_state | SrvFail uri_state | SrvFault | SrvOverrun

fun srv_records :: "resolver \<Rightarrow> nat \<Rightarrow> (nat \<Rightarrow> 8 word) \<Rightarrow> nat \<Rightarrow> nat \<Rightarrow> nat \<Rightarrow> uri_state \<Rightarrow> srv_outcome" where
  "srv_records e places r ep 0 cp s = SrvDone s"
| "srv_records e places r ep (Suc n) cp s =
     (if \<not> cp < ep then SrvDone s
      else let (result, _) = rs_expand e r ep cp
           in if result < 0 then SrvFail s
              else let c1 = cp + nat result
                   in case (net16 r c1, net16 r (c1 + 8)) of
                        (Some ty, Some dlen) \<Rightarrow>
                          if ty \<noteq> 33 then srv_records e places r ep n (c1 + 10 + unat dlen) s
                          else (case (net16 r (c1 + 10), net16 r (c1 + 12), net16 r (c1 + 14)) of
                                  (Some priority, Some weight, Some hport) \<Rightarrow>
                                    (let (result, host) = rs_expand e r ep (c1 + 16)
                                     in if result < 0 then SrvDone s
                                        else case srv_store e places priority weight hport host s of
                                               None \<Rightarrow> SrvOverrun
                                             | Some s1 \<Rightarrow> srv_records e places r ep n (c1 + 16 + nat result) s1)
                                | _ \<Rightarrow> SrvFault)
                      | _ \<Rightarrow> SrvFault)"

text \<open>\<open>new uri::address[acount]\<close>: the places of the array.\<close>

definition srv_alloc :: "16 word \<Rightarrow> nat" where
  "srv_alloc acount = unat acount"

definition srv_read :: "resolver \<Rightarrow> string \<Rightarrow> uri_state \<Rightarrow> srv_outcome" where
  "srv_read e zone s =
     (let (result, r) = rs_query e zone
      in if result < 12 then SrvFail s
         else case (net16 r 4, net16 r 6) of
                (Some qcount, Some acount) \<Rightarrow>
                  if acount = 0 then SrvFail s
                  else (case skip_questions e r (nat result) (unat qcount) 12 of
                          None \<Rightarrow> SrvFail s
                        | Some cp \<Rightarrow> srv_records e (srv_alloc acount) r (nat result) (unat acount) cp s)
              | _ \<Rightarrow> SrvFault)"

section \<open>Setting a uri\<close>

text \<open>
  \<open>uo_srv\<close> says whether there is an array of records; \<open>uo_count\<close> is \<open>count\<close>, which the fallback
  sets to the length of the other list.
\<close>

record uri_object =
  uo_state :: uri_state
  uo_srv :: bool
  uo_count :: nat

definition uri_fallback :: "ucommon \<Rightarrow> resolver \<Rightarrow> resolve_hint \<Rightarrow> uri_state \<Rightarrow> uri_object" where
  "uri_fallback u e h s =
     (let l = rs_addrinfo e h (uri_fallback_port u (rh_svc h))
      in \<lparr>uo_state = \<lparr>us_srvlist = [], us_entry = (case l of [] \<Rightarrow> us_entry s | a # _ \<Rightarrow> Some a), us_pri = us_pri s\<rparr>,
          uo_srv = False, uo_count = length l\<rparr>)"

definition uri_set :: "ucommon \<Rightarrow> resolver \<Rightarrow> resolve_hint \<Rightarrow> uri_state \<Rightarrow> uri_object option" where
  "uri_set u e h s0 =
     (let s = uri_clear s0
      in case rh_zone h of
           None \<Rightarrow> Some (uri_fallback u e h s)
         | Some zone \<Rightarrow>
             (case srv_read e zone s of
                SrvDone s1 \<Rightarrow> Some \<lparr>uo_state = s1, uo_srv = True, uo_count = length (us_srvlist s1)\<rparr>
              | SrvFail s1 \<Rightarrow> Some (uri_fallback u e h s1)
              | SrvFault \<Rightarrow> None
              | SrvOverrun \<Rightarrow> None))"

text \<open>\<open>next\<close> looks through \<open>count\<close> records of the array: of a null pointer after a fallback that found addresses.\<close>

definition uri_object_next :: "uri_object \<Rightarrow> uri_object option" where
  "uri_object_next ob =
     (if \<not> uo_srv ob \<and> uo_count ob \<noteq> 0 then None else Some (ob\<lparr>uo_state := uri_next (uo_state ob)\<rparr>))"

section \<open>The array is large enough\<close>

definition outcome_state :: "srv_outcome \<Rightarrow> uri_state option" where
  "outcome_state r = (case r of SrvDone s \<Rightarrow> Some s | SrvFail s \<Rightarrow> Some s | _ \<Rightarrow> None)"

lemma outcome_state_simps [simp]:
  "outcome_state (SrvDone s) = Some s" "outcome_state (SrvFail s) = Some s" "outcome_state SrvFault = None"
  "outcome_state SrvOverrun = None"
  by (simp_all add: outcome_state_def)

text \<open>What becomes of an outcome that has entered at most \<open>n\<close> records and overrun nothing.\<close>

definition enters :: "nat \<Rightarrow> srv_outcome \<Rightarrow> bool" where
  "enters n r \<longleftrightarrow> r \<noteq> SrvOverrun \<and> (case outcome_state r of None \<Rightarrow> True | Some s \<Rightarrow> length (us_srvlist s) \<le> n)"

lemma enters_simps [simp]:
  "enters n (SrvDone s) \<longleftrightarrow> length (us_srvlist s) \<le> n" "enters n (SrvFail s) \<longleftrightarrow> length (us_srvlist s) \<le> n"
  "enters n SrvFault"
  by (simp_all add: enters_def)

lemma enters_mono: "enters m r \<Longrightarrow> m \<le> n \<Longrightarrow> enters n r"
  by (auto simp: enters_def split: option.splits)

lemma srv_store_length:
  assumes "length (us_srvlist s) < places"
  shows "\<exists>s1. srv_store e places p w h host s = Some s1 \<and> length (us_srvlist s1) \<le> Suc (length (us_srvlist s))"
  using assms by (simp add: srv_store_def Let_def split: option.split)

lemma srv_records_enters:
  "length (us_srvlist s) + n \<le> places \<Longrightarrow> enters (length (us_srvlist s) + n) (srv_records e places r ep n cp s)"
proof (induction n arbitrary: cp s)
  case (Suc n)
  have same: "enters (Suc (length (us_srvlist s) + n)) (srv_records e places r ep n cp1 s)" for cp1
    by (rule enters_mono [OF Suc.IH]) (use Suc.prems in simp_all)
  have more: "enters (Suc (length (us_srvlist s) + n)) (case srv_store e places p w h host s of
      None \<Rightarrow> SrvOverrun | Some s1 \<Rightarrow> srv_records e places r ep n cp1 s1)" for p w h host cp1
  proof -
    obtain s1 where s1: "srv_store e places p w h host s = Some s1" "length (us_srvlist s1) \<le> Suc (length (us_srvlist s))"
      using srv_store_length [of s places e p w h host] Suc.prems by auto
    have "enters (length (us_srvlist s1) + n) (srv_records e places r ep n cp1 s1)"
      by (rule Suc.IH) (use s1(2) Suc.prems in simp)
    with s1 show ?thesis by (simp add: enters_mono)
  qed
  show ?case
    using same more by (simp add: Let_def split: prod.split option.split)
qed simp

section \<open>What a well-formed answer says\<close>

text \<open>
  A record of an answer: the bytes of the name of its owner, of its class and time to live, and then either the
  service with the bytes of the name of its host, or a record of another type with any data. The bytes of a
  name depend on where it stands: mostly they are just a reference to an earlier place of the message.
\<close>

record srv_record =
  sr_priority :: "16 word"
  sr_weight :: "16 word"
  sr_port :: "16 word"
  sr_target :: string

datatype answer_record =
    SrvAnswer "8 word list" "8 word list" srv_record "8 word list"
  | OtherAnswer "8 word list" "16 word" "8 word list" "8 word list"

definition be16 :: "16 word \<Rightarrow> 8 word list" where
  "be16 x = [ucast (drop_bit 8 x), ucast x]"

fun record_bytes :: "answer_record \<Rightarrow> 8 word list" where
  "record_bytes (SrvAnswer owner ct x target) =
     owner @ be16 33 @ ct @ be16 (of_nat (6 + length target)) @
     be16 (sr_priority x) @ be16 (sr_weight x) @ be16 (sr_port x) @ target"
| "record_bytes (OtherAnswer owner ty ct rdata) = owner @ be16 ty @ ct @ be16 (of_nat (length rdata)) @ rdata"

fun record_formed :: "answer_record \<Rightarrow> bool" where
  "record_formed (SrvAnswer owner ct x target) \<longleftrightarrow> owner \<noteq> [] \<and> length ct = 6"
| "record_formed (OtherAnswer owner ty ct rdata) \<longleftrightarrow> owner \<noteq> [] \<and> length ct = 6 \<and> ty \<noteq> 33 \<and> length rdata < 2 ^ 16"

fun record_service :: "answer_record \<Rightarrow> srv_record list" where
  "record_service (SrvAnswer owner ct x target) = [x]"
| "record_service (OtherAnswer owner ty ct rdata) = []"

definition services :: "answer_record list \<Rightarrow> srv_record list" where
  "services as = concat (map record_service as)"

text \<open>
  The message: header, one question, the records, and whatever comes behind them. \<open>hd4\<close> are the identity and
  the flags, \<open>counts\<close> the numbers of further records, \<open>question\<close> is the name in the question.
\<close>

definition message_bytes ::
    "8 word list \<Rightarrow> 8 word list \<Rightarrow> 8 word list \<Rightarrow> answer_record list \<Rightarrow> 8 word list \<Rightarrow> 8 word list"
where
  "message_bytes hd4 counts question as rest =
     hd4 @ be16 1 @ be16 (of_nat (length as)) @ counts @ question @ be16 33 @ be16 1 @ concat (map record_bytes as) @ rest"

text \<open>
  What the documentation says of \<open>dn_expand\<close>: where a name stands in the message, it returns the number of bytes it takes
  there, and the name. Only the names of hosts matter.
\<close>

fun record_names :: "resolver \<Rightarrow> (nat \<Rightarrow> 8 word) \<Rightarrow> nat \<Rightarrow> nat \<Rightarrow> answer_record \<Rightarrow> bool" where
  "record_names e r ep cp (SrvAnswer owner ct x target) \<longleftrightarrow>
     fst (rs_expand e r ep cp) = int (length owner) \<and>
     rs_expand e r ep (cp + length owner + 16) = (int (length target), sr_target x)"
| "record_names e r ep cp (OtherAnswer owner ty ct rdata) \<longleftrightarrow> fst (rs_expand e r ep cp) = int (length owner)"

fun names_read :: "resolver \<Rightarrow> (nat \<Rightarrow> 8 word) \<Rightarrow> nat \<Rightarrow> nat \<Rightarrow> answer_record list \<Rightarrow> bool" where
  "names_read e r ep cp [] \<longleftrightarrow> True"
| "names_read e r ep cp (a # as) \<longleftrightarrow> record_names e r ep cp a \<and> names_read e r ep (cp + length (record_bytes a)) as"

text \<open>Messages of service records only whose names do not depend on the place: \<open>nm\<close> encodes a name.\<close>

definition plain_records :: "(string \<Rightarrow> 8 word list) \<Rightarrow> 8 word list \<Rightarrow> string \<Rightarrow> srv_record list \<Rightarrow> answer_record list" where
  "plain_records nm ttl zone xs = map (\<lambda>x. SrvAnswer (nm zone) (be16 1 @ ttl) x (nm (sr_target x))) xs"

definition answer_bytes :: "(string \<Rightarrow> 8 word list) \<Rightarrow> 8 word list \<Rightarrow> 8 word list \<Rightarrow> string \<Rightarrow> srv_record list \<Rightarrow> 8 word list" where
  "answer_bytes nm hd4 ttl zone xs = message_bytes hd4 (be16 0 @ be16 0) (nm zone) (plain_records nm ttl zone xs) []"

text \<open>The buffer holds some bytes at a position.\<close>

definition bytes_at :: "(nat \<Rightarrow> 8 word) \<Rightarrow> nat \<Rightarrow> 8 word list \<Rightarrow> bool" where
  "bytes_at r i bs = list_all (\<lambda>k. r (i + k) = bs ! k) [0..<length bs]"

lemma bytes_at_iff: "bytes_at r i bs \<longleftrightarrow> (\<forall>k < length bs. r (i + k) = bs ! k)"
  by (auto simp: bytes_at_def list_all_iff)

lemma bytes_at_Nil [simp]: "bytes_at r i []"
  by (simp add: bytes_at_def)

lemma bytes_at_append [simp]: "bytes_at r i (a @ b) \<longleftrightarrow> bytes_at r i a \<and> bytes_at r (i + length a) b"
proof -
  have "bytes_at r i (a @ b) \<longleftrightarrow> (\<forall>k < length a + length b. r (i + k) = (a @ b) ! k)"
    by (simp add: bytes_at_iff)
  also have "\<dots> \<longleftrightarrow> (\<forall>k < length a. r (i + k) = a ! k) \<and> (\<forall>k < length b. r (i + (length a + k)) = b ! k)"
  proof (intro iffI conjI allI impI)
    fix k assume h: "\<forall>k < length a + length b. r (i + k) = (a @ b) ! k" and "k < length b"
    then have "r (i + (length a + k)) = (a @ b) ! (length a + k)" by simp
    then show "r (i + (length a + k)) = b ! k" by simp
  next
    fix k assume h: "(\<forall>k < length a. r (i + k) = a ! k) \<and> (\<forall>k < length b. r (i + (length a + k)) = b ! k)"
      and k: "k < length a + length b"
    show "r (i + k) = (a @ b) ! k"
    proof (cases "k < length a")
      case False
      with k have "k - length a < length b" by simp
      with h have "r (i + (length a + (k - length a))) = b ! (k - length a)" by blast
      with False show ?thesis by (simp add: nth_append)
    qed (use h in \<open>simp add: nth_append\<close>)
  qed (auto simp: nth_append)
  finally show ?thesis by (simp add: bytes_at_iff add.assoc)
qed

lemma length_be16 [simp]: "length (be16 x) = 2"
  by (simp add: be16_def)

lemma be16_cat: "word_cat (ucast (drop_bit 8 x) :: 8 word) (ucast (x :: 16 word) :: 8 word) = x"
  by (rule bit_word_eqI) (auto simp: bit_word_cat_iff bit_simps)

lemma net16_be16: "bytes_at r i (be16 x) \<Longrightarrow> i + 1 < max_packet \<Longrightarrow> net16 r i = Some x"
  by (simp add: bytes_at_def be16_def net16_def be16_cat upt_rec)

text \<open>The same of \<open>dn_expand\<close> for names that do not depend on the place.\<close>

definition expands :: "resolver \<Rightarrow> (string \<Rightarrow> 8 word list) \<Rightarrow> string set \<Rightarrow> bool" where
  "expands e nm names \<longleftrightarrow>
     (\<forall>host \<in> names. nm host \<noteq> [] \<and>
        (\<forall>r ep i. bytes_at r i (nm host) \<and> i + length (nm host) \<le> ep \<longrightarrow>
           rs_expand e r ep i = (int (length (nm host)), host)))"

lemma expandsD:
  assumes "expands e nm names" and "host \<in> names" and "bytes_at r i (nm host)" and "i + length (nm host) \<le> ep"
  shows "rs_expand e r ep i = (int (length (nm host)), host)" and "i < ep"
proof -
  have "nm host \<noteq> []" using assms(1,2) by (simp add: expands_def)
  then show "i < ep" using assms(4) by (cases "nm host") simp_all
  show "rs_expand e r ep i = (int (length (nm host)), host)" using assms by (simp add: expands_def)
qed

section \<open>Reading a well-formed answer\<close>

definition srv_enter :: "resolver \<Rightarrow> srv_record \<Rightarrow> uri_state \<Rightarrow> uri_state" where
  "srv_enter e x s = (case srv_store e (Suc (length (us_srvlist s))) (sr_priority x) (sr_weight x) (sr_port x) (sr_target x) s of
     None \<Rightarrow> s | Some s1 \<Rightarrow> s1)"

abbreviation store_all :: "resolver \<Rightarrow> srv_record list \<Rightarrow> uri_state \<Rightarrow> uri_state" where
  "store_all e \<equiv> fold (srv_enter e)"

lemma srv_store_enter:
  assumes "length (us_srvlist s) < places"
  shows "srv_store e places (sr_priority x) (sr_weight x) (sr_port x) (sr_target x) s = Some (srv_enter e x s)"
    "length (us_srvlist (srv_enter e x s)) \<le> Suc (length (us_srvlist s))"
  using assms by (simp_all add: srv_enter_def srv_store_def Let_def split: option.split)

lemma record_bytes_pos: "record_formed a \<Longrightarrow> 0 < length (record_bytes a)"
  by (cases a) simp_all

lemma srv_records_step:
  assumes "record_formed a" and "record_names e r ep cp a" and "bytes_at r cp (record_bytes a)"
    and "cp + length (record_bytes a) \<le> ep" and "ep \<le> max_packet" and "length (us_srvlist s) < places"
  shows "srv_records e places r ep (Suc n) cp s =
    srv_records e places r ep n (cp + length (record_bytes a)) (store_all e (record_service a) s)"
proof (cases a)
  case (SrvAnswer owner ct x target)
  let ?c = "cp + length owner"
  have l: "length ct = 6" "0 < length owner" using assms(1) SrvAnswer by simp_all
  have len: "cp + length (record_bytes a) = ?c + 16 + length target" using SrvAnswer l(1) by simp
  have b: "bytes_at r ?c (be16 33)" "bytes_at r (?c + 8) (be16 (of_nat (6 + length target)))"
    "bytes_at r (?c + 10) (be16 (sr_priority x))" "bytes_at r (?c + 12) (be16 (sr_weight x))"
    "bytes_at r (?c + 14) (be16 (sr_port x))"
    using assms(3) SrvAnswer l(1) by (simp_all add: numeral_eq_Suc add.assoc)
  have m: "?c + 15 < max_packet" "cp < ep" using assms(4,5) len l(2) by simp_all
  have n: "net16 r ?c = Some 33" "net16 r (?c + 8) = Some (of_nat (6 + length target))"
    "net16 r (?c + 10) = Some (sr_priority x)" "net16 r (?c + 12) = Some (sr_weight x)"
    "net16 r (?c + 14) = Some (sr_port x)"
    by (rule net16_be16 [OF b(1)] net16_be16 [OF b(2)] net16_be16 [OF b(3)] net16_be16 [OF b(4)]
        net16_be16 [OF b(5)]; use m in simp)+
  obtain nm where z: "rs_expand e r ep cp = (int (length owner), nm)"
    using assms(2) SrvAnswer by (cases "rs_expand e r ep cp") simp
  have x: "rs_expand e r ep (?c + 16) = (int (length target), sr_target x)" using assms(2) SrvAnswer by simp
  show ?thesis
    using z x n m(2) len by (simp add: SrvAnswer Let_def srv_store_enter(1) [OF assms(6)] add.assoc)
next
  case (OtherAnswer owner ty ct rdata)
  let ?c = "cp + length owner"
  have l: "length ct = 6" "0 < length owner" "ty \<noteq> 33" "length rdata < 2 ^ 16" using assms(1) OtherAnswer by simp_all
  have len: "cp + length (record_bytes a) = ?c + 10 + length rdata" using OtherAnswer l(1) by simp
  have b: "bytes_at r ?c (be16 ty)" "bytes_at r (?c + 8) (be16 (of_nat (length rdata)))"
    using assms(3) OtherAnswer l(1) by (simp_all add: numeral_eq_Suc add.assoc)
  have m: "?c + 9 < max_packet" "cp < ep" using assms(4,5) len l(2) by simp_all
  have n: "net16 r ?c = Some ty" "net16 r (?c + 8) = Some (of_nat (length rdata))"
    by (rule net16_be16 [OF b(1)] net16_be16 [OF b(2)]; use m in simp)+
  have d: "unat (of_nat (length rdata) :: 16 word) = length rdata" using l(4) by (simp add: unat_of_nat take_bit_nat_eq_self)
  obtain nm where z: "rs_expand e r ep cp = (int (length owner), nm)"
    using assms(2) OtherAnswer by (cases "rs_expand e r ep cp") simp
  show ?thesis using z n m(2) len l(3) d by (simp add: OtherAnswer Let_def add.assoc)
qed

lemma store_service_length: "length (us_srvlist (store_all e (record_service a) s)) \<le> Suc (length (us_srvlist s))"
  using srv_store_enter(2) [OF lessI] by (cases a) simp_all

lemma srv_records_encoded:
  "list_all record_formed as \<Longrightarrow> names_read e r ep cp as \<Longrightarrow> bytes_at r cp (concat (map record_bytes as)) \<Longrightarrow>
   cp + length (concat (map record_bytes as)) \<le> ep \<Longrightarrow> ep \<le> max_packet \<Longrightarrow> length (us_srvlist s) + length as \<le> places \<Longrightarrow>
   srv_records e places r ep (length as) cp s = SrvDone (store_all e (services as) s)"
proof (induction as arbitrary: cp s)
  case (Cons a as)
  have "srv_records e places r ep (Suc (length as)) cp s =
      srv_records e places r ep (length as) (cp + length (record_bytes a)) (store_all e (record_service a) s)"
    using Cons.prems by (intro srv_records_step) simp_all
  also have "\<dots> = SrvDone (store_all e (services as) (store_all e (record_service a) s))"
    using Cons.prems store_service_length [of e a s] by (intro Cons.IH) simp_all
  finally show ?case by (simp add: services_def)
qed (simp add: services_def)

text \<open>The records that are entered: those whose host has an address, with the place in the array that each gets.\<close>

definition known_hosts :: "resolver \<Rightarrow> srv_record list \<Rightarrow> srv_record list" where
  "known_hosts e xs = filter (\<lambda>x. rs_address e (sr_target x) (sr_port x) \<noteq> None) xs"

definition entered :: "resolver \<Rightarrow> nat \<times> srv_record \<Rightarrow> srv_address" where
  "entered e = (\<lambda>(k, x). \<lparr>sv_addr = the (rs_address e (sr_target x) (sr_port x)),
     sv_weight = (if sr_weight x = 0 then 0
       else of_nat ((1 + unat (rs_random e k AND 0x7fff)) mod (10000 * unat (sr_weight x)))),
     sv_priority = sr_priority x\<rparr>)"

lemma store_all_entered:
  "us_srvlist s = [] \<Longrightarrow> us_srvlist (store_all e xs s) = map (entered e) (enumerate 0 (known_hosts e xs))"
proof (induction xs rule: rev_induct)
  case (snoc x xs)
  then show ?case
    by (simp add: srv_enter_def srv_store_def known_hosts_def entered_def srv_weight_def enumerate_append_eq Let_def
        split: option.split)
qed (simp add: known_hosts_def)

text \<open>What an answer says of a record: its priority and its address.\<close>

lemma store_all_records:
  assumes "list_all (\<lambda>x. rs_address e (sr_target x) (sr_port x) \<noteq> None) xs"
  shows "map (\<lambda>n. (sv_priority n, Some (sv_addr n))) (us_srvlist (store_all e xs s)) =
      map (\<lambda>n. (sv_priority n, Some (sv_addr n))) (us_srvlist s) @
      map (\<lambda>x. (sr_priority x, rs_address e (sr_target x) (sr_port x))) xs \<and>
    (xs \<noteq> [] \<longrightarrow> us_entry (store_all e xs s) = rs_address e (sr_target (last xs)) (sr_port (last xs)) \<and>
       us_pri (store_all e xs s) = sr_priority (last xs))"
  using assms
proof (induction xs rule: rev_induct)
  case (snoc x xs)
  then obtain sp where "rs_address e (sr_target x) (sr_port x) = Some sp" by auto
  then show ?case using snoc by (simp add: srv_enter_def srv_store_def Let_def)
qed simp

lemma records_fewer: "list_all record_formed as \<Longrightarrow> length as \<le> length (concat (map record_bytes as))"
proof (induction as)
  case (Cons a as)
  then have "0 < length (record_bytes a)" "length as \<le> length (concat (map record_bytes as))"
    using record_bytes_pos by simp_all
  then show ?case by (simp del: length_greater_0_conv)
qed simp

lemma message_counts:
  assumes "length hd4 = 4" and "bytes_at r 0 (message_bytes hd4 counts question as rest)"
  shows "net16 r 4 = Some 1" and "net16 r 6 = Some (of_nat (length as))"
proof -
  have "bytes_at r 4 (be16 1)" "bytes_at r 6 (be16 (of_nat (length as)))"
    using assms by (simp_all add: message_bytes_def numeral_eq_Suc)
  from this [THEN net16_be16] show "net16 r 4 = Some 1" and "net16 r 6 = Some (of_nat (length as))"
    by (simp_all add: max_packet_def)
qed

lemma srv_read_message:
  assumes "list_all record_formed as" and "as \<noteq> []" and "length hd4 = 4" and "length counts = 4"
    and m: "m = message_bytes hd4 counts question as rest"
    and "rs_query e zone = (int (length m), r)" and "bytes_at r 0 m" and "length m \<le> max_packet"
    and "fst (rs_expand e r (length m) 12) = int (length question)"
    and "names_read e r (length m) (16 + length question) as" and "us_srvlist s = []"
  shows "srv_read e zone s = SrvDone (store_all e (services as) s)"
proof -
  let ?q = "16 + length question" and ?c = "concat (map record_bytes as)"
  have len: "length m = ?q + length ?c + length rest" by (simp add: m message_bytes_def assms(3,4))
  have le: "length as \<le> length ?c" by (rule records_fewer [OF assms(1)])
  then have small: "length as < 2 ^ 16" using len assms(8) by (simp add: max_packet_def)
  have b: "bytes_at r ?q ?c"
    using assms(7) unfolding m by (simp add: message_bytes_def assms(3,4) numeral_eq_Suc add.assoc add.commute)
  note h = message_counts [OF assms(3) assms(7) [unfolded m]]
  have n: "unat (of_nat (length as) :: 16 word) = length as" using small by (simp add: unat_of_nat take_bit_nat_eq_self)
  then have nz: "(of_nat (length as) :: 16 word) \<noteq> 0" using assms(2) by (metis length_0_conv unat_0)
  have "12 < length m" using len by simp
  then have "skip_questions e r (length m) 1 12 = Some ?q"
    using assms(9) by (cases "rs_expand e r (length m) 12") (simp add: numeral_eq_Suc)
  moreover have "srv_records e (srv_alloc (of_nat (length as))) r (length m) (length as) ?q s =
      SrvDone (store_all e (services as) s)"
    by (rule srv_records_encoded [OF assms(1,10) b _ assms(8)]) (simp_all add: len assms(11) srv_alloc_def n)
  moreover have "12 \<le> int (length m)" using len by simp
  ultimately show ?thesis by (simp add: srv_read_def Let_def assms(6) h n nz)
qed

lemma plain_formed: "nm zone \<noteq> [] \<Longrightarrow> length ttl = 4 \<Longrightarrow> list_all record_formed (plain_records nm ttl zone xs)"
  by (induction xs) (simp_all add: plain_records_def)

lemma plain_services: "services (plain_records nm ttl zone xs) = xs"
  by (induction xs) (simp_all add: services_def plain_records_def)

lemma plain_names:
  assumes "expands e nm names" and "zone \<in> names" and "length ttl = 4"
  shows "sr_target ` set xs \<subseteq> names \<Longrightarrow> bytes_at r cp (concat (map record_bytes (plain_records nm ttl zone xs))) \<Longrightarrow>
    cp + length (concat (map record_bytes (plain_records nm ttl zone xs))) \<le> ep \<Longrightarrow>
    names_read e r ep cp (plain_records nm ttl zone xs)"
proof (induction xs arbitrary: cp)
  case (Cons x xs)
  let ?a = "SrvAnswer (nm zone) (be16 1 @ ttl) x (nm (sr_target x))"
  have p: "plain_records nm ttl zone (x # xs) = ?a # plain_records nm ttl zone xs" by (simp add: plain_records_def)
  have len: "length (record_bytes ?a) = length (nm zone) + 16 + length (nm (sr_target x))" by (simp add: assms(3))
  have b: "bytes_at r cp (nm zone)" "bytes_at r (cp + length (nm zone) + 16) (nm (sr_target x))"
    using Cons.prems(2) by (simp_all add: p assms(3) numeral_eq_Suc add.assoc)
  have e: "cp + length (record_bytes ?a) \<le> ep" using Cons.prems(3) by (simp add: p)
  have "rs_expand e r ep cp = (int (length (nm zone)), zone)"
    by (rule expandsD(1) [OF assms(1,2) b(1)]) (use e len in simp)
  moreover have "rs_expand e r ep (cp + length (nm zone) + 16) = (int (length (nm (sr_target x))), sr_target x)"
    by (rule expandsD(1) [OF assms(1) _ b(2)]) (use e len Cons.prems(1) in simp_all)
  moreover have "names_read e r ep (cp + length (record_bytes ?a)) (plain_records nm ttl zone xs)"
    using Cons.prems by (intro Cons.IH) (simp_all add: p add.assoc)
  ultimately show ?case by (simp add: p)
qed (simp add: plain_records_def)

lemma answer_counts:
  assumes "length hd4 = 4" and "bytes_at r 0 (answer_bytes nm hd4 ttl zone xs)"
  shows "net16 r 4 = Some 1" and "net16 r 6 = Some (of_nat (length xs))"
  using message_counts [OF assms(1) assms(2) [unfolded answer_bytes_def]] by (simp_all add: plain_records_def)

lemma uri_set_answer:
  assumes "expands e nm names" and "zone \<in> names" and "sr_target ` set xs \<subseteq> names"
    and "length hd4 = 4" and "length ttl = 4" and "xs \<noteq> []"
    and "rh_zone h = Some zone" and "rs_query e zone = (int (length (answer_bytes nm hd4 ttl zone xs)), r)"
    and "bytes_at r 0 (answer_bytes nm hd4 ttl zone xs)" and "length (answer_bytes nm hd4 ttl zone xs) \<le> max_packet"
  shows "uri_set u e h s = Some \<lparr>uo_state = store_all e xs (uri_clear s), uo_srv = True,
    uo_count = length (us_srvlist (store_all e xs (uri_clear s)))\<rparr>"
proof -
  let ?as = "plain_records nm ttl zone xs" and ?m = "answer_bytes nm hd4 ttl zone xs"
  note m = answer_bytes_def [of nm hd4 ttl zone xs]
  have len: "length ?m = 16 + length (nm zone) + length (concat (map record_bytes ?as))"
    by (simp add: m message_bytes_def assms(4))
  have b: "bytes_at r 12 (nm zone)" "bytes_at r (16 + length (nm zone)) (concat (map record_bytes ?as))"
    using assms(9) unfolding m by (simp_all add: message_bytes_def assms(4) numeral_eq_Suc add.assoc add.commute)
  have z: "fst (rs_expand e r (length ?m) 12) = int (length (nm zone))"
    using expandsD(1) [OF assms(1,2) b(1), of "length ?m"] len by simp
  have "nm zone \<noteq> []" using assms(1,2) by (simp add: expands_def)
  then have f: "list_all record_formed ?as" using assms(5) by (rule plain_formed)
  have n: "names_read e r (length ?m) (16 + length (nm zone)) ?as"
    by (rule plain_names [OF assms(1,2,5,3) b(2)]) (simp add: len)
  have "?as \<noteq> []" using assms(6) by (simp add: plain_records_def)
  from srv_read_message [OF f this assms(4) _ m assms(8,9,10) z n, of "uri_clear s"]
  have "srv_read e zone (uri_clear s) = SrvDone (store_all e xs (uri_clear s))"
    by (simp add: uri_clear_def plain_services)
  then show ?thesis by (simp add: uri_set_def assms(7))
qed

text \<open>
  C31. An answer of the name system is read as it was meant: from a message in the format of the protocol, with
  one question and any number of records that fits, services and others in any order, names written out
  or as references, and anything behind them, \<open>set\<close> enters the services whose host has an address, in their
  order and nothing else: each with that address and its priority, and with a weight that is 0 if the record's is, and
  otherwise a random number from 1 to 32768 modulo 10000 times the record's.
\<close>

theorem srv_answer_read:
  assumes "list_all record_formed as" and "as \<noteq> []" and "length hd4 = 4" and "length counts = 4"
    and "m = message_bytes hd4 counts question as rest"
    and "rh_zone h = Some zone" and "rs_query e zone = (int (length m), r)"
    and "bytes_at r 0 m" and "length m \<le> max_packet"
    and "fst (rs_expand e r (length m) 12) = int (length question)"
    and "names_read e r (length m) (16 + length question) as"
  shows "\<exists>ob. uri_set u e h s = Some ob \<and> uo_srv ob \<and> uo_count ob = length (known_hosts e (services as)) \<and>
    us_srvlist (uo_state ob) =
      map (\<lambda>(k, x). \<lparr>sv_addr = the (rs_address e (sr_target x) (sr_port x)),
          sv_weight = (if sr_weight x = 0 then 0
            else of_nat ((1 + unat (rs_random e k AND 0x7fff)) mod (10000 * unat (sr_weight x)))),
          sv_priority = sr_priority x\<rparr>)
        (enumerate 0 (filter (\<lambda>x. rs_address e (sr_target x) (sr_port x) \<noteq> None) (services as)))"
proof -
  have "us_srvlist (uri_clear s) = []" by (simp add: uri_clear_def)
  from srv_read_message [OF assms(1-5,7-11) this] store_all_entered [OF this]
  show ?thesis
    by (simp add: uri_set_def assms(6)) (simp add: known_hosts_def entered_def)
qed

text \<open>A resolver that knows two servers, and the answer that names them.\<close>

definition sample_name :: "string \<Rightarrow> 8 word list" where
  "sample_name h = of_nat (length h) # map (\<lambda>c. of_char c) h @ [0]"

definition sample_records :: "srv_record list" where
  "sample_records = [\<lparr>sr_priority = 10, sr_weight = 0, sr_port = 5060, sr_target = ''a''\<rparr>,
     \<lparr>sr_priority = 20, sr_weight = 0, sr_port = 5060, sr_target = ''b''\<rparr>]"

definition sample_answer :: "8 word list" where
  "sample_answer = answer_bytes sample_name [0, 1, 0x81, 0x80] [0, 0, 1, 0] ''z'' sample_records"

definition sample_resolver :: resolver where
  "sample_resolver = \<lparr>rs_query = (\<lambda>_. (int (length sample_answer), (\<lambda>k. if k < length sample_answer then sample_answer ! k else 0))),
     rs_expand = (\<lambda>r ep i. (3, [if r (i + 1) = 97 then CHR ''a'' else if r (i + 1) = 98 then CHR ''b'' else CHR ''z''])),
     rs_address = (\<lambda>host port. if host = ''a'' then Some 1 else Some 2), rs_random = (\<lambda>_. 0), rs_addrinfo = (\<lambda>_ _. [])\<rparr>"

definition sample_hint :: resolve_hint where
  "sample_hint = \<lparr>rh_host = ''z'', rh_svc = ''sip'', rh_protocol = UDP, rh_stream = False, rh_family = AF_INET,
     rh_numerichost = False, rh_numericserv = False, rh_v4mapped = False, rh_zone = Some ''z''\<rparr>"

definition fresh_uri :: uri_state where
  "fresh_uri = \<lparr>us_srvlist = [], us_entry = None, us_pri = 0\<rparr>"

lemma sample_expands: "expands sample_resolver sample_name {''a'', ''b'', ''z''}"
  by (auto simp: expands_def sample_resolver_def sample_name_def bytes_at_iff less_Suc_eq)

lemma sample_length: "length sample_answer = 63"
  by (simp add: sample_answer_def answer_bytes_def message_bytes_def plain_records_def sample_name_def sample_records_def)

lemma sample_facts:
  "rs_query sample_resolver ''z'' = (int (length sample_answer), snd (rs_query sample_resolver ''z''))"
  "bytes_at (snd (rs_query sample_resolver ''z'')) 0 sample_answer"
  "length sample_answer \<le> max_packet"
  "list_all (\<lambda>x. rs_address sample_resolver (sr_target x) (sr_port x) \<noteq> None) sample_records"
  "sr_target ` set sample_records \<subseteq> {''a'', ''b'', ''z''}" "sample_records \<noteq> []" "rh_zone sample_hint = Some ''z''"
  by (simp_all add: sample_resolver_def bytes_at_iff sample_length max_packet_def sample_records_def sample_hint_def)

text \<open>
  And one that answers with references: a record of another type, a service on \<open>a\<close>, which has an address, and one on \<open>b\<close>, which
  has none.
\<close>

definition short_records :: "answer_record list" where
  "short_records = [OtherAnswer [0xC0, 12] 5 [0, 1, 0, 0, 1, 0] [1, 97, 0],
     SrvAnswer [0xC0, 12] [0, 1, 0, 0, 1, 0] \<lparr>sr_priority = 10, sr_weight = 3, sr_port = 5060, sr_target = ''a''\<rparr> [0xC0, 31],
     SrvAnswer [0xC0, 12] [0, 1, 0, 0, 1, 0] \<lparr>sr_priority = 20, sr_weight = 0, sr_port = 5060, sr_target = ''b''\<rparr> [1, 98, 0]]"

definition short_message :: "8 word list" where
  "short_message = message_bytes [0, 1, 0x81, 0x80] [0, 0, 0, 0] [1, 122, 0] short_records [7]"

definition short_resolver :: resolver where
  "short_resolver = \<lparr>rs_query = (\<lambda>_. (int (length short_message), (\<lambda>k. if k < length short_message then short_message ! k else 0))),
     rs_expand = (\<lambda>r ep i. if r i = 0xC0 then (2, if r (i + 1) = 31 then ''a'' else ''z'') else (3, if r (i + 1) = 98 then ''b'' else ''z'')),
     rs_address = (\<lambda>host port. if host = ''a'' then Some 1 else None), rs_random = (\<lambda>_. 40000), rs_addrinfo = (\<lambda>_ _. [])\<rparr>"

lemma short_bytes: "short_message =
  [0, 1, 0x81, 0x80, 0, 1, 0, 3, 0, 0, 0, 0, 1, 122, 0, 0, 33, 0, 1] @
  [0xC0, 12, 0, 5, 0, 1, 0, 0, 1, 0, 0, 3, 1, 97, 0] @
  [0xC0, 12, 0, 33, 0, 1, 0, 0, 1, 0, 0, 8, 0, 10, 0, 3, 19, 196, 0xC0, 31] @
  [0xC0, 12, 0, 33, 0, 1, 0, 0, 1, 0, 0, 9, 0, 20, 0, 0, 19, 196, 1, 98, 0] @ [7]"
  by (simp add: short_message_def message_bytes_def short_records_def be16_def)

theorem srv_answer_read_witness:
  "\<exists>ob. uri_set ucommon_ref short_resolver sample_hint fresh_uri = Some ob \<and> uo_count ob = 1 \<and>
     us_srvlist (uo_state ob) = [\<lparr>sv_addr = 1, sv_weight = 7233, sv_priority = 10\<rparr>]"
proof -
  let ?r = "\<lambda>k. if k < length short_message then short_message ! k else 0"
  have f: "list_all record_formed short_records" "short_records \<noteq> []" by (simp_all add: short_records_def)
  have l: "length [0, 1, 0x81, 0x80 :: 8 word] = 4" "length [0, 0, 0, 0 :: 8 word] = 4" by simp_all
  have n: "length short_message = 76" by (simp add: short_bytes)
  have q: "rs_query short_resolver ''z'' = (int (length short_message), ?r)" by (simp add: short_resolver_def)
  have b: "bytes_at ?r 0 short_message" by (simp add: bytes_at_iff)
  have z: "rh_zone sample_hint = Some ''z''" "length short_message \<le> max_packet" by (simp_all add: sample_hint_def n max_packet_def)
  have e: "fst (rs_expand short_resolver ?r (length short_message) 12) = int (length [1, 122, 0 :: 8 word])"
    by (simp add: short_resolver_def n) (simp add: short_bytes)
  have m: "names_read short_resolver ?r (length short_message) (16 + length [1, 122, 0 :: 8 word]) short_records"
    by (simp add: short_records_def short_resolver_def n) (simp add: short_bytes)
  have s: "services short_records = [\<lparr>sr_priority = 10, sr_weight = 3, sr_port = 5060, sr_target = ''a''\<rparr>,
      \<lparr>sr_priority = 20, sr_weight = 0, sr_port = 5060, sr_target = ''b''\<rparr>]"
    by (simp add: services_def short_records_def)
  have w: "unat ((40000 :: 16 word) AND 0x7fff) = 7232" by code_simp
  from srv_answer_read [OF f l short_message_def z(1) q b z(2) e m, of ucommon_ref fresh_uri]
  obtain ob where "uri_set ucommon_ref short_resolver sample_hint fresh_uri = Some ob" "uo_count ob = 1"
    "us_srvlist (uo_state ob) = [\<lparr>sv_addr = 1, sv_weight = 7233, sv_priority = 10\<rparr>]"
    by (auto simp: s known_hosts_def short_resolver_def w)
  then show ?thesis by blast
qed

text \<open>
  C36. The order of the servers is lost: after an answer has been read the entry is the last record, whatever the
  priorities, and stepping on with \<open>next\<close> from there visits only records behind it in the order of priorities.
  A server that the answer prefers, but does not list last, is never tried.
\<close>

theorem srv_preferred_never_tried:
  assumes "expands e nm names" and "zone \<in> names" and "sr_target ` set xs \<subseteq> names"
    and "length hd4 = 4" and "length ttl = 4" and "xs \<noteq> []"
    and "rh_zone h = Some zone" and "rs_query e zone = (int (length (answer_bytes nm hd4 ttl zone xs)), r)"
    and "bytes_at r 0 (answer_bytes nm hd4 ttl zone xs)" and "length (answer_bytes nm hd4 ttl zone xs) \<le> max_packet"
    and "list_all (\<lambda>x. rs_address e (sr_target x) (sr_port x) \<noteq> None) xs"
    and "list_all (\<lambda>x. unat (sr_priority x) < 65535) xs"
  shows "\<exists>ob l. uri_set u e h s = Some ob \<and>
    us_entry (uo_state ob) = rs_address e (sr_target (last xs)) (sr_port (last xs)) \<and>
    uri_walk (uo_state ob) [] = Some l \<and>
    Some ` set l \<subseteq> {rs_address e (sr_target x) (sr_port x) | x. x \<in> set xs \<and> sr_priority (last xs) < sr_priority x}"
proof -
  let ?s = "store_all e xs (uri_clear s)"
  have m: "map (\<lambda>n. (sv_priority n, Some (sv_addr n))) (us_srvlist ?s) =
      map (\<lambda>x. (sr_priority x, rs_address e (sr_target x) (sr_port x))) xs"
    and e: "us_entry ?s = rs_address e (sr_target (last xs)) (sr_port (last xs))" "us_pri ?s = sr_priority (last xs)"
    using store_all_records [OF assms(11), of "uri_clear s"] assms(6) by (simp_all add: uri_clear_def)
  have in_xs: "\<exists>x \<in> set xs. sv_priority n = sr_priority x \<and> Some (sv_addr n) = rs_address e (sr_target x) (sr_port x)"
    if "n \<in> set (us_srvlist ?s)" for n
  proof -
    have "(sv_priority n, Some (sv_addr n)) \<in> set (map (\<lambda>n. (sv_priority n, Some (sv_addr n))) (us_srvlist ?s))"
      using that by auto
    then show ?thesis unfolding m by auto
  qed
  have lt: "unat (sr_priority x) < 65535" if "x \<in> set xs" for x
    using assms(12) that by (simp add: list_all_iff)
  have "\<forall>n \<in> set (us_srvlist ?s). unat (sv_priority n) < 65535" "unat (us_pri ?s) < 65535"
  proof
    fix n assume "n \<in> set (us_srvlist ?s)"
    from in_xs [OF this] lt show "unat (sv_priority n) < 65535" by auto
  next
    show "unat (us_pri ?s) < 65535" using lt [OF last_in_set [OF assms(6)]] by (simp only: e)
  qed
  from uri_walk_ends [OF this, of "[]"] obtain l where l: "uri_walk ?s [] = Some l"
    "set l \<subseteq> sv_addr ` {n \<in> set (us_srvlist ?s). sr_priority (last xs) < sv_priority n}"
    by (auto simp: e)
  have "Some ` set l \<subseteq> {rs_address e (sr_target x) (sr_port x) | x. x \<in> set xs \<and> sr_priority (last xs) < sr_priority x}"
  proof
    fix a assume "a \<in> Some ` set l"
    then obtain n where n: "n \<in> set (us_srvlist ?s)" "a = Some (sv_addr n)" "sr_priority (last xs) < sv_priority n"
      using l(2) by blast
    from in_xs [OF n(1)] n(2,3)
    show "a \<in> {rs_address e (sr_target x) (sr_port x) | x. x \<in> set xs \<and> sr_priority (last xs) < sr_priority x}"
      by auto
  qed
  with l(1) e(1) show ?thesis
    using uri_set_answer [OF assms(1-10), of u s] by (intro exI [of _ l] exI [of _ "\<lparr>uo_state = ?s, uo_srv = True, uo_count = length (us_srvlist ?s)\<rparr>"]) simp
qed

theorem srv_preferred_never_tried_witness:
  "\<exists>ob. uri_set ucommon_ref sample_resolver sample_hint fresh_uri = Some ob \<and> us_entry (uo_state ob) = Some 2 \<and>
     uri_walk (uo_state ob) [] = Some []"
proof -
  have z: "''z'' \<in> {''a'', ''b'', ''z''}" by simp
  note f = sample_facts [unfolded sample_answer_def]
  have hd4: "length [0, 1, 0x81, 0x80 :: 8 word] = 4" and ttl: "length [0, 0, 1, 0 :: 8 word] = 4" by simp_all
  have p: "list_all (\<lambda>x. unat (sr_priority x) < 65535) sample_records" by (simp add: sample_records_def)
  obtain ob l where ob: "uri_set ucommon_ref sample_resolver sample_hint fresh_uri = Some ob" "uri_walk (uo_state ob) [] = Some l"
    "us_entry (uo_state ob) = rs_address sample_resolver (sr_target (last sample_records)) (sr_port (last sample_records))"
    "Some ` set l \<subseteq> {rs_address sample_resolver (sr_target x) (sr_port x) | x.
       x \<in> set sample_records \<and> sr_priority (last sample_records) < sr_priority x}"
    using srv_preferred_never_tried [OF sample_expands z f(5) hd4 ttl f(6) f(7) f(1) f(2) f(3) f(4) p, of ucommon_ref fresh_uri]
    by blast
  have "{rs_address sample_resolver (sr_target x) (sr_port x) | x.
       x \<in> set sample_records \<and> sr_priority (last sample_records) < sr_priority x} = {}"
    by (auto simp: sample_records_def)
  with ob(4) have "Some ` set l \<subseteq> {}" by metis
  then have "l = []" by simp
  with ob show ?thesis by (simp add: sample_records_def sample_resolver_def)
qed

text \<open>
  C34. The array of records is never overrun: however the answer is made up, damaged or forged, whatever names it is
  said to hold, and whether the reading ends well, gives up or leaves the buffer, no record is written behind
  the places that were allocated, and no more are entered than the header announces.
\<close>

theorem srv_array_suffices:
  "srv_read e zone (uri_clear s) \<noteq> SrvOverrun \<and>
   (case outcome_state (srv_read e zone (uri_clear s)) of None \<Rightarrow> True
    | Some s1 \<Rightarrow> length (us_srvlist s1) \<le> (case net16 (snd (rs_query e zone)) 6 of None \<Rightarrow> 0 | Some acount \<Rightarrow> unat acount))"
proof -
  obtain result r where q: "rs_query e zone = (result, r)" by (rule prod.exhaust)
  have c: "us_srvlist (uri_clear s) = []" by (simp add: uri_clear_def)
  obtain acount where a: "net16 r 6 = Some acount" by (simp add: net16_def max_packet_def)
  have "enters (unat acount) (srv_read e zone (uri_clear s))"
    using srv_records_enters [of "uri_clear s" "unat acount" "srv_alloc acount" e r "nat result"] c
    by (simp add: srv_read_def q a srv_alloc_def Let_def split: option.split)
  then show ?thesis by (simp add: enters_def q a cong: option.case_cong)
qed

text \<open>
  \<open>next\<close> cannot be called after the fallback: when the system found addresses it counts them, and reads
  that many records of an array that does not exist.
\<close>

theorem uri_next_after_fallback:
  assumes "rh_zone h = None" and "rs_addrinfo e h (uri_fallback_port u (rh_svc h)) \<noteq> []"
  shows "\<exists>ob. uri_set u e h s = Some ob \<and> us_entry (uo_state ob) \<noteq> None \<and> uri_object_next ob = None"
  using assms by (auto simp: uri_set_def uri_fallback_def uri_object_next_def Let_def neq_Nil_conv)

theorem uri_next_after_fallback_witness:
  "\<exists>ob. uri_set ucommon_ref (sample_resolver\<lparr>rs_addrinfo := (\<lambda>_ _. [5])\<rparr>) (sample_hint\<lparr>rh_zone := None\<rparr>) fresh_uri = Some ob \<and>
     uri_object_next ob = None"
  using uri_next_after_fallback [of "sample_hint\<lparr>rh_zone := None\<rparr>" "sample_resolver\<lparr>rs_addrinfo := (\<lambda>_ _. [5])\<rparr>" ucommon_ref fresh_uri]
  by auto

end
