(* ===== verification/Mailslot.thy ===== *)
theory Mailslot
  imports Setup
begin

text \<open>
  The control interface as built for Windows (\<^verbatim>\<open>common/server.cpp\<close>, the branch for
  \<^verbatim>\<open>_MSWINDOWS_\<close>): requests are messages of a mailslot, and \<open>reply\<close> has no way to answer. The
  commands behind it are those of \<open>Server\<close>.
\<close>

section \<open>Requests\<close>

definition mailslot_prefix :: string where
  "mailslot_prefix = [CHR 0x5C, CHR 0x5C, CHR ''.'', CHR 0x5C] @ ''mailslot'' @ [CHR 0x5C]"

definition starts_backslash :: "string \<Rightarrow> bool" where
  "starts_backslash s = (case s of [] \<Rightarrow> False | x # _ \<Rightarrow> x = CHR 0x5C)"

datatype mailslot_answer = Ignored | Accepted "string option" string | BeforeBuffer

text \<open>
  One message: \<open>lead\<close> blanks were stripped from its front and \<open>cp\<close> is what is left. The text that begins six
  characters before the end of the target is compared with \<^verbatim>\<open>_temp\<close>; if the target and the blanks before it
  are shorter than that it begins in front of the buffer.
\<close>

definition mailslot_text :: "ucommon \<Rightarrow> string \<Rightarrow> string \<Rightarrow> mailslot_answer" where
  "mailslot_text u lead cp =
     (if starts_backslash cp \<and> (strstr cp ''..'' \<noteq> None \<or> \<not> u_eqn u cp mailslot_prefix 14) then Ignored
      else if starts_backslash cp \<or> starts_digit cp
      then let target = takeWhile (\<lambda>x. \<not> c_isspace x) cp;
               cmd = dropWhile c_isspace (dropWhile (\<lambda>x. \<not> c_isspace x) cp);
               before = lead @ target
           in if length before < 6 then BeforeBuffer
              else if u_eq u (drop (length before - 6) before) ''_temp'' then Ignored
              else Accepted (Some target) cmd
      else Accepted None cp)"

text \<open>The buffer takes 463 characters of a message.\<close>

definition mailslot_request :: "ucommon \<Rightarrow> string \<Rightarrow> mailslot_answer" where
  "mailslot_request u msg =
     (let buf = take 463 msg; blanks = '' '' @ [CHR 0x09, CHR 0x0D, CHR 0x0A]
      in mailslot_text u (takeWhile (\<lambda>x. x \<in> set blanks) buf) (u_strip u buf blanks))"

text \<open>\<open>receive\<close> reads on until a message is accepted; \<open>None\<close> is the end of the messages or a read outside the buffer.\<close>

fun mailslot_receive :: "ucommon \<Rightarrow> string list \<Rightarrow> ((string option \<times> string) \<times> string list) option" where
  "mailslot_receive u [] = None"
| "mailslot_receive u (m # ms) =
     (if m = [] then None
      else case mailslot_request u m of
             Ignored \<Rightarrow> mailslot_receive u ms
           | Accepted t cmd \<Rightarrow> Some ((t, cmd), ms)
           | BeforeBuffer \<Rightarrow> None)"

text \<open>\<open>reply\<close> logs an error, answers nobody and forgets the target.\<close>

definition mailslot_reply :: "string option \<Rightarrow> control \<Rightarrow> control" where
  "mailslot_reply msg c =
     (case msg of None \<Rightarrow> c | Some m \<Rightarrow> control_do [ErrorLog (''control failed; '' @ m)] c)\<lparr>ct_target := None\<rparr>"

section \<open>Handles\<close>

text \<open>The three static handles; \<open>None\<close> is \<^verbatim>\<open>INVALID_HANDLE_VALUE\<close>.\<close>

record mailslot_handles =
  mh_fifo :: "nat option"
  mh_loopback :: "nat option"
  mh_event :: "nat option"

definition no_handles :: mailslot_handles where
  "no_handles = \<lparr>mh_fifo = None, mh_loopback = None, mh_event = None\<rparr>"

definition mailslot_input :: "mailslot_handles \<Rightarrow> nat option" where
  "mailslot_input h = mh_loopback h"

text \<open>\<open>cleanup\<close>: the handles it closes, in order; it looks at the first only.\<close>

definition mailslot_cleanup :: "mailslot_handles \<Rightarrow> nat option list \<times> mailslot_handles" where
  "mailslot_cleanup h = (if mh_fifo h \<noteq> None then ([mh_fifo h, mh_loopback h, mh_event h], no_handles) else ([], h))"

text \<open>\<open>attach\<close> with what the system answers for the mailslot, the event and the loopback file; only the first is looked at.\<close>

definition mailslot_attach :: "nat option \<Rightarrow> nat option \<Rightarrow> nat option \<Rightarrow> mailslot_handles \<Rightarrow> nat \<times> mailslot_handles" where
  "mailslot_attach slot event file h =
     (if slot = None then (0, h\<lparr>mh_fifo := None\<rparr>)
      else (464, h\<lparr>mh_fifo := slot, mh_event := event, mh_loopback := file\<rparr>))"

text \<open>\<open>release\<close> cleans up, and so does the end of the process if \<open>attach\<close> has registered it.\<close>

definition mailslot_release :: "bool \<Rightarrow> nat \<Rightarrow> mailslot_handles \<Rightarrow> nat \<times> nat option list" where
  "mailslot_release exiting status h =
     (let (closed, h1) = mailslot_cleanup h in (status, closed @ (if exiting then fst (mailslot_cleanup h1) else [])))"

text \<open>
  \<open>control\<close>: the message, the handle that is closed, and whether it was written. A missing newline is put over the
  terminating NUL, and the message goes up to the next NUL in what the buffer holds from before.
\<close>

definition mailslot_message :: "string \<Rightarrow> string \<Rightarrow> string" where
  "mailslot_message text rest =
     (let t = fit 511 text
      in if t \<noteq> [] \<and> last t = CHR 0x0A then t
         else t @ [CHR 0x0A] @ takeWhile (\<lambda>c. c \<noteq> CHR 0x00) rest)"

definition mailslot_control ::
    "nat option \<Rightarrow> bool \<Rightarrow> string \<Rightarrow> string \<Rightarrow> mailslot_handles \<Rightarrow> bool \<times> string option \<times> nat list"
where
  "mailslot_control file written text rest h =
     (case file of
        None \<Rightarrow> (False, None, [])
      | Some fd \<Rightarrow>
          (written, if written then Some (mailslot_message text rest) else None,
           if file \<noteq> mh_loopback h then [fd] else []))"

section \<open>Properties\<close>

lemma starts_digit_backslash: "starts_digit s \<Longrightarrow> \<not> starts_backslash s"
  by (cases s) (auto simp: starts_digit_def starts_backslash_def c_isdigit_def)

lemma mailslot_prefix_facts:
  "length mailslot_prefix = 13" "strstr mailslot_prefix ''..'' = None" "starts_backslash mailslot_prefix"
  "length (takeWhile (\<lambda>x. \<not> c_isspace x) mailslot_prefix) = 13"
  by (simp_all add: mailslot_prefix_def starts_backslash_def c_isspace_def)

text \<open>The prefix is compared with its terminating NUL.\<close>

lemma eqn_mailslot_prefix: "ucommon_ok u \<Longrightarrow> u_eqn u cp mailslot_prefix 14 \<longleftrightarrow> cp = mailslot_prefix"
proof
  assume "ucommon_ok u" and "u_eqn u cp mailslot_prefix 14"
  then have e: "take 14 cp = mailslot_prefix" by (simp add: mailslot_prefix_facts(1))
  from arg_cong [OF this, of length] have "length cp = 13" by (simp add: mailslot_prefix_facts(1))
  with e show "cp = mailslot_prefix" by simp
qed simp

lemma drop_six: "6 \<le> length t \<Longrightarrow> drop (length t - 6) t \<noteq> ''_temp''"
proof
  assume "6 \<le> length t" and "drop (length t - 6) t = ''_temp''"
  from arg_cong [OF this(2), of length] this(1) show False by simp
qed

text \<open>
  On Windows a request whose answer is to go to a mailslot is ignored: the prefix of the target is compared
  with its terminating NUL, so nothing but the bare prefix passes, while the test for a temporary target never applies, for
  it compares six characters with five. And a request of a process whose number has fewer than six digits makes
  the server read in front of its buffer, unless enough blanks come before it.
\<close>

theorem mailslot_requests:
  assumes "ucommon_ok u"
  shows "(mailslot_text u lead cp = Ignored \<longleftrightarrow> starts_backslash cp \<and> cp \<noteq> mailslot_prefix) \<and>
    (mailslot_text u lead cp = BeforeBuffer \<longleftrightarrow>
       starts_digit cp \<and> length (lead @ takeWhile (\<lambda>x. \<not> c_isspace x) cp) < 6)"
  using assms eqn_mailslot_prefix [OF assms, of cp] mailslot_prefix_facts
    drop_six [of "lead @ takeWhile (\<lambda>x. \<not> c_isspace x) cp"] starts_digit_backslash [of cp]
  by (auto simp: mailslot_text_def Let_def not_less simp del: ucommon_eqn)

theorem mailslot_requests_witness:
  "mailslot_text ucommon_ref [] ''123 status'' = BeforeBuffer \<and>
   mailslot_text ucommon_ref [] (mailslot_prefix @ ''reply status'') = Ignored"
  using mailslot_requests [OF ucommon_ref_ok, of "[]" "''123 status''"]
    mailslot_requests [OF ucommon_ref_ok, of "[]" "mailslot_prefix @ ''reply status''"]
  by (simp add: starts_digit_def c_isdigit_def c_isspace_def mailslot_prefix_def starts_backslash_def)

text \<open>
  The handles that \<open>attach\<close> gets are closed once, in whatever way the process ends, and none if there is no
  mailslot; a handle it did not get is closed all the same, as \<open>attach\<close> does not look whether it got the other two.
\<close>

theorem mailslot_handles_closed:
  "mailslot_attach slot event file no_handles = (n, h) \<Longrightarrow>
   mailslot_release exiting status h = (status, if slot = None then [] else [slot, file, event])"
  by (cases slot) (auto simp: mailslot_attach_def mailslot_release_def mailslot_cleanup_def no_handles_def)

text \<open>
  A message of \<open>control\<close> is the line it was asked to send only if the byte behind the text was NUL by chance; on a
  POSIX system the length is counted and the line is always right.
\<close>

theorem mailslot_control_lines:
  assumes "length text < 511"
  shows "mailslot_message text rest = control_line text \<longleftrightarrow>
    (text \<noteq> [] \<and> last text = CHR 0x0A) \<or> rest = [] \<or> hd rest = CHR 0x00"
  using assms by (cases rest) (simp_all add: mailslot_message_def control_line_def Let_def)

end
