(* ===== verification/Signals.thy ===== *)
theory Signals
  imports Setup
begin

text \<open>
  The signal thread (\<^verbatim>\<open>common/psignals.cpp\<close>) beside what \<open>Setup\<close> says of its loop: the signals that are kept for
  it, and the order of the accesses to its two flags while it is started and cancelled, over all interleavings
  of the thread, the main thread and the signals that come. At the end the file's branch for Windows, where the
  system's service manager takes the place of signals.
\<close>

section \<open>Which signals\<close>

text \<open>\<open>setup\<close>: the signals blocked in every thread, which only \<open>sigwait\<close> takes, and the one ignored.\<close>

definition blocked_signals :: "signo list" where
  "blocked_signals = [SIGALRM, SIGHUP, SIGINT, SIGTERM, SIGUSR1]"

text \<open>The loop acts on exactly the signals that are kept for it.\<close>

lemma blocked_acted_on: "s \<in> set blocked_signals \<longleftrightarrow> signal_request s \<noteq> None"
  by (cases s) (simp_all add: blocked_signals_def signal_request_def)

section \<open>Starting and cancelling\<close>

text \<open>
  Where the thread is: not created; created but before \<open>started = true\<close>; in \<open>sigwait\<close>; with a signal, before
  it looks at \<open>shutdown\<close>; with a signal that it acts on; returned.
\<close>

datatype sig_pc = SigNone | SigNew | SigWaiting | SigTaken signo | SigActing signo | SigEnded

text \<open>
  Where the main thread is: before \<open>start\<close>; running; in \<open>cancel\<close> after it found \<open>started\<close> set, and after it has set
  \<open>shutdown\<close>; in \<open>join\<close>; back from \<open>cancel\<close>.
\<close>

datatype main_pc = MainBefore | MainRunning | MainSetting | MainKilling | MainJoining | MainDone

record sig_sys =
  sn_main :: main_pc
  sn_pc :: sig_pc
  sn_started :: bool
  sn_shutdown :: bool
  sn_pending :: "signo list"
  sn_written :: "string list"

definition sig_init :: sig_sys where
  "sig_init = \<lparr>sn_main = MainBefore, sn_pc = SigNone, sn_started = False, sn_shutdown = False, sn_pending = [],
     sn_written = []\<rparr>"

text \<open>The next access of each of the two threads; a thread that waits leaves all as it is.\<close>

definition main_access :: "sig_sys \<Rightarrow> sig_sys" where
  "main_access s =
     (case sn_main s of
        MainBefore \<Rightarrow> s\<lparr>sn_main := MainRunning, sn_pc := SigNew\<rparr>
      | MainRunning \<Rightarrow> s\<lparr>sn_main := (if sn_started s then MainSetting else MainDone)\<rparr>
      | MainSetting \<Rightarrow> s\<lparr>sn_main := MainKilling, sn_shutdown := True\<rparr>
      | MainKilling \<Rightarrow> s\<lparr>sn_main := MainJoining, sn_pending := sn_pending s @ [SIGALRM]\<rparr>
      | MainJoining \<Rightarrow> if sn_pc s = SigEnded then s\<lparr>sn_main := MainDone\<rparr> else s
      | MainDone \<Rightarrow> s)"

definition sig_access :: "sig_sys \<Rightarrow> sig_sys" where
  "sig_access s =
     (case sn_pc s of
        SigNone \<Rightarrow> s
      | SigNew \<Rightarrow> s\<lparr>sn_pc := SigWaiting, sn_started := True\<rparr>
      | SigWaiting \<Rightarrow> (case sn_pending s of [] \<Rightarrow> s | x # xs \<Rightarrow> s\<lparr>sn_pc := SigTaken x, sn_pending := xs\<rparr>)
      | SigTaken x \<Rightarrow> s\<lparr>sn_pc := (if sn_shutdown s then SigEnded else SigActing x)\<rparr>
      | SigActing x \<Rightarrow> s\<lparr>sn_pc := SigWaiting, sn_written := sn_written s @
            (case signal_request x of None \<Rightarrow> [] | Some r \<Rightarrow> [control_line r])\<rparr>
      | SigEnded \<Rightarrow> s)"

text \<open>
  A signal to the process stays pending until \<open>sigwait\<close> takes it; the alarm of 900 seconds comes in the same way.
\<close>

definition sig_arrive :: "signo \<Rightarrow> sig_sys \<Rightarrow> sig_sys" where
  "sig_arrive x s = (if x \<in> set blocked_signals then s\<lparr>sn_pending := sn_pending s @ [x]\<rparr> else s)"

datatype sig_actor = ActMain | ActThread | ActSignal signo

fun sig_act :: "sig_actor \<Rightarrow> sig_sys \<Rightarrow> sig_sys" where
  "sig_act ActMain s = main_access s"
| "sig_act ActThread s = sig_access s"
| "sig_act (ActSignal x) s = sig_arrive x s"

inductive sig_reach :: "sig_sys \<Rightarrow> sig_sys \<Rightarrow> bool" for s0 where
  sig_start: "sig_reach s0 s0"
| sig_more: "sig_reach s0 s \<Longrightarrow> sig_reach s0 (sig_act a s)"

lemma sig_reach_fold: "sig_reach s0 s \<Longrightarrow> sig_reach s0 (fold sig_act as s)"
  by (induction "as" arbitrary: s) (auto intro: sig_reach.sig_more)

section \<open>Lemmas\<close>

fun ending_pc :: "sig_pc \<Rightarrow> bool" where
  "ending_pc SigEnded = True"
| "ending_pc (SigTaken x) = True"
| "ending_pc _ = False"

text \<open>
  The invariant: the flags tell how far the two threads are, and once \<open>cancel\<close> waits for the thread there is a
  signal that wakes it.
\<close>

definition sig_inv :: "sig_sys \<Rightarrow> bool" where
  "sig_inv s \<longleftrightarrow>
     (sn_main s = MainBefore \<longleftrightarrow> sn_pc s = SigNone) \<and>
     (sn_started s \<longleftrightarrow> sn_pc s \<noteq> SigNone \<and> sn_pc s \<noteq> SigNew) \<and>
     (sn_main s = MainSetting \<longrightarrow> sn_started s) \<and>
     (sn_main s = MainKilling \<or> sn_main s = MainJoining \<longrightarrow> sn_started s \<and> sn_shutdown s) \<and>
     (sn_main s = MainBefore \<or> sn_main s = MainRunning \<or> sn_main s = MainSetting \<longrightarrow> \<not> sn_shutdown s) \<and>
     (sn_main s = MainDone \<and> sn_shutdown s \<longrightarrow> sn_pc s = SigEnded) \<and>
     (sn_pc s = SigEnded \<longrightarrow> sn_shutdown s) \<and>
     (sn_main s = MainJoining \<longrightarrow> sn_pending s \<noteq> [] \<or> ending_pc (sn_pc s))"

lemma sig_inv_init: "sig_inv sig_init"
  by (simp add: sig_inv_def sig_init_def)

lemma sig_inv_main: "sig_inv s \<Longrightarrow> sig_inv (main_access s)"
  by (cases "sn_main s"; cases "sn_pc s"; simp add: sig_inv_def main_access_def; blast?)

lemma sig_inv_thread: "sig_inv s \<Longrightarrow> sig_inv (sig_access s)"
  by (cases "sn_pc s"; cases "sn_main s"; cases "sn_pending s"; simp add: sig_inv_def sig_access_def)

lemma sig_inv_arrive: "sig_inv s \<Longrightarrow> sig_inv (sig_arrive x s)"
  by (cases "sn_main s"; cases "sn_pc s"; simp add: sig_inv_def sig_arrive_def; blast?)

lemma sig_inv_act: "sig_inv s \<Longrightarrow> sig_inv (sig_act a s)"
  by (cases a) (simp_all add: sig_inv_main sig_inv_thread sig_inv_arrive)

lemma sig_inv_reach: "sig_reach sig_init s \<Longrightarrow> sig_inv s"
  by (induction rule: sig_reach.induct) (auto intro: sig_inv_init sig_inv_act)

text \<open>Nothing moves a thread that has returned.\<close>

lemma sig_ended_stays:
  "sig_reach s t \<Longrightarrow> sn_pc s = SigEnded \<and> sn_main s = MainDone \<Longrightarrow>
     sn_pc t = SigEnded \<and> sn_main t = MainDone \<and> sn_written t = sn_written s"
proof (induction rule: sig_reach.induct)
  case (sig_more v a)
  then show ?case by (cases a) (simp_all add: main_access_def sig_access_def sig_arrive_def)
qed simp

lemma sig_joining_ends:
  assumes "sig_inv s" and "sn_main s = MainJoining"
  shows "sn_pc ((sig_access ^^ 3) s) = SigEnded \<and> sn_main ((sig_access ^^ 3) s) = MainJoining \<and>
    length (sn_written ((sig_access ^^ 3) s)) \<le> length (sn_written s) + 1"
proof -
  have i: "sn_main s = MainKilling \<or> sn_main s = MainJoining \<longrightarrow> sn_started s \<and> sn_shutdown s"
    "sn_started s \<longleftrightarrow> sn_pc s \<noteq> SigNone \<and> sn_pc s \<noteq> SigNew"
    using assms(1) unfolding sig_inv_def by blast+
  then have flags: "sn_shutdown s" "sn_started s" using assms(2) by blast+
  with i(2) have new: "sn_pc s \<noteq> SigNone" "sn_pc s \<noteq> SigNew" by blast+
  have more: "sn_pending s \<noteq> [] \<or> ending_pc (sn_pc s)" using assms by (simp add: sig_inv_def)
  have e: "(sig_access ^^ 3) s = sig_access (sig_access (sig_access s))" by (simp add: numeral_3_eq_3)
  show ?thesis
  proof (cases "sn_pc s")
    case SigWaiting
    with more obtain x xs where "sn_pending s = x # xs" by (cases "sn_pending s") simp_all
    with SigWaiting flags assms(2) show ?thesis by (simp add: e sig_access_def)
  next
    case (SigActing y)
    with more obtain x xs where "sn_pending s = x # xs" by (cases "sn_pending s") simp_all
    with SigActing flags assms(2) show ?thesis by (simp add: e sig_access_def split: option.split)
  qed (use assms(2) flags new in \<open>simp_all add: e sig_access_def\<close>)
qed

section \<open>Properties\<close>

text \<open>
  C22. The signal thread can be cancelled at any time: whatever signals come before and meanwhile, once \<open>cancel\<close>
  waits for the thread, the thread returns after at most three accesses and \<open>cancel\<close> goes on. It
  writes at most one request in that time, the one for a signal it had taken before, and none ever after.
\<close>

theorem signals_cancel_completes:
  assumes "sig_reach sig_init s" and "sn_main s = MainJoining" and "t = main_access ((sig_access ^^ 3) s)"
  shows "sn_main t = MainDone \<and> sn_pc t = SigEnded \<and> length (sn_written t) \<le> length (sn_written s) + 1 \<and>
    {sn_written v | v. sig_reach t v} = {sn_written t}"
proof -
  have t: "sn_main t = MainDone" "sn_pc t = SigEnded" "length (sn_written t) \<le> length (sn_written s) + 1"
    using sig_joining_ends [OF sig_inv_reach [OF assms(1)] assms(2)] by (simp_all add: assms(3) main_access_def)
  moreover have "{sn_written v | v. sig_reach t v} = {sn_written t}"
    using sig_ended_stays [where s = t] t sig_reach.sig_start [of t] by blast
  ultimately show ?thesis by blast
qed

text \<open>A run in which a signal is being acted on while the server stops.\<close>

definition busy_cancel :: "sig_actor list" where
  "busy_cancel = [ActMain, ActThread, ActSignal SIGHUP, ActThread, ActThread, ActMain, ActMain, ActMain]"

theorem signals_cancel_completes_witness:
  "sn_pc ((sig_access ^^ 3) (fold sig_act busy_cancel sig_init)) = SigEnded"
proof -
  have j: "sn_main (fold sig_act busy_cancel sig_init) = MainJoining"
    by (simp add: busy_cancel_def sig_init_def main_access_def sig_access_def sig_arrive_def blocked_signals_def)
  have "main_access v = v\<lparr>sn_main := MainDone\<rparr> \<Longrightarrow> sn_pc (main_access v) = sn_pc v" for v by simp
  moreover have "sn_pc (main_access ((sig_access ^^ 3) (fold sig_act busy_cancel sig_init))) = SigEnded"
    using signals_cancel_completes [OF sig_reach_fold [OF sig_reach.sig_start] j refl] by blast
  moreover have "sn_pc (main_access v) = SigEnded \<Longrightarrow> sn_main v \<noteq> MainBefore \<Longrightarrow> sn_pc v = SigEnded" for v
    by (cases "sn_main v") (simp_all add: main_access_def split: if_splits)
  moreover have "sn_main (sig_access v) = sn_main v" for v
    by (simp add: sig_access_def split: sig_pc.split list.split)
  then have "sn_main ((sig_access ^^ n) v) = sn_main v" for n v by (induction n) simp_all
  ultimately show ?thesis using j by simp
qed

section \<open>The service manager of Windows\<close>

datatype service_state = StartPending | ServiceRunning | StopPending | ServiceStopped

text \<open>\<open>ws_handle\<close>: whether a handler is registered; \<open>ws_told\<close>: the states that the manager was told.\<close>

record win_service =
  ws_handle :: bool
  ws_state :: service_state
  ws_told :: "service_state list"

definition tell_state :: "service_state \<Rightarrow> win_service \<Rightarrow> win_service" where
  "tell_state x s = s\<lparr>ws_state := x, ws_told := ws_told s @ [x]\<rparr>"

text \<open>The codes 1 and 5 are stop and shutdown; the requests to the control loop stand in comments.\<close>

definition win_handler :: "nat \<Rightarrow> win_service \<Rightarrow> win_service" where
  "win_handler code s = (if code = 128 then s else if code \<in> {129, 5, 1} then tell_state StopPending s else s)"

definition win_register :: "bool \<Rightarrow> win_service \<Rightarrow> win_service" where
  "win_register granted s = s\<lparr>ws_handle := granted, ws_state := StartPending\<rparr>"

definition win_start :: "win_service \<Rightarrow> win_service" where
  "win_start s = (if ws_handle s then tell_state ServiceRunning s else s)"

definition win_stop :: "win_service \<Rightarrow> win_service" where
  "win_stop s = (if ws_handle s then tell_state ServiceStopped s else s)"

text \<open>
  The control code for a snapshot falls through to that for a stop: the manager is told that the service is
  stopping, although nothing stops. Nor does it for a stop itself: the state is all that changes.
\<close>

lemma win_snapshot_tells_stop: "win_handler 129 s = win_handler 1 s" "ws_told (win_handler 129 s) = ws_told s @ [StopPending]"
  by (simp_all add: win_handler_def tell_state_def)

text \<open>
  Every request that the server writes to its own pipe registers the handler anew and forgets the state, so a running
  service that has written one passes for one that is starting.
\<close>

lemma win_request_forgets: "ws_state (win_register granted (win_start s)) = StartPending"
  by (simp add: win_register_def)

end
