(* ===== verification/Spawn.thy ===== *)
theory Spawn
  imports Prelude
begin

text \<open>
  \<open>server::system\<close> (\<^verbatim>\<open>common/server.cpp\<close>), as built for a POSIX system: how the server runs a shell command, with
  two processes one after the other, so that it need not wait for the command, and which files the command finds open.
  The system is a parameter: whether each of the two processes can be made, the descriptor that
  opening \<^verbatim>\<open>/dev/null\<close> gives, the limit on descriptors.
\<close>

section \<open>Descriptors\<close>

datatype open_file = NullDevice | ControlPipe | OtherFile nat

type_synonym fd_table = "nat \<Rightarrow> open_file option"

text \<open>\<open>dup2(a, b)\<close>: with a descriptor that is not open, or -1 (\<open>None\<close>), it fails and changes nothing.\<close>

definition dup2 :: "nat option \<Rightarrow> nat \<Rightarrow> fd_table \<Rightarrow> fd_table" where
  "dup2 a b t = (case a of None \<Rightarrow> t | Some n \<Rightarrow> (case t n of None \<Rightarrow> t | Some f \<Rightarrow> t(b \<mapsto> f)))"

text \<open>\<open>for(fd = 3; fd < max; ++fd) ::close(fd);\<close>\<close>

definition close_from_3 :: "int \<Rightarrow> fd_table \<Rightarrow> fd_table" where
  "close_from_3 limit t = (\<lambda>n. if 3 \<le> n \<and> int n < limit then None else t n)"

text \<open>
  \<open>int max\<close>: the number of bits of an \<^verbatim>\<open>fd_set\<close>, or the hard limit, of 64 bits, cut to the 32 of an \<open>int\<close>.
\<close>

definition fd_limit :: "64 word option \<Rightarrow> int" where
  "fd_limit rlim = (case rlim of None \<Rightarrow> 1024 | Some m \<Rightarrow> sint (ucast m :: 32 word))"

text \<open>The files of the command: \<open>ctl\<close> is the descriptor of the control pipe, \<open>null\<close> that of the null device.\<close>

definition child_files :: "nat \<Rightarrow> nat option \<Rightarrow> 64 word option \<Rightarrow> fd_table \<Rightarrow> fd_table" where
  "child_files ctl null rlim t0 =
     (let t1 = (case null of None \<Rightarrow> t0 | Some n \<Rightarrow> t0(n \<mapsto> NullDevice));
          t2 = dup2 null 0 t1;
          t3 = dup2 null 2 t2;
          t4 = dup2 (Some ctl) 1 t3
      in close_from_3 (fd_limit rlim) t4)"

section \<open>The command\<close>

text \<open>
  For what the caller waits: the process it made, which ends when it has made the second one, or runs the command
  itself where it could not; or, where the first could not be made, any process of the server.
\<close>

datatype sys_wait = WaitHelper | WaitCommand | WaitAny

record spawned =
  sp_command :: "string option"
  sp_files :: fd_table
  sp_wait :: sys_wait
  sp_result :: bool

text \<open>\<open>fork1\<close> and \<open>fork2\<close> tell whether the processes can be made; \<open>text\<close> is the command with its arguments put in.\<close>

definition server_system :: "bool \<Rightarrow> bool \<Rightarrow> nat \<Rightarrow> nat option \<Rightarrow> 64 word option \<Rightarrow> fd_table \<Rightarrow> string \<Rightarrow> spawned" where
  "server_system fork1 fork2 ctl null rlim t0 text =
     (if \<not> fork1 then \<lparr>sp_command = None, sp_files = (\<lambda>_. None), sp_wait = WaitAny, sp_result = True\<rparr>
      else \<lparr>sp_command = Some (fit 256 text), sp_files = child_files ctl null rlim t0,
             sp_wait = (if fork2 then WaitHelper else WaitCommand), sp_result = True\<rparr>)"

section \<open>Properties\<close>

lemma fd_limit_small: "m < 2 ^ 31 \<Longrightarrow> fd_limit (Some (of_nat m)) = int m"
proof -
  assume m: "m < 2 ^ 31"
  have "(ucast (of_nat m :: 64 word) :: 32 word) = of_nat m"
    using m by (simp add: unsigned_of_nat take_bit_nat_eq_self)
  moreover have "sint (of_nat m :: 32 word) = int m"
    using m by (simp add: signed_of_nat signed_take_bit_int_eq_self)
  ultimately show ?thesis by (simp add: fd_limit_def)
qed

lemma child_files_low:
  assumes "t0 ctl = Some ControlPipe" and "3 \<le> ctl" and "t0 n = None"
  shows "child_files ctl (Some n) rlim t0 0 = Some NullDevice" "child_files ctl (Some n) rlim t0 1 = Some ControlPipe"
    "child_files ctl (Some n) rlim t0 2 = Some NullDevice"
  using assms by (auto simp: child_files_def dup2_def close_from_3_def Let_def)

lemma child_files_high:
  assumes "3 \<le> k"
  shows "child_files ctl (Some n) rlim t0 k =
    (if int k < fd_limit rlim then None else if k = n then Some NullDevice else t0 k)"
  using assms by (auto simp: child_files_def dup2_def close_from_3_def Let_def split: option.split)

lemma fd_limit_unlimited: "fd_limit (Some (- 1)) = - 1"
proof -
  have "(ucast (- 1 :: 64 word) :: 32 word) = - 1" by code_simp
  then show ?thesis by (simp add: fd_limit_def)
qed

lemma child_files_isolated:
  assumes "t0 ctl = Some ControlPipe" and "3 \<le> ctl" and "t0 n = None"
  shows "child_files ctl (Some n) rlim t0 = [0 \<mapsto> NullDevice, 1 \<mapsto> ControlPipe, 2 \<mapsto> NullDevice] \<longleftrightarrow>
    (\<forall>k \<ge> 3. fd_limit rlim \<le> int k \<longrightarrow> k \<noteq> n \<and> t0 k = None)"
    (is "?f = ?three \<longleftrightarrow> ?closed")
proof
  assume e: "?f = ?three"
  show ?closed
  proof (intro allI impI)
    fix k :: nat
    assume k: "3 \<le> k" "fd_limit rlim \<le> int k"
    have "?f k = None" unfolding e using k(1) by simp
    with child_files_high [OF k(1), of ctl n rlim t0] k(2) show "k \<noteq> n \<and> t0 k = None"
      by (simp split: if_splits)
  qed
next
  assume c: ?closed
  show "?f = ?three"
  proof
    fix k :: nat
    consider "k = 0" | "k = 1" | "k = 2" | "3 \<le> k" by linarith
    then show "?f k = ?three k"
    proof cases
      case 4
      with c show ?thesis by (simp add: child_files_high)
    qed (use child_files_low [OF assms] in simp_all)
  qed
qed

text \<open>
  C28. When a command runs cut off from the server. With the null device opened and a process made, it finds
  open just three files, the null device for its input and errors and the control pipe for its output, if and only
  if no descriptor from the limit on was open, that of the null device included. So it does under a hard limit that fits an \<^verbatim>\<open>int\<close> and lies
  above the descriptors of the server; with no limit, which becomes -1 as an \<^verbatim>\<open>int\<close>, every descriptor of the server from 3 on stays
  open in it. The server waits only for the helper process if the second process could be made, for the command itself
  otherwise; and where not even the first could be made, nothing runs, the server waits for any of its processes, and
  the caller is told that all is well.
\<close>

theorem system_isolates_command:
  assumes "t0 ctl = Some ControlPipe" and "3 \<le> ctl" and "t0 n = None"
  shows "(sp_files (server_system True fork2 ctl (Some n) rlim t0 text) =
      [0 \<mapsto> NullDevice, 1 \<mapsto> ControlPipe, 2 \<mapsto> NullDevice] \<longleftrightarrow>
      (\<forall>k \<ge> 3. fd_limit rlim \<le> int k \<longrightarrow> k \<noteq> n \<and> t0 k = None)) \<and>
    (n < m \<and> m < 2 ^ 31 \<and> (\<forall>k \<ge> m. t0 k = None) \<longrightarrow>
      sp_files (server_system True fork2 ctl (Some n) (Some (of_nat m)) t0 text) =
        [0 \<mapsto> NullDevice, 1 \<mapsto> ControlPipe, 2 \<mapsto> NullDevice]) \<and>
    (\<forall>k \<ge> 3. k \<noteq> n \<longrightarrow> sp_files (server_system True fork2 ctl (Some n) (Some (- 1)) t0 text) k = t0 k) \<and>
    sp_command (server_system True fork2 ctl (Some n) rlim t0 text) = Some (take 255 text) \<and>
    sp_wait (server_system True fork2 ctl (Some n) rlim t0 text) = (if fork2 then WaitHelper else WaitCommand) \<and>
    sp_command (server_system False fork2 ctl (Some n) rlim t0 text) = None \<and>
    sp_wait (server_system False fork2 ctl (Some n) rlim t0 text) = WaitAny \<and>
    sp_result (server_system False fork2 ctl (Some n) rlim t0 text)"
proof -
  have f: "sp_files (server_system True fork2 ctl (Some n) rl t0 text) = child_files ctl (Some n) rl t0" for rl
    by (simp add: server_system_def)
  have "child_files ctl (Some n) (Some (of_nat m)) t0 = [0 \<mapsto> NullDevice, 1 \<mapsto> ControlPipe, 2 \<mapsto> NullDevice]"
    if "n < m \<and> m < 2 ^ 31 \<and> (\<forall>k \<ge> m. t0 k = None)"
    unfolding child_files_isolated [OF assms] using that by (simp add: fd_limit_small)
  then show ?thesis
    unfolding f child_files_isolated [OF assms]
    by (simp add: child_files_high fd_limit_unlimited server_system_def fit_def)
qed

text \<open>A server with its control pipe and two more files open.\<close>

definition sample_files :: fd_table where
  "sample_files = [0 \<mapsto> OtherFile 0, 1 \<mapsto> OtherFile 1, 2 \<mapsto> OtherFile 2, 3 \<mapsto> OtherFile 3, 4 \<mapsto> ControlPipe, 5 \<mapsto> OtherFile 5]"

theorem system_isolates_command_witness:
  "sp_files (server_system True True 4 (Some 6) (Some (of_nat 1024)) sample_files ''date'') =
     [0 \<mapsto> NullDevice, 1 \<mapsto> ControlPipe, 2 \<mapsto> NullDevice] \<and>
   sp_files (server_system True True 4 (Some 6) (Some (- 1)) sample_files ''date'') 5 = Some (OtherFile 5)"
proof -
  have "sample_files 4 = Some ControlPipe" "sample_files 6 = None" "\<forall>k \<ge> 1024. sample_files k = None"
    "sample_files 5 = Some (OtherFile 5)" by (simp_all add: sample_files_def)
  then show ?thesis
    using system_isolates_command [of sample_files 4 6 True None "''date''" 1024] by simp
qed

text \<open>
  Without a hard limit the command inherits every file of the server: \<^verbatim>\<open>RLIM_INFINITY\<close> becomes -1 as an \<^verbatim>\<open>int\<close>, and
  nothing is closed. And a failure is not noticed: where no process can be made the caller is told that all is well.
\<close>

theorem system_unlimited_leaks:
  assumes "3 \<le> k" and "k \<noteq> n"
  shows "sp_files (server_system True fork2 ctl (Some n) (Some (- 1)) t0 text) k = t0 k \<and>
    sp_result (server_system False fork2 ctl (Some n) rlim t0 text) \<and>
    sp_command (server_system False fork2 ctl (Some n) rlim t0 text) = None"
  using assms by (simp add: server_system_def child_files_high fd_limit_unlimited)

theorem system_unlimited_leaks_witness:
  "sp_files (server_system True True 4 (Some 6) (Some (- 1)) sample_files ''date'') 5 = Some (OtherFile 5)"
  using system_unlimited_leaks [of 5 6 True 4 sample_files "''date''" None] by (simp add: sample_files_def)

end
