(* ===== verification/Logging.thy ===== *)
theory Logging
  imports Dbi
begin

text \<open>
  The thread that logs call detail records (\<open>dbithread\<close> of \<^verbatim>\<open>common/dbi.cpp\<close>) beside the other threads, which post
  records and stop it meanwhile. \<open>Dbi\<close> has a pass of its loop as one function; here the thread takes one
  record at a time, and whatever holds the lock of the run list is one step. A pass that nobody interrupts is
  shown to be the pass of \<open>Dbi\<close>.
\<close>

section \<open>The loop\<close>

text \<open>
  Where the thread is: not yet running; at the top of the loop; in \<open>wait\<close>; in the inner loop, with the record it is
  at; returned. A signal counts only for a thread that waits (\<open>lg_woken\<close>).
\<close>

datatype log_pc = LogNew | LogTop | LogWaiting | LogDraining "nat option" | LogEnded

record log_sys =
  lg_pc :: log_pc
  lg_woken :: bool
  lg_stream :: stream
  lg_dbi :: dbi_state
  lg_out :: "thread_io list"

definition log_init :: "dbi_state \<Rightarrow> log_sys" where
  "log_init d = \<lparr>lg_pc = LogNew, lg_woken = False, lg_stream = NoFile, lg_dbi = d, lg_out = []\<rparr>"

text \<open>With the lock held: the run list is taken, and a file opened if a call has ended.\<close>

definition log_take :: "bool \<Rightarrow> log_sys \<Rightarrow> log_sys" where
  "log_take opens s =
     (let d = lg_dbi s; cp = db_runlist d
      in s\<lparr>lg_pc := LogDraining cp,
           lg_stream := (if cp \<noteq> None \<and> db_cdr d then (if opens then Opened else NoFile) else lg_stream s),
           lg_dbi := d\<lparr>db_cdr := False, db_runlist := None, db_runlast := None\<rparr>\<rparr>)"

definition log_record :: "ucommon \<Rightarrow> nat \<Rightarrow> log_sys \<Rightarrow> log_sys" where
  "log_record u r s =
     (let d = lg_dbi s
      in s\<lparr>lg_pc := LogDraining (db_next d r), lg_dbi := d\<lparr>db_freelist := u_enlist u r (db_freelist d)\<rparr>,
           lg_out := lg_out s @ (if lg_stream s \<noteq> NoFile then [Query (lg_stream s) (db_heap d r)] else [])
             @ (if dr_optional (db_heap d r) \<noteq> None then [FreeOptional] else [])\<rparr>)"

definition log_close :: "log_sys \<Rightarrow> log_sys" where
  "log_close s =
     (if lg_stream s \<noteq> NoFile
      then s\<lparr>lg_pc := LogTop, lg_stream := Closed, lg_out := lg_out s @ [Fclose (lg_stream s)]\<rparr>
      else s\<lparr>lg_pc := LogTop\<rparr>)"

definition log_access :: "ucommon \<Rightarrow> bool \<Rightarrow> log_sys \<Rightarrow> log_sys" where
  "log_access u opens s =
     (case lg_pc s of
        LogNew \<Rightarrow> s\<lparr>lg_pc := LogTop, lg_dbi := dbi_start (lg_dbi s)\<rparr>
      | LogTop \<Rightarrow>
          if \<not> db_running (lg_dbi s) then s\<lparr>lg_pc := LogEnded\<rparr>
          else if db_runlist (lg_dbi s) = None then s\<lparr>lg_pc := LogWaiting, lg_woken := False\<rparr>
          else log_take opens s
      | LogWaiting \<Rightarrow> if lg_woken s then log_take opens s else s
      | LogDraining None \<Rightarrow> log_close s
      | LogDraining (Some r) \<Rightarrow> log_record u r s
      | LogEnded \<Rightarrow> s)"

definition log_post :: "nat \<Rightarrow> log_sys \<Rightarrow> log_sys" where
  "log_post r s = s\<lparr>lg_dbi := dbi_post r (lg_dbi s), lg_woken := (lg_woken s \<or> lg_pc s = LogWaiting)\<rparr>"

definition log_stop :: "log_sys \<Rightarrow> log_sys" where
  "log_stop s = s\<lparr>lg_dbi := dbi_stop (lg_dbi s), lg_woken := (lg_woken s \<or> lg_pc s = LogWaiting)\<rparr>"

section \<open>A pass that is not interrupted\<close>

lemma log_drain:
  assumes "dbi_drain u fp cp d out = Some (d', out')"
  shows "\<exists>n. (log_access u opens ^^ n) (sv\<lparr>lg_pc := LogDraining cp, lg_stream := fp, lg_dbi := d, lg_out := pre @ out\<rparr>) =
    sv\<lparr>lg_pc := LogDraining None, lg_stream := fp, lg_dbi := d', lg_out := pre @ out'\<rparr>"
proof -
  let ?at = "\<lambda>cp fp d out. sv\<lparr>lg_pc := LogDraining cp, lg_stream := fp, lg_dbi := d, lg_out := pre @ out\<rparr>"
  let ?P = "\<lambda>u fp cp d out r. \<exists>n. (log_access u opens ^^ n) (?at cp fp d out) = ?at None fp (fst r) (snd r)"
  have "?P u fp cp d out (d', out')"
  proof (rule dbi_drain.raw_induct [where P = ?P, OF _ assms(1)])
    fix f u fp cp d out r
    assume IH: "\<And>u fp cp d out r. f u fp cp d out = Some r \<Longrightarrow> ?P u fp cp d out r"
      and eq: "(case cp of None \<Rightarrow> Some (d, out)
        | Some r \<Rightarrow> f u fp (db_next d r) (d\<lparr>db_freelist := u_enlist u r (db_freelist d)\<rparr>)
            (out @ (if fp \<noteq> NoFile then [Query fp (db_heap d r)] else []) @
              (if dr_optional (db_heap d r) \<noteq> None then [FreeOptional] else []))) = Some r"
    show "?P u fp cp d out r"
    proof (cases cp)
      case None
      with eq have "r = (d, out)" by simp
      with None show ?thesis by (intro exI [of _ 0]) simp
    next
      case (Some q)
      let ?d = "d\<lparr>db_freelist := u_enlist u q (db_freelist d)\<rparr>"
      let ?out = "out @ (if fp \<noteq> NoFile then [Query fp (db_heap d q)] else []) @
              (if dr_optional (db_heap d q) \<noteq> None then [FreeOptional] else [])"
      from eq Some have "f u fp (db_next d q) ?d ?out = Some r" by simp
      from IH [OF this] obtain n where
        n: "(log_access u opens ^^ n) (?at (db_next d q) fp ?d ?out) = ?at None fp (fst r) (snd r)" by blast
      have "log_access u opens (?at cp fp d out) = ?at (db_next d q) fp ?d ?out"
        by (simp add: log_access_def log_record_def Let_def Some)
      with n have "(log_access u opens ^^ Suc n) (?at cp fp d out) = ?at None fp (fst r) (snd r)"
        by (simp only: funpow_Suc_right o_apply)
      then show ?thesis by blast
    qed
  qed
  then show ?thesis by simp
qed

text \<open>
  Without interruption the thread, once it has the lock, does what \<open>dbi_pass\<close> computes.
\<close>

theorem log_pass_agrees:
  assumes "dbi_pass u opens (lg_stream s) (lg_dbi s) = Some (fp', d', out)"
  shows "\<exists>n. (log_access u opens ^^ n) (log_take opens s) =
    s\<lparr>lg_pc := LogTop, lg_stream := fp', lg_dbi := d', lg_out := lg_out s @ out\<rparr>"
proof -
  let ?d = "lg_dbi s"
  let ?fp = "if db_runlist ?d \<noteq> None \<and> db_cdr ?d then (if opens then Opened else NoFile) else lg_stream s"
  let ?d1 = "?d\<lparr>db_cdr := False, db_runlist := None, db_runlast := None\<rparr>"
  obtain o1 where drain: "dbi_drain u ?fp (db_runlist ?d) ?d1 [] = Some (d', o1)"
    and res: "fp' = (if ?fp \<noteq> NoFile then Closed else ?fp)" "out = (if ?fp \<noteq> NoFile then o1 @ [Fclose ?fp] else o1)"
    using assms by (auto simp: dbi_pass_def Let_def split: option.splits if_splits)
  let ?t = "s\<lparr>lg_pc := LogDraining (db_runlist ?d), lg_stream := ?fp, lg_dbi := ?d1, lg_out := lg_out s @ []\<rparr>"
  have take: "log_take opens s = ?t" by (simp add: log_take_def Let_def)
  let ?e = "s\<lparr>lg_pc := LogDraining None, lg_stream := ?fp, lg_dbi := d', lg_out := lg_out s @ o1\<rparr>"
  from log_drain [OF drain, where opens = opens and sv = s and pre = "lg_out s"] obtain n where
    n: "(log_access u opens ^^ n) ?t = ?e" by blast
  have "log_access u opens ?e = log_close ?e" by (simp add: log_access_def)
  with n have "(log_access u opens ^^ Suc n) ?t = log_close ?e" by (simp only: funpow.simps o_apply)
  then show ?thesis unfolding take by (intro exI [of _ "Suc n"]) (simp add: log_close_def res)
qed

text \<open>A thread that has begun and is not stopped goes on.\<close>

lemma log_goes_on:
  assumes "lg_pc s = LogNew"
  shows "lg_pc ((log_access u opens ^^ n) s) \<noteq> LogEnded"
proof -
  let ?ok = "\<lambda>x. lg_pc x \<noteq> LogEnded \<and> (lg_pc x = LogNew \<or> db_running (lg_dbi x))"
  have step: "?ok (log_access u opens x)" if "?ok x" for x
    using that by (cases "lg_pc x") (auto simp: log_access_def log_take_def log_record_def log_close_def dbi_start_def
        Let_def split: option.split)
  have "?ok ((log_access u opens ^^ n) s)"
  proof (induction n)
    case (Suc n)
    show ?case using step [OF Suc.IH] by simp
  qed (simp add: assms)
  then show ?thesis by blast
qed

text \<open>
  C40. Call records are lost when the server stops: a record that is posted while the thread is not waiting (it is
  busy with others, or about to look) and that is followed by \<open>stop\<close> stays on the run list for ever; the thread tests
  whether it is still to run before it looks at the list. And a thread that is stopped before it has begun to run
  never ends, since it then sets the flag itself.
\<close>

theorem dbi_stop_loses_records:
  assumes "lg_pc s = LogTop" and "db_runlist (lg_dbi s) = None" and "db_runlast (lg_dbi s) = None"
    and "t = (log_access u opens ^^ n) (log_stop (log_post r s))"
  shows "lg_out t = lg_out s \<and> db_runlist (lg_dbi t) = Some r \<and> (0 < n \<longrightarrow> lg_pc t = LogEnded) \<and>
    lg_pc ((log_access u opens ^^ n) (log_stop (log_init d))) \<noteq> LogEnded"
proof -
  let ?v = "log_stop (log_post r s)"
  have v: "lg_pc ?v = LogTop" "\<not> db_running (lg_dbi ?v)" "lg_out ?v = lg_out s" "db_runlist (lg_dbi ?v) = Some r"
    using assms(1-3) by (simp_all add: log_stop_def log_post_def dbi_stop_def dbi_post_def Let_def)
  have first: "log_access u opens ?v = ?v\<lparr>lg_pc := LogEnded\<rparr>" using v by (simp add: log_access_def)
  have stay: "(log_access u opens ^^ k) (?v\<lparr>lg_pc := LogEnded\<rparr>) = ?v\<lparr>lg_pc := LogEnded\<rparr>" for k
    by (induction k) (simp_all add: log_access_def)
  have "t = (if n = 0 then ?v else ?v\<lparr>lg_pc := LogEnded\<rparr>)"
  proof (cases n)
    case (Suc k)
    have "t = (log_access u opens ^^ k) (log_access u opens ?v)"
      unfolding assms(4) Suc by (simp only: funpow_Suc_right o_apply)
    with Suc show ?thesis by (simp add: first stay)
  qed (simp add: assms(4))
  moreover have "lg_pc ((log_access u opens ^^ n) (log_stop (log_init d))) \<noteq> LogEnded"
    by (rule log_goes_on) (simp add: log_stop_def log_init_def)
  ultimately show ?thesis using v by simp
qed

theorem dbi_stop_loses_records_witness:
  "lg_out ((log_access ucommon_ref True ^^ 9)
     (log_stop (log_post 4 ((log_init (dbi_init\<lparr>db_running := True\<rparr>))\<lparr>lg_pc := LogTop\<rparr>)))) = []"
proof -
  let ?s = "(log_init (dbi_init\<lparr>db_running := True\<rparr>))\<lparr>lg_pc := LogTop\<rparr>"
  have "lg_pc ?s = LogTop" "db_runlist (lg_dbi ?s) = None" "db_runlast (lg_dbi ?s) = None" "lg_out ?s = []"
    by (simp_all add: log_init_def dbi_init_def)
  with dbi_stop_loses_records [OF this(1-3) refl, where u = ucommon_ref and opens = True and n = 9 and r = 4] show ?thesis by simp
qed

text \<open>A thread that waits takes the record before it ends.\<close>

theorem dbi_stop_logs_when_waiting:
  assumes "lg_pc s = LogWaiting" and "db_runlist (lg_dbi s) = None" and "db_runlast (lg_dbi s) = None"
    and "dr_type (db_heap (lg_dbi s) r) = STOP"
  shows "lg_out ((log_access u True ^^ 2) (log_stop (log_post r s))) =
    lg_out s @ Query Opened (db_heap (lg_dbi s) r) #
      (if dr_optional (db_heap (lg_dbi s) r) \<noteq> None then [FreeOptional] else [])"
proof -
  let ?v = "log_stop (log_post r s)"
  have "(log_access u True ^^ 2) ?v = log_access u True (log_access u True ?v)" by (simp add: numeral_2_eq_2)
  then show ?thesis
    using assms by (simp add: log_access_def log_take_def log_record_def log_stop_def log_post_def dbi_stop_def
        dbi_post_def Let_def)
qed

end
