(* ===== verification/Keeping.thy ===== *)
theory Keeping
  imports SipProps
begin

text \<open>
  Invariants of the SIP driver beside \<open>slots_ok\<close>. The first locale says what a driver's methods must keep so
  that delivering any event keeps it, the second what the answers of the registrar must keep, the third
  what the pieces of the SIP driver must keep so that every
  operation of the running server does. \<open>Accounting\<close>, \<open>Typed\<close> and \<open>Records\<close> interpret all three.
\<close>

section \<open>Delivering events\<close>

text \<open>The method keeps \<open>I\<close> when it is called in a state of the timeslot that \<open>P\<close> allows.\<close>

definition keeps :: "(world \<Rightarrow> bool) \<Rightarrow> (handler \<Rightarrow> bool) \<Rightarrow> vmethod \<Rightarrow> bool" where
  "keeps I P m \<longleftrightarrow> (\<forall>i ev w. I w \<longrightarrow> i < w_ts_count w \<longrightarrow> P (ts_handler (w_slots w i)) \<longrightarrow> I (snd (m i (ev, w))))"

lemma keepsI:
  "(\<And>i ev w. I w \<Longrightarrow> i < w_ts_count w \<Longrightarrow> P (ts_handler (w_slots w i)) \<Longrightarrow> I (snd (m i (ev, w)))) \<Longrightarrow> keeps I P m"
  by (simp add: keeps_def)

lemma keepsD:
  "keeps I P m \<Longrightarrow> I w \<Longrightarrow> i < w_ts_count w \<Longrightarrow> P (ts_handler (w_slots w i)) \<Longrightarrow> I (snd (m i (ev, w)))"
  by (simp add: keeps_def)

lemma keeps_same: "(\<And>i ev w. snd (m i (ev, w)) = w) \<Longrightarrow> keeps I P m"
  by (simp add: keeps_def)

locale slot_keeper =
  fixes vt :: vtable and I :: "world \<Rightarrow> bool"
  assumes emit_kept: "I (emit e w) = I w"
    and expires_kept: "I w \<Longrightarrow> I (upd_slot i (\<lambda>s. s\<lparr>ts_expires := x\<rparr>) w)"
    and arm_kept: "I w \<Longrightarrow> I (v_arm vt i t w)"
    and methods_kept: "keeps I in_call (v_release vt)" "keeps I in_call (v_disconnect vt)"
      "keeps I in_call (v_hangup vt)" "keeps I (\<lambda>h. h \<noteq> OfflineHandler) (v_disable vt)"
      "keeps I (\<lambda>h. h = OfflineHandler) (v_enable vt)" "keeps I (\<lambda>h. h = IdleHandler) (v_shutdown vt)"
      "keeps I (\<lambda>h. h = ScriptHandler) (v_running vt)"
begin

lemmas method_kept = methods_kept [THEN keepsD]

lemma handler_kept:
  assumes "I w" and "i < w_ts_count w" and "shutdown_safe ev (ts_handler (w_slots w i))"
  shows "I (snd (run_handler vt i (ev, w)))"
proof -
  note m = arm_kept [OF assms(1)] method_kept [OF assms(1,2)] assms(1)
  show ?thesis
  proof (cases "ts_handler (w_slots w i)")
    case IdleHandler
    then show ?thesis by (cases ev) (simp_all add: run_handler_def Timeslot_idleHandler_def m)
  next
    case ReleaseHandler
    with assms(3) show ?thesis
      by (cases ev) (simp_all add: run_handler_def Timeslot_releaseHandler_def shutdown_safe_def m)
  next
    case ScriptHandler
    then show ?thesis by (cases ev) (simp_all add: run_handler_def Timeslot_scriptHandler_def m)
  next
    case OfflineHandler
    with assms(3) show ?thesis
      by (cases ev) (simp_all add: run_handler_def Timeslot_offlineHandler_def shutdown_safe_def m)
  qed
qed

lemma post_kept:
  "I w \<Longrightarrow> i < w_ts_count w \<Longrightarrow> shutdown_safe ev (ts_handler (w_slots w i)) \<Longrightarrow>
    I (snd (Timeslot_post vt i (ev, w)))"
  using handler_kept [of "emit (MutexLock i) w" i ev]
  by (simp add: Timeslot_post_def Let_def emit_kept case_prod_unfold)

lemma expire_kept: "I w \<Longrightarrow> i < w_ts_count w \<Longrightarrow> I (Timeslot_expire vt i w)"
  using handler_kept [of w i EvTIMEOUT]
  by (simp add: Timeslot_expire_def Let_def emit_kept expires_kept case_prod_unfold shutdown_safe_def)

end

section \<open>The answers of the registrar\<close>

text \<open>
  What the answers of the registrar change: the trace, and fields of a registration other than its statistics, its
  limit and the user it answers to.
\<close>

definition keeps_account :: "(registration \<Rightarrow> registration) \<Rightarrow> bool" where
  "keeps_account f \<longleftrightarrow> (\<forall>g. rg_stats (f g) = rg_stats g \<and> rg_limit (f g) = rg_limit g \<and> rg_uuid (f g) = rg_uuid g)"

locale registry_keeper =
  fixes I :: "world \<Rightarrow> bool"
  assumes emit_kept: "I (emit e w) = I w"
    and reg_kept: "I w \<Longrightarrow> keeps_account f \<Longrightarrow> I (upd_reg r f w)"
begin

lemma answers_kept:
  "I (answer te tid code w) = I w" "I (options te tid w) = I w"
  by (simp_all add: answer_def options_def emit_kept)

text \<open>With no registration that passes on to another, the registrar's answers end at the one they name.\<close>

lemma registrar_kept:
  assumes "I w" and "rg_fwd (w_regs w r) = None"
  shows "\<exists>w'. registrar_step r w x = Some w' \<and> I w'"
  using assms by (cases x)
    (simp_all add: reg_unfold sip_release_reg_def Registration_release_def Let_def emit_kept reg_kept keeps_account_def)

lemma locate_kept:
  "I (snd (sip_locate rid w)) = I w" "rg_fwd (w_regs (snd (sip_locate rid w)) r) = rg_fwd (w_regs w r)"
  by (simp_all add: sip_locate_def emit_kept split: option.split)

lemma registrar_event_kept:
  assumes "I w" and "\<And>r. rg_fwd (w_regs w r) = None"
    and "\<And>r v. I v \<Longrightarrow> rg_fwd (w_regs v r) = None \<Longrightarrow> \<exists>w'. f r v = Some w' \<and> I w'"
  shows "\<exists>w'. (case sip_locate rid w of (Some r, w1) \<Rightarrow> f r w1 | (None, w1) \<Rightarrow> Some w1) = Some w' \<and> I w'"
proof -
  obtain r w1 where l: "sip_locate rid w = (r, w1)" by (rule prod.exhaust)
  with locate_kept [of rid w] assms(1,2) have "I w1" "\<And>q. rg_fwd (w_regs w1 q) = None" by simp_all
  with l assms(3) show ?thesis by (cases r) simp_all
qed

lemma located_kept:
  assumes "I w" and "\<And>r. rg_fwd (w_regs w r) = None"
  shows "\<exists>w'. (case sip_locate rid w of (Some r, w1) \<Rightarrow> sip_confirm r w1 | (None, w1) \<Rightarrow> Some w1) = Some w' \<and> I w'"
    and "\<exists>w'. (case sip_locate rid w of (Some r, w1) \<Rightarrow> sip_cancel r w1 | (None, w1) \<Rightarrow> Some w1) = Some w' \<and> I w'"
  by (rule registrar_event_kept [OF assms], use registrar_kept [where x = Confirm] registrar_kept [where x = Cancel] in simp)+

lemma registration_failure_kept:
  assumes "I w" and "\<And>r. rg_fwd (w_regs w r) = None"
  shows "\<exists>w'. registration_failure te ev w = Some w' \<and> I w'"
proof -
  let ?f = "if se_status ev = Some 401
    then (\<lambda>r w1. Some (sip_authenticate r (te_unquote te (challenge_realm ev)) w1)) else sip_failed"
  have "registration_failure te ev w = (case sip_locate (se_rid ev) w of
      (Some r, w1) \<Rightarrow> ?f r w1 | (None, w1) \<Rightarrow> Some w1)"
    by (simp add: registration_failure_def split: prod.split option.split)
  moreover have "\<exists>w'. ?f r v = Some w' \<and> I w'" if "I v" "rg_fwd (w_regs v r) = None" for r v
    using that registrar_kept [OF that, of Fail] by (simp add: sip_authenticate_def Let_def emit_kept)
  ultimately show ?thesis using registrar_event_kept [OF assms, of ?f] by simp
qed

end

section \<open>The running server\<close>

locale sip_keeper = ucommon_lib u + registry_keeper I for u and I :: "world \<Rightarrow> bool" +
  assumes timer_kept: "I w \<Longrightarrow> I (upd_slot i (\<lambda>s. s\<lparr>ts_expires := x\<rparr>) w)"
      "I w \<Longrightarrow> I (upd_slot i (\<lambda>s. s\<lparr>ts_timer := x\<rparr>) w)"
    and sip_kept: "keeps I in_call (sip_release u)" "keeps I in_call (sip_disconnect u)"
      "keeps I in_call (sip_hangup u)" "keeps I (\<lambda>h. h = OfflineHandler) (Timeslot_enable u sip_disarm)"
      "keeps I (\<lambda>h. h = IdleHandler) (Timeslot_shutdown u sip_disarm)"
    and invite_kept: "I w \<Longrightarrow> server_ok w \<Longrightarrow> 0 \<le> si_cid m \<Longrightarrow> I (invite u te req m w)"

sublocale sip_keeper < slots: slot_keeper "sip_vtable u stp" I for stp
  by unfold_locales
    (simp_all add: sip_vtable_def sip_kept emit_kept timer_kept sip_arm_def sip_disable_def Timeslot_running_def keeps_same)

context sip_keeper
begin

lemma post_to_call_kept:
  assumes "I w" and "slots_ok w" and "0 \<le> cid" and "ev \<noteq> EvSHUTDOWN"
  shows "I (snd (post_to_call u stp ev cid w))"
proof -
  obtain t w1 where g: "Timeslot_get cid w = (t, w1)" by (rule prod.exhaust)
  have w1: "w1 = emit ListRelease (emit ListAccess w)"
    using g ts_path_bound [OF assms(3)] by (auto simp: Timeslot_get_def Let_def)
  show ?thesis
  proof (cases t)
    case None
    with g w1 assms(1) show ?thesis by (simp add: post_to_call_def emit_kept)
  next
    case (Some i)
    with get_in_range [OF assms(2)] g w1 have "i < w_ts_count w1" by simp
    with g Some w1 assms(1) show ?thesis by (simp add: post_to_call_def emit_kept slots.post_kept assms(4) shutdown_safe_def)
  qed
qed

lemma message_new_kept:
  assumes "I w" and "slots_ok w" and "0 \<le> si_cid (se_invite ev)"
  shows "I (message_new u stp te ev w)"
  using assms post_to_call_kept [OF assms, where ev = EvDROP and stp = stp]
  by (simp add: message_new_def Let_def answers_kept case_prod_unfold split: option.split sip_method.split)

lemma event_kept:
  assumes "I w" and "server_ok w" and "0 \<le> si_cid (se_invite ev)"
  shows "I (sip_step u stp legacy w (Stack te ev))"
proof -
  have ok: "slots_ok w" and fwd: "\<And>r. rg_fwd (w_regs w r) = None"
    using assms(2) by (simp_all add: server_ok_def)
  have "\<exists>w'. run_event u stp legacy te ev w = Some w' \<and> I w'"
    using located_kept [OF assms(1) fwd] registration_failure_kept [OF assms(1) fwd, of te ev] assms(1)
      invite_kept [OF assms] message_new_kept [OF assms(1) ok assms(3)] post_to_call_kept [OF assms(1) ok assms(3)]
    by (cases "se_type ev") (simp_all add: run_event_def Let_def emit_kept split: option.split)
  then show ?thesis by auto
qed

lemma tick_kept: "I w \<Longrightarrow> i < w_ts_count w \<Longrightarrow> I (Timeslot_expire (sip_vtable u stp) i (snd (sip_getExpires elapsed i w)))"
  by (rule slots.expire_kept) (simp_all add: sip_getExpires_def Let_def timer_kept emit_kept)

end

sublocale sip_keeper < both: machine "sip_step u stp legacy" sip_guard "\<lambda>w. server_ok w \<and> I w" for stp legacy
proof
  fix w x
  assume inv: "server_ok w \<and> I w" and g: "sip_guard w x"
  have "I (sip_step u stp legacy w x)"
    using inv g event_kept by (cases x) (simp_all add: tick_kept slots.post_kept del: sip_step.simps(1))
  with server.step_inv [OF conjunct1 [OF inv] g]
  show "server_ok (sip_step u stp legacy w x) \<and> I (sip_step u stp legacy w x)" by simp
qed

context sip_keeper
begin

lemma run_kept:
  "server_ok w \<Longrightarrow> I w \<Longrightarrow> guarded_ops (sip_step u stp legacy) sip_guard w ops \<Longrightarrow>
     I (run_ops (sip_step u stp legacy) w ops)"
  using both.run_inv by blast

end

end
