(* ===== verification/Accounting.thy ===== *)
theory Accounting
  imports Keeping SipDriver
begin

text \<open>
  The books of the SIP driver: the count of calls that a registration's statistics node keeps is the
  number of timeslots that hold a call of the registration, whatever happens. So no registration loses capacity to
  calls that are over, and none has more calls on timeslots than its limit.
\<close>

section \<open>The books\<close>

text \<open>How many timeslots hold a call of registration \<open>r\<close>.\<close>

definition held :: "nat \<Rightarrow> world \<Rightarrow> nat" where
  "held r w = length (filter (\<lambda>i. ts_registry (w_slots w i) = Some r) [0..<w_ts_count w])"

text \<open>
  The books of a registration with statistics node \<open>n\<close>: as many incoming calls as timeslots hold, no outgoing
  ones (the driver does not place calls), and no more than its limit. Only a timeslot with a call in progress
  has a registration, and the call is an incoming one.
\<close>

definition booked :: "world \<Rightarrow> nat \<Rightarrow> nat \<Rightarrow> bool" where
  "booked w r n \<longleftrightarrow> unat (st_current (sm_stats (node_of w n) INCOMING)) = held r w \<and>
     st_current (sm_stats (node_of w n) OUTGOING) = 0 \<and>
     (rg_limit (w_regs w r) \<noteq> 0 \<longrightarrow> held r w \<le> unat (rg_limit (w_regs w r)))"

definition slot_booked :: "slot \<Rightarrow> bool" where
  "slot_booked s \<longleftrightarrow> (ts_registry s \<noteq> None \<longrightarrow> in_call (ts_handler s) \<and> ts_stats s = INCOMING)"

definition accounted :: "world \<Rightarrow> bool" where
  "accounted w \<longleftrightarrow> stats_apart w \<and> w_ts_count w < 65535 \<and>
     (\<forall>i < w_ts_count w. slot_booked (w_slots w i)) \<and>
     (\<forall>r n. rg_stats (w_regs w r) = Some n \<longrightarrow> booked w r n)"

lemma held_card: "held r w = card {i. i < w_ts_count w \<and> ts_registry (w_slots w i) = Some r}"
proof -
  have "held r w = card (set (filter (\<lambda>i. ts_registry (w_slots w i) = Some r) [0..<w_ts_count w]))"
    unfolding held_def by (rule distinct_card [symmetric]) simp
  also have "set (filter (\<lambda>i. ts_registry (w_slots w i) = Some r) [0..<w_ts_count w]) =
      {i. i < w_ts_count w \<and> ts_registry (w_slots w i) = Some r}" by auto
  finally show ?thesis .
qed

lemma held_bound: "held r w \<le> w_ts_count w"
  unfolding held_def using length_filter_le [of _ "[0..<w_ts_count w]"] by simp

lemma held_cong:
  assumes "w_ts_count w' = w_ts_count w" and "\<And>i. ts_registry (w_slots w' i) = ts_registry (w_slots w i)"
  shows "held r w' = held r w"
  using assms by (simp add: held_def)

lemma calls_booked: "booked w r n \<Longrightarrow> calls (node_of w n) = held r w"
  by (simp add: booked_def calls_def unat_active)

text \<open>Moves of one timeslot: it gives up its registration, or takes one.\<close>

lemma held_move:
  assumes "w_ts_count w' = w_ts_count w" and "i < w_ts_count w"
    and "\<And>j. j \<noteq> i \<Longrightarrow> ts_registry (w_slots w' j) = ts_registry (w_slots w j)"
  shows "held r w' + (if ts_registry (w_slots w i) = Some r then 1 else 0) =
    held r w + (if ts_registry (w_slots w' i) = Some r then 1 else 0)"
proof -
  let ?S = "{j. j < w_ts_count w \<and> ts_registry (w_slots w j) = Some r}"
  let ?T = "{j. j < w_ts_count w \<and> ts_registry (w_slots w' j) = Some r}"
  let ?R = "{j. j < w_ts_count w \<and> j \<noteq> i \<and> ts_registry (w_slots w j) = Some r}"
  have same: "?R = {j. j < w_ts_count w \<and> j \<noteq> i \<and> ts_registry (w_slots w' j) = Some r}"
    using assms(3) by auto
  have fin: "finite ?R" and out: "i \<notin> ?R" by simp_all
  have "?S = (if ts_registry (w_slots w i) = Some r then insert i ?R else ?R)"
    using assms(2) by auto
  moreover have "?T = (if ts_registry (w_slots w' i) = Some r then insert i ?R else ?R)"
    unfolding same using assms(2) by auto
  ultimately show ?thesis using fin out by (simp add: held_card assms(1))
qed

section \<open>What leaves the books alone\<close>

definition books_kept :: "world \<Rightarrow> world \<Rightarrow> bool" where
  "books_kept w w' \<longleftrightarrow> w_ts_count w' = w_ts_count w \<and> w_sta w' = w_sta w \<and> w_drv_stats w' = w_drv_stats w \<and>
     w_boards w' = w_boards w \<and> w_spans w' = w_spans w \<and>
     (\<forall>r. rg_stats (w_regs w' r) = rg_stats (w_regs w r) \<and> rg_limit (w_regs w' r) = rg_limit (w_regs w r)) \<and>
     (\<forall>j. ts_registry (w_slots w' j) = ts_registry (w_slots w j) \<and>
        (slot_booked (w_slots w j) \<longrightarrow> slot_booked (w_slots w' j)))"

lemma books_kept_refl [simp]: "books_kept w w"
  by (simp add: books_kept_def)

lemma books_kept_trans: "books_kept w v \<Longrightarrow> books_kept v x \<Longrightarrow> books_kept w x"
  by (simp add: books_kept_def)

lemma books_kept_accounted:
  assumes "books_kept w w'" and "accounted w"
  shows "accounted w'"
proof -
  have b: "w_ts_count w' = w_ts_count w" "w_sta w' = w_sta w" "w_drv_stats w' = w_drv_stats w"
     "w_boards w' = w_boards w" "w_spans w' = w_spans w"
     "\<And>r. rg_stats (w_regs w' r) = rg_stats (w_regs w r)" "\<And>r. rg_limit (w_regs w' r) = rg_limit (w_regs w r)"
     "\<And>j. ts_registry (w_slots w' j) = ts_registry (w_slots w j)"
     "\<And>j. slot_booked (w_slots w j) \<Longrightarrow> slot_booked (w_slots w' j)"
    using assms(1) by (simp_all add: books_kept_def)
  have "stats_apart w' = stats_apart w" by (simp add: stats_apart_def b(3-6))
  moreover have "held r w' = held r w" for r by (rule held_cong [OF b(1,8)])
  ultimately show ?thesis using assms(2) b(9) by (simp add: accounted_def booked_def b(1,2,6,7))
qed

lemma books_kept_emit: "books_kept w (emit e w)"
  by (simp add: books_kept_def emit_def)

lemma books_kept_upd:
  assumes "ts_registry (f (w_slots w i)) = ts_registry (w_slots w i)"
    "ts_stats (f (w_slots w i)) = ts_stats (w_slots w i)"
    "in_call (ts_handler (w_slots w i)) \<Longrightarrow> in_call (ts_handler (f (w_slots w i)))"
  shows "books_kept w (upd_slot i f w)"
  using assms by (auto simp: books_kept_def slot_booked_def)

lemma books_kept_reg:
  "keeps_account f \<Longrightarrow> books_kept w (upd_reg r f w)"
  by (simp add: books_kept_def upd_reg_def keeps_account_def)

lemma accounted_emit [simp]: "accounted (emit e w) = accounted w"
proof -
  have "accounted w" if "accounted (emit e w)"
    by (rule books_kept_accounted [OF _ that]) (simp add: books_kept_def emit_def)
  then show ?thesis using books_kept_accounted [OF books_kept_emit] by blast
qed

section \<open>The end of a call\<close>

lemma seg_release_node:
  "(\<And>j. p = Some j \<Longrightarrow> sg_stats (segs j) \<noteq> Some n) \<Longrightarrow> node_of (seg_release p segs k w) n = node_of w n"
  by (cases p) (simp_all add: seg_release_def Segment_release_def)

lemma release_stats_node:
  assumes "stats_apart w" and "rg_stats (w_regs w r) = Some n"
  shows "node_of (release_stats i w) n =
    (if ts_registry (w_slots w i) = Some r
     then statmap_release (w_clock w) (ts_stats (w_slots w i)) (node_of w n) else node_of w n)"
proof -
  let ?v = "Driver_release (ts_stats (w_slots w i)) w"
  let ?x = "reg_release (ts_registry (w_slots w i)) (ts_stats (w_slots w i)) ?v"
  have apart: "w_drv_stats w \<noteq> Some n" "\<And>j. sg_stats (w_boards w j) \<noteq> Some n" "\<And>j. sg_stats (w_spans w j) \<noteq> Some n"
    "\<And>q. rg_stats (w_regs w q) = Some n \<longleftrightarrow> q = r"
    using assms by (auto simp: stats_apart_def)
  have "node_of ?v n = node_of w n" using apart(1) by (simp add: Driver_release_def)
  then have "node_of ?x n = (if ts_registry (w_slots w i) = Some r
     then statmap_release (w_clock w) (ts_stats (w_slots w i)) (node_of w n) else node_of w n)"
    by (simp add: reg_release_def Registration_release_stat_def apart(4) split: option.split)
  then show ?thesis using apart(2,3) by (simp add: release_stats_def Let_def seg_release_node)
qed

lemma setIdle_books [simp]:
  "ts_registry (w_slots (Timeslot_setIdle u sip_disarm i w) j) = ts_registry (w_slots w j)"
  "ts_stats (w_slots (Timeslot_setIdle u sip_disarm i w) j) = ts_stats (w_slots w j)"
  "w_sta (Timeslot_setIdle u sip_disarm i w) = w_sta w"
  by (simp_all add: Timeslot_setIdle_def sip_disarm_def idle_slot_def)

text \<open>What \<open>release\<close> leaves in the books: one call of the timeslot's registration less.\<close>

lemma unbooked:
  assumes acc: "accounted w" and i: "i < w_ts_count w"
    and same: "w_ts_count w' = w_ts_count w" "env_of w' = env_of w"
      "\<And>j. j \<noteq> i \<Longrightarrow> w_slots w' j = w_slots w j" "ts_registry (w_slots w' i) = None"
    and node: "\<And>r n. rg_stats (w_regs w r) = Some n \<Longrightarrow> node_of w' n =
      (if ts_registry (w_slots w i) = Some r then statmap_release c (ts_stats (w_slots w i)) (node_of w n)
       else node_of w n)"
  shows "accounted w'"
proof -
  note e = env_ofD [OF same(2)]
  have apart: "stats_apart w'" and cnt: "w_ts_count w' < 65535"
    using acc by (simp_all add: accounted_def stats_apart_def e same(1))
  have slots: "slot_booked (w_slots w' j)" if "j < w_ts_count w" for j
    using acc that same(3,4) by (cases "j = i") (simp_all add: accounted_def slot_booked_def)
  have "booked w' r n" if n: "rg_stats (w_regs w r) = Some n" for r n
  proof -
    have b: "booked w r n" using acc n by (simp add: accounted_def)
    have h: "held r w' + (if ts_registry (w_slots w i) = Some r then 1 else 0) = held r w"
      using held_move [OF same(1) i, of r] same(3,4) by simp
    show ?thesis
    proof (cases "ts_registry (w_slots w i) = Some r")
      case False
      with h node [OF n] b show ?thesis by (simp add: booked_def e)
    next
      case True
      with acc i have k: "ts_stats (w_slots w i) = INCOMING" by (simp add: accounted_def slot_booked_def)
      have "0 < unat (st_current (sm_stats (node_of w n) INCOMING))" using h True b by (simp add: booked_def)
      from unat_dec [OF this] h True k node [OF n] b show ?thesis by (auto simp: booked_def e)
    qed
  qed
  with apart cnt slots show ?thesis by (simp add: accounted_def e same(1))
qed

text \<open>What \<open>release\<close> leaves as it was.\<close>

lemma release_leaves:
  defines "w' \<equiv> \<lambda>u i ev w. snd (Timeslot_release u sip_disarm i (ev, w))"
  shows "w_ts_count (w' u i ev w) = w_ts_count w" "env_of (w' u i ev w) = env_of w"
    "ts_registry (w_slots (w' u i ev w) i) = None" "j \<noteq> i \<Longrightarrow> w_slots (w' u i ev w) j = w_slots w j"
  by (simp_all add: w'_def Timeslot_release_def Let_def release_lists_def delist_assigned_def release_stats_effect
      Timeslot_setIdle_def sip_disarm_def release_record_effect release_record_def)

lemma release_accounted:
  assumes "accounted w" and "i < w_ts_count w"
  shows "accounted (snd (Timeslot_release u sip_disarm i (ev, w)))"
proof (rule unbooked [OF assms release_leaves(1,2)])
  let ?w1 = "upd_slot i (\<lambda>s. s\<lparr>ts_digits := None, ts_voice := None\<rparr>) (release_record u i w)"
  let ?w2 = "Timeslot_setIdle u sip_disarm i (emit (Detach i) ?w1)"
  show "w_slots (snd (Timeslot_release u sip_disarm i (ev, w))) j = w_slots w j" if "j \<noteq> i" for j
    by (rule release_leaves(4) [OF that])
  show "ts_registry (w_slots (snd (Timeslot_release u sip_disarm i (ev, w))) i) = None" by (rule release_leaves(3))
  show "node_of (snd (Timeslot_release u sip_disarm i (ev, w))) n = (if ts_registry (w_slots w i) = Some r
      then statmap_release (w_clock w) (ts_stats (w_slots w i)) (node_of w n) else node_of w n)"
    if n: "rg_stats (w_regs w r) = Some n" for r n
  proof -
    have env2: "env_of ?w2 = env_of w"
      by (simp add: Timeslot_setIdle_def sip_disarm_def release_record_effect)
    have r: "ts_registry (w_slots (release_record u i w) j) = ts_registry (w_slots w j)"
      "ts_stats (w_slots (release_record u i w) j) = ts_stats (w_slots w j)" for j
      by (simp_all add: release_record_def Let_def)
    have "stats_apart ?w2" using assms(1) env_ofD [OF env2] by (simp add: accounted_def stats_apart_def)
    from release_stats_node [OF this, of r n i] n env_ofD [OF env2] show ?thesis
      by (simp add: Timeslot_release_def Let_def release_lists_def delist_assigned_def r release_record_effect)
  qed
qed

section \<open>The beginning of a call\<close>

text \<open>Nodes that count the same calls, however their totals and peaks have moved.\<close>

lemma recounted:
  assumes acc: "accounted w" and same: "w_ts_count w' = w_ts_count w" "env_of w' = env_of w" "w_slots w' = w_slots w"
    and node: "\<And>r n k. rg_stats (w_regs w r) = Some n \<Longrightarrow>
      st_current (sm_stats (node_of w' n) k) = st_current (sm_stats (node_of w n) k)"
  shows "accounted w'"
proof -
  have "held r w' = held r w" for r by (rule held_cong) (simp_all add: same)
  moreover have "stats_apart w' = stats_apart w" by (simp add: stats_apart_def env_ofD [OF same(2)])
  ultimately show ?thesis using acc node
    by (simp add: accounted_def booked_def same env_ofD [OF same(2)])
qed

lemma booked_more:
  assumes acc: "accounted w" and i: "i < w_ts_count w"
    and same: "w_ts_count w' = w_ts_count w" "env_of w' = env_of w" "\<And>j. j \<noteq> i \<Longrightarrow> w_slots w' j = w_slots w j"
    and call: "ts_registry (w_slots w i) = None" "ts_registry (w_slots w' i) = Some r" "slot_booked (w_slots w' i)"
    and node: "\<And>q n. rg_stats (w_regs w q) = Some n \<Longrightarrow>
      node_of w' n = (if q = r then statmap_update INCOMING (node_of w n) else node_of w n)"
    and room: "\<And>n. rg_stats (w_regs w r) = Some n \<Longrightarrow> rg_limit (w_regs w r) \<noteq> 0 \<Longrightarrow>
      held r w < unat (rg_limit (w_regs w r))"
  shows "accounted w'"
proof -
  note e = env_ofD [OF same(2)]
  have apart: "stats_apart w'" and cnt: "w_ts_count w' < 65535"
    using acc by (simp_all add: accounted_def stats_apart_def e same(1))
  have slots: "slot_booked (w_slots w' j)" if "j < w_ts_count w" for j
    using acc that same(3) call(3) by (cases "j = i") (simp_all add: accounted_def)
  have "booked w' q n" if n: "rg_stats (w_regs w q) = Some n" for q n
  proof -
    have b: "booked w q n" using acc n by (simp add: accounted_def)
    have h: "held q w' = held q w + (if q = r then 1 else 0)"
      using held_move [OF same(1) i, of q] same(3) call(1,2) by auto
    have "unat (st_current (sm_stats (node_of w n) INCOMING)) < 65535"
      using held_bound [of q w] acc b by (simp add: booked_def accounted_def)
    with unat_inc [of "st_current (sm_stats (node_of w n) INCOMING)"] h b node [OF n] room n
    show ?thesis by (cases "q = r") (auto simp: booked_def e)
  qed
  with apart cnt slots show ?thesis by (simp add: accounted_def e same(1))
qed

lemma assign_node:
  assumes "stats_apart w" and "rg_stats (w_regs w q) = Some n"
  shows "node_of (snd (Timeslot_assign (sip_allocate u) reg k cid w)) n = node_of w n"
  using assms by (cases "w_idle w") (simp_all add: Timeslot_assign_def Let_def stats_apart_def sip_allocate_node)

lemma attach_nodes:
  assumes "stats_apart w" and "rg_stats (w_regs w q) = Some n" and "Registration_attach r k w = (True, w1)"
  shows "node_of w1 n = (if q = r then statmap_update k (node_of w n) else node_of w n)"
proof (cases "q = r")
  case True
  with attach_node [of w q n k] assms(2,3) show ?thesis by simp
next
  case False
  with assms(1,2) have "rg_stats (w_regs w r) \<noteq> Some n" by (auto simp: stats_apart_def)
  with False assms(3) show ?thesis
    by (auto simp: Registration_attach_def split: option.splits if_splits)
qed

section \<open>Steps that are no booking\<close>

lemma drop_books_kept: "books_kept w (sip_drop i w)"
proof -
  have "books_kept w (sip_disarm i (upd_slot i (\<lambda>s. s\<lparr>ts_tid := - 1\<rparr>) v))" if "books_kept w v" for v
    unfolding sip_disarm_def
    by (rule books_kept_trans [OF that books_kept_trans [OF books_kept_upd books_kept_upd]]) simp_all
  moreover have "books_kept w (upd_slot i (\<lambda>s. s\<lparr>ts_connected := False\<rparr>) (emit e w))" for e
    by (rule books_kept_trans [OF books_kept_emit books_kept_upd]) simp_all
  ultimately show ?thesis by (simp add: sip_drop_def Let_def books_kept_emit)
qed

lemma drop_accounted: "accounted w \<Longrightarrow> accounted (sip_drop i w)" "w_ts_count (sip_drop i w) = w_ts_count w"
  using books_kept_accounted [OF drop_books_kept] drop_books_kept by (auto simp: books_kept_def)

lemma disconnect_kept: "books_kept w (snd (Timeslot_disconnect u i (ev, w)))"
  by (simp add: Timeslot_disconnect_def) (rule books_kept_upd; simp)

lemma disconnect_books_kept:
  "books_kept w (snd (Timeslot_disconnect u i (ev, sip_disarm i
     (upd_slot i (\<lambda>s. s\<lparr>ts_connected := False, ts_tid := - 1, ts_did := - 1\<rparr>) w))))"
  unfolding sip_disarm_def
  by (rule books_kept_trans [OF books_kept_trans [OF books_kept_upd books_kept_upd] disconnect_kept]) simp_all

lemma hangup_books_kept: "books_kept w (snd (Timeslot_disconnect u i (ev, sip_disarm i (sip_drop i w))))"
  unfolding sip_disarm_def
  by (rule books_kept_trans [OF books_kept_trans [OF drop_books_kept books_kept_upd] disconnect_kept]) simp_all

text \<open>A timeslot that carries no call can be set idle.\<close>

lemma setIdle_books_kept:
  assumes "\<not> in_call (ts_handler (w_slots w i))"
  shows "books_kept w (Timeslot_setIdle u sip_disarm i w)"
proof -
  have "books_kept w (upd_slot i (idle_slot u) w)"
    by (rule books_kept_upd) (use assms in \<open>simp_all add: idle_slot_def\<close>)
  moreover have "books_kept v (emit (Purge i) (sip_disarm i v))" for v
    unfolding sip_disarm_def by (rule books_kept_trans [OF books_kept_upd books_kept_emit]) simp_all
  ultimately show ?thesis unfolding Timeslot_setIdle_def by (rule books_kept_trans)
qed

lemma enable_books_kept:
  assumes "ts_handler (w_slots w i) = OfflineHandler"
  shows "books_kept w (snd (Timeslot_enable u sip_disarm i (ev, w)))"
proof -
  let ?w1 = "emit (Printlog ''timeslot %d online after %ld seconds''
    [int (ts_instance (w_slots w i)), w_clock w - mp_started (w_slots w i)]) w"
  have "books_kept w (Timeslot_setIdle u sip_disarm i ?w1)"
    by (rule books_kept_trans [OF books_kept_emit setIdle_books_kept]) (simp add: assms)
  then show ?thesis by (simp add: Timeslot_enable_def Let_def books_kept_def emit_def)
qed

context ucommon_lib
begin

lemma invite_accounted:
  assumes acc: "accounted w" and ok: "server_ok w" and cid: "0 \<le> si_cid m"
  shows "accounted (invite u te req m w)"
proof -
  have apart: "stats_apart w" using acc by (simp add: accounted_def)
  have slots: "slots_ok w" and clock: "w_clock w \<noteq> 0" using ok by (simp_all add: server_ok_def)
  show ?thesis
  proof (cases rule: invite_cases [of u te req m w])
    case (refused code)
    with acc show ?thesis by (simp add: answer_def)
  next
    case (full r w1)
    let ?v = "emit ListCommit (emit ListModify w1)"
    have w1: "w1 = snd (Registration_attach r INCOMING w)" using full(1) by simp
    have "accounted (Registration_release_stat r INCOMING ?v)"
    proof (rule recounted [OF acc])
      fix q n k
      assume n: "rg_stats (w_regs w q) = Some n"
      have "rg_stats (w_regs w r) = Some n \<longleftrightarrow> q = r" using apart n by (auto simp: stats_apart_def)
      with attach_nodes [OF apart n full(1)]
      show "st_current (sm_stats (node_of (Registration_release_stat r INCOMING ?v) n) k) =
          st_current (sm_stats (node_of w n) k)"
        by (simp add: Registration_release_stat_def w1)
    qed (simp_all add: w1 env_of_same_but_stats [OF release_stat_frame] env_of_same_but_stats [OF attach_frame])
    with full(3) show ?thesis by (simp add: answer_def)
  next
    case (placed uuid r w1 t w2)
    let ?w' = "invite_call u te r t req m w2"
    note p = placed_steps [OF lib slots clock cid placed(3,4)]
    have t: "t \<in> set (w_idle w)" using p(3) by simp
    then have i: "t < w_ts_count w" and h: "ts_handler (w_slots w t) = IdleHandler"
      using slots_idle [OF slots] by simp_all
    have step: "call_step t w2 ?w'" by (rule p(9))
    have apart1: "stats_apart w1" using apart env_ofD [OF p(2)] by (simp add: stats_apart_def)
    have "accounted ?w'"
    proof (rule booked_more [OF acc i])
      show "w_ts_count ?w' = w_ts_count w" "env_of ?w' = env_of w" using p(10) by (simp_all add: invite_safe_def)
      show "w_slots ?w' j = w_slots w j" if "j \<noteq> t" for j using that step p(12) by (simp add: call_step_def)
      show "ts_registry (w_slots w t) = None"
        using acc i h by (auto simp: accounted_def slot_booked_def)
      show "ts_registry (w_slots ?w' t) = Some r" "slot_booked (w_slots ?w' t)"
        using step p(5,7,11) by (simp_all add: call_step_def slot_booked_def)
      show "node_of ?w' n = (if q = r then statmap_update INCOMING (node_of w n) else node_of w n)"
        if n: "rg_stats (w_regs w q) = Some n" for q n
      proof -
        have "node_of w2 n = node_of w1 n"
          using assign_node [OF apart1, of q n u "Some r" INCOMING "si_cid m"] n placed(4) env_ofD [OF p(2)] by simp
        with step attach_nodes [OF apart n placed(3)] show ?thesis by (simp add: call_step_def)
      qed
      show "held r w < unat (rg_limit (w_regs w r))"
        if n: "rg_stats (w_regs w r) = Some n" and l: "rg_limit (w_regs w r) \<noteq> 0" for n
      proof -
        have "calls (node_of w n) = held r w" using acc n by (intro calls_booked) (simp add: accounted_def)
        with attach_refuses_iff [of r INCOMING w] placed(3) n l show ?thesis by (auto simp: reg_calls_def)
      qed
    qed
    with placed(5) show ?thesis by simp
  qed
qed

end

sublocale ucommon_lib < books: sip_keeper u accounted
proof
  show "accounted (emit e w) = accounted w" for e w by (rule accounted_emit)
  show "accounted w \<Longrightarrow> accounted (upd_slot i (\<lambda>s. s\<lparr>ts_expires := x\<rparr>) w)"
    "accounted w \<Longrightarrow> accounted (upd_slot i (\<lambda>s. s\<lparr>ts_timer := x\<rparr>) w)" for i x w
    by (rule books_kept_accounted [OF books_kept_upd]; simp)+
  show "accounted w \<Longrightarrow> keeps_account f \<Longrightarrow> accounted (upd_reg r f w)" for f r w by (rule books_kept_accounted [OF books_kept_reg])
  show "accounted w \<Longrightarrow> server_ok w \<Longrightarrow> 0 \<le> si_cid m \<Longrightarrow> accounted (invite u te req m w)" for m te req w
    by (rule invite_accounted)
  show "keeps accounted in_call (sip_release u)"
    by (rule keepsI) (simp add: sip_release_def release_accounted drop_accounted)
  show "keeps accounted in_call (sip_disconnect u)"
    by (rule keepsI, erule books_kept_accounted [rotated]) (simp add: sip_disconnect_def disconnect_books_kept)
  show "keeps accounted in_call (sip_hangup u)"
    by (rule keepsI, erule books_kept_accounted [rotated]) (simp add: sip_hangup_def hangup_books_kept)
  show "keeps accounted (\<lambda>h. h = OfflineHandler) (Timeslot_enable u sip_disarm)"
    by (rule keepsI, erule books_kept_accounted [rotated]) (simp add: enable_books_kept)
  show "keeps accounted (\<lambda>h. h = IdleHandler) (Timeslot_shutdown u sip_disarm)"
    by (rule keepsI, erule books_kept_accounted [rotated]) (simp add: Timeslot_shutdown_def setIdle_books_kept)
qed

section \<open>Opening the books\<close>

text \<open>
  While the server starts: nodes are handed out from the front of the array, each to one owner, and no node counts
  a call yet.
\<close>

definition unopened :: "world \<Rightarrow> bool" where
  "unopened w \<longleftrightarrow> stats_apart w \<and> (\<forall>r n. rg_stats (w_regs w r) = Some n \<longrightarrow> n < sta_used (w_sta w)) \<and>
     (\<forall>n. w_drv_stats w = Some n \<longrightarrow> n < sta_used (w_sta w)) \<and>
     (\<forall>j. sg_stats (w_boards w j) = None \<and> sg_stats (w_spans w j) = None) \<and>
     (\<forall>n k. st_current (sm_stats (node_of w n) k) = 0)"

lemma unopened_accounted:
  assumes "unopened w" and "w_ts_count w < 65535" and "\<And>i. i < w_ts_count w \<Longrightarrow> ts_registry (w_slots w i) = None"
  shows "accounted w"
proof -
  have "filter (\<lambda>i. ts_registry (w_slots w i) = Some r) [0..<w_ts_count w] = []" for r
    using assms(3) by (simp add: filter_empty_conv)
  then have "held r w = 0" for r by (simp add: held_def)
  with assms show ?thesis by (simp add: unopened_def accounted_def booked_def slot_booked_def)
qed

lemma getRegistry_books:
  assumes "statmap_getRegistry name limit m = (p, m')"
  shows "p = None \<and> m' = m \<or> p = Some (sta_used m) \<and> sta_used m' = sta_used m + 1"
    and "sm_stats (sta_nodes m' n) k = sm_stats (sta_nodes m n) k"
  using assms by (auto simp: statmap_getRegistry_def sta_take_def split: if_splits)

text \<open>What remains of a registration's construction after the node was taken does not touch the books.\<close>

lemma upd_reg_books [simp]:
  "w_drv_stats (upd_reg r f w) = w_drv_stats w" "w_boards (upd_reg r f w) = w_boards w" "w_spans (upd_reg r f w) = w_spans w"
  by (simp_all add: upd_reg_def)

lemma registration_books:
  assumes "statmap_getRegistry name (case keys ''limit'' of Some cp \<Rightarrow> atoi cp | None \<Rightarrow> 0) (w_sta w) = (p, m)"
  shows "w_sta (Registration_construct u r name keys sid w) = m"
    "rg_stats (w_regs (Registration_construct u r name keys sid w) q) = (if q = r then p else rg_stats (w_regs w q))"
    "w_drv_stats (Registration_construct u r name keys sid w) = w_drv_stats w"
    "w_boards (Registration_construct u r name keys sid w) = w_boards w"
    "w_spans (Registration_construct u r name keys sid w) = w_spans w"
  using assms by (simp_all add: Registration_construct_def)

lemma sip_registration_books:
  assumes "statmap_getRegistry name (case keys ''limit'' of Some cp \<Rightarrow> atoi cp | None \<Rightarrow> 0) (w_sta w) = (p, m)"
  shows "w_sta (sip_registration u env r name keys ex port w) = m"
    "rg_stats (w_regs (sip_registration u env r name keys ex port w) q) = (if q = r then p else rg_stats (w_regs w q))"
    "w_drv_stats (sip_registration u env r name keys ex port w) = w_drv_stats w"
    "w_boards (sip_registration u env r name keys ex port w) = w_boards w"
    "w_spans (sip_registration u env r name keys ex port w) = w_spans w"
  unfolding sip_registration_def Let_def
  by (simp_all add: registration_books [where keys = keys, OF assms] split: option.split prod.split)

lemma activate_unopened:
  assumes u: "unopened w" and a: "sip_activate u env r name keys ex port w = (err, w')"
  shows "unopened w'"
proof -
  let ?v = "upd_reg r (\<lambda>_. blank_registration) w"
  have w': "w' = sip_registration u env r name keys ex port ?v"
    using a by (auto simp: sip_activate_def Let_def split: if_splits)
  obtain p m where g: "statmap_getRegistry name (case keys ''limit'' of Some cp \<Rightarrow> atoi cp | None \<Rightarrow> 0) (w_sta w) = (p, m)"
    by (rule prod.exhaust)
  then have v: "statmap_getRegistry name (case keys ''limit'' of Some cp \<Rightarrow> atoi cp | None \<Rightarrow> 0) (w_sta ?v) = (p, m)" by simp
  note b = sip_registration_books [where keys = keys, OF v, of u env r ex port]
  have p: "statmap_getRegistry name (case keys ''limit'' of Some cp \<Rightarrow> atoi cp | None \<Rightarrow> 0) (w_sta w) = (p, w_sta w')"
    using g b(1) w' by simp
  have q: "rg_stats (w_regs w' q) = (if q = r then p else rg_stats (w_regs w q))" for q
    using b(2) [of q] by (simp add: w')
  have same: "w_drv_stats w' = w_drv_stats w" "w_boards w' = w_boards w" "w_spans w' = w_spans w"
    by (simp_all add: w' b)
  have cur: "st_current (sm_stats (node_of w' n) k) = 0" for n k
    using u getRegistry_books(2) [OF p, of n k] by (simp add: unopened_def)
  have b: "\<And>r n. rg_stats (w_regs w r) = Some n \<Longrightarrow> n < sta_used (w_sta w)"
    "\<And>n. w_drv_stats w = Some n \<Longrightarrow> n < sta_used (w_sta w)"
    "\<And>j. sg_stats (w_boards w j) = None" "\<And>j. sg_stats (w_spans w j) = None"
    "\<And>r n r'. rg_stats (w_regs w r) = Some n \<Longrightarrow> rg_stats (w_regs w r') = Some n \<Longrightarrow> r' = r"
    "\<And>r n. rg_stats (w_regs w r) = Some n \<Longrightarrow> w_drv_stats w \<noteq> Some n"
    using u by (auto simp: unopened_def stats_apart_def)
  from getRegistry_books(1) [OF p] show ?thesis
  proof
    assume "p = None \<and> w_sta w' = w_sta w"
    with q b same cur show ?thesis by (auto simp: unopened_def stats_apart_def split: if_splits)
  next
    assume n: "p = Some (sta_used (w_sta w)) \<and> sta_used (w_sta w') = sta_used (w_sta w) + 1"
    have "stats_apart w'"
      unfolding stats_apart_def using q b n same by (auto split: if_splits)
    with n q b same cur show ?thesis by (auto simp: unopened_def less_Suc_eq split: if_splits)
  qed
qed

lemma activate_all_unopened: "unopened w \<Longrightarrow> unopened (snd (sip_activate_all u ex port r secs w))"
proof (induction secs arbitrary: r w)
  case (Cons sec secs)
  obtain name keys env where sec: "sec = (name, keys, env)" by (rule prod_cases3)
  obtain err w1 where a: "sip_activate u env r name keys ex port w = (err, w1)" by (rule prod.exhaust)
  from Cons.IH [OF activate_unopened [OF Cons.prems a], of "r + 1"] a sec show ?case
    by (simp add: Let_def case_prod_beta)
qed simp

lemma activate_all_slots:
  "w_slots (snd (sip_activate_all u ex port r secs w)) = w_slots w \<and>
   w_ts_count (snd (sip_activate_all u ex port r secs w)) = w_ts_count w"
proof (induction secs arbitrary: r w)
  case (Cons sec secs)
  obtain name keys env where sec: "sec = (name, keys, env)" by (rule prod_cases3)
  obtain err w1 where a: "sip_activate u env r name keys ex port w = (err, w1)" by (rule prod.exhaust)
  from Cons.IH [of "r + 1" w1] sip_activate_frame(1,4) [OF a] a sec show ?case
    by (simp add: Let_def case_prod_beta)
qed simp

lemma construct_all_books:
  "w_sta (sip_construct_all u n w) = w_sta w \<and> env_of (sip_construct_all u n w) = env_of w \<and>
   w_ts_count (sip_construct_all u n w) = w_ts_count w \<and>
   (\<forall>i < n. ts_registry (w_slots (sip_construct_all u n w) i) = None)"
  by (induction n) (auto simp: sip_construct_def Timeslot_construct_def construct_slot_def less_Suc_eq)

text \<open>A start from cleared memory opens the books.\<close>

lemma sip_start_accounted:
  assumes clear: "\<And>r. rg_stats (w_regs w r) = None" "\<And>j. sg_stats (w_boards w j) = None" "\<And>j. sg_stats (w_spans w j) = None"
    and used: "sta_used (w_sta w) = 0"
    and start: "sip_start u api openssl opts listens secs drv st stk h w = (ports, st', stk', h', w')"
    and size: "ss_registries st' \<noteq> - 1" "unat (ss_count st') < 65535"
  shows "accounted w'"
proof -
  let ?st1 = "sip_settings u opts (dc_sections drv ''sip'') st"
  obtain st2 stk1 where c: "sip_contexts api openssl ?st1 stk = (st2, stk1)" by (rule prod.exhaust)
  let ?w0 = "w\<lparr>w_ts_count := unat (ss_count st2), w_out_context := ss_out st2\<rparr>"
  let ?w1 = "sip_start_stats st2 ?w0"
  let ?w2 = "sip_construct_all u (w_ts_count ?w1) ?w1"
  let ?w3 = "?w2\<lparr>w_dbi := dbi_start (w_dbi ?w2)\<rparr>"
  have s: "st' = st2\<lparr>ss_started := True\<rparr>"
    and w': "w' = snd (sip_activate_all u (ss_expires st2) (ss_port st2) 0 secs ?w3)"
    using start c by (auto simp: sip_start_def Driver_start_def Let_def)
  have "ss_registries st2 + 1 \<noteq> 0" using size(1) s by (simp add: eq_neg_iff_add_eq_0)
  then have pos: "unat (ss_registries st2 + 1) \<noteq> 0" by (simp add: unat_eq_0)
  have u1: "unopened ?w1" and n1: "w_ts_count ?w1 < 65535"
    using pos used clear size(2) s
    by (auto simp: sip_start_stats_def statmap_create_def Let_def unopened_def stats_apart_def zero_node_def)
  note b = construct_all_books [of u "w_ts_count ?w1" ?w1]
  have "unopened ?w3"
    using u1 b env_ofD [OF b [THEN conjunct2, THEN conjunct1]] by (simp add: unopened_def stats_apart_def)
  from activate_all_unopened [OF this] have "unopened w'" by (simp add: w')
  moreover have "w_slots w' = w_slots ?w2" "w_ts_count w' = w_ts_count ?w1"
    using activate_all_slots [of u "ss_expires st2" "ss_port st2" 0 secs ?w3] b by (simp_all add: w')
  ultimately show ?thesis using b n1 by (intro unopened_accounted) simp_all
qed

context ucommon_lib
begin

lemma books_run:
  "server_ok w \<Longrightarrow> accounted w \<Longrightarrow> guarded_ops (sip_step u stp legacy) sip_guard w ops \<Longrightarrow>
     accounted (run_ops (sip_step u stp legacy) w ops)"
  by (rule books.run_kept)

end

lemma accounted_calls:
  "accounted w \<Longrightarrow> rg_stats (w_regs w r) = Some n \<Longrightarrow>
     reg_calls r w = held r w \<and> (rg_limit (w_regs w r) \<noteq> 0 \<longrightarrow> held r w \<le> unat (rg_limit (w_regs w r)))"
  by (simp add: accounted_def reg_calls_def calls_booked booked_def)

section \<open>Properties\<close>

text \<open>
  C2. The books balance. Whatever comes from the SIP stack, the timer and the operator, in whatever order: the
  incoming calls that the statistics of a registration count are, at every moment, the timeslots that
  hold a call of that registration, no more and no fewer, and they stay within its limit. No capacity is lost to
  calls that are over, whichever way they ended.
\<close>

theorem sip_books_balance:
  assumes "ucommon_ok u" and "server_ok w" and "accounted w"
    and "guarded_ops (sip_step u stp legacy) sip_guard w ops"
  shows "accounted (run_ops (sip_step u stp legacy) w ops)"
  using ucommon_lib.intro [OF assms(1)] assms(2-4) by (rule ucommon_lib.books_run)

lemma sip_server_accounted: "accounted sip_server"
proof -
  have b: "w_sta (fresh_world 2) = w_sta blank_world"
    unfolding fresh_world_def using construct_all_stats(2) by simp
  have r: "ts_registry (w_slots (fresh_world 2) i) = None" for i
  proof -
    have "ts_registry (w_slots (construct_all ucommon_ref k v) i) = None"
      if "\<And>j. ts_registry (w_slots v j) = None" for k v
      using that by (induction k) (simp_all add: Timeslot_construct_def construct_slot_def)
    then show ?thesis by (simp add: fresh_world_def blank_world_def blank_slot_def)
  qed
  have "held q sip_server = 0" for q
    using r by (simp add: held_def sip_server_def filter_empty_conv)
  then show ?thesis using sip_server_apart(1) r
    by (simp add: accounted_def booked_def slot_booked_def sip_server_def b blank_world_def zero_node_def
        blank_registration_def)
qed

theorem sip_books_balance_witness:
  "accounted (run_ops (sip_step ucommon_ref (\<lambda>_ _. True) False) sip_server
     [Stack (sip_env None) (invite_event 5), Stack (sip_env None) (invite_event 6),
      Stack (sip_env None) ((invite_event 5)\<lparr>se_type := CALL_RELEASED\<rparr>)])"
  by (rule sip_books_balance [OF ucommon_ref_ok sip_server_ok sip_server_accounted])
    (simp add: invite_event_def plain_invite_def)

text \<open>
  C13. From the start on: a server that starts from cleared memory has balanced books, and keeps
  them through any run. Whenever no timeslot carries a call, every registration has all of its capacity
  back.
\<close>

theorem sip_capacity_returns:
  assumes "ucommon_ok u" and "w_idle w = []" and "w_assigned w = (\<lambda>_. [])" and "w_trace w = []"
    and "w_clock w \<noteq> 0" and "\<And>r. rg_fwd (w_regs w r) = None" and "\<not> w_fault w" and "sta_used (w_sta w) = 0"
    and "\<And>r. rg_stats (w_regs w r) = None" and "\<And>j. sg_stats (w_boards w j) = None" and "\<And>j. sg_stats (w_spans w j) = None"
    and start: "sip_start u api openssl opts listens secs drv st stk h w = (ports, st', stk', h', w1)"
    and size: "ss_registries st' \<noteq> - 1" "unat (ss_count st') < 65535"
    and ops: "guarded_ops (sip_step u stp legacy) sip_guard w1 ops"
  shows "accounted (run_ops (sip_step u stp legacy) w1 ops) \<and>
    ((\<forall>i < w_ts_count (run_ops (sip_step u stp legacy) w1 ops).
        \<not> in_call (ts_handler (w_slots (run_ops (sip_step u stp legacy) w1 ops) i))) \<longrightarrow>
      reg_calls r (run_ops (sip_step u stp legacy) w1 ops) = 0)"
proof -
  let ?w' = "run_ops (sip_step u stp legacy) w1 ops"
  have "server_ok w1" by (rule started_ok [OF assms(1-8) start size(1)])
  moreover have "accounted w1" by (rule sip_start_accounted [OF assms(9-11,8) start size])
  ultimately have acc: "accounted ?w'"
    using ucommon_lib.books_run [OF ucommon_lib.intro [OF assms(1)] _ _ ops] by simp
  have "reg_calls r ?w' = 0" if "\<forall>i < w_ts_count ?w'. \<not> in_call (ts_handler (w_slots ?w' i))"
  proof (cases "rg_stats (w_regs ?w' r)")
    case None
    then show ?thesis by (simp add: reg_calls_def)
  next
    case (Some n)
    have "filter (\<lambda>i. ts_registry (w_slots ?w' i) = Some r) [0..<w_ts_count ?w'] = []"
      using that acc by (auto simp: filter_empty_conv accounted_def slot_booked_def)
    with accounted_calls [OF acc Some] show ?thesis by (simp add: held_def)
  qed
  with acc show ?thesis by simp
qed

text \<open>A start with one registration, whose call comes and ends.\<close>

definition line_keys :: "string \<Rightarrow> string option" where
  "line_keys k = (if k = ''uri'' then Some ''sip:line@pbx.lan'' else if k = ''limit'' then Some ''2'' else None)"

definition line_env :: reg_env where
  "line_env = \<lparr>re_route = (\<lambda>_. (Some 1, ''sip:pbx.lan:5060'')), re_via = (\<lambda>_. Some ''10.0.0.1''), re_uuid = ''u1'',
     re_rid = 7\<rparr>"

definition booted_line :: "(transport \<times> bool) list \<times> sip_static \<times> stack_state \<times> hub \<times> world" where
  "booted_line = sip_start ucommon_ref API4 False plain_options (\<lambda>_ _. 0) [(''line'', line_keys, line_env)] empty_config
     (sip_defaults []) new_stack empty_hub boot_world"

theorem sip_capacity_returns_witness:
  "accounted (run_ops (sip_step ucommon_ref (\<lambda>_ _. True) False) (snd (snd (snd (snd booted_line))))
     [Stack (sip_env None) (invite_event 5), Stack (sip_env None) ((invite_event 5)\<lparr>se_type := CALL_RELEASED\<rparr>)])"
proof -
  obtain ports st' stk' h' w1 where b: "booted_line = (ports, st', stk', h', w1)" by (rule prod_cases5)
  have st': "ss_registries st' = 40" "ss_count st' = 2"
    using b by (auto simp: booted_line_def sip_start_def sip_settings_def sip_contexts_def empty_config_def sip_defaults_def
        plain_options_def Let_def split: prod.splits)
  then have size: "ss_registries st' \<noteq> - 1" "unat (ss_count st') < 65535" by simp_all
  have w: "w_idle boot_world = []" "w_assigned boot_world = (\<lambda>_. [])" "w_trace boot_world = []"
    "w_clock boot_world \<noteq> 0" "\<And>r. rg_fwd (w_regs boot_world r) = None" "\<not> w_fault boot_world"
    "sta_used (w_sta boot_world) = 0" "\<And>r. rg_stats (w_regs boot_world r) = None"
    "\<And>j. sg_stats (w_boards boot_world j) = None" "\<And>j. sg_stats (w_spans boot_world j) = None"
    by (simp_all add: boot_world_def blank_world_def blank_registration_def blank_segment_def)
  have g: "guarded_ops (sip_step ucommon_ref (\<lambda>_ _. True) False) sip_guard w1
     [Stack (sip_env None) (invite_event 5), Stack (sip_env None) ((invite_event 5)\<lparr>se_type := CALL_RELEASED\<rparr>)]"
    by (simp add: invite_event_def plain_invite_def)
  have w1: "snd (snd (snd (snd booted_line))) = w1" by (simp add: b)
  show ?thesis unfolding w1
    by (rule conjunct1 [OF sip_capacity_returns [OF ucommon_ref_ok w b [unfolded booted_line_def] size g]])
qed

end
