(* ===== verification/Typed.thy ===== *)
theory Typed
  imports Accounting ControlProps
begin

text \<open>
  The types of the shared map of timeslots. Its records have fixed fields (\<^verbatim>\<open>char state[16]\<close>, \<^verbatim>\<open>char source[64]\<close>, ...)
  that other processes read; what the SIP driver writes fits them, and the state text always says which handler the
  timeslot has. So the reports of the control utility, which sees only the shared memory, tell the truth.
\<close>

section \<open>Well-typed timeslots\<close>

definition fits :: "nat \<Rightarrow> string \<Rightarrow> bool" where
  "fits n s \<longleftrightarrow> length s < n"

text \<open>The texts that may stand in the state field of a timeslot with a handler, and the kinds of call.\<close>

definition state_texts :: "handler \<Rightarrow> string list" where
  "state_texts h = (case h of IdleHandler \<Rightarrow> [''-idle''] | ReleaseHandler \<Rightarrow> [''-idle'', ''iincoming'', ''-release'']
     | ScriptHandler \<Rightarrow> [''$script''] | OfflineHandler \<Rightarrow> [''.offline''])"

definition call_types :: "handler \<Rightarrow> mapped_type list" where
  "call_types h = (case h of IdleHandler \<Rightarrow> [NONE] | ReleaseHandler \<Rightarrow> [NONE, LOCAL, REMOTE, DIVERT]
     | ScriptHandler \<Rightarrow> [LOCAL, REMOTE, DIVERT] | OfflineHandler \<Rightarrow> [NONE])"

definition slot_typed :: "slot \<Rightarrow> bool" where
  "slot_typed s \<longleftrightarrow> fits 64 (mp_source s) \<and> fits 64 (mp_target s) \<and> fits 64 (mp_script s) \<and>
     (case ts_voice s of None \<Rightarrow> True | Some v \<Rightarrow> fits 64 v) \<and>
     mp_state s \<in> set (state_texts (ts_handler s)) \<and> mp_type s \<in> set (call_types (ts_handler s))"

definition typed :: "world \<Rightarrow> bool" where
  "typed w \<longleftrightarrow> (\<forall>i < w_ts_count w. slot_typed (w_slots w i))"

lemma state_texts_fit: "t \<in> set (state_texts h) \<Longrightarrow> fits 16 t"
  by (cases h) (auto simp: state_texts_def fits_def)

lemmas type_defs = slot_typed_def state_texts_def call_types_def

lemma typed_emit [simp]: "typed (emit e w) = typed w"
  by (simp add: typed_def)

lemma typed_regs [simp]: "typed (upd_reg r f w) = typed w"
  by (simp add: typed_def)

lemma typed_upd:
  "typed w \<Longrightarrow> (i < w_ts_count w \<Longrightarrow> slot_typed (w_slots w i) \<Longrightarrow> slot_typed (f (w_slots w i))) \<Longrightarrow> typed (upd_slot i f w)"
  by (simp add: typed_def)

lemma typed_one:
  assumes "typed w" and "w_ts_count w' = w_ts_count w" and "\<And>j. j \<noteq> i \<Longrightarrow> w_slots w' j = w_slots w j"
    and "slot_typed (w_slots w i) \<Longrightarrow> slot_typed (w_slots w' i)"
  shows "typed w'"
  unfolding typed_def using assms by (metis typed_def)

lemma typed_slots: "typed w \<Longrightarrow> w_slots w' = w_slots w \<Longrightarrow> w_ts_count w' = w_ts_count w \<Longrightarrow> typed w'"
  by (simp add: typed_def)

text \<open>Fields that no type is about.\<close>

lemma typed_fields [simp]:
  "slot_typed (s\<lparr>ts_expires := x\<rparr>) = slot_typed s" "slot_typed (s\<lparr>ts_timer := x\<rparr>) = slot_typed s"
  "slot_typed (s\<lparr>ts_tid := n\<rparr>) = slot_typed s" "slot_typed (s\<lparr>ts_did := n\<rparr>) = slot_typed s"
  "slot_typed (s\<lparr>ts_connected := b\<rparr>) = slot_typed s" "slot_typed (s\<lparr>ts_digits := d\<rparr>) = slot_typed s"
  "slot_typed (s\<lparr>ts_registry := r\<rparr>) = slot_typed s" "slot_typed (s\<lparr>mp_started := st\<rparr>) = slot_typed s"
  "slot_typed (s\<lparr>ts_ctx := r\<rparr>) = slot_typed s" "slot_typed (s\<lparr>ts_reason := d\<rparr>) = slot_typed s"
  by (simp_all add: slot_typed_def)

section \<open>The methods of the driver\<close>

context ucommon_lib
begin

lemmas text_simps = lib [THEN ucommon_set] fits_def

lemma idle_typed: "slot_typed s \<Longrightarrow> slot_typed (idle_slot u s)"
  by (simp add: type_defs idle_slot_def set_mapped_def text_simps)

lemma disarm_typed [simp]: "typed (sip_disarm i w) = typed w"
  by (auto simp: sip_disarm_def typed_def split: if_splits)

lemma arm_typed [simp]: "typed (sip_arm i t w) = typed w"
  by (auto simp: sip_arm_def typed_def split: if_splits)

lemma setIdle_typed: "typed w \<Longrightarrow> typed (Timeslot_setIdle u sip_disarm i w)"
  by (simp add: Timeslot_setIdle_def) (rule typed_upd; simp add: idle_typed)

lemma drop_typed: "typed w \<Longrightarrow> typed (sip_drop i w)"
  by (auto simp: sip_drop_def Let_def intro!: typed_upd)

lemma release_typed:
  assumes "typed w"
  shows "typed (snd (Timeslot_release u sip_disarm i (ev, w)))"
proof -
  let ?v = "upd_slot i (\<lambda>s. s\<lparr>ts_digits := None, ts_voice := None\<rparr>) (release_record u i w)"
  have "typed (release_record u i w)"
    unfolding release_record_def Let_def by (rule typed_upd [OF typed_slots [OF assms]]) simp_all
  then have "typed ?v" by (rule typed_upd) (simp add: slot_typed_def)
  then have "typed (Timeslot_setIdle u sip_disarm i (emit (Detach i) ?v))" by (intro setIdle_typed) simp
  then have "typed (release_stats i (Timeslot_setIdle u sip_disarm i (emit (Detach i) ?v)))"
    by (simp add: typed_def release_stats_effect)
  then show ?thesis
    by (simp add: Timeslot_release_def Let_def release_lists_def delist_assigned_def typed_def)
qed

lemma disconnect_typed: "typed w \<Longrightarrow> in_call (ts_handler (w_slots w i)) \<Longrightarrow> typed (snd (Timeslot_disconnect u i (ev, w)))"
  unfolding Timeslot_disconnect_def prod.case snd_conv
  by (rule typed_upd) (auto simp: type_defs in_call_def set_mapped_def text_simps)

lemma enable_typed: "typed w \<Longrightarrow> typed (snd (Timeslot_enable u sip_disarm i (ev, w)))"
proof -
  assume "typed w"
  then have "typed (Timeslot_setIdle u sip_disarm i (emit (Printlog ''timeslot %d online after %ld seconds''
      [int (ts_instance (w_slots w i)), w_clock w - mp_started (w_slots w i)]) w))" by (intro setIdle_typed) simp
  then show ?thesis by (simp add: Timeslot_enable_def Let_def typed_def)
qed

section \<open>Incoming calls\<close>

lemma allocate_slots:
  "w_slots (Timeslot_allocate u cid k reg i w) =
     (w_slots w)(i := allocate_slot cid k reg ((w_slots w i)\<lparr>mp_started := w_clock w\<rparr>))"
  "w_ts_count (Timeslot_allocate u cid k reg i w) = w_ts_count w"
  by (simp_all add: Timeslot_allocate_def Let_def enlist_assigned_def)

lemma allocate_slot_typed: "slot_typed s \<Longrightarrow> slot_typed (allocate_slot cid k reg s)"
  by (cases "ts_handler s") (auto simp: type_defs allocate_slot_def)

lemma allocate_typed: "typed w \<Longrightarrow> typed (sip_allocate u cid k reg i w)"
proof (cases reg)
  case (Some r)
  assume t: "typed w"
  let ?v = "upd_slot i (sip_session (rg_context (w_regs w r)) (w_out_context w)) w"
  have "typed ?v" by (rule typed_upd [OF t]) (simp add: sip_session_def)
  then have "typed (Timeslot_allocate u cid k (Some r) i ?v)"
    by (rule typed_one [where i = i]) (simp_all add: allocate_slots allocate_slot_typed)
  with Some show ?thesis by (simp add: sip_allocate_def)
qed (simp add: sip_allocate_def typed_def)

lemma verdict_type: "incoming_verdict u reg m = Run scr entry ty \<Longrightarrow> ty \<in> set (call_types ScriptHandler)"
  by (auto simp: incoming_verdict_def incoming_script_def Let_def call_types_def split: option.splits if_splits)

lemma initialize_typed:
  assumes "typed w"
  shows "typed (Timeslot_initialize u v d y i w)" and "ts_handler (w_slots (Timeslot_initialize u v d y i w) i) = ts_handler (w_slots w i)"
    and "w_ts_count (Timeslot_initialize u v d y i w) = w_ts_count w"
  using assms by (auto simp: Timeslot_initialize_def Let_def typed_def slot_typed_def text_simps)

lemma set_const_typed [simp]:
  "typed (set_const i n v w) = typed w" "w_slots (set_const i n v w) = w_slots w" "w_ts_count (set_const i n v w) = w_ts_count w"
  by (simp_all add: set_const_def split: option.split)

lemma call_slot_typed:
  assumes "slot_typed s" and "ts_handler s = ReleaseHandler" and "ty \<in> set (call_types ScriptHandler)"
  shows "slot_typed (call_slot u ty scr c d s)" "mp_type (call_slot u ty scr c d s) = ty"
proof -
  have "ty \<in> set (call_types ReleaseHandler)" using assms(3) by (auto simp: call_types_def)
  with assms(1,2) show "slot_typed (call_slot u ty scr c d s)"
    by (cases c; cases d) (simp_all add: call_slot_def slot_typed_def text_simps min_less_iff_disj)
  show "mp_type (call_slot u ty scr c d s) = ty" by (simp add: call_slot_def Let_def)
qed

lemma run_script_typed:
  assumes t: "typed w" and h: "ts_handler (w_slots w i) = ReleaseHandler" and ty: "ty \<in> set (call_types ScriptHandler)"
    and i: "i < w_ts_count w"
  shows "typed (snd (sip_run_script u env i reg m scr entry ty w))"
proof -
  let ?caller = "incoming_caller (incoming_remote u (rg_localnames reg) m) m"
  let ?dialed = "map_option pt_user (si_to m)"
  let ?w1 = "Timeslot_initialize u (se_voice env) (se_digits_sym env) (se_voice_sym env) i w"
  let ?w2 = "set_const i ''dialed'' ?dialed (set_const i ''caller'' ?caller ?w1)"
  let ?w3 = "upd_slot i (call_slot u ty scr ?caller ?dialed) ?w2"
  note w1 = initialize_typed [OF t, of "se_voice env" "se_digits_sym env" "se_voice_sym env" i]
  have s1: "slot_typed (w_slots ?w1 i)" using w1 i by (simp add: typed_def)
  have h1: "ts_handler (w_slots ?w1 i) = ReleaseHandler" using w1(2) h by simp
  note c = call_slot_typed [OF s1 h1 ty]
  have w3: "typed ?w3" by (rule typed_upd) (use w1(1) c(1) in simp_all)
  have "typed (Timeslot_setScripting u sip_arm i v)" if "w_slots v = w_slots ?w3" "w_ts_count v = w_ts_count ?w3" for v
  proof -
    have "typed v" using typed_slots [OF w3 that] .
    then have "typed (upd_slot i (\<lambda>s. (set_mapped u (CHR ''$'') (Some ''script'') s)\<lparr>ts_handler := ScriptHandler\<rparr>) v)"
      by (rule typed_upd) (use that c ty in \<open>auto simp: set_mapped_def slot_typed_def state_texts_def text_simps\<close>)
    then show ?thesis by (simp add: Timeslot_setScripting_def)
  qed
  then show ?thesis using w3 t by (simp add: sip_run_script_def Let_def)
qed

lemma incoming_typed:
  assumes t: "typed w" and h: "ts_handler (w_slots w i) = ReleaseHandler" and i: "i < w_ts_count w"
    and r: "ts_registry (w_slots w i) = Some r"
  shows "typed (snd (sip_incoming u env i m w))"
proof -
  let ?w1 = "sip_arm i 16000 (Timeslot_setMapped u (CHR ''i'') (Some ''incoming'') i
    (upd_slot i (\<lambda>s. s\<lparr>ts_tid := si_tid m, ts_did := si_did m\<rparr>) w))"
  have "slot_typed (w_slots w i)" using t i by (simp add: typed_def)
  then have "typed ?w1" using t h
    by (auto intro!: typed_upd simp: Timeslot_setMapped_def set_mapped_def slot_typed_def state_texts_def text_simps)
  moreover have "ts_handler (w_slots ?w1 i) = ReleaseHandler" "w_ts_count ?w1 = w_ts_count w"
    using h by (simp_all add: sip_arm_def Timeslot_setMapped_def)
  ultimately show ?thesis
    using run_script_typed [of ?w1 i] verdict_type i by (simp add: sip_incoming_def r Let_def split: verdict.split)
qed

lemma invite_typed:
  assumes t: "typed w" and ok: "server_ok w" and cid: "0 \<le> si_cid m"
  shows "typed (invite u te req m w)"
proof (cases rule: invite_cases [of u te req m w])
  case (refused code)
  with t show ?thesis by (simp add: answer_def)
next
  case (full r w1)
  then have "w1 = snd (Registration_attach r INCOMING w)" by simp
  with full t show ?thesis by (simp add: answer_def typed_def)
next
  case (placed uuid r w1 n w2)
  have ok1: "slots_ok w" "w_clock w \<noteq> 0" using ok by (simp_all add: server_ok_def)
  note p = placed_steps [OF lib ok1 cid placed(3,4)]
  have w1: "w1 = snd (Registration_attach r INCOMING w)" using placed(3) by simp
  have idle: "w_idle w1 = n # w_idle w2" using p(3) w1 by simp
  have w2: "w2 = emit ListCommit (sip_allocate u (si_cid m) INCOMING (Some r) n (emit ListModify w1))"
    using placed(4) idle by (simp add: Timeslot_assign_def Let_def)
  have "typed w1" using t by (simp add: w1 typed_def)
  then have t2: "typed w2" by (simp add: w2 allocate_typed)
  have h2: "ts_handler (w_slots w2 n) = ReleaseHandler" using slots_idle [OF ok1(1), of n] p(3) w1
    by (simp add: w2 sip_allocate_def allocate_slots sip_session_def)
  show ?thesis
    using t2 incoming_typed [OF t2 h2 p(4) p(7), of "te_script te" m] placed(5)
    by (simp add: invite_call_def challenge_def answer_def case_prod_unfold Let_def split: option.split bool.split)
qed

end

sublocale ucommon_lib < types: sip_keeper u typed
proof
  show "typed (emit e w) = typed w" for e w by (rule typed_emit)
  show "typed w \<Longrightarrow> typed (upd_slot i (\<lambda>s. s\<lparr>ts_expires := x\<rparr>) w)"
    "typed w \<Longrightarrow> typed (upd_slot i (\<lambda>s. s\<lparr>ts_timer := x\<rparr>) w)" for i x w
    by (rule typed_upd; simp)+
  show "typed w \<Longrightarrow> keeps_account f \<Longrightarrow> typed (upd_reg r f w)" for f r w
    by simp
  show "typed w \<Longrightarrow> server_ok w \<Longrightarrow> 0 \<le> si_cid m \<Longrightarrow> typed (invite u te req m w)" for m te req w
    by (rule invite_typed)
  show "keeps typed in_call (sip_release u)"
    by (rule keepsI) (simp add: sip_release_def release_typed drop_typed)
  show "keeps typed in_call (sip_disconnect u)"
    by (rule keepsI) (auto simp: sip_disconnect_def sip_disarm_def intro!: disconnect_typed typed_upd)
  show "keeps typed in_call (sip_hangup u)"
    by (rule keepsI) (auto simp: sip_hangup_def quietD [OF sip_drop_quiet] intro!: disconnect_typed drop_typed)
  show "keeps typed (\<lambda>h. h = OfflineHandler) (Timeslot_enable u sip_disarm)"
    by (rule keepsI) (rule enable_typed)
  show "keeps typed (\<lambda>h. h = IdleHandler) (Timeslot_shutdown u sip_disarm)"
    by (rule keepsI) (simp add: Timeslot_shutdown_def setIdle_typed)
qed

text \<open>Nor does anything change the number of timeslots.\<close>

sublocale ucommon_lib < counted: sip_keeper u "\<lambda>w. w_ts_count w = n" for n
proof
  show "w_ts_count w = n \<Longrightarrow> server_ok w \<Longrightarrow> 0 \<le> si_cid m \<Longrightarrow> w_ts_count (invite u te req m w) = n" for m te req w
    using invite_safe_always [OF lib, of w m te req] by (simp add: server_ok_def invite_safe_def)
  show "keeps (\<lambda>w. w_ts_count w = n) in_call (sip_release u)"
    by (rule keepsI) (simp add: sip_release_def Timeslot_release_def Let_def release_lists_def delist_assigned_def
        release_stats_effect timer.setIdle_effect release_record_effect quietD [OF sip_drop_quiet])
qed (simp_all add: keeps_def sip_disconnect_def sip_hangup_def Timeslot_disconnect_def Timeslot_enable_def
    Timeslot_shutdown_def Let_def timer.setIdle_effect quietD [OF sip_drop_quiet])

context ucommon_lib
begin

lemma count_run:
  "server_ok w \<Longrightarrow> guarded_ops (sip_step u stp legacy) sip_guard w ops \<Longrightarrow>
     w_ts_count (run_ops (sip_step u stp legacy) w ops) = w_ts_count w"
  by (rule counted.run_kept) simp_all

lemma types_run:
  "server_ok w \<Longrightarrow> typed w \<Longrightarrow> guarded_ops (sip_step u stp legacy) sip_guard w ops \<Longrightarrow>
     typed (run_ops (sip_step u stp legacy) w ops)"
  by (rule types.run_kept)

lemma construct_all_typed:
  assumes "i < n"
  shows "slot_typed (w_slots (sip_construct_all u n w) i)"
proof -
  have "slot_typed (construct_slot u j s)" for j s
    by (simp add: construct_slot_def set_mapped_def type_defs text_simps)
  then have "slot_typed ((construct_slot u j s)\<lparr>ts_timer := None, ts_ctx := None\<rparr>)" for j s by simp
  then show ?thesis using assms
    by (induction n) (auto simp: sip_construct_def Timeslot_construct_def less_Suc_eq)
qed

end

text \<open>A started server is well typed.\<close>

lemma sip_start_typed:
  assumes u: "ucommon_ok u"
    and start: "sip_start u api openssl opts listens secs drv st stk h w = (ports, st', stk', h', w')"
  shows "typed w'"
proof -
  let ?st1 = "sip_settings u opts (dc_sections drv ''sip'') st"
  obtain st2 stk1 where c: "sip_contexts api openssl ?st1 stk = (st2, stk1)" by (rule prod.exhaust)
  let ?w1 = "sip_start_stats st2 (w\<lparr>w_ts_count := unat (ss_count st2), w_out_context := ss_out st2\<rparr>)"
  let ?w2 = "sip_construct_all u (w_ts_count ?w1) ?w1"
  let ?w3 = "?w2\<lparr>w_dbi := dbi_start (w_dbi ?w2)\<rparr>"
  have w': "w' = snd (sip_activate_all u (ss_expires st2) (ss_port st2) 0 secs ?w3)"
    using start c by (auto simp: sip_start_def Driver_start_def Let_def)
  have "w_ts_count ?w2 = w_ts_count ?w1" using construct_all_books [of u "w_ts_count ?w1" ?w1] by simp
  then show ?thesis
    using ucommon_lib.construct_all_typed [OF ucommon_lib.intro [OF u]]
      activate_all_slots [of u "ss_expires st2" "ss_port st2" 0 secs ?w3]
    by (simp add: typed_def w')
qed

section \<open>Reports\<close>

text \<open>The letter of a state: what the control utility prints of a timeslot.\<close>

definition handler_letters :: "handler \<Rightarrow> char list" where
  "handler_letters h = (case h of IdleHandler \<Rightarrow> ''-'' | ReleaseHandler \<Rightarrow> ''-i'' | ScriptHandler \<Rightarrow> ''$'' | OfflineHandler \<Rightarrow> ''.'')"

lemma state_char_letter: "slot_typed s \<Longrightarrow> state_char s \<in> set (handler_letters (ts_handler s))"
  by (cases "ts_handler s") (auto simp: type_defs handler_letters_def state_char_def)

text \<open>The shared map of a running server, as the utility finds it.\<close>

definition shared_slots :: "world \<Rightarrow> slot list" where
  "shared_slots w = map (w_slots w) [0..<w_ts_count w]"

text \<open>
  C7. The records of the shared map are well typed whatever happens: from a well-typed state, after any events of
  the SIP stack, the timer and the operator, the source, target and script of every timeslot fit their 64 bytes
  and the state its 16; and the state text says which handler the timeslot has: \<^verbatim>\<open>$script\<close> exactly where a script runs,
  with a call that is local, remote or diverted, \<^verbatim>\<open>.offline\<close> exactly where it is off line, and \<^verbatim>\<open>-idle\<close> with no kind
  of call where it is idle.
\<close>

theorem sip_slots_typed:
  assumes "ucommon_ok u" and "server_ok w" and "typed w"
    and "guarded_ops (sip_step u stp legacy) sip_guard w ops"
  shows "typed (run_ops (sip_step u stp legacy) w ops)"
  using ucommon_lib.intro [OF assms(1)] assms(2-4) by (rule ucommon_lib.types_run)

lemma sip_server_typed: "typed sip_server"
proof -
  have c: "slot_typed (construct_slot ucommon_ref j s)" for j s
    by (simp add: construct_slot_def set_mapped_def type_defs fits_def)
  have "i < n \<Longrightarrow> slot_typed (w_slots (construct_all ucommon_ref n w) i)" for i n w
    by (induction n) (auto simp: Timeslot_construct_def less_Suc_eq c)
  moreover have "w_ts_count (construct_all ucommon_ref n w) = w_ts_count w" for n w
    by (induction n) (simp_all add: Timeslot_construct_def)
  ultimately show ?thesis by (simp add: typed_def sip_server_def fresh_world_def)
qed

lemma sip_server_count: "w_ts_count sip_server = 2"
proof -
  have "w_ts_count (construct_all ucommon_ref n w) = w_ts_count w" for n w
    by (induction n) (simp_all add: Timeslot_construct_def)
  then show ?thesis by (simp add: sip_server_def fresh_world_def)
qed

definition sample_ops :: "sip_op list" where
  "sample_ops = [Operator 1 EvDISABLE, Stack (sip_env None) (invite_event 5)]"

lemma sample_ops_guarded:
  "guarded_ops (sip_step ucommon_ref (\<lambda>_ _. True) False) sip_guard sip_server sample_ops"
  by (simp add: sample_ops_def shutdown_safe_def sip_server_count invite_event_def plain_invite_def)

theorem sip_slots_typed_witness:
  "typed (run_ops (sip_step ucommon_ref (\<lambda>_ _. True) False) sip_server sample_ops)"
  by (rule sip_slots_typed [OF ucommon_ref_ok sip_server_ok sip_server_typed sample_ops_guarded])

text \<open>
  What the first letter of the state text of a timeslot says: a dollar sign exactly that it runs a script, a dot exactly
  that it is off line, the letter i only that its call is being set up or torn down; a timeslot with the minus sign is
  idle or waits for its release, which share that letter, and an idle one always has it.
\<close>

definition letter_tells :: "handler \<Rightarrow> char \<Rightarrow> bool" where
  "letter_tells h c \<longleftrightarrow> (c = CHR ''$'') = (h = ScriptHandler) \<and> (c = CHR ''.'') = (h = OfflineHandler) \<and>
     c \<in> set ''$.i-'' \<and> (c = CHR ''i'' \<longrightarrow> h = ReleaseHandler) \<and>
     (c = CHR ''-'' \<longrightarrow> h = IdleHandler \<or> h = ReleaseHandler) \<and> (h = IdleHandler \<longrightarrow> c = CHR ''-'')"

lemma letter_tells_typed: "slot_typed s \<Longrightarrow> letter_tells (ts_handler s) (state_char s)"
  by (drule state_char_letter) (cases "ts_handler s"; auto simp: handler_letters_def letter_tells_def)

text \<open>
  C14. The control utility tells the truth about a running server: whatever has happened, \<^verbatim>\<open>baycontrol status\<close>
  succeeds and prints one letter for each timeslot, in their order: a dollar sign exactly for those that run a script,
  a dot exactly for those that are off line, the letter i only for one whose call is being set up or released, and
  otherwise a minus sign. The report does not separate idle timeslots from those that only wait for their release:
  both may print the minus sign, which every idle timeslot does.
\<close>

theorem sip_status_truthful:
  assumes "ucommon_ok u" and "server_ok w" and "typed w"
    and "guarded_ops (sip_step u stp legacy) sip_guard w ops" and "w' = run_ops (sip_step u stp legacy) w ops"
    and "tl_slots te = shared_slots w'" and "0 < w_ts_count w"
  shows "\<exists>letters. tool_status [cmd] te = (0, [Out letters, Out newline]) \<and>
    map ((=) (CHR ''$'')) letters = map (\<lambda>i. ts_handler (w_slots w' i) = ScriptHandler) [0..<w_ts_count w'] \<and>
    map ((=) (CHR ''.'')) letters = map (\<lambda>i. ts_handler (w_slots w' i) = OfflineHandler) [0..<w_ts_count w'] \<and>
    list_all2 letter_tells (map (\<lambda>i. ts_handler (w_slots w' i)) [0..<w_ts_count w']) letters"
proof -
  have t: "typed w'"
    using ucommon_lib.types_run [OF ucommon_lib.intro [OF assms(1)] assms(2-4)] assms(5) by simp
  have c: "letter_tells (ts_handler (w_slots w' i)) (state_char (w_slots w' i))" if "i < w_ts_count w'" for i
    by (rule letter_tells_typed) (use t that in \<open>simp add: typed_def\<close>)
  have "(CHR ''$'' = state_char (w_slots w' i)) = (ts_handler (w_slots w' i) = ScriptHandler)"
    "(CHR ''.'' = state_char (w_slots w' i)) = (ts_handler (w_slots w' i) = OfflineHandler)" if "i < w_ts_count w'" for i
    using c [OF that] by (auto simp: letter_tells_def)
  moreover have "list_all2 letter_tells (map (\<lambda>i. ts_handler (w_slots w' i)) [0..<w_ts_count w'])
      (map state_char (shared_slots w'))"
    by (simp add: list_all2_conv_all_nth shared_slots_def c)
  moreover have "w_ts_count w' = w_ts_count w"
    using ucommon_lib.count_run [OF ucommon_lib.intro [OF assms(1)] assms(2,4)] assms(5) by simp
  then have "tl_slots te \<noteq> []" using assms(6,7) by (simp add: shared_slots_def)
  ultimately show ?thesis by (simp add: tool_status_def assms(6) shared_slots_def)
qed

theorem sip_status_truthful_witness:
  "\<exists>letters. tool_status [''status''] (shell_env\<lparr>tl_slots :=
        shared_slots (run_ops (sip_step ucommon_ref (\<lambda>_ _. True) False) sip_server sample_ops)\<rparr>) =
      (0, [Out letters, Out newline])"
proof -
  let ?w' = "run_ops (sip_step ucommon_ref (\<lambda>_ _. True) False) sip_server sample_ops"
  have n: "0 < w_ts_count sip_server" by (simp add: sip_server_count)
  have te: "tl_slots (shell_env\<lparr>tl_slots := shared_slots ?w'\<rparr>) = shared_slots ?w'" by simp
  from sip_status_truthful [OF ucommon_ref_ok sip_server_ok sip_server_typed sample_ops_guarded refl te n]
  show ?thesis by blast
qed

end
