(* ===== verification/Records.thy ===== *)
theory Records
  imports Typed Logging
begin

text \<open>
  The ownership of call detail records, over the whole life of the server: calls take records from the free list and
  post them, the logging thread takes the run list, works through it record by record and gives them back, all of it
  interleaved. The lists are chains through the records themselves, so a record on two of them, or twice on one,
  would make a circle of the chain, and the thread would never come to its end.
\<close>

section \<open>The lists of records\<close>

text \<open>The records on the run list; as \<open>post\<close> works there are two at most.\<close>

definition run_queue :: "dbi_state \<Rightarrow> nat list" where
  "run_queue d =
     (case db_runlist d of
        None \<Rightarrow> []
      | Some a \<Rightarrow> (case db_next d a of None \<Rightarrow> [a] | Some b \<Rightarrow> [a, b]))"

text \<open>
  Every record is in one place: on the run list, free, or among the records \<open>l\<close> that the thread has taken and
  finds from \<open>p\<close> on.
\<close>

definition records_ok :: "nat option \<Rightarrow> nat list \<Rightarrow> dbi_state \<Rightarrow> bool" where
  "records_ok p l d \<longleftrightarrow> queue_is d (run_queue d) \<and> chain_is (db_next d) p l \<and> length l \<le> 2 \<and>
     distinct (run_queue d @ l @ db_freelist d) \<and> (\<forall>r \<in> set (run_queue d @ l @ db_freelist d). r < db_fresh d)"

lemma queue_unique: "queue_is d l \<Longrightarrow> length l \<le> 2 \<Longrightarrow> run_queue d = l"
  by (cases l; cases "tl l") (auto simp: queue_is_def run_queue_def)

lemma run_queue_length: "length (run_queue d) \<le> 2"
  by (simp add: run_queue_def split: option.split)

lemma queue_chain: "queue_is d l \<Longrightarrow> chain_is (db_next d) (db_runlist d) l"
  by (cases l) (auto simp: queue_is_def)

lemma chain_cong: "(\<And>x. x \<in> set l \<Longrightarrow> n x = m x) \<Longrightarrow> chain_is n p l = chain_is m p l"
  by (induction l arbitrary: p) auto

lemma records_init: "records_ok None [] dbi_init"
  by (simp add: records_ok_def run_queue_def dbi_init_def queue_is_def)

text \<open>The run list depends on its pointers only.\<close>

lemma same_queue:
  assumes "db_next d' = db_next d" "db_runlist d' = db_runlist d" "db_runlast d' = db_runlast d"
  shows "run_queue d' = run_queue d" "queue_is d' l = queue_is d l"
  using assms by (simp_all add: run_queue_def queue_is_def cong: option.case_cong split: list.split)

lemma records_same:
  assumes "db_next d' = db_next d" "db_runlist d' = db_runlist d" "db_runlast d' = db_runlast d"
    "db_freelist d' = db_freelist d" "db_fresh d' = db_fresh d"
  shows "records_ok p l d' = records_ok p l d"
  using assms same_queue [OF assms(1-3)] by (simp add: records_ok_def)

lemma records_fields [simp]:
  "records_ok p l (dbi_start d) = records_ok p l d" "records_ok p l (dbi_stop d) = records_ok p l d"
  by (rule records_same; simp add: dbi_start_def dbi_stop_def)+

section \<open>The calls\<close>

text \<open>A record that \<open>get\<close> hands out is in no list, and a record in no list can be posted.\<close>

definition records_but :: "nat option \<Rightarrow> nat list \<Rightarrow> nat \<Rightarrow> dbi_state \<Rightarrow> bool" where
  "records_but p l r d \<longleftrightarrow> records_ok p l d \<and> r < db_fresh d \<and> r \<notin> set (run_queue d @ l @ db_freelist d)"

lemma get_records:
  assumes "records_ok p l d" and "dbi_get d = (r, d1)"
  shows "records_but p l r d1"
proof -
  have "db_next d1 = db_next d" "db_runlist d1 = db_runlist d" "db_runlast d1 = db_runlast d"
    using assms(2) by (auto simp: dbi_get_def split: list.splits)
  note same = this same_queue [OF this]
  show ?thesis
  proof (cases "db_freelist d")
    case Nil
    then have "db_freelist d1 = []" "db_fresh d1 = Suc r" "r = db_fresh d" using assms(2) by (auto simp: dbi_get_def)
    with assms(1) same Nil show ?thesis by (auto simp: records_but_def records_ok_def less_Suc_eq)
  next
    case (Cons a f)
    then have "db_freelist d1 = f" "db_fresh d1 = db_fresh d" "r = a" using assms(2) by (auto simp: dbi_get_def)
    with assms(1) same Cons show ?thesis by (auto simp: records_but_def records_ok_def)
  qed
qed

lemma fill_records: "records_but p l r (dbi_fill q v d) = records_but p l r d"
  using records_same [of "dbi_fill q v d" d p l] same_queue(1) [of "dbi_fill q v d" d]
  by (simp add: records_but_def dbi_fill_def)

lemma post_records:
  assumes "records_but p l r d"
  shows "records_ok p l (dbi_post r d)"
proof -
  let ?q = "run_queue d"
  have ok: "queue_is d ?q" "chain_is (db_next d) p l" and r: "r \<notin> set ?q" "r \<notin> set l"
    and dis: "distinct (?q @ l @ db_freelist d)"
    using assms by (simp_all add: records_but_def records_ok_def)
  have q: "queue_is (dbi_post r d) (if ?q = [] then [r] else [hd ?q, r])"
    by (rule queue_post [OF ok(1) run_queue_length r(1)])
  then have q': "run_queue (dbi_post r d) = (if ?q = [] then [r] else [hd ?q, r])" by (rule queue_unique) simp
  have fresh: "db_fresh (dbi_post r d) = db_fresh d" by (simp add: dbi_post_def Let_def split: option.split)
  have "db_next (dbi_post r d) x = db_next d x" if "x \<in> set l" for x
  proof -
    have "x \<noteq> r" "db_runlast d \<noteq> Some x"
      using r dis ok(1) that by (auto simp: queue_is_def split: list.splits)
    then show ?thesis by (auto simp: dbi_post_def Let_def split: option.split)
  qed
  with ok(2) have ch: "chain_is (db_next (dbi_post r d)) p l" using chain_cong [of l] by blast
  show ?thesis
    using q ch assms unfolding records_but_def by (cases ?q) (auto simp: records_ok_def q' fresh)
qed

lemma post_call_records:
  assumes "records_ok p l d"
  shows "records_ok p l (post_call u ty opt duration reason s d)"
proof -
  obtain r d1 where g: "dbi_get d = (r, d1)" by (rule prod.exhaust)
  have "records_ok p l (dbi_post r (dbi_fill r v d1))" for v
    by (rule post_records) (simp add: fill_records get_records [OF assms g])
  then show ?thesis by (simp add: post_call_def g Let_def)
qed

section \<open>The server\<close>

abbreviation world_records :: "nat option \<Rightarrow> nat list \<Rightarrow> world \<Rightarrow> bool" where
  "world_records p l w \<equiv> records_ok p l (w_dbi w)"

lemma release_stats_dbi [simp]: "w_dbi (release_stats i w) = w_dbi w"
  by (simp add: release_stats_def Let_def stat_ptr_defs seg_release_def reg_release_def split: option.split)

lemma quiet_dbi [simp]:
  "w_dbi (sip_drop i w) = w_dbi w" "w_dbi (sip_disarm i w) = w_dbi w" "w_dbi (sip_arm i t w) = w_dbi w"
  "w_dbi (Timeslot_setIdle u sip_disarm i w) = w_dbi w" "w_dbi (set_const i n v w) = w_dbi w"
  by (simp_all add: sip_drop_def sip_disarm_def sip_arm_def Timeslot_setIdle_def set_const_def Let_def split: option.split)

lemma release_records:
  "world_records p l w \<Longrightarrow> world_records p l (snd (Timeslot_release u sip_disarm i (ev, w)))"
  by (simp add: Timeslot_release_def Let_def release_lists_def delist_assigned_def release_record_def post_call_records)

lemma allocate_records: "world_records p l w \<Longrightarrow> world_records p l (sip_allocate u cid k reg i w)"
  by (simp add: sip_allocate_def Timeslot_allocate_def Let_def enlist_assigned_def post_call_records split: option.split)

lemma incoming_dbi: "w_dbi (snd (sip_incoming u env i m w)) = w_dbi w"
proof -
  have "w_dbi (snd (sip_run_script u env i reg m scr entry ty v)) = w_dbi v" for reg scr entry ty v
    by (simp add: sip_run_script_def Timeslot_initialize_def Timeslot_setScripting_def Let_def)
  then show ?thesis
    by (simp add: sip_incoming_def Timeslot_setMapped_def Let_def split: option.split verdict.split)
qed

lemma invite_records: "world_records p l w \<Longrightarrow> world_records p l (invite u te req m w)"
proof (cases rule: invite_cases [of u te req m w])
  case (refused code)
  moreover assume "world_records p l w"
  ultimately show ?thesis by (simp add: answer_def)
next
  case (full r w1)
  moreover from full have "w1 = snd (Registration_attach r INCOMING w)" by simp
  moreover assume "world_records p l w"
  ultimately show ?thesis by (simp add: answer_def)
next
  case (placed uuid r w1 n w2)
  assume "world_records p l w"
  moreover from placed(3) have "w1 = snd (Registration_attach r INCOMING w)" by simp
  ultimately have "world_records p l w1" by simp
  then have "world_records p l w2"
    using placed(4) allocate_records [of p l "emit ListModify w1"]
    by (auto simp: Timeslot_assign_def Let_def split: list.splits)
  then show ?thesis using placed(5)
    by (simp add: invite_call_def challenge_def answer_def case_prod_unfold incoming_dbi Let_def
        split: option.split bool.split)
qed

sublocale ucommon_lib < records: sip_keeper u "world_records p l" for p l
proof
  show "world_records p l w \<Longrightarrow> server_ok w \<Longrightarrow> 0 \<le> si_cid m \<Longrightarrow> world_records p l (invite u te req m w)" for m te req w
    by (rule invite_records)
  show "keeps (world_records p l) in_call (sip_release u)"
    by (rule keepsI) (simp add: sip_release_def release_records)
qed (simp_all add: keeps_def sip_disconnect_def sip_hangup_def Timeslot_disconnect_def Timeslot_enable_def
    Timeslot_shutdown_def upd_reg_def Let_def)

section \<open>The logging thread\<close>

text \<open>Where the thread finds the records that it has taken.\<close>

definition pending :: "log_pc \<Rightarrow> nat option" where
  "pending c = (case c of LogDraining p \<Rightarrow> p | _ \<Rightarrow> None)"

text \<open>The next step of the thread, and what it then holds.\<close>

definition thread_holds :: "nat list \<Rightarrow> log_sys \<Rightarrow> bool" where
  "thread_holds l s \<longleftrightarrow> records_ok (pending (lg_pc s)) l (lg_dbi s)"

lemma take_records:
  assumes "thread_holds l s" and "pending (lg_pc s) = None"
  shows "thread_holds (run_queue (lg_dbi s)) (log_take opens s)"
proof -
  have "run_queue (lg_dbi (log_take opens s)) = []" by (simp add: run_queue_def log_take_def Let_def)
  moreover have "l = []" using assms by (cases l) (auto simp: thread_holds_def records_ok_def)
  ultimately show ?thesis
    using assms(1) queue_chain [of "lg_dbi s"] run_queue_length [of "lg_dbi s"]
    by (auto simp: thread_holds_def records_ok_def log_take_def pending_def queue_is_def Let_def)
qed

lemma record_records:
  assumes u: "ucommon_ok u" and "thread_holds l s" and pc: "lg_pc s = LogDraining (Some r)"
  shows "thread_holds (tl l) (log_record u r s) \<and> l \<noteq> []"
proof -
  let ?d = "lg_dbi s"
  obtain t where l: "l = r # t" using assms(2) pc by (cases l) (auto simp: thread_holds_def records_ok_def pending_def)
  have d: "lg_dbi (log_record u r s) = ?d\<lparr>db_freelist := r # db_freelist ?d\<rparr>"
    using u by (simp add: log_record_def Let_def)
  note q = same_queue [of "lg_dbi (log_record u r s)" ?d, unfolded d, simplified]
  show ?thesis
    using assms(2) pc unfolding thread_holds_def records_ok_def d q
    by (auto simp: l pending_def log_record_def Let_def)
qed

lemma access_records:
  assumes u: "ucommon_ok u" and h: "thread_holds l s"
  shows "\<exists>l'. thread_holds l' (log_access u opens s)"
proof -
  have other: "pending (lg_pc s) = None \<Longrightarrow> pending (lg_pc t) = None \<Longrightarrow>
      lg_dbi t = lg_dbi s \<or> lg_dbi t = dbi_start (lg_dbi s) \<Longrightarrow> thread_holds l t" for t
    using h by (auto simp: thread_holds_def)
  show ?thesis
  proof (cases "lg_pc s")
    case (LogDraining p)
    show ?thesis
    proof (cases p)
      case None
      with LogDraining have "thread_holds l (log_access u opens s)"
        by (intro other) (simp_all add: log_access_def log_close_def pending_def)
      then show ?thesis ..
    next
      case (Some r)
      with LogDraining record_records [OF u h] show ?thesis by (auto simp: log_access_def)
    qed
  next
    case LogTop
    have "thread_holds l (log_access u opens s)" if "\<not> (db_running (lg_dbi s) \<and> db_runlist (lg_dbi s) \<noteq> None)"
      using LogTop that by (intro other) (auto simp: log_access_def pending_def)
    with LogTop take_records [OF h, of opens] show ?thesis by (fastforce simp: log_access_def pending_def)
  next
    case LogWaiting
    with h take_records [OF h, of opens] show ?thesis by (auto simp: log_access_def pending_def)
  next
    case LogNew
    then have "thread_holds l (log_access u opens s)" by (intro other) (simp_all add: log_access_def pending_def)
    then show ?thesis ..
  next
    case LogEnded
    with h show ?thesis by (auto simp: log_access_def)
  qed
qed

section \<open>The server and its logging thread\<close>

text \<open>
  The operations of the server, each with all it posts, beside the steps of the thread. What is posted wakes the
  thread where it waits: a call posts exactly when it takes a record, from the free list or from fresh memory.
\<close>

datatype served_op = Served sip_op | Logged bool

type_synonym serving = "world \<times> log_sys"

definition posted :: "dbi_state \<Rightarrow> dbi_state \<Rightarrow> bool" where
  "posted d d' \<longleftrightarrow> db_fresh d' \<noteq> db_fresh d \<or> length (db_freelist d') \<noteq> length (db_freelist d)"

definition serving_step :: "ucommon \<Rightarrow> (nat \<Rightarrow> world \<Rightarrow> bool) \<Rightarrow> bool \<Rightarrow> serving \<Rightarrow> served_op \<Rightarrow> serving" where
  "serving_step u stp legacy s x =
     (case x of
        Served op \<Rightarrow>
          (let w' = sip_step u stp legacy (fst s) op; d = lg_dbi (snd s)
           in (w', (snd s)\<lparr>lg_dbi := w_dbi w',
                 lg_woken := (lg_woken (snd s) \<or> lg_pc (snd s) = LogWaiting \<and> posted d (w_dbi w'))\<rparr>))
      | Logged opens \<Rightarrow> (let t = log_access u opens (snd s) in ((fst s)\<lparr>w_dbi := lg_dbi t\<rparr>, t)))"

definition serving_guard :: "serving \<Rightarrow> served_op \<Rightarrow> bool" where
  "serving_guard s x = (case x of Served op \<Rightarrow> sip_guard (fst s) op | Logged opens \<Rightarrow> True)"

definition serving_holds :: "nat list \<Rightarrow> serving \<Rightarrow> bool" where
  "serving_holds l s \<longleftrightarrow> server_ok (fst s) \<and> w_dbi (fst s) = lg_dbi (snd s) \<and> thread_holds l (snd s)"

lemmas serving_defs = serving_step_def serving_guard_def serving_holds_def thread_holds_def

lemma server_ok_dbi [simp]: "server_ok (w\<lparr>w_dbi := d\<rparr>) = server_ok w"
  using slots_ok_eq [of "w\<lparr>w_dbi := d\<rparr>" w] by (simp add: server_ok_def slots_eq_def)

text \<open>How many of the operations are steps of the thread.\<close>

definition thread_steps :: "served_op list \<Rightarrow> nat" where
  "thread_steps ops = length (filter (\<lambda>x. case x of Logged opens \<Rightarrow> True | Served op \<Rightarrow> False) ops)"

lemma thread_steps_simps [simp]:
  "thread_steps [] = 0" "thread_steps (Served op # ops) = thread_steps ops"
  "thread_steps (Logged opens # ops) = Suc (thread_steps ops)"
  by (simp_all add: thread_steps_def)

context ucommon_lib
begin

text \<open>What the server does leaves the thread where it is, and what the thread holds as it is.\<close>

lemma served_holds:
  assumes "serving_holds l s" and "serving_guard s (Served op)"
  shows "serving_holds l (serving_step u stp legacy s (Served op))"
    and "lg_pc (snd (serving_step u stp legacy s (Served op))) = lg_pc (snd s)"
proof -
  have g: "sip_guard (fst s) op" and ok: "server_ok (fst s)" using assms by (simp_all add: serving_defs)
  have "server_ok (sip_step u stp legacy (fst s) op)" by (rule server.step_inv [OF ok g])
  moreover have "world_records (pending (lg_pc (snd s))) l (sip_step u stp legacy (fst s) op)"
    using records.run_kept [OF ok, of _ _ stp legacy "[op]"] assms g by (simp add: serving_defs)
  ultimately show "serving_holds l (serving_step u stp legacy s (Served op))"
    by (simp add: serving_defs Let_def)
qed (simp add: serving_step_def Let_def)

lemma logged_holds:
  assumes "serving_holds l s"
  shows "\<exists>l'. serving_holds l' (serving_step u stp legacy s (Logged opens))"
  using assms access_records [OF lib, of l "snd s" opens] by (auto simp: serving_step_def serving_holds_def Let_def)

text \<open>A thread that has taken records comes to their end after that many steps of its own.\<close>

lemma draining_ends:
  assumes "serving_holds l s" and "lg_pc (snd s) = LogDraining p"
    and "guarded_ops (serving_step u stp legacy) serving_guard s ops"
    and "length l < thread_steps ops"
  shows "\<exists>n \<le> length ops. lg_pc (snd (run_ops (serving_step u stp legacy) s (take n ops))) = LogTop"
  using assms
proof (induction ops arbitrary: s l p)
  case (Cons x ops)
  let ?s = "serving_step u stp legacy s x"
  have later: ?case if "\<exists>n \<le> length ops. lg_pc (snd (run_ops (serving_step u stp legacy) ?s (take n ops))) = LogTop"
  proof -
    from that obtain n where "n \<le> length ops"
      "lg_pc (snd (run_ops (serving_step u stp legacy) ?s (take n ops))) = LogTop" by blast
    then show ?thesis by (intro exI [of _ "Suc n"]) simp
  qed
  have g: "serving_guard s x" "guarded_ops (serving_step u stp legacy) serving_guard ?s ops"
    using Cons.prems(3) by simp_all
  show ?case
  proof (cases x)
    case (Served op)
    with served_holds [OF Cons.prems(1)] g have "serving_holds l ?s" "lg_pc (snd ?s) = LogDraining p"
      using Cons.prems(2) by simp_all
    from Cons.IH [OF this g(2)] Cons.prems(4) Served show ?thesis by (intro later) simp
  next
    case (Logged opens)
    have t: "snd ?s = log_access u opens (snd s)" "fst ?s = (fst s)\<lparr>w_dbi := lg_dbi (snd ?s)\<rparr>"
      by (simp_all add: Logged serving_step_def Let_def)
    show ?thesis
    proof (cases p)
      case None
      with t Cons.prems(2) have "lg_pc (snd ?s) = LogTop" by (simp add: log_access_def log_close_def)
      then show ?thesis by (intro later exI [of _ 0]) simp
    next
      case (Some r)
      with t Cons.prems(2) have s': "snd ?s = log_record u r (snd s)" by (simp add: log_access_def)
      with record_records [OF lib, of l "snd s" r] Cons.prems(1,2) Some t(2)
      have "serving_holds (tl l) ?s" "l \<noteq> []" by (simp_all add: serving_holds_def)
      moreover from this(2) have "length (tl l) < thread_steps ops" using Cons.prems(4) Logged by (cases l) simp_all
      moreover have "lg_pc (snd ?s) = LogDraining (db_next (lg_dbi (snd s)) r)" by (simp add: s' log_record_def Let_def)
      ultimately show ?thesis using Cons.IH [OF _ _ g(2)] by (intro later) blast
    qed
  qed
qed simp

end

sublocale ucommon_lib < serving: machine "serving_step u stp legacy" serving_guard "\<lambda>s. \<exists>l. serving_holds l s" for stp legacy
proof
  fix s x
  assume "\<exists>l. serving_holds l s" and "serving_guard s x"
  then show "\<exists>l. serving_holds l (serving_step u stp legacy s x)"
    using served_holds(1) logged_holds by (cases x) blast+
qed

context ucommon_lib
begin

lemma serving_run:
  "serving_holds l s \<Longrightarrow> guarded_ops (serving_step u stp legacy) serving_guard s ops \<Longrightarrow>
     \<exists>l'. serving_holds l' (run_ops (serving_step u stp legacy) s ops)"
  using serving.run_inv by blast

end

section \<open>Properties\<close>

text \<open>
  C11. No record of a call is ever in two places: through any interleaving of the events of the SIP stack, timer ticks
  and operator requests, which take records and post them, with the steps of the logging thread, which takes the run
  list and frees its records one by one, the run list, the records the thread has in hand and the free list hold
  every record at most once, and the run list is well formed.
\<close>

theorem records_owned_once:
  assumes "ucommon_ok u" and "server_ok w" and "thread_holds l t" and "lg_dbi t = w_dbi w"
    and "guarded_ops (serving_step u stp legacy) serving_guard (w, t) ops"
    and "(w', t') = run_ops (serving_step u stp legacy) (w, t) ops"
  shows "\<exists>l'. chain_is (db_next (w_dbi w')) (pending (lg_pc t')) l' \<and> queue_is (w_dbi w') (run_queue (w_dbi w')) \<and>
    distinct (run_queue (w_dbi w') @ l' @ db_freelist (w_dbi w'))"
proof -
  have "serving_holds l (w, t)" using assms(2-4) by (simp add: serving_holds_def)
  from ucommon_lib.serving_run [OF ucommon_lib.intro [OF assms(1)] this assms(5)]
  show ?thesis by (auto simp: assms(6) [symmetric] serving_defs records_ok_def)
qed

text \<open>A thread with a record in hand while a call comes in, and then three steps of it.\<close>

definition one_record :: dbi_state where
  "one_record = dbi_init\<lparr>db_fresh := 1\<rparr>"

definition busy_thread :: log_sys where
  "busy_thread = (log_init one_record)\<lparr>lg_pc := LogDraining (Some 0)\<rparr>"

definition busy_server :: world where
  "busy_server = sip_server\<lparr>w_dbi := one_record\<rparr>"

definition busy_ops :: "served_op list" where
  "busy_ops = [Served (Stack (sip_env None) (invite_event 5)), Logged True, Logged True, Logged True]"

lemma busy_facts:
  "server_ok busy_server" "thread_holds [0] busy_thread" "lg_dbi busy_thread = w_dbi busy_server"
  "guarded_ops (serving_step ucommon_ref (\<lambda>_ _. True) False) serving_guard (busy_server, busy_thread) busy_ops"
proof -
  show "server_ok busy_server" by (simp add: busy_server_def sip_server_ok)
  show "thread_holds [0] busy_thread"
    by (simp add: busy_thread_def log_init_def one_record_def dbi_init_def thread_holds_def records_ok_def
        run_queue_def queue_is_def pending_def)
  show "lg_dbi busy_thread = w_dbi busy_server" by (simp add: busy_server_def busy_thread_def log_init_def)
  show "guarded_ops (serving_step ucommon_ref (\<lambda>_ _. True) False) serving_guard (busy_server, busy_thread) busy_ops"
    by (simp add: busy_ops_def serving_guard_def invite_event_def plain_invite_def)
qed

theorem records_owned_once_witness:
  "\<exists>l'. let d = w_dbi (fst (run_ops (serving_step ucommon_ref (\<lambda>_ _. True) False) (busy_server, busy_thread) busy_ops))
     in queue_is d (run_queue d) \<and> distinct (run_queue d @ l' @ db_freelist d)"
proof -
  obtain w' t' where e: "(w', t') = run_ops (serving_step ucommon_ref (\<lambda>_ _. True) False) (busy_server, busy_thread) busy_ops"
    by (metis surj_pair)
  from records_owned_once [OF ucommon_ref_ok busy_facts e] show ?thesis by (auto simp: e [symmetric] Let_def)
qed

text \<open>
  C12. The logging thread never hangs on its list: wherever it is in its pass when something happens, and however
  many calls begin and end meanwhile, three more steps of its own bring it through the records it has taken and back
  to the top of its loop.
\<close>

theorem records_pass_ends:
  assumes "ucommon_ok u" and "server_ok w" and "thread_holds l t" and "lg_dbi t = w_dbi w"
    and "guarded_ops (serving_step u stp legacy) serving_guard (w, t) (ops @ rest)"
    and "lg_pc (snd (run_ops (serving_step u stp legacy) (w, t) ops)) = LogDraining p" and "3 \<le> thread_steps rest"
  shows "\<exists>n \<le> length rest. lg_pc (snd (run_ops (serving_step u stp legacy) (w, t) (ops @ take n rest))) = LogTop"
proof -
  let ?run = "run_ops (serving_step u stp legacy)"
  note lib = ucommon_lib.intro [OF assms(1)]
  have split: "guarded_ops st g s (xs @ ys) = (guarded_ops st g s xs \<and> guarded_ops st g (run_ops st s xs) ys)"
    "run_ops st s (xs @ ys) = run_ops st (run_ops st s xs) ys" for st g s xs ys
    by (induction xs arbitrary: s) simp_all
  have "serving_holds l (w, t)" using assms(2-4) by (simp add: serving_holds_def)
  then obtain l' where l': "serving_holds l' (?run (w, t) ops)"
    using ucommon_lib.serving_run [OF lib _ conjunct1 [OF assms(5) [unfolded split]]] by blast
  then have "length l' < thread_steps rest" using assms(7) by (simp add: serving_defs records_ok_def)
  with ucommon_lib.draining_ends [OF lib l' assms(6) conjunct2 [OF assms(5) [unfolded split]]]
  show ?thesis by (simp add: split)
qed

theorem records_pass_ends_witness:
  "\<exists>n. n \<le> 4 \<and> lg_pc (snd (run_ops (serving_step ucommon_ref (\<lambda>_ _. True) False) (busy_server, busy_thread)
     (take n busy_ops))) = LogTop"
proof -
  have at: "lg_pc (snd (run_ops (serving_step ucommon_ref (\<lambda>_ _. True) False) (busy_server, busy_thread) [])) = LogDraining (Some 0)"
    by (simp add: busy_thread_def)
  have steps: "3 \<le> thread_steps busy_ops" by (simp add: busy_ops_def)
  have "length busy_ops = 4" by (simp add: busy_ops_def)
  with records_pass_ends [OF ucommon_ref_ok busy_facts(1-3) _ at steps] busy_facts(4) show ?thesis by auto
qed

end
