(* ===== verification/Admission.thy ===== *)
theory Admission
  imports Typed
begin

text \<open>
  What the SIP server promises as an exchange, without handlers, lists, scripts and messages: a set of lines, each
  free, out of service, or held by one call of one registration. An invitation for a known user takes a free line
  while his registration has room and is refused otherwise; a call leaves its line when it is
  released, by its timer, or by the operator. The driver is shown to implement it, event by event, and
  what follows from the lines alone is carried over to the running server.
\<close>

section \<open>The exchange\<close>

datatype line = FreeLine | OffLine | Held nat int

record exchange =
  ex_lines :: nat
  ex_limit :: "nat \<Rightarrow> nat option"
  ex_contact :: "string \<Rightarrow> nat option"
  ex_line :: "nat \<Rightarrow> line"

fun held_by :: "nat \<Rightarrow> line \<Rightarrow> bool" where
  "held_by r (Held q cid) \<longleftrightarrow> q = r"
| "held_by r l \<longleftrightarrow> False"

text \<open>How many calls a registration has, and whether it has room for one more.\<close>

definition ex_count :: "nat \<Rightarrow> exchange \<Rightarrow> nat" where
  "ex_count r e = length (filter (\<lambda>i. held_by r (ex_line e i)) [0..<ex_lines e])"

definition ex_room :: "nat \<Rightarrow> exchange \<Rightarrow> bool" where
  "ex_room r e \<longleftrightarrow> (case ex_limit e r of None \<Rightarrow> True | Some n \<Rightarrow> ex_count r e < n)"

definition ex_set :: "nat \<Rightarrow> line \<Rightarrow> exchange \<Rightarrow> exchange" where
  "ex_set i l e = e\<lparr>ex_line := (ex_line e)(i := l)\<rparr>"

text \<open>The registration an invitation is for, where it can be read and names a user.\<close>

definition ex_wanted :: "sip_event \<Rightarrow> exchange \<Rightarrow> nat option" where
  "ex_wanted ev e =
     (case se_request ev of
        None \<Rightarrow> None
      | Some req \<Rightarrow>
          if si_cid (se_invite ev) < 1 \<or> \<not> sr_parts req then None
          else (case sr_user req of None \<Rightarrow> None | Some user \<Rightarrow> if user = [] then None else ex_contact e user))"

text \<open>What an event posted to the timeslot of a line does to the line.\<close>

definition line_moves :: "event_id \<Rightarrow> line \<Rightarrow> line \<Rightarrow> bool" where
  "line_moves ev l l' \<longleftrightarrow>
     (case l of
        FreeLine \<Rightarrow> l' = l
      | OffLine \<Rightarrow> l' = (if ev = EvENABLE then FreeLine else l)
      | Held r cid \<Rightarrow>
          if ev = EvRELEASE then l' = FreeLine else if ev = EvTIMEOUT then l' = FreeLine \<or> l' = l else l' = l)"

inductive ex_step :: "sip_op \<Rightarrow> exchange \<Rightarrow> exchange \<Rightarrow> bool" where
  Invited: "se_type ev = CALL_INVITE \<Longrightarrow> ex_wanted ev e = Some r \<Longrightarrow> ex_room r e \<Longrightarrow> i < ex_lines e \<Longrightarrow>
    ex_line e i = FreeLine \<Longrightarrow> ex_step (Stack te ev) e (ex_set i (Held r (si_cid (se_invite ev))) e)"
| Refused: "se_type ev = CALL_INVITE \<Longrightarrow>
    (\<And>r. ex_wanted ev e = Some r \<Longrightarrow> \<not> ex_room r e \<or> (\<forall>i < ex_lines e. ex_line e i \<noteq> FreeLine)) \<Longrightarrow>
    ex_step (Stack te ev) e e"
| Released: "se_type ev = CALL_RELEASED \<Longrightarrow> i < ex_lines e \<Longrightarrow> ex_line e i = Held r (si_cid (se_invite ev)) \<Longrightarrow>
    ex_step (Stack te ev) e (ex_set i FreeLine e)"
| Unknown: "se_type ev = CALL_RELEASED \<Longrightarrow>
    (\<And>i r. i < ex_lines e \<Longrightarrow> ex_line e i \<noteq> Held r (si_cid (se_invite ev))) \<Longrightarrow> ex_step (Stack te ev) e e"
| Other: "se_type ev \<noteq> CALL_INVITE \<Longrightarrow> se_type ev \<noteq> CALL_RELEASED \<Longrightarrow> ex_step (Stack te ev) e e"
| Ticked: "line_moves EvTIMEOUT (ex_line e i) l \<Longrightarrow> ex_step (Tick i elapsed) e (ex_set i l e)"
| Posted: "line_moves ev (ex_line e i) l \<Longrightarrow> ex_step (Operator i ev) e (ex_set i l e)"

inductive_cases ex_stackE: "ex_step (Stack te ev) e e'"

section \<open>What follows from the lines\<close>

lemma ex_set_fields [simp]:
  "ex_lines (ex_set i l e) = ex_lines e" "ex_limit (ex_set i l e) = ex_limit e" "ex_contact (ex_set i l e) = ex_contact e"
  "ex_line (ex_set i l e) j = (if j = i then l else ex_line e j)"
  by (simp_all add: ex_set_def)

lemma ex_set_same [simp]: "ex_set i (ex_line e i) e = e"
  by (simp add: ex_set_def)

text \<open>The operations that may take a call with this id from this line.\<close>

definition disturbs :: "nat \<Rightarrow> int \<Rightarrow> sip_op \<Rightarrow> bool" where
  "disturbs i cid x = (case x of
       Stack te ev \<Rightarrow> se_type ev = CALL_RELEASED \<and> si_cid (se_invite ev) = cid
     | Tick j elapsed \<Rightarrow> j = i
     | Operator j ev \<Rightarrow> j = i \<and> (ev = EvRELEASE \<or> ev = EvTIMEOUT))"

lemma step_undisturbed:
  assumes "ex_step x e e'" and "ex_line e i = Held r cid" and "\<not> disturbs i cid x"
  shows "ex_line e' i = Held r cid"
  using assms by cases (auto simp: disturbs_def line_moves_def split: if_splits)

section \<open>The driver\<close>

text \<open>A timeslot with a call in progress is a held line; that it names a registration is an invariant.\<close>

definition line_of :: "slot \<Rightarrow> line" where
  "line_of s =
     (case ts_handler s of
        IdleHandler \<Rightarrow> FreeLine
      | OfflineHandler \<Rightarrow> OffLine
      | _ \<Rightarrow> (case ts_registry s of None \<Rightarrow> OffLine | Some r \<Rightarrow> Held r (ts_cid s)))"

definition exchange_of :: "ucommon \<Rightarrow> world \<Rightarrow> exchange" where
  "exchange_of u w = \<lparr>ex_lines = w_ts_count w,
     ex_limit = (\<lambda>r. if rg_stats (w_regs w r) = None \<or> rg_limit (w_regs w r) = 0 then None
                     else Some (unat (rg_limit (w_regs w r)))),
     ex_contact = (\<lambda>user. sip_contact u user w),
     ex_line = (\<lambda>i. line_of (w_slots w i))\<rparr>"

definition registered :: "world \<Rightarrow> bool" where
  "registered w \<longleftrightarrow> (\<forall>i < w_ts_count w. in_call (ts_handler (w_slots w i)) \<longrightarrow> ts_registry (w_slots w i) \<noteq> None)"

text \<open>What the lines are made of.\<close>

definition same_lines :: "world \<Rightarrow> world \<Rightarrow> bool" where
  "same_lines w w' \<longleftrightarrow> w_ts_count w' = w_ts_count w \<and> w_registrations w' = w_registrations w \<and>
     (\<forall>r. rg_stats (w_regs w' r) = rg_stats (w_regs w r) \<and> rg_limit (w_regs w' r) = rg_limit (w_regs w r) \<and>
        rg_uuid (w_regs w' r) = rg_uuid (w_regs w r)) \<and>
     (\<forall>j. line_of (w_slots w' j) = line_of (w_slots w j))"

lemma contact_cong:
  assumes "w_registrations w' = w_registrations w" and "\<And>r. rg_uuid (w_regs w' r) = rg_uuid (w_regs w r)"
  shows "sip_contact u user w' = sip_contact u user w"
proof -
  have "find_reg (\<lambda>g. u_eq u (rg_uuid g) user) w' l = find_reg (\<lambda>g. u_eq u (rg_uuid g) user) w l" for l
    by (induction l) (simp_all add: assms(2))
  then show ?thesis by (simp add: sip_contact_def assms(1))
qed

lemma view_cong:
  assumes "w_ts_count w' = w_ts_count w" "w_registrations w' = w_registrations w"
    "\<And>r. rg_stats (w_regs w' r) = rg_stats (w_regs w r) \<and> rg_limit (w_regs w' r) = rg_limit (w_regs w r) \<and>
       rg_uuid (w_regs w' r) = rg_uuid (w_regs w r)"
  shows "exchange_of u w' = (exchange_of u w)\<lparr>ex_line := \<lambda>i. line_of (w_slots w' i)\<rparr>"
  using assms contact_cong [OF assms(2)] by (simp add: exchange_of_def cong: if_cong)

lemma same_lines_view: "same_lines w w' \<Longrightarrow> exchange_of u w' = exchange_of u w"
  using view_cong [of w' w u] by (simp add: same_lines_def) (simp add: exchange_of_def)

lemma same_lines_trans: "same_lines w v \<Longrightarrow> same_lines v x \<Longrightarrow> same_lines w x"
  by (simp add: same_lines_def)

lemma same_lines_frame [simp]:
  "same_lines w w" "same_lines w (emit e v) = same_lines w v" "same_lines w (v\<lparr>w_idle := l\<rparr>) = same_lines w v"
  "same_lines w (v\<lparr>w_fault := b\<rparr>) = same_lines w v"
  by (simp_all add: same_lines_def)

lemma same_lines_upd:
  "line_of (f (w_slots v i)) = line_of (w_slots v i) \<Longrightarrow> same_lines w (upd_slot i f v) = same_lines w v"
  by (auto simp: same_lines_def)

lemma same_lines_updI:
  "same_lines w v \<Longrightarrow> line_of (f (w_slots v i)) = line_of (w_slots v i) \<Longrightarrow> same_lines w (upd_slot i f v)"
  by (simp add: same_lines_upd)

lemma same_lines_reg: "keeps_account f \<Longrightarrow> same_lines w (upd_reg r f w)"
  by (simp add: same_lines_def upd_reg_def keeps_account_def)

lemma same_lines_stats: "same_but_stats v v' \<Longrightarrow> same_lines w v' = same_lines w v"
  by (simp add: same_lines_def same_but_statsD)

lemma line_of_fields [simp]:
  "line_of (s\<lparr>ts_expires := x\<rparr>) = line_of s" "line_of (s\<lparr>ts_timer := x\<rparr>) = line_of s"
  "line_of (s\<lparr>ts_tid := n\<rparr>) = line_of s" "line_of (s\<lparr>ts_did := n\<rparr>) = line_of s"
  "line_of (s\<lparr>ts_connected := b\<rparr>) = line_of s"
  by (simp_all add: line_of_def cong: handler.case_cong option.case_cong)

text \<open>Changing one line.\<close>

lemma one_line_view:
  assumes "w_ts_count w' = w_ts_count w" "env_of w' = env_of w" "\<And>j. j \<noteq> i \<Longrightarrow> w_slots w' j = w_slots w j"
  shows "exchange_of u w' = ex_set i (line_of (w_slots w' i)) (exchange_of u w)"
proof -
  have "(\<lambda>j. line_of (w_slots w' j)) = (\<lambda>j. line_of (w_slots w j))(i := line_of (w_slots w' i))"
    using assms(3) by (auto simp: fun_eq_iff)
  with view_cong [of w' w u] env_ofD [OF assms(2)] assms(1) show ?thesis by (simp add: exchange_of_def ex_set_def)
qed

section \<open>Every call is a registration's\<close>

lemma registered_emit [simp]: "registered (emit e w) = registered w" "registered (w\<lparr>w_idle := l\<rparr>) = registered w"
  by (simp_all add: registered_def)

lemma registered_upd:
  "registered w \<Longrightarrow> (in_call (ts_handler (f (w_slots w i))) \<Longrightarrow> in_call (ts_handler (w_slots w i))) \<Longrightarrow>
     ts_registry (f (w_slots w i)) = ts_registry (w_slots w i) \<Longrightarrow> registered (upd_slot i f w)"
  by (auto simp: registered_def)

lemma registered_fields [simp]:
  "registered (sip_disarm i w) = registered w" "registered (sip_drop i w) = registered w"
  by (auto simp: registered_def sip_disarm_def sip_drop_def Let_def)

lemma registered_one:
  assumes "registered w" "w_ts_count w' = w_ts_count w" "\<And>j. j \<noteq> i \<Longrightarrow> w_slots w' j = w_slots w j"
    and "in_call (ts_handler (w_slots w' i)) \<Longrightarrow> ts_registry (w_slots w' i) \<noteq> None"
  shows "registered w'"
  unfolding registered_def using assms by (metis registered_def)

lemma registered_idle: "registered w \<Longrightarrow> registered (Timeslot_setIdle u sip_disarm i w)"
  by (simp add: Timeslot_setIdle_def) (rule registered_upd; simp add: idle_slot_def)

sublocale ucommon_lib < registered: sip_keeper u registered
proof
  show "registered (emit e w) = registered w" for e w by simp
  show "registered w \<Longrightarrow> registered (upd_slot i (\<lambda>s. s\<lparr>ts_expires := x\<rparr>) w)"
    "registered w \<Longrightarrow> registered (upd_slot i (\<lambda>s. s\<lparr>ts_timer := x\<rparr>) w)" for i x w
    by (rule registered_upd; simp)+
  show "registered w \<Longrightarrow> keeps_account f \<Longrightarrow> registered (upd_reg r f w)" for f r w by (simp add: registered_def)
  show "keeps registered in_call (sip_release u)"
  proof (rule keepsI)
    fix i ev and w :: world
    assume "registered w"
    then have "registered (sip_drop i w)" by simp
    moreover have "ts_handler (w_slots (snd (Timeslot_release u sip_disarm i (ev, sip_drop i w))) i) = IdleHandler"
      by (simp add: Timeslot_release_def Let_def release_lists_def delist_assigned_def release_stats_effect
          Timeslot_setIdle_def sip_disarm_def idle_slot_def)
    then have "\<not> in_call (ts_handler (w_slots (snd (Timeslot_release u sip_disarm i (ev, sip_drop i w))) i))"
      by (simp only: in_call_simps simp_thms)
    ultimately show "registered (snd (sip_release u i (ev, w)))"
      unfolding sip_release_def prod.case
      by (intro registered_one [OF _ release_leaves(1) release_leaves(4)]) blast+
  qed
  show "keeps registered in_call (sip_disconnect u)"
    by (rule keepsI) (auto simp: sip_disconnect_def Timeslot_disconnect_def sip_disarm_def intro!: registered_upd)
  show "keeps registered in_call (sip_hangup u)"
    by (rule keepsI) (auto simp: sip_hangup_def Timeslot_disconnect_def quietD [OF sip_drop_quiet] intro!: registered_upd)
  show "keeps registered (\<lambda>h. h = OfflineHandler) (Timeslot_enable u sip_disarm)"
    by (rule keepsI) (simp add: Timeslot_enable_def Let_def registered_idle)
  show "keeps registered (\<lambda>h. h = IdleHandler) (Timeslot_shutdown u sip_disarm)"
    by (rule keepsI) (simp add: Timeslot_shutdown_def registered_idle)
  show "registered w \<Longrightarrow> server_ok w \<Longrightarrow> 0 \<le> si_cid m \<Longrightarrow> registered (invite u te req m w)" for m te req w
  proof (cases rule: invite_cases [of u te req m w])
    case (full r w1)
    then have "w_slots (invite u te req m w) = w_slots w" "w_ts_count (invite u te req m w) = w_ts_count w"
      using attach_same [of r INCOMING w] by (simp_all add: answer_def)
    moreover assume "registered w"
    ultimately show ?thesis by (simp add: registered_def)
  next
    case (placed uuid r w1 t w2)
    assume reg: "registered w" and ok: "server_ok w" and cid: "0 \<le> si_cid m"
    have "slots_ok w" "w_clock w \<noteq> 0" using ok by (simp_all add: server_ok_def)
    note p = placed_steps [OF lib this cid placed(3,4)]
    have "registered (invite_call u te r t req m w2)"
      by (rule registered_one [OF reg, of _ t]) (use p(7,9,10,12) in \<open>simp_all add: call_step_def invite_safe_def\<close>)
    with placed(5) show ?thesis by simp
  qed (simp add: answer_def)
qed

section \<open>Events that reach a timeslot\<close>

lemma drop_lines [simp]: "same_lines w (sip_drop i v) = same_lines w v"
  by (auto simp: sip_drop_def sip_disarm_def Let_def same_lines_upd)

lemma arm_lines [simp]: "same_lines w (sip_disarm i v) = same_lines w v" "same_lines w (sip_arm i t v) = same_lines w v"
  by (simp_all add: sip_disarm_def sip_arm_def same_lines_upd)

text \<open>Hanging up leaves the call on its line, until it is released.\<close>

lemma disconnect_lines:
  "in_call (ts_handler (w_slots v i)) \<Longrightarrow> same_lines w v \<Longrightarrow> same_lines w (snd (Timeslot_disconnect u i (ev, v)))"
  by (simp add: Timeslot_disconnect_def, erule same_lines_updI)
    (cases "ts_handler (w_slots v i)"; simp add: line_of_def set_mapped_def cong: option.case_cong)

lemma setIdle_lines:
  "ts_handler (w_slots v i) = IdleHandler \<Longrightarrow> same_lines w v \<Longrightarrow> same_lines w (Timeslot_setIdle u sip_disarm i v)"
  by (simp add: Timeslot_setIdle_def, erule same_lines_updI) (simp add: idle_slot_def line_of_def)

lemma released_handler: "ts_handler (w_slots (snd (sip_release u i (ev, w))) i) = IdleHandler"
  by (simp add: sip_release_def Timeslot_release_def Let_def release_lists_def delist_assigned_def release_stats_effect
      Timeslot_setIdle_def sip_disarm_def idle_slot_def)

lemma release_view: "exchange_of v (snd (sip_release u i (ev, w))) = ex_set i FreeLine (exchange_of v w)"
proof -
  let ?w' = "snd (sip_release u i (ev, w))"
  have w': "?w' = snd (Timeslot_release u sip_disarm i (ev, sip_drop i w))" by (simp add: sip_release_def)
  note q = quietD [OF sip_drop_quiet [of i w]] quiet_other [OF sip_drop_quiet [of i w]]
  have "w_ts_count ?w' = w_ts_count w" "env_of ?w' = env_of w"
    unfolding w' by (simp_all add: release_leaves(1,2) q)
  moreover have "w_slots ?w' j = w_slots w j" if "j \<noteq> i" for j
    unfolding w' using release_leaves(4) [OF that] q that by simp
  ultimately have "exchange_of v ?w' = ex_set i (line_of (w_slots ?w' i)) (exchange_of v w)" by (rule one_line_view)
  then show ?thesis by (simp add: line_of_def released_handler)
qed

lemma enable_view:
  assumes "ts_handler (w_slots w i) = OfflineHandler"
  shows "exchange_of v (snd (Timeslot_enable u sip_disarm i (ev, w))) = ex_set i FreeLine (exchange_of v w)"
proof -
  let ?w' = "snd (Timeslot_enable u sip_disarm i (ev, w))"
  have "exchange_of v ?w' = ex_set i (line_of (w_slots ?w' i)) (exchange_of v w)"
    by (rule one_line_view)
      (simp_all add: Timeslot_enable_def Let_def Timeslot_setIdle_def sip_disarm_def)
  then show ?thesis by (simp add: line_of_def Timeslot_enable_def Let_def Timeslot_setIdle_def sip_disarm_def idle_slot_def)
qed

lemma held_line:
  assumes "registered w" and "i < w_ts_count w" and "in_call (ts_handler (w_slots w i))"
  shows "\<exists>r. ts_registry (w_slots w i) = Some r \<and> line_of (w_slots w i) = Held r (ts_cid (w_slots w i))"
  using assms by (cases "ts_handler (w_slots w i)") (auto simp: registered_def line_of_def)

lemma ex_line_of [simp]: "ex_line (exchange_of u w) i = line_of (w_slots w i)" "ex_lines (exchange_of u w) = w_ts_count w"
  by (simp_all add: exchange_of_def)

text \<open>An event moves the line of its timeslot, and no other.\<close>

lemma handler_view:
  assumes "registered w" and "i < w_ts_count w" and "shutdown_safe ev (ts_handler (w_slots w i))"
  shows "\<exists>l. line_moves ev (line_of (w_slots w i)) l \<and>
    exchange_of v (snd (run_handler (sip_vtable u stp) i (ev, w))) = ex_set i l (exchange_of v w)"
proof -
  let ?w' = "snd (run_handler (sip_vtable u stp) i (ev, w))"
  have same: ?thesis if "same_lines w ?w'" "line_moves ev (line_of (w_slots w i)) (line_of (w_slots w i))"
    using that same_lines_view [OF that(1), of v] ex_set_same [of i "exchange_of v w"] by auto
  have free: ?thesis if "exchange_of v ?w' = ex_set i FreeLine (exchange_of v w)" "line_moves ev (line_of (w_slots w i)) FreeLine"
    using that by blast
  note defs = run_handler_def sip_vtable_def line_moves_def sip_disable_def Timeslot_running_def
    Timeslot_idleHandler_def Timeslot_releaseHandler_def Timeslot_scriptHandler_def Timeslot_offlineHandler_def
  show ?thesis
  proof (cases "ts_handler (w_slots w i)")
    case IdleHandler
    then show ?thesis
      by (intro same) (cases ev; simp add: defs line_of_def Timeslot_shutdown_def setIdle_lines)+
  next
    case OfflineHandler
    show ?thesis
    proof (cases "ev = EvENABLE")
      case True
      with OfflineHandler show ?thesis by (intro free) (simp_all add: defs enable_view line_of_def)
    next
      case False
      with OfflineHandler assms(3) show ?thesis by (intro same) (cases ev; simp add: defs line_of_def shutdown_safe_def)+
    qed
  next
    case ReleaseHandler
    with held_line [OF assms(1,2)] obtain r where r: "line_of (w_slots w i) = Held r (ts_cid (w_slots w i))" by auto
    show ?thesis
    proof (cases "ev = EvRELEASE \<or> ev = EvTIMEOUT")
      case True
      with ReleaseHandler show ?thesis by (intro free) (auto simp: defs r release_view)
    next
      case False
      with ReleaseHandler assms(3) show ?thesis by (intro same) (cases ev; simp add: defs r shutdown_safe_def)+
    qed
  next
    case ScriptHandler
    with held_line [OF assms(1,2)] obtain r where r: "line_of (w_slots w i) = Held r (ts_cid (w_slots w i))" by auto
    note q = quietD [OF sip_drop_quiet [of i w]]
    have hang: "same_lines w (snd (sip_hangup u i (e, w)))" "same_lines w (snd (sip_disconnect u i (e, w)))" for e
      using ScriptHandler q unfolding sip_hangup_def sip_disconnect_def prod.case
      by (intro disconnect_lines; simp add: sip_disarm_def same_lines_upd)+
    show ?thesis
    proof (cases "ev = EvRELEASE")
      case True
      with ScriptHandler show ?thesis by (intro free) (simp_all add: defs r release_view)
    next
      case False
      with ScriptHandler show ?thesis by (intro same) (cases ev; simp add: defs r hang)+
    qed
  qed
qed

lemma emit_view [simp]: "exchange_of u (emit e w) = exchange_of u w"
  by (rule same_lines_view) simp

lemma post_view:
  assumes "registered w" and "i < w_ts_count w" and "shutdown_safe ev (ts_handler (w_slots w i))"
  shows "\<exists>l. line_moves ev (line_of (w_slots w i)) l \<and>
    exchange_of v (snd (Timeslot_post (sip_vtable u stp) i (ev, w))) = ex_set i l (exchange_of v w)"
  using handler_view [of "emit (MutexLock i) w" i ev v u stp] assms
  by (simp add: Timeslot_post_def Let_def case_prod_unfold)

lemma tick_view:
  assumes "registered w" and "i < w_ts_count w"
  shows "\<exists>l. line_moves EvTIMEOUT (line_of (w_slots w i)) l \<and>
    exchange_of v (Timeslot_expire (sip_vtable u stp) i (snd (sip_getExpires elapsed i w))) = ex_set i l (exchange_of v w)"
proof -
  let ?g = "snd (sip_getExpires elapsed i w)"
  have s: "same_lines w ?g" by (simp add: sip_getExpires_def Let_def same_lines_upd)
  then have g: "exchange_of v ?g = exchange_of v w" "w_ts_count ?g = w_ts_count w"
    "line_of (w_slots ?g i) = line_of (w_slots w i)"
    by (simp_all add: same_lines_view) (simp_all add: same_lines_def)
  have "registered ?g" using assms(1) by (auto simp: sip_getExpires_def Let_def intro!: registered_upd)
  note g = g this
  have "exchange_of v (upd_slot i (\<lambda>s. s\<lparr>ts_expires := None\<rparr>) x) = exchange_of v x" for x
    by (rule same_lines_view) (simp add: same_lines_upd)
  then have e: "exchange_of v (Timeslot_expire (sip_vtable u stp) i ?g) = exchange_of v (if ts_expires (w_slots ?g i) = Some 0
      then snd (run_handler (sip_vtable u stp) i (EvTIMEOUT, ?g)) else ?g)"
    by (simp add: Timeslot_expire_def Let_def case_prod_unfold)
  show ?thesis
  proof (cases "ts_expires (w_slots ?g i) = Some 0")
    case True
    with handler_view [of ?g i EvTIMEOUT v u stp] g assms(2) e show ?thesis by (simp add: shutdown_safe_def)
  next
    case False
    have "line_moves EvTIMEOUT (line_of (w_slots w i)) (line_of (w_slots w i))" by (simp add: line_moves_def split: line.split)
    with False e g(1) show ?thesis using ex_set_same [of i "exchange_of v w"] by auto
  qed
qed

section \<open>Events of the stack\<close>

text \<open>The answers of the registrar, and the messages the threads send themselves, change no line.\<close>

interpretation lines: registry_keeper "same_lines w" for w
proof
  show "same_lines w (emit e v) = same_lines w v" for e v by simp
  show "same_lines w v \<Longrightarrow> keeps_account f \<Longrightarrow> same_lines w (upd_reg r f v)" for v r f
    by (rule same_lines_trans [OF _ same_lines_reg])
qed

lemma answer_view [simp]:
  "exchange_of u (answer te tid code w) = exchange_of u w" "exchange_of u (options te tid w) = exchange_of u w"
  by (simp_all add: answer_def options_def)

lemma get_lines: "same_lines w (snd (Timeslot_get cid w))"
  by (simp add: Timeslot_get_def Let_def)

lemma find_cid_missing:
  "i \<in> set l \<Longrightarrow> ts_cid (sl i) = cid \<Longrightarrow> find_cid sl cid l = None \<Longrightarrow> \<exists>j \<in> set l. mp_started (sl j) = 0"
  by (induction l) (auto split: if_splits)

text \<open>A call is found exactly when its line holds it.\<close>

lemma get_line:
  assumes ok: "slots_ok w" and reg: "registered w" and cid: "0 \<le> cid"
  shows "case Timeslot_get cid w of
      (None, w1) \<Rightarrow> w_slots w1 = w_slots w \<and> (\<forall>i < w_ts_count w. \<forall>r. line_of (w_slots w i) \<noteq> Held r cid)
    | (Some i, w1) \<Rightarrow> w_slots w1 = w_slots w \<and> i < w_ts_count w \<and> (\<exists>r. line_of (w_slots w i) = Held r cid)"
proof -
  obtain t w1 where g: "Timeslot_get cid w = (t, w1)" by (rule prod.exhaust)
  have p: "ts_path cid < TIMESLOT_INDEX_SIZE" using cid by (rule ts_path_bound)
  then have w1: "w_slots w1 = w_slots w" using g by (auto simp: Timeslot_get_def Let_def)
  have f: "find_cid (w_slots w) cid (w_assigned w (ts_path cid)) = t" using get_result [of cid w] g p by simp
  show ?thesis
  proof (cases t)
    case (Some i)
    with f have i: "i \<in> set (w_assigned w (ts_path cid))" "ts_cid (w_slots w i) = cid" using find_cid_Some by blast+
    then have "i < w_ts_count w" "in_call (ts_handler (w_slots w i))" using slots_assigned [OF ok] by blast+
    with held_line [OF reg] i(2) g Some w1 show ?thesis by auto
  next
    case None
    have "line_of (w_slots w i) \<noteq> Held r cid" if i: "i < w_ts_count w" for i r
    proof
      assume "line_of (w_slots w i) = Held r cid"
      then have h: "in_call (ts_handler (w_slots w i))" "ts_cid (w_slots w i) = cid"
        by (auto simp: line_of_def split: handler.splits option.splits)
      with i slots_assigned [OF ok] have "i \<in> set (w_assigned w (ts_path cid))" by blast
      from find_cid_missing [of i _ "w_slots w", OF this h(2)] f None obtain j where j: "j \<in> set (w_assigned w (ts_path cid))" "mp_started (w_slots w j) = 0"
        by auto
      then have "j < w_ts_count w" "in_call (ts_handler (w_slots w j))" using slots_assigned [OF ok] by blast+
      with slots_started [OF ok, of j] j(2) show False by auto
    qed
    with g None w1 show ?thesis by simp
  qed
qed

lemma post_to_call_view:
  assumes ok: "slots_ok w" and reg: "registered w" and cid: "0 \<le> cid" and ev: "ev \<noteq> EvSHUTDOWN"
  shows "exchange_of v (snd (post_to_call u stp ev cid w)) = exchange_of v w \<and>
      (\<forall>i < w_ts_count w. \<forall>r. line_of (w_slots w i) \<noteq> Held r cid) \<or>
    (\<exists>i < w_ts_count w. \<exists>r l. line_of (w_slots w i) = Held r cid \<and> line_moves ev (Held r cid) l \<and>
      exchange_of v (snd (post_to_call u stp ev cid w)) = ex_set i l (exchange_of v w))"
proof -
  obtain t w1 where g: "Timeslot_get cid w = (t, w1)" by (rule prod.exhaust)
  have s: "same_lines w w1" using get_lines [of w cid] g by simp
  then have w1: "exchange_of v w1 = exchange_of v w" "w_ts_count w1 = w_ts_count w" 
    by (simp_all add: same_lines_view) (simp add: same_lines_def)
  show ?thesis
  proof (cases t)
    case None
    with get_line [OF ok reg cid] g w1(1) show ?thesis by (simp add: post_to_call_def)
  next
    case (Some i)
    with get_line [OF ok reg cid] g have i: "w_slots w1 = w_slots w" "i < w_ts_count w" "\<exists>r. line_of (w_slots w i) = Held r cid"
      by simp_all
    have "registered w1" using reg by (simp add: registered_def i(1) w1(2))
    from post_view [OF this, of i ev v u stp] i w1 ev obtain l where
      "line_moves ev (line_of (w_slots w i)) l"
      "exchange_of v (snd (Timeslot_post (sip_vtable u stp) i (ev, w1))) = ex_set i l (exchange_of v w)"
      by (auto simp: shutdown_safe_def)
    with i(3) obtain r where "line_of (w_slots w i) = Held r cid" "line_moves ev (Held r cid) l" by auto
    moreover have "exchange_of v (snd (post_to_call u stp ev cid w)) = ex_set i l (exchange_of v w)"
      using g Some \<open>_ = ex_set i l _\<close> by (simp add: post_to_call_def)
    ultimately show ?thesis using i(2) by blast
  qed
qed

lemma message_view:
  assumes "slots_ok w" and "registered w" and "0 \<le> si_cid (se_invite ev)"
  shows "exchange_of v (message_new u stp te ev w) = exchange_of v w"
proof -
  have "exchange_of v (snd (post_to_call u stp EvDROP (si_cid (se_invite ev)) w)) = exchange_of v w"
    using post_to_call_view [OF assms, of EvDROP v u stp] ex_set_same [of _ "exchange_of v w"]
    by (auto simp: line_moves_def) (metis ex_line_of(1))
  then show ?thesis
    by (simp add: message_new_def Let_def case_prod_unfold split: option.split sip_method.split)
qed

section \<open>Invitations\<close>

lemma count_held:
  assumes "accounted w" and "registered w"
  shows "ex_count r (exchange_of u w) = held r w"
proof -
  have "held_by r (line_of (w_slots w i)) \<longleftrightarrow> ts_registry (w_slots w i) = Some r" if "i < w_ts_count w" for i
    using assms that by (cases "ts_handler (w_slots w i)")
      (auto simp: line_of_def accounted_def slot_booked_def registered_def split: option.split)
  then show ?thesis
    unfolding ex_count_def held_def by (intro arg_cong [where f = length] filter_cong) (simp_all add: exchange_of_def)
qed

lemma room_attach:
  assumes "accounted w" and "registered w"
  shows "ex_room r (exchange_of u w) \<longleftrightarrow> fst (Registration_attach r k w)"
proof -
  have "reg_calls r w = held r w" if "rg_stats (w_regs w r) \<noteq> None"
    using that accounted_calls [OF assms(1), of r] by auto
  with attach_refuses_iff [of r k w] count_held [OF assms, of r u] show ?thesis
    by (auto simp: ex_room_def exchange_of_def split: option.split)
qed

lemma idle_line:
  assumes "slots_ok w"
  shows "i \<in> set (w_idle w) \<longleftrightarrow> i < w_ts_count w \<and> line_of (w_slots w i) = FreeLine"
  using slots_idle [OF assms, of i] by (auto simp: line_of_def split: handler.splits option.splits)

context ucommon_lib
begin

lemma invite_view:
  assumes acc: "accounted w" and reg: "registered w" and ok: "server_ok w" and cid: "1 \<le> si_cid (se_invite ev)"
    and ty: "se_type ev = CALL_INVITE" and req: "se_request ev = Some req"
  shows "ex_step (Stack te ev) (exchange_of u w) (exchange_of u (invite u te req (se_invite ev) w))"
proof -
  let ?m = "se_invite ev"
  let ?e = "exchange_of u w"
  have slots: "slots_ok w" and clock: "w_clock w \<noteq> 0" using ok by (simp_all add: server_ok_def)
  have want: "ex_wanted ev ?e = (if \<not> sr_parts req then None else case sr_user req of None \<Rightarrow> None
      | Some user \<Rightarrow> if user = [] then None else sip_contact u user w)"
    using cid by (simp add: ex_wanted_def req exchange_of_def split: option.split)
  have refused: ?thesis if "exchange_of u (invite u te req ?m w) = ?e"
      "\<And>r. ex_wanted ev ?e = Some r \<Longrightarrow> \<not> ex_room r ?e \<or> w_idle w = []"
  proof -
    have "\<forall>i < ex_lines ?e. ex_line ?e i \<noteq> FreeLine" if "w_idle w = []" using idle_line [OF slots] that by auto
    with that show ?thesis by (metis Refused [OF ty])
  qed
  show ?thesis
  proof (cases "ex_wanted ev ?e")
    case None
    then have "exchange_of u (invite u te req ?m w) = ?e"
      by (auto simp: invite_eq Let_def want split: option.split if_splits)
    with None show ?thesis by (intro refused) simp_all
  next
    case (Some r)
    then obtain user where user: "sr_parts req" "sr_user req = Some user" "user \<noteq> []" "sip_contact u user w = Some r"
      by (auto simp: want split: if_splits option.splits)
    obtain b w1 where att: "Registration_attach r INCOMING w = (b, w1)" by (rule prod.exhaust)
    have room: "ex_room r ?e = b" using room_attach [OF acc reg, of r u INCOMING] att by simp
    have w1: "w1 = snd (Registration_attach r INCOMING w)" using att by simp
    have same1: "same_lines w w1" by (simp add: w1 same_lines_stats [OF attach_frame])
    show ?thesis
    proof (cases b)
      case False
      with user att have "invite u te req ?m w = answer te (si_tid ?m) SIP_TEMPORARILY_UNAVAILABLE w1"
        by (simp add: invite_eq)
      with False room Some same_lines_view [OF same1] show ?thesis by (intro refused) simp_all
    next
      case b: True
      obtain ts w2 where asg: "Timeslot_assign (sip_allocate u) (Some r) INCOMING (si_cid ?m) w1 = (ts, w2)" by (rule prod.exhaust)
      show ?thesis
      proof (cases ts)
        case None
        then have "w_idle w1 = []" and w2: "w2 = emit ListCommit (emit ListModify w1)"
          using asg by (auto simp: Timeslot_assign_def Let_def split: list.splits)
        moreover have "invite u te req ?m w =
            answer te (si_tid ?m) SIP_TEMPORARILY_UNAVAILABLE (Registration_release_stat r INCOMING w2)"
          using user att b asg None by (simp add: invite_eq)
        moreover have "same_lines w (Registration_release_stat r INCOMING w2)"
          using same1 by (simp add: w2 same_lines_stats [OF release_stat_frame])
        ultimately show ?thesis by (intro refused) (simp_all add: same_lines_view w1)
      next
        case (Some t)
        let ?w' = "invite_call u te r t req ?m w2"
        have inv: "invite u te req ?m w = ?w'" using user att b asg Some by (simp add: invite_eq)
        have "0 \<le> si_cid ?m" using cid by simp
        note p = placed_steps [OF lib slots clock this att [unfolded b [THEN eqTrueI]] asg [unfolded Some]]
        have t: "t < w_ts_count w" "line_of (w_slots w t) = FreeLine" using idle_line [OF slots, of t] p(3) by auto
        have "in_call (ts_handler (w_slots ?w' t))" "ts_registry (w_slots ?w' t) = Some r" "ts_cid (w_slots ?w' t) = si_cid ?m"
          using p(5-7,9) by (simp_all add: call_step_def)
        then have l: "line_of (w_slots ?w' t) = Held r (si_cid ?m)"
          by (cases "ts_handler (w_slots ?w' t)") (simp_all add: line_of_def)
        have "exchange_of u ?w' = ex_set t (line_of (w_slots ?w' t)) ?e"
          by (rule one_line_view) (use p(9,10,12) in \<open>simp_all add: invite_safe_def call_step_def\<close>)
        with Invited [OF ty \<open>ex_wanted ev ?e = Some r\<close>, of t te] t room b inv l show ?thesis by simp
      qed
    qed
  qed
qed

lemma event_view:
  assumes acc: "accounted w" and reg: "registered w" and ok: "server_ok w" and cid: "0 \<le> si_cid (se_invite ev)"
  shows "ex_step (Stack te ev) (exchange_of u w) (exchange_of u (sip_step u stp legacy w (Stack te ev)))"
proof -
  let ?e = "exchange_of u w" and ?cid = "si_cid (se_invite ev)"
  have slots: "slots_ok w" and fwd: "\<And>r. rg_fwd (w_regs w r) = None" using ok by (simp_all add: server_ok_def)
  note answers = lines.located_kept [OF same_lines_frame(1) fwd] lines.registration_failure_kept [OF same_lines_frame(1) fwd, of te ev]
  have same: ?thesis if "\<exists>w'. run_event u stp legacy te ev w = Some w' \<and> exchange_of u w' = ?e"
      "se_type ev \<noteq> CALL_INVITE" "se_type ev \<noteq> CALL_RELEASED"
    using that by (auto intro: Other)
  have lines: ?thesis if "\<exists>w'. run_event u stp legacy te ev w = Some w' \<and> same_lines w w'"
      "se_type ev \<noteq> CALL_INVITE" "se_type ev \<noteq> CALL_RELEASED"
    using that same_lines_view by (intro same) blast+
  note post = post_to_call_view [OF slots reg cid, where v = u and u = u and stp = stp]
  consider (invite) "se_type ev = CALL_INVITE" | (released) "se_type ev = CALL_RELEASED" | (closed) "se_type ev = CALL_CLOSED"
    | (message) "se_type ev = MESSAGE_NEW"
    | (registrar) "se_type ev \<in> {REGISTRATION_FAILURE, REGISTRATION_TERMINATED, REGISTRATION_REFRESHED, REGISTRATION_SUCCESS}"
    | (other) "se_type ev \<noteq> CALL_INVITE" "se_type ev \<noteq> CALL_RELEASED"
      "run_event u stp legacy te ev w = Some (emit (Log ''unsupported message %d'') w)"
    by (cases "se_type ev") (simp_all add: run_event_def Let_def)
  then show ?thesis
  proof cases
    case invite
    show ?thesis
    proof (cases "se_request ev = None \<or> ?cid < 1")
      case True
      then have "ex_wanted ev ?e = None" by (auto simp: ex_wanted_def split: option.split)
      then have "ex_step (Stack te ev) ?e ?e" by (intro Refused [OF invite]) simp
      with True invite show ?thesis by (auto simp: run_event_def Let_def split: option.split)
    next
      case False
      then obtain req where "se_request ev = Some req" "1 \<le> ?cid" by auto
      with invite_view [OF acc reg ok _ invite] invite show ?thesis by (simp add: run_event_def Let_def)
    qed
  next
    case released
    then have run: "sip_step u stp legacy w (Stack te ev) = snd (post_to_call u stp EvRELEASE ?cid w)"
      by (simp add: run_event_def Let_def)
    from post [of EvRELEASE] show ?thesis
    proof (rule disjE [OF _ _ _])
      show "EvRELEASE \<noteq> EvSHUTDOWN" by simp
    next
      assume "exchange_of u (snd (post_to_call u stp EvRELEASE ?cid w)) = ?e \<and>
        (\<forall>i < w_ts_count w. \<forall>r. line_of (w_slots w i) \<noteq> Held r ?cid)"
      then show ?thesis using Unknown [OF released, of ?e te] run by simp
    next
      assume "\<exists>i < w_ts_count w. \<exists>r l. line_of (w_slots w i) = Held r ?cid \<and> line_moves EvRELEASE (Held r ?cid) l \<and>
        exchange_of u (snd (post_to_call u stp EvRELEASE ?cid w)) = ex_set i l ?e"
      then show ?thesis using Released [OF released, of _ ?e _ te] run by (auto simp: line_moves_def)
    qed
  next
    case closed
    have "ex_set i (Held r ?cid) ?e = ?e" if "line_of (w_slots w i) = Held r ?cid" for i r
      using ex_set_same [of i ?e] that by simp
    with closed post [of EvDROP] show ?thesis by (intro same) (auto simp: run_event_def Let_def line_moves_def)
  next
    case message
    then show ?thesis by (intro same) (simp_all add: run_event_def Let_def message_view [OF slots reg cid])
  next
    case registrar
    then show ?thesis using answers by (intro lines) (auto simp: run_event_def Let_def)
  next
    case other
    then show ?thesis by (intro same) simp_all
  qed
qed

lemma step_view:
  assumes "server_ok w \<and> accounted w \<and> registered w" and "sip_guard w x"
  shows "ex_step x (exchange_of u w) (exchange_of u (sip_step u stp legacy w x))"
proof (cases x)
  case (Stack te ev)
  with assms event_view show ?thesis by simp
next
  case (Tick i elapsed)
  with assms tick_view [of w i u u stp elapsed] obtain l where "line_moves EvTIMEOUT (ex_line (exchange_of u w) i) l"
    "exchange_of u (sip_step u stp legacy w x) = ex_set i l (exchange_of u w)" by auto
  with Tick Ticked show ?thesis by metis
next
  case (Operator i ev)
  with assms post_view [of w i ev u u stp] obtain l where "line_moves ev (ex_line (exchange_of u w) i) l"
    "exchange_of u (sip_step u stp legacy w x) = ex_set i l (exchange_of u w)" by auto
  with Operator Posted show ?thesis by metis
qed

end

sublocale ucommon_lib < exchange: simulation "sip_step u stp legacy" sip_guard
  "\<lambda>w. server_ok w \<and> accounted w \<and> registered w" "exchange_of u" ex_step for stp legacy
  by unfold_locales (use books.both.step_inv registered.both.step_inv step_view in blast)+

context ucommon_lib
begin

lemma exchange_run:
  "server_ok w \<Longrightarrow> accounted w \<Longrightarrow> registered w \<Longrightarrow> guarded_ops (sip_step u stp legacy) sip_guard w ops \<Longrightarrow>
     spec_run ex_step ops (exchange_of u w) (exchange_of u (run_ops (sip_step u stp legacy) w ops))"
  by (rule exchange.run_sim) simp_all

lemma exchange_keeps:
  "server_ok w \<Longrightarrow> accounted w \<Longrightarrow> registered w \<Longrightarrow> guarded_ops (sip_step u stp legacy) sip_guard w ops \<Longrightarrow>
     P (exchange_of u w) \<Longrightarrow> (\<And>x a b. x \<in> set ops \<Longrightarrow> ex_step x a b \<Longrightarrow> P a \<Longrightarrow> P b) \<Longrightarrow>
     P (exchange_of u (run_ops (sip_step u stp legacy) w ops))"
  by (rule exchange.run_view_keeps) simp_all

lemma registered_run:
  "server_ok w \<Longrightarrow> registered w \<Longrightarrow> guarded_ops (sip_step u stp legacy) sip_guard w ops \<Longrightarrow>
     registered (run_ops (sip_step u stp legacy) w ops)"
  by (rule registered.run_kept)

end

section \<open>Properties\<close>

text \<open>
  C3. The SIP driver implements the exchange. In any run, seen as lines that are free, out of service, or held by a
  call, every event is a step that the exchange has: an invitation that names a known user takes a free line for his
  registration, with the id of the invitation, exactly when the registration has room and a line is free, and
  otherwise changes nothing; a release of a call that some line holds frees that line, and one of an unknown call
  changes nothing; all other messages change no line; a timer can only free its own line; and the operator only
  releases a call or brings a line back into service.
\<close>

theorem sip_implements_exchange:
  assumes "ucommon_ok u" and "server_ok w" and "accounted w" and "registered w"
    and "guarded_ops (sip_step u stp legacy) sip_guard w ops"
  shows "spec_run ex_step ops (exchange_of u w) (exchange_of u (run_ops (sip_step u stp legacy) w ops))"
  by (rule ucommon_lib.exchange_run [OF ucommon_lib.intro [OF assms(1)] assms(2-5)])

lemma sip_server_registered: "registered sip_server"
  by (simp add: registered_def sip_server_def)

text \<open>A call, and two more that cross it.\<close>

definition first_call :: sip_op where
  "first_call = Stack (sip_env None) (invite_event 5)"

definition crossing_calls :: "sip_op list" where
  "crossing_calls = [Stack (sip_env None) (invite_event 6), Stack (sip_env None) (invite_event 7),
     Stack (sip_env None) ((invite_event 6)\<lparr>se_type := CALL_RELEASED\<rparr>),
     Stack (sip_env None) ((invite_event 5)\<lparr>se_type := CALL_CLOSED\<rparr>)]"

abbreviation sample_step :: "world \<Rightarrow> sip_op \<Rightarrow> world" where
  "sample_step \<equiv> sip_step ucommon_ref (\<lambda>_ _. True) False"

lemma crossing_guarded: "guarded_ops sample_step sip_guard w (first_call # crossing_calls)"
  by (simp add: first_call_def crossing_calls_def invite_event_def plain_invite_def)

theorem sip_implements_exchange_witness:
  "spec_run ex_step (first_call # crossing_calls) (exchange_of ucommon_ref sip_server)
     (exchange_of ucommon_ref (run_ops sample_step sip_server (first_call # crossing_calls)))"
  by (rule sip_implements_exchange [OF ucommon_ref_ok sip_server_ok sip_server_accounted sip_server_registered
      crossing_guarded])

text \<open>
  C4. Calls do not disturb each other: a timeslot that holds a call goes on holding that call, with its id and its
  registration, through any events that are not its own release, its own timer, or a release by the operator.
  Invitations, calls and messages of others, with whatever ids, failures of registrations and events for other
  timeslots do not take it away or overwrite it.
\<close>

theorem sip_calls_undisturbed:
  assumes "ucommon_ok u" and "server_ok w" and "accounted w" and "registered w"
    and "guarded_ops (sip_step u stp legacy) sip_guard w ops"
    and "in_call (ts_handler (w_slots w i))" and "ts_registry (w_slots w i) = Some r"
    and "\<And>x. x \<in> set ops \<Longrightarrow> \<not> disturbs i (ts_cid (w_slots w i)) x"
    and "w' = run_ops (sip_step u stp legacy) w ops"
  shows "in_call (ts_handler (w_slots w' i)) \<and> ts_registry (w_slots w' i) = Some r \<and>
    ts_cid (w_slots w' i) = ts_cid (w_slots w i)"
proof -
  let ?cid = "ts_cid (w_slots w i)"
  have "ex_line (exchange_of u w) i = Held r ?cid"
    using assms(6,7) by (cases "ts_handler (w_slots w i)") (simp_all add: line_of_def)
  then have "ex_line (exchange_of u w') i = Held r ?cid"
    unfolding assms(9)
    by (rule ucommon_lib.exchange_keeps [OF ucommon_lib.intro [OF assms(1)] assms(2-5)])
      (use step_undisturbed assms(8) in blast)
  then show ?thesis by (auto simp: line_of_def split: handler.splits option.splits)
qed

lemma first_call_placed:
  "\<exists>t < w_ts_count sip_server. ts_registry (w_slots (sample_step sip_server first_call) t) = Some 0 \<and>
     ts_cid (w_slots (sample_step sip_server first_call) t) = 5"
proof -
  let ?m = "plain_invite 5"
  obtain req where req: "se_request (invite_event 5) = Some req" "sr_parts req" "sr_user req = Some ''u1''"
    by (simp add: invite_event_def)
  have sta: "w_sta (fresh_world 2) = w_sta blank_world"
    unfolding fresh_world_def using construct_all_stats(2) by simp
  have "fst (Registration_attach 0 INCOMING sip_server)"
    by (simp add: Registration_attach_def sip_server_def statmap_active_def sta blank_world_def zero_node_def)
  then obtain w1 where att: "Registration_attach 0 INCOMING sip_server = (True, w1)" and idle1: "w_idle w1 = w_idle sip_server"
    by (cases "Registration_attach 0 INCOMING sip_server") (metis attach_same(2) fst_conv snd_conv)
  obtain t w2 where asg: "Timeslot_assign (sip_allocate ucommon_ref) (Some 0) INCOMING (si_cid ?m) w1 = (Some t, w2)"
    by (simp add: Timeslot_assign_def Let_def idle1 sip_server_def upt_rec)
  have "sip_contact ucommon_ref ''u1'' sip_server = Some 0" by (simp add: sip_contact_def sip_server_def)
  with req att asg have "invite ucommon_ref (sip_env None) req ?m sip_server = invite_call ucommon_ref (sip_env None) 0 t req ?m w2"
    by (simp add: invite_eq)
  moreover have "slots_ok sip_server" "w_clock sip_server \<noteq> 0" using sip_server_ok by (simp_all add: server_ok_def)
  note p = placed_steps [OF ucommon_ref_ok this _ att asg]
  ultimately show ?thesis
    using p req by (intro exI [of _ t]) (simp add: first_call_def run_event_def invite_event_def plain_invite_def call_step_def invite_safe_def)
qed

theorem sip_calls_undisturbed_witness:
  "\<exists>t. in_call (ts_handler (w_slots (run_ops sample_step sip_server (first_call # crossing_calls)) t)) \<and>
     ts_cid (w_slots (run_ops sample_step sip_server (first_call # crossing_calls)) t) = 5"
proof -
  let ?w = "sample_step sip_server first_call"
  have g: "guarded_ops sample_step sip_guard sip_server [first_call]" "guarded_ops sample_step sip_guard ?w crossing_calls"
    using crossing_guarded [of sip_server] by simp_all
  have lib: "ucommon_lib ucommon_ref" by (rule ucommon_lib.intro [OF ucommon_ref_ok])
  have ok: "server_ok ?w" using ucommon_lib.server_run [OF lib sip_server_ok g(1)] by simp
  have acc: "accounted ?w" using ucommon_lib.books_run [OF lib sip_server_ok sip_server_accounted g(1)] by simp
  have reg: "registered ?w" using ucommon_lib.registered_run [OF lib sip_server_ok sip_server_registered g(1)] by simp
  obtain t where t: "t < w_ts_count sip_server" "ts_registry (w_slots ?w t) = Some 0" "ts_cid (w_slots ?w t) = 5"
    using first_call_placed by blast
  have "t < w_ts_count ?w" using ucommon_lib.count_run [OF lib sip_server_ok g(1)] t(1) by simp
  with acc t(2) have c: "in_call (ts_handler (w_slots ?w t))" by (simp add: accounted_def slot_booked_def)
  have "\<not> disturbs t (ts_cid (w_slots ?w t)) x" if "x \<in> set crossing_calls" for x
    using that by (auto simp: crossing_calls_def disturbs_def t(3) invite_event_def plain_invite_def)
  from sip_calls_undisturbed [OF ucommon_ref_ok ok acc reg g(2) c t(2) this refl] t(3) show ?thesis by auto
qed

end
