(* ===== verification/Pipe.thy ===== *)
theory Pipe
  imports SetupProps
begin

text \<open>
  The control pipe as the system keeps it (\<^verbatim>\<open>common/server.cpp\<close>): a file with a name, and a stream of
  bytes with room for so many of them, into which the control utility and the server itself write lines and from
  which \<open>receive\<close> reads with \<open>fgets\<close>. \<open>Server\<close> takes its requests one line at a time; here is shown that
  the stream gives it just those lines.
\<close>

section \<open>The stream of bytes\<close>

text \<open>
  A line that is written does not wait (\<^verbatim>\<open>O_NONBLOCK\<close>) and is shorter than what a pipe takes in one piece, so it
  is written whole or not at all. The result is what \<open>write\<close> says of it.
\<close>

definition pipe_write :: "nat \<Rightarrow> string \<Rightarrow> string \<Rightarrow> bool \<times> string" where
  "pipe_write cap l bytes = (if length bytes + length l \<le> cap then (True, bytes @ l) else (False, bytes))"

text \<open>
  \<open>receive\<close> on the bytes that are there: it reads lines of at most 511 characters until one is not ignored.
  \<open>None\<close> says that it goes on waiting; \<open>fgets\<close> waits for the rest of a line that is not complete.
\<close>

function pipe_receive :: "ucommon \<Rightarrow> string \<Rightarrow> (string option \<times> string) option \<times> string" where
  "pipe_receive u s =
     (case fgets_run 511 s of
        (l, rest, eof) \<Rightarrow>
          if l = [] \<or> eof then (None, s)
          else case parse_request u l of None \<Rightarrow> pipe_receive u rest | Some r \<Rightarrow> (Some r, rest))"
  by pat_completeness auto
termination
  by (relation "measure (\<lambda>(u, s). length s)") (auto dest: fgets_run_less)

declare pipe_receive.simps [simp del]

section \<open>Whole lines\<close>

definition whole_line :: "string \<Rightarrow> bool" where
  "whole_line l \<longleftrightarrow> (\<exists>a. l = a @ newline \<and> CHR 0x0A \<notin> set a \<and> length a \<le> 510)"

lemma whole_line_read: "whole_line l \<Longrightarrow> fgets_run 511 (l @ s) = (l, s, False)"
  by (auto simp: whole_line_def newline_def fgets_line [unfolded newline_def])

lemma whole_line_nonempty: "whole_line l \<Longrightarrow> l \<noteq> []"
  by (auto simp: whole_line_def newline_def)

lemma pipe_receive_line:
  "whole_line l \<Longrightarrow> pipe_receive u (l @ s) =
     (case parse_request u l of None \<Rightarrow> pipe_receive u s | Some r \<Rightarrow> (Some r, s))"
  by (subst pipe_receive.simps) (simp add: whole_line_read whole_line_nonempty)

lemma pipe_receive_empty [simp]: "pipe_receive u [] = (None, [])"
  by (subst pipe_receive.simps) (simp add: eval_nat_numeral)

text \<open>On a stream of whole lines it does what \<open>Server\<close> has it do on the list of them.\<close>

theorem pipe_receive_lines:
  "list_all whole_line ls \<Longrightarrow> pipe_receive u (concat ls) =
     (if \<forall>l \<in> set ls. parse_request u l = None then (None, [])
      else (Some (fst (receive_line u ls)), concat (snd (receive_line u ls))))"
  by (induction ls) (auto simp: pipe_receive_line split: option.split)

section \<open>Who writes\<close>

text \<open>A process that asks for an answer or for none, and the server's own \<open>control\<close>.\<close>

datatype sender = FromTool "nat option" "string list" | FromServer string

fun sender_line :: "sender \<Rightarrow> string" where
  "sender_line (FromTool pid argv) = request_text pid argv"
| "sender_line (FromServer text) = control_line text"

definition unmarked :: "string \<Rightarrow> bool" where
  "unmarked s \<longleftrightarrow> s \<noteq> [] \<and> \<not> c_isdigit (hd s) \<and> hd s \<noteq> CHR ''/''"

fun sender_ok :: "sender \<Rightarrow> bool" where
  "sender_ok (FromTool (Some pid) argv) \<longleftrightarrow>
     list_all plain_word argv \<and> argv \<noteq> [] \<and> length (show_nat pid) + length (spaced argv) \<le> 510"
| "sender_ok (FromTool None argv) \<longleftrightarrow>
     list_all plain_word argv \<and> argv \<noteq> [] \<and> length (spaced argv) < 510 \<and> unmarked (hd argv)"
| "sender_ok (FromServer text) \<longleftrightarrow>
     unmarked text \<and> \<not> c_isspace (hd text) \<and> \<not> c_isspace (last text) \<and> CHR 0x0A \<notin> set text \<and> length text \<le> 510"

fun sender_request :: "sender \<Rightarrow> string option \<times> string" where
  "sender_request (FromTool pid argv) = (map_option show_nat pid, join_words argv)"
| "sender_request (FromServer text) = (None, text)"

lemma newline_space: "c_isspace (CHR 0x0A)"
  by (simp add: c_isspace_def)

lemma words_no_newline: "list_all plain_word ws \<Longrightarrow> CHR 0x0A \<notin> set (spaced ws)"
  using newline_space by (induction ws) (auto simp: plain_word_def)

lemma show_nat_no_newline: "CHR 0x0A \<notin> set (show_nat n)"
  using show_nat_plain [of n] newline_space by auto

lemma sender_whole: "sender_ok x \<Longrightarrow> whole_line (sender_line x)"
proof (induction x rule: sender_ok.induct)
  case (1 pid argv)
  then have "sender_line (FromTool (Some pid) argv) = (show_nat pid @ spaced argv) @ newline"
    by (simp add: request_text_def add_words_fit newline_def)
  with 1 words_no_newline [of argv] show_nat_no_newline [of pid] show ?case unfolding whole_line_def by fastforce
next
  case (2 argv)
  then have "sender_line (FromTool None argv) = spaced argv @ newline"
    by (simp add: request_text_def add_words_fit newline_def)
  with 2 words_no_newline [of argv] show ?case unfolding whole_line_def by fastforce
next
  case (3 t)
  then have "last t \<noteq> CHR 0x0A" using newline_space by auto
  with 3 have "sender_line (FromServer t) = t @ newline" by (auto simp: control_line_def Let_def newline_def)
  with 3 show ?case unfolding whole_line_def by fastforce
qed

lemma sender_parsed:
  assumes "ucommon_ok u" and "sender_ok x"
  shows "parse_request u (sender_line x) = Some (sender_request x)"
  using assms(2)
proof (induction x rule: sender_ok.induct)
  case (1 pid argv)
  with tool_request_parsed [OF assms(1), of argv pid] show ?case by simp
next
  case (2 argv)
  have "length (show_nat 0) = 1" by (simp add: show_nat.simps)
  with 2 tool_request_parsed [OF assms(1), of argv 0] show ?case by (simp add: unmarked_def)
next
  case (3 t)
  then have l: "sender_line (FromServer t) = [] @ t @ newline"
    using newline_space by (auto simp: control_line_def Let_def newline_def)
  have "strip_chars ([] @ t @ newline) blanks = t"
    by (rule strip_line) (use 3 in \<open>auto simp: unmarked_def\<close>)
  with 3 l assms(1) show ?case
    by (auto simp: parse_request_def unmarked_def starts_slash_def starts_digit_def split: list.split)
qed

section \<open>Writers and the reader together\<close>

text \<open>What was written with success, the bytes in the pipe, and what was received.\<close>

record pipe_state =
  pi_sent :: "sender list"
  pi_bytes :: string
  pi_received :: "(string option \<times> string) list"

datatype pipe_op = PipeWrite sender | PipeRead

definition pipe_init :: pipe_state where
  "pipe_init = \<lparr>pi_sent = [], pi_bytes = [], pi_received = []\<rparr>"

fun pipe_step :: "ucommon \<Rightarrow> nat \<Rightarrow> pipe_state \<Rightarrow> pipe_op \<Rightarrow> pipe_state" where
  "pipe_step u cap s (PipeWrite x) =
     (case pipe_write cap (sender_line x) (pi_bytes s) of
        (True, b) \<Rightarrow> s\<lparr>pi_sent := pi_sent s @ [x], pi_bytes := b\<rparr>
      | (False, b) \<Rightarrow> s\<lparr>pi_bytes := b\<rparr>)"
| "pipe_step u cap s PipeRead =
     (case pipe_receive u (pi_bytes s) of
        (None, b) \<Rightarrow> s\<lparr>pi_bytes := b\<rparr>
      | (Some r, b) \<Rightarrow> s\<lparr>pi_bytes := b, pi_received := pi_received s @ [r]\<rparr>)"

fun pipe_guard :: "pipe_state \<Rightarrow> pipe_op \<Rightarrow> bool" where
  "pipe_guard s (PipeWrite x) = sender_ok x"
| "pipe_guard s PipeRead = True"

text \<open>The senders that were received and those whose lines are in the pipe.\<close>

definition pipe_inv :: "ucommon \<Rightarrow> pipe_state \<Rightarrow> bool" where
  "pipe_inv u s \<longleftrightarrow> ucommon_ok u \<and> list_all sender_ok (pi_sent s) \<and>
     (\<exists>done waiting. pi_sent s = done @ waiting \<and> pi_received s = map sender_request done \<and>
        pi_bytes s = concat (map sender_line waiting))"

lemma pipe_inv_init: "ucommon_ok u \<Longrightarrow> pipe_inv u pipe_init"
  by (simp add: pipe_inv_def pipe_init_def)

lemma pipe_receive_sender:
  "ucommon_ok u \<Longrightarrow> sender_ok x \<Longrightarrow> pipe_receive u (sender_line x @ s) = (Some (sender_request x), s)"
  by (simp add: pipe_receive_line sender_whole sender_parsed)

lemma pipe_inv_write: "pipe_inv u s \<Longrightarrow> sender_ok x \<Longrightarrow> pipe_inv u (pipe_step u cap s (PipeWrite x))"
  by (fastforce simp: pipe_inv_def pipe_write_def)

lemma pipe_read_step:
  assumes "ucommon_ok u" and "list_all sender_ok waiting" and "pi_bytes s = concat (map sender_line waiting)"
  shows "pipe_step u cap s PipeRead =
    (case waiting of [] \<Rightarrow> s
     | x # xs \<Rightarrow> s\<lparr>pi_bytes := concat (map sender_line xs), pi_received := pi_received s @ [sender_request x]\<rparr>)"
  using assms by (auto simp: pipe_receive_sender split: list.split)

lemma pipe_inv_read: "pipe_inv u s \<Longrightarrow> pipe_inv u (pipe_step u cap s PipeRead)"
proof -
  assume i: "pipe_inv u s"
  then obtain "done" waiting where d: "ucommon_ok u" "list_all sender_ok (done @ waiting)" "pi_sent s = done @ waiting"
    "pi_received s = map sender_request done" "pi_bytes s = concat (map sender_line waiting)"
    by (auto simp: pipe_inv_def)
  show ?thesis
  proof (cases waiting)
    case Nil
    with d i show ?thesis using pipe_read_step [of u waiting s cap] by (simp del: pipe_step.simps)
  next
    case (Cons x xs)
    then have "pi_sent s = (done @ [x]) @ xs" using d by simp
    with Cons d show ?thesis using pipe_read_step [of u waiting s cap] unfolding pipe_inv_def
      by (intro conjI exI [of _ "done @ [x]"] exI [of _ xs]) (auto simp del: pipe_step.simps)
  qed
qed

interpretation pipe: machine "pipe_step u cap" pipe_guard "pipe_inv u" for u cap
proof
  fix s x
  assume "pipe_inv u s" and "pipe_guard s x"
  then show "pipe_inv u (pipe_step u cap s x)"
    by (cases x) (auto intro: pipe_inv_write pipe_inv_read simp del: pipe_step.simps)
qed

lemma pipe_guarded: "(\<And>x. PipeWrite x \<in> set ops \<Longrightarrow> sender_ok x) \<Longrightarrow> guarded_ops (pipe_step u cap) pipe_guard s ops"
proof (induction ops arbitrary: s)
  case (Cons y ys)
  have "pipe_guard s y" using Cons.prems by (cases y) auto
  with Cons show ?case by simp
qed simp

text \<open>Reading on until nothing is left.\<close>

lemma pipe_drained:
  "ucommon_ok u \<Longrightarrow> list_all sender_ok waiting \<Longrightarrow> pi_bytes s = concat (map sender_line waiting) \<Longrightarrow>
   length waiting \<le> n \<Longrightarrow>
   pi_received (run_ops (pipe_step u cap) s (replicate n PipeRead)) = pi_received s @ map sender_request waiting"
proof (induction n arbitrary: s waiting)
  case (Suc n)
  show ?case
  proof (cases waiting)
    case Nil
    with Suc.IH [of "[]" s] Suc.prems pipe_read_step [of u waiting s cap] show ?thesis by (simp del: pipe_step.simps)
  next
    case (Cons x xs)
    with Suc.IH [of xs] Suc.prems pipe_read_step [of u waiting s cap] show ?thesis by (simp del: pipe_step.simps)
  qed
qed simp

lemma pipe_sent_length: "length (pi_sent (run_ops (pipe_step u cap) s ops)) \<le> length (pi_sent s) + length ops"
proof (induction ops arbitrary: s)
  case (Cons y ys)
  have "length (pi_sent (pipe_step u cap s y)) \<le> Suc (length (pi_sent s))"
    by (cases y) (auto simp: pipe_write_def split: prod.split option.split)
  with Cons [of "pipe_step u cap s y"] show ?case by simp
qed simp

lemma pipe_run_inv:
  assumes "ucommon_ok u" and "\<And>x. PipeWrite x \<in> set ops \<Longrightarrow> sender_ok x"
  shows "pipe_inv u (run_ops (pipe_step u cap) pipe_init ops)"
  using pipe.run_inv [OF pipe_inv_init [OF assms(1)] pipe_guarded] assms(2) by blast

text \<open>
  C32. Whatever processes and the server itself write into the control pipe, and whenever it is read, the
  requests that \<open>receive\<close> returns are those of the lines that were written with success, each once, unchanged and in
  the order they were written: the process that asked, if it is to be answered, and its words one space apart. After as many more reads as
  there were operations none of them is left in the pipe.
\<close>

theorem pipe_requests_in_order:
  assumes "ucommon_ok u" and "\<And>x. PipeWrite x \<in> set ops \<Longrightarrow> sender_ok x"
    and "s = run_ops (pipe_step u cap) pipe_init ops"
  shows "take (length (pi_received s)) (map sender_request (pi_sent s)) = pi_received s \<and>
    pi_received (run_ops (pipe_step u cap) s (replicate (length ops) PipeRead)) = map sender_request (pi_sent s)"
proof -
  have "pipe_inv u s" using pipe_run_inv [OF assms(1,2)] assms(3) by simp
  then obtain "done" waiting where d: "list_all sender_ok (done @ waiting)" "pi_sent s = done @ waiting"
    "pi_received s = map sender_request done" "pi_bytes s = concat (map sender_line waiting)"
    by (auto simp: pipe_inv_def)
  moreover have "length waiting \<le> length ops"
    using pipe_sent_length [of u cap pipe_init ops] d(2) assms(3) by (simp add: pipe_init_def)
  ultimately show ?thesis using pipe_drained [OF assms(1), of waiting s "length ops" cap] by simp
qed

definition sample_traffic :: "pipe_op list" where
  "sample_traffic = [PipeWrite (FromTool (Some 77) [''hangup'', ''3'']), PipeWrite (FromServer ''timer''), PipeRead,
     PipeWrite (FromTool None [''down''])]"

theorem pipe_requests_in_order_witness:
  "pi_received (run_ops (pipe_step ucommon_ref 65536)
     (run_ops (pipe_step ucommon_ref 65536) pipe_init sample_traffic) (replicate 4 PipeRead)) =
   [(Some ''77'', ''hangup 3''), (None, ''timer''), (None, ''down'')]"
proof -
  let ?s = "run_ops (pipe_step ucommon_ref 65536) pipe_init sample_traffic"
  have n: "show_nat 77 = ''77''" by (simp add: show_nat.simps)
  have ok: "sender_ok (FromTool (Some 77) [''hangup'', ''3''])" "sender_ok (FromServer ''timer'')"
    "sender_ok (FromTool None [''down''])"
    by (simp_all add: n plain_word_def unmarked_def c_isspace_def c_isdigit_def)
  then have "\<And>x. PipeWrite x \<in> set sample_traffic \<Longrightarrow> sender_ok x"
    by (auto simp: sample_traffic_def simp del: sender_ok.simps)
  from pipe_requests_in_order [where cap = 65536 and ops = sample_traffic, OF ucommon_ref_ok this refl]
  have "pi_received (run_ops (pipe_step ucommon_ref 65536) ?s (replicate (length sample_traffic) PipeRead)) =
      map sender_request (pi_sent ?s)"
    by blast
  moreover have "length sample_traffic = 4" by (simp add: sample_traffic_def)
  moreover have "pi_sent ?s = [FromTool (Some 77) [''hangup'', ''3''], FromServer ''timer'', FromTool None [''down'']]"
    using pipe_receive_sender [OF ucommon_ref_ok ok(1)] ok
    by (simp add: sample_traffic_def pipe_init_def pipe_write_def n request_text_def add_word_def control_line_def
      newline_def fit_def)
  ultimately show ?thesis by (simp add: n del: run_ops_simps)
qed

end
