(* ===== verification/Endpoint.thy ===== *)
theory Endpoint
  imports Pipe
begin

text \<open>
  The life of the control pipe (\<^verbatim>\<open>common/server.cpp\<close>): \<open>attach\<close> makes and opens it, \<open>input\<close> hands out its
  descriptor, \<open>control\<close> writes into it by its name, \<open>cleanup\<close> removes it together with the pid file, at
  \<open>release\<close> and when the process exits.
\<close>

section \<open>Files with a name\<close>

datatype node = PipeNode | PlainNode

text \<open>
  The files of the system by their names, and the static variables \<open>fifopath\<close> and \<open>fifo\<close>, the latter as the
  descriptor of the open stream; \<open>ep_exiting\<close> says that \<open>cleanup\<close> is to run when the process exits.
\<close>

record endpoint =
  ep_nodes :: "string \<Rightarrow> node option"
  ep_path :: string
  ep_fifo :: "nat option"
  ep_exiting :: bool

definition endpoint_init :: "(string \<Rightarrow> node option) \<Rightarrow> endpoint" where
  "endpoint_init nodes = \<lparr>ep_nodes = nodes, ep_path = [], ep_fifo = None, ep_exiting = False\<rparr>"

definition remove_node :: "string \<Rightarrow> endpoint \<Rightarrow> endpoint" where
  "remove_node p ep = ep\<lparr>ep_nodes := (ep_nodes ep)(p := None)\<rparr>"

definition endpoint_input :: "endpoint \<Rightarrow> nat option" where
  "endpoint_input ep = ep_fifo ep"

text \<open>
  \<open>cleanup\<close>: the name of the pid file is written over the last part of the path, \<open>String::set\<close> leaving it 9 characters.
\<close>

definition endpoint_cleanup :: "ucommon \<Rightarrow> endpoint \<Rightarrow> endpoint" where
  "endpoint_cleanup u ep =
     (if ep_path ep = [] then ep
      else let ep1 = remove_node (ep_path ep) ep
           in (case strrchr (ep_path ep) (CHR ''/'') of
                 None \<Rightarrow> ep1
               | Some cp \<Rightarrow> remove_node (take (length (ep_path ep) - length cp) (ep_path ep) @ u_set u 10 ''/pidfile'') ep1)
              \<lparr>ep_path := []\<rparr>)"

text \<open>
  \<open>attach\<close>: \<open>mk\<close> says whether the pipe can be made at a path, \<open>op\<close> is the descriptor it is opened with. The result
  is the size of a request; 0 is failure.
\<close>

definition endpoint_attach ::
    "ucommon \<Rightarrow> environment \<Rightarrow> (string \<Rightarrow> bool) \<Rightarrow> (string \<Rightarrow> nat option) \<Rightarrow> endpoint \<Rightarrow> nat \<times> endpoint"
where
  "endpoint_attach u e mk op ep =
     (let path = u_set u 128 (case e ''control'' of None \<Rightarrow> [] | Some p \<Rightarrow> p);
          ep1 = remove_node path (ep\<lparr>ep_path := path\<rparr>)
      in if \<not> mk path then (0, ep1\<lparr>ep_path := []\<rparr>)
         else let ep2 = ep1\<lparr>ep_nodes := (ep_nodes ep1)(path := Some PipeNode)\<rparr>
              in case op path of
                   Some fd \<Rightarrow> (512, ep2\<lparr>ep_fifo := Some fd, ep_exiting := True\<rparr>)
                 | None \<Rightarrow> (0, ep2\<lparr>ep_fifo := None, ep_path := []\<rparr>))"

text \<open>\<open>release\<close> stops the thread for signals, cleans up and exits, which runs \<open>cleanup\<close> again if it was registered.\<close>

definition endpoint_release :: "ucommon \<Rightarrow> nat \<Rightarrow> endpoint \<Rightarrow> nat \<times> endpoint" where
  "endpoint_release u status ep =
     (let ep1 = endpoint_cleanup u ep in (status, if ep_exiting ep1 then endpoint_cleanup u ep1 else ep1))"

text \<open>
  \<open>control\<close> opens the pipe by the name in the environment, which is not cut to the size of \<open>fifopath\<close>. A pipe that
  nobody reads cannot be opened for writing without waiting; \<open>plain\<close> says whether another file takes the line.
\<close>

definition server_control ::
    "nat \<Rightarrow> environment \<Rightarrow> (string \<Rightarrow> bool) \<Rightarrow> string \<Rightarrow> endpoint \<Rightarrow> string \<Rightarrow> bool \<times> string"
where
  "server_control cap e plain text ep bytes =
     (case e ''control'' of
        None \<Rightarrow> (False, bytes)
      | Some p \<Rightarrow>
          (case ep_nodes ep p of
             None \<Rightarrow> (False, bytes)
           | Some PipeNode \<Rightarrow> if ep_fifo ep = None then (False, bytes) else pipe_write cap (control_line text) bytes
           | Some PlainNode \<Rightarrow> (plain p, bytes)))"

section \<open>Lemmas\<close>

lemma strrchr_last: "CHR ''/'' \<notin> set b \<Longrightarrow> strrchr (a @ CHR ''/'' # b) (CHR ''/'') = Some (CHR ''/'' # b)"
  by (simp add: strrchr_append)

lemma cleanup_path: "ep_path (endpoint_cleanup u ep) = []"
  by (simp add: endpoint_cleanup_def Let_def split: option.split)

lemma cleanup_idle: "ep_path ep = [] \<Longrightarrow> endpoint_cleanup u ep = ep"
  by (simp add: endpoint_cleanup_def)

text \<open>\<open>attach\<close> here and in \<open>Setup\<close>: the path is the one the descriptor belongs to.\<close>

lemma attach_path:
  assumes "fst (endpoint_attach u e mk op ep) \<noteq> 0" and "e ''control'' = Some p"
  shows "server_attach u (\<lambda>p. mk p \<and> op p \<noteq> None) e = Some (ep_path (snd (endpoint_attach u e mk op ep)))"
  using assms by (auto simp: endpoint_attach_def server_attach_def Let_def remove_node_def split: if_splits option.splits)

lemma cleanup_files:
  "ep_nodes (endpoint_cleanup u ep) = fold (\<lambda>p f. f(p := None)) (server_cleanup u (ep_path ep)) (ep_nodes ep)"
  by (simp add: endpoint_cleanup_def server_cleanup_def remove_node_def Let_def split: option.split)

lemma cleanup_removes:
  assumes "ucommon_ok u" and "ep_path ep = dir @ ''/control''"
  shows "ep_nodes (endpoint_cleanup u ep) = (ep_nodes ep)(dir @ ''/control'' := None, dir @ ''/pidfile'' := None)"
  using assms strrchr_last [of "''control''" dir] by (simp add: endpoint_cleanup_def remove_node_def Let_def)

section \<open>Properties\<close>

text \<open>
  A server whose control path fits finds its own pipe by its name: a line of \<open>control\<close> is written into it if there is
  room; and when it is released nothing but the pipe and the pid file beside it is gone, whatever was there before.
\<close>

theorem endpoint_life:
  assumes "ucommon_ok u" and "e ''control'' = Some (dir @ ''/control'')" and "length dir < 120"
    and "mk (dir @ ''/control'')" and "op (dir @ ''/control'') = Some fd"
    and "endpoint_attach u e mk op ep = (len, ep1)"
  shows "len = 512 \<and> endpoint_input ep1 = Some fd \<and>
    server_control cap e plain text ep1 bytes = pipe_write cap (control_line text) bytes \<and>
    ep_nodes (snd (endpoint_release u status ep1)) = (ep_nodes ep)(dir @ ''/control'' := None, dir @ ''/pidfile'' := None)"
proof -
  have path: "u_set u 128 (dir @ ''/control'') = dir @ ''/control''" using assms(1,3) by simp
  with assms(2,4,5,6) have a: "len = 512"
    "ep1 = ep\<lparr>ep_nodes := (ep_nodes ep)(dir @ ''/control'' \<mapsto> PipeNode), ep_path := dir @ ''/control'',
       ep_fifo := Some fd, ep_exiting := True\<rparr>"
    by (auto simp: endpoint_attach_def remove_node_def Let_def)
  then have "ep_nodes (endpoint_cleanup u ep1) = (ep_nodes ep)(dir @ ''/control'' := None, dir @ ''/pidfile'' := None)"
    using cleanup_removes [OF assms(1), of ep1 dir] by simp
  then show ?thesis
    using a assms(2)
    by (simp add: endpoint_input_def server_control_def endpoint_release_def Let_def cleanup_idle cleanup_path)
qed

text \<open>
  A path that is too long is cut for the pipe but not for \<open>control\<close>, which then finds no pipe: the signals that
  end or reload the server do nothing. And a pipe that is made but cannot be opened is left behind.
\<close>

theorem endpoint_long_path:
  assumes "ucommon_ok u" and "e ''control'' = Some p" and "127 < length p" and "ep_nodes ep p = None"
  shows "server_control cap e plain text (snd (endpoint_attach u e mk op ep)) bytes = (False, bytes)"
proof -
  have "p \<noteq> take 127 p" using assms(3) by (metis length_take linorder_not_less min.absorb2 nat_less_le)
  then have "ep_nodes (snd (endpoint_attach u e mk op ep)) p = None"
    using assms(1,2,4) by (auto simp: endpoint_attach_def remove_node_def Let_def split: option.split)
  with assms(2) show ?thesis by (simp add: server_control_def)
qed

theorem endpoint_left_behind:
  assumes "ucommon_ok u" and "e ''control'' = Some p" and "length p < 128" and "mk p" and "op p = None"
  shows "fst (endpoint_attach u e mk op ep) = 0 \<and>
    ep_nodes (snd (endpoint_release u status (snd (endpoint_attach u e mk op (endpoint_init nodes))))) p = Some PipeNode"
  using assms by (simp add: endpoint_attach_def endpoint_init_def remove_node_def Let_def endpoint_release_def cleanup_idle)

text \<open>
  The buffer of 128 characters: the pid file's name and its NUL fit behind the directory if the path was not
  cut, for it is as long as the name of the pipe; a path that was cut right behind a slash runs over by seven.
\<close>

definition cleanup_end :: "string \<Rightarrow> nat" where
  "cleanup_end path = (case strrchr path (CHR ''/'') of None \<Rightarrow> length path + 1 | Some cp \<Rightarrow> length path - length cp + 9)"

theorem cleanup_bounds:
  "length (dir @ ''/control'') < 128 \<Longrightarrow> cleanup_end (dir @ ''/control'') \<le> 128"
  "cleanup_end (take 127 (replicate 126 (CHR ''a'') @ ''/control'')) = 135"
  using strrchr_last [of "''control''" dir] strrchr_last [of "[]" "replicate 126 (CHR ''a'')"]
  by (simp_all add: cleanup_end_def)

end
