(* ===== verification/SharedMaps.thy ===== *)
theory SharedMaps
  imports ControlProps
begin

text \<open>
  The names of the two shared maps (\<open>common/stats.cpp\<close>, \<open>common/timeslot.cpp\<close>): which process makes and removes
  them, and what the control utility then sees. The static objects that stand for the maps are part of the library that
  the server and the script checker are linked with; the control utility is not.
\<close>

section \<open>Maps with a name\<close>

text \<open>The maps of the system; \<open>None\<close> is a name that nothing is behind.\<close>

record shm_maps =
  sh_stats :: "statmap list option"
  sh_slots :: "slot list option"

text \<open>The flag \<open>initial\<close> of a process that has the library.\<close>

record map_statics =
  ms_initial :: bool

text \<open>
  The constructors run before \<open>main\<close> and map nothing. \<open>init\<close> removes what an earlier process has left and creates
  the map, with the entries \<open>initialize\<close> makes.
\<close>

definition map_new :: map_statics where
  "map_new = \<lparr>ms_initial = False\<rparr>"

definition sta_init :: "statmap list \<Rightarrow> shm_maps \<Rightarrow> shm_maps" where
  "sta_init nodes m = (m\<lparr>sh_stats := None\<rparr>)\<lparr>sh_stats := Some nodes\<rparr>"

definition map_init :: "slot list \<Rightarrow> map_statics \<times> shm_maps \<Rightarrow> map_statics \<times> shm_maps" where
  "map_init slots = (\<lambda>(st, m). (st\<lparr>ms_initial := True\<rparr>, (m\<lparr>sh_slots := None\<rparr>)\<lparr>sh_slots := Some slots\<rparr>))"

text \<open>The destructors run when the process exits: one asks whether the map was made, the other does not.\<close>

definition sta_destroy :: "shm_maps \<Rightarrow> shm_maps" where
  "sta_destroy m = m\<lparr>sh_stats := None\<rparr>"

definition map_destroy :: "map_statics \<times> shm_maps \<Rightarrow> map_statics \<times> shm_maps" where
  "map_destroy = (\<lambda>(st, m). if ms_initial st then (st\<lparr>ms_initial := False\<rparr>, m\<lparr>sh_slots := None\<rparr>) else (st, m))"

section \<open>Processes\<close>

text \<open>
  A server that starts, exits or is killed, and a run of the script checker, which makes no map but exits.
  \<open>server\<close> is the running server's flag.
\<close>

record shm_system =
  sy_server :: "map_statics option"
  sy_maps :: shm_maps

datatype shm_op = ServerStarts "statmap list" "slot list" | ServerExits | ServerKilled | LintRuns

definition process_exit :: "map_statics \<Rightarrow> shm_maps \<Rightarrow> shm_maps" where
  "process_exit st m = sta_destroy (snd (map_destroy (st, m)))"

fun shm_step :: "shm_system \<Rightarrow> shm_op \<Rightarrow> shm_system" where
  "shm_step s (ServerStarts nodes slots) =
     (let (st, m) = map_init slots (map_new, sta_init nodes (sy_maps s)) in \<lparr>sy_server = Some st, sy_maps = m\<rparr>)"
| "shm_step s ServerExits =
     (case sy_server s of None \<Rightarrow> s | Some st \<Rightarrow> \<lparr>sy_server = None, sy_maps = process_exit st (sy_maps s)\<rparr>)"
| "shm_step s ServerKilled = s\<lparr>sy_server := None\<rparr>"
| "shm_step s LintRuns = s\<lparr>sy_maps := process_exit map_new (sy_maps s)\<rparr>"

definition shm_boot :: shm_system where
  "shm_boot = \<lparr>sy_server = None, sy_maps = \<lparr>sh_stats = None, sh_slots = None\<rparr>\<rparr>"

text \<open>A view of a map that is not there has no entries.\<close>

definition tool_view :: "shm_system \<Rightarrow> tool_env \<Rightarrow> tool_env" where
  "tool_view s te = te\<lparr>tl_stats := (case sh_stats (sy_maps s) of None \<Rightarrow> [] | Some ns \<Rightarrow> ns),
     tl_slots := (case sh_slots (sy_maps s) of None \<Rightarrow> [] | Some sl \<Rightarrow> sl)\<rparr>"

definition offline :: tool_run where
  "offline = tool_error (- 1) ''driver offline''"

section \<open>Lemmas\<close>

lemma process_exit_maps [simp]:
  "sh_stats (process_exit st m) = None"
  "sh_slots (process_exit st m) = (if ms_initial st then None else sh_slots m)"
  by (simp_all add: process_exit_def map_destroy_def sta_destroy_def)

lemma map_new_initial [simp]: "\<not> ms_initial map_new"
  by (simp add: map_new_def)

lemma starts_maps [simp]:
  "sy_server (shm_step s (ServerStarts ns sl)) = Some \<lparr>ms_initial = True\<rparr>"
  "sh_stats (sy_maps (shm_step s (ServerStarts ns sl))) = Some ns"
  "sh_slots (sy_maps (shm_step s (ServerStarts ns sl))) = Some sl"
  by (simp_all add: map_init_def sta_init_def map_new_def)

declare shm_step.simps(1) [simp del]

text \<open>A server that runs has made the map of its timeslots, and what was made is not empty.\<close>

definition maps_ok :: "shm_system \<Rightarrow> bool" where
  "maps_ok s \<longleftrightarrow> (case sy_server s of None \<Rightarrow> True
     | Some st \<Rightarrow> ms_initial st \<and> sh_slots (sy_maps s) \<notin> {None, Some []})"

fun starts_guard :: "shm_system \<Rightarrow> shm_op \<Rightarrow> bool" where
  "starts_guard s (ServerStarts ns sl) \<longleftrightarrow> ns \<noteq> [] \<and> sl \<noteq> []"
| "starts_guard s x = True"

interpretation maps: machine shm_step starts_guard maps_ok
proof
  fix s x
  assume "maps_ok s" and "starts_guard s x"
  then show "maps_ok (shm_step s x)" by (cases x) (auto simp: maps_ok_def split: option.splits)
qed

lemma maps_ok_boot: "maps_ok shm_boot"
  by (simp add: maps_ok_def shm_boot_def)

text \<open>Without the checker and without a kill both maps are there exactly as long as a server runs.\<close>

definition maps_exact :: "shm_system \<Rightarrow> bool" where
  "maps_exact s \<longleftrightarrow> (case sy_server s of
       None \<Rightarrow> sh_stats (sy_maps s) = None \<and> sh_slots (sy_maps s) = None
     | Some st \<Rightarrow> ms_initial st \<and> sh_stats (sy_maps s) \<notin> {None, Some []} \<and> sh_slots (sy_maps s) \<notin> {None, Some []})"

fun exits_guard :: "shm_system \<Rightarrow> shm_op \<Rightarrow> bool" where
  "exits_guard s ServerKilled = False"
| "exits_guard s LintRuns = False"
| "exits_guard s x = starts_guard s x"

interpretation exact: machine shm_step exits_guard maps_exact
proof
  fix s x
  assume "maps_exact s" and "exits_guard s x"
  then show "maps_exact (shm_step s x)" by (cases x) (auto simp: maps_exact_def split: option.splits)
qed

lemma maps_exact_boot: "maps_exact shm_boot"
  by (simp add: maps_exact_def shm_boot_def)

lemma view_offline:
  "tool_status [x] (tool_view s te) = offline \<longleftrightarrow> sh_slots (sy_maps s) \<in> {None, Some []}"
  "tool_stats [x] (tool_view s te) = offline \<longleftrightarrow> sh_stats (sy_maps s) \<in> {None, Some []}"
  by (auto simp: tool_status_def tool_stats_def tool_view_def offline_def tool_error_def split: option.splits)

section \<open>Properties\<close>

text \<open>
  As long as servers exit by themselves and the checker is not run, both reports say that the driver is offline
  exactly when no server runs.
\<close>

theorem reports_follow_server:
  assumes "guarded_ops shm_step exits_guard shm_boot ops" and "s = run_ops shm_step shm_boot ops"
  shows "(tool_status [cmd] (tool_view s te) = offline \<longleftrightarrow> sy_server s = None) \<and>
    (tool_stats [cmd] (tool_view s te) = offline \<longleftrightarrow> sy_server s = None)"
  using exact.run_inv [OF maps_exact_boot assms(1)]
  unfolding view_offline by (auto simp: assms(2) maps_exact_def split: option.splits)

text \<open>
  The checker takes the statistics of a running server away: when it exits, the library it is linked with
  removes the map by its name, though only the server made it. The utility then reports a running server as offline in
  its statistics and as running in its status, until the server is started again.
\<close>

theorem lint_removes_statistics:
  assumes "guarded_ops shm_step starts_guard shm_boot ops" and "s = run_ops shm_step shm_boot (ops @ [LintRuns])"
    and "sy_server s \<noteq> None"
  shows "tool_stats [cmd] (tool_view s te) = offline \<and> tool_status [cmd] (tool_view s te) \<noteq> offline"
  using maps.run_inv [OF maps_ok_boot assms(1)] assms(3)
  unfolding view_offline by (auto simp: assms(2) maps_ok_def split: option.splits)

theorem lint_removes_statistics_witness:
  "tool_stats [''stats''] (tool_view (run_ops shm_step shm_boot [ServerStarts [undefined] [undefined], LintRuns]) shell_env) = offline"
  using lint_removes_statistics [of "[ServerStarts [undefined] [undefined]]" _ "''stats''" shell_env] by simp

end
