(* ===== verification/VpbProgram.thy ===== *)
theory VpbProgram
  imports Vpb ServerProps
begin

text \<open>
  The program of the Voicetronix driver (\<open>vpb/driver.cpp\<close>): its \<open>main\<close>, from the construction of the
  driver to the exit, with the control loop of \<open>Server\<close> in the middle. The methods of its timeslots and registrations are
  arguments, for the classes are declared but not written.
\<close>

section \<open>The program\<close>

text \<open>\<open>update\<close> goes through the keys of its section without using them and updates the base class.\<close>

fun vpb_keys :: "(string \<times> string) list \<Rightarrow> script_settings \<Rightarrow> script_settings" where
  "vpb_keys [] s = s"
| "vpb_keys (kv # kvs) s = vpb_keys kvs s"

definition vpb_update :: "ucommon \<Rightarrow> driver_config \<Rightarrow> script_settings \<Rightarrow> script_settings" where
  "vpb_update u d s =
     Driver_update u d (case dc_sections d ''vpbapi'' of None \<Rightarrow> s | Some kvs \<Rightarrow> vpb_keys kvs s)"

definition vpb_stop :: "vtable \<Rightarrow> hub \<Rightarrow> world \<Rightarrow> hub \<times> world" where
  "vpb_stop vt h w = Driver_stop vt h w"

definition vpb_dispatch ::
    "ucommon \<Rightarrow> (nat \<Rightarrow> world \<Rightarrow> world) \<Rightarrow> string list \<Rightarrow> world \<Rightarrow> string option \<times> world"
where
  "vpb_dispatch u rel argv w = Driver_dispatch u rel argv w"

text \<open>\<open>create\<close> makes the new driver of a reload.\<close>

definition vpb_methods :: "ucommon \<Rightarrow> vtable \<Rightarrow> (nat \<Rightarrow> world \<Rightarrow> world) \<Rightarrow> driver_methods" where
  "vpb_methods u vt rel = \<lparr>dm_vt = vt, dm_release = rel, dm_reload = (\<lambda>d h w. (Driver_reload u d h, w))\<rparr>"

datatype vpb_end = VpbCrashed | VpbServing control | VpbExited nat hub world

text \<open>
  \<open>main\<close> once the options are parsed: the driver is committed, started and, when the loop ends, stopped. \<open>h\<close> and \<open>w\<close>
  are the memory of the new process, \<open>d\<close> the configuration read by the constructor.
\<close>

definition vpb_main ::
    "ucommon \<Rightarrow> vtable \<Rightarrow> (nat \<Rightarrow> world \<Rightarrow> world) \<Rightarrow> (nat \<Rightarrow> 32 word) \<Rightarrow> nat \<Rightarrow> driver_config \<Rightarrow> vpb_state \<Rightarrow> hub \<Rightarrow> world \<Rightarrow>
     int \<Rightarrow> control_env list \<Rightarrow> string list \<Rightarrow> vpb_end"
where
  "vpb_main u vt rel ports cards d v h w now ces ls =
     (case vpb_start ports cards v (Driver_commit u d h) w of
        None \<Rightarrow> VpbCrashed
      | Some (v1, h1, w1) \<Rightarrow>
          (case server_dispatch u (vpb_methods u vt rel) ces ls
              \<lparr>ct_world = w1, ct_hub = h1, ct_target = None, ct_driver = None, ct_periodic = now, ct_exit = 0,
               ct_status = 0, ct_trace = []\<rparr> of
             Crash \<Rightarrow> VpbCrashed
           | Continue c \<Rightarrow> VpbServing c
           | Quit c \<Rightarrow> (let (h2, w2) = vpb_stop vt (ct_hub c) (ct_world c) in VpbExited (ct_status c) h2 w2)))"

section \<open>Lemmas\<close>

lemma vpb_keys_same [simp]: "vpb_keys kvs s = s"
  by (induction kvs) simp_all

lemma vpb_update_base: "vpb_update u d s = Driver_update u d s"
  by (simp add: vpb_update_def split: option.split)

text \<open>What only the start of the base class does: tell the plugins.\<close>

definition unstarted :: "hub \<Rightarrow> bool" where
  "unstarted h \<longleftrightarrow> (\<forall>k. CbStart k \<notin> set (hb_trace h))"

lemma unstarted_do [simp]: "unstarted (hub_do es h) \<longleftrightarrow> unstarted h \<and> (\<forall>k. CbStart k \<notin> set es)"
  by (auto simp: unstarted_def hub_do_def)

lemma unstarted_other [simp]:
  "unstarted (h\<lparr>hb_active := a\<rparr>) = unstarted h" "unstarted (h\<lparr>hb_settings := s\<rparr>) = unstarted h"
  "unstarted (h\<lparr>hb_fault := f\<rparr>) = unstarted h"
  by (simp_all add: unstarted_def)

lemma unstarted_driver:
  "unstarted h \<Longrightarrow> unstarted (Driver_commit u d h)" "unstarted h \<Longrightarrow> unstarted (Driver_reload u d h)"
  "unstarted h \<Longrightarrow> unstarted (snd (Driver_active h))" "unstarted h \<Longrightarrow> unstarted (Driver_release_driver r h)"
proof -
  show c: "unstarted h \<Longrightarrow> unstarted (Driver_commit u d h)" for h
    by (auto simp: Driver_commit_def Let_def split: option.split)
  show "unstarted h \<Longrightarrow> unstarted (Driver_reload u d h)"
    by (auto simp: Driver_reload_def Let_def intro!: c split: option.split)
  show "unstarted h \<Longrightarrow> unstarted (snd (Driver_active h))"
    by (auto simp: Driver_active_def Let_def split: option.split)
  show "unstarted h \<Longrightarrow> unstarted (Driver_release_driver r h)"
    by (simp add: Driver_release_driver_def split: option.split)
qed

text \<open>An outcome of the loop after which the plugins have not been told.\<close>

definition untold :: "outcome \<Rightarrow> bool" where
  "untold r \<longleftrightarrow> (case r of Continue c \<Rightarrow> unstarted (ct_hub c) | Quit c \<Rightarrow> unstarted (ct_hub c) | Crash \<Rightarrow> True)"

lemma untold_simps [simp]:
  "untold (Continue c) = unstarted (ct_hub c)" "untold (Quit c) = unstarted (ct_hub c)" "untold Crash"
  by (simp_all add: untold_def)

lemma reply_hub [simp]: "ct_hub (server_reply m c) = ct_hub c" "ct_hub (control_do es c) = ct_hub c"
  by (simp_all add: server_reply_def control_do_def Let_def split: option.split)

lemma receive_hub: "ct_hub (snd (snd (server_receive u ls c))) = ct_hub c"
  by (simp add: server_receive_def Let_def split: prod.split option.split)

lemma untold_invalid: "unstarted (ct_hub c) \<Longrightarrow> untold (invalid_argument c)"
  by (simp add: invalid_argument_def)

lemma untold_error: "unstarted (ct_hub c) \<Longrightarrow> untold (command_error e c)"
  by (simp add: command_error_def unstarted_driver)

lemma untold_driver: "unstarted (ct_hub c) \<Longrightarrow> untold (driver_command u dm e argv c)"
  using unstarted_driver(3) [of "ct_hub c"]
  by (auto simp: driver_command_def intro!: untold_error split: prod.split option.split)

lemma untold_post: "unstarted (ct_hub c) \<Longrightarrow> untold (post_command vt ev a c)"
  by (simp add: post_command_def Let_def split: prod.split option.split)

lemma untold_slot: "unstarted (ct_hub c) \<Longrightarrow> untold (slot_command u dm ev argv c)"
  by (simp add: slot_command_def untold_invalid untold_driver untold_post)

lemma untold_timeslot: "unstarted (ct_hub c) \<Longrightarrow> untold (timeslot_command u dm argv c)"
  by (simp add: timeslot_command_def untold_invalid untold_driver untold_slot untold_error split: option.split)

lemma untold_board: "unstarted (ct_hub c) \<Longrightarrow> untold (board_command op argv c)"
  by (simp add: board_command_def untold_invalid Let_def split: prod.split option.split)

lemma untold_words: "unstarted (ct_hub c) \<Longrightarrow> untold (command_words u dm ce argv c)"
  by (auto simp: command_words_def server_period_def Let_def intro!: untold_invalid untold_board untold_timeslot
      split: prod.split option.splits if_splits bool.splits)

lemma untold_command: "unstarted (ct_hub c) \<Longrightarrow> untold (server_command u (vpb_methods u vt rel) ce cp c)"
  by (auto simp: server_command_def vpb_methods_def Let_def unstarted_driver intro!: untold_words split: option.split)

lemma untold_loop: "unstarted (ct_hub c) \<Longrightarrow> untold (server_dispatch u (vpb_methods u vt rel) ces ls c)"
proof (induction ces arbitrary: ls c)
  case (Cons ce ces)
  obtain cp rest c1 where v: "server_receive u ls c = (cp, rest, c1)" by (rule prod_cases3)
  with receive_hub [of u ls c] Cons.prems have "unstarted (ct_hub c1)" by simp
  from untold_command [OF this, of u vt rel ce cp] Cons.IH v show ?case
    by (cases "server_command u (vpb_methods u vt rel) ce cp c1") simp_all
qed simp

section \<open>Properties\<close>

text \<open>
  Whatever is asked of it, the plugins of a Voicetronix server are told that it stops but never that it started: its
  start returns before the one of the base class, as it counts no timeslots, and nothing in the loop makes up for it.
\<close>

theorem vpb_plugins_never_started:
  assumes "w_ts_count w = 0" and "unstarted h"
    and "vpb_main u vt rel ports cards d v h w now ces ls = VpbExited n h' w'"
  shows "unstarted h' \<and> (\<exists>h2. hb_trace h' = hb_trace h2 @ map CbStop (hb_callbacks h2) \<and> unstarted h2)"
proof -
  obtain v1 h1 w1 where s: "vpb_start ports cards v (Driver_commit u d h) w = Some (v1, h1, w1)"
    using assms(3) by (auto simp: vpb_main_def split: option.splits)
  have h1: "unstarted h1"
    using vpb_start_early [OF assms(1) s] unstarted_driver(1) [OF assms(2), of u d] by (simp add: unstarted_def)
  let ?c = "\<lparr>ct_world = w1, ct_hub = h1, ct_target = None, ct_driver = None, ct_periodic = now, ct_exit = 0,
    ct_status = 0, ct_trace = []\<rparr>"
  obtain c where q: "server_dispatch u (vpb_methods u vt rel) ces ls ?c = Quit c"
    "h' = hub_do (map CbStop (hb_callbacks (ct_hub c))) (ct_hub c)"
    using assms(3) s by (auto simp: vpb_main_def vpb_stop_def Driver_stop_def Let_def split: outcome.splits)
  have "unstarted (ct_hub c)" using untold_loop [of ?c u vt rel ces ls] h1 q(1) by simp
  with q(2) show ?thesis by (auto simp: hub_do_def unstarted_def intro!: exI [of _ "ct_hub c"])
qed

text \<open>Nor has it a timeslot for any request that names one.\<close>

theorem vpb_no_timeslots:
  assumes "w_ts_count (ct_world c) = 0" and "isTimeslot n"
  shows "slot_command u (vpb_methods u vt rel) ev [cmd, n] c = Continue (server_reply (Some ''invalid timeslot'') c)"
  using assms by (simp add: slot_command_def arg_def post_command_def Driver_get_def)

end
