(* ===== verification/Scripts.thy ===== *)
theory Scripts
  imports SipTimeslot Driver
begin

text \<open>
  Who keeps a script alive. The scripts of a configuration are counted objects: a configuration holds one reference for
  each of its images (\<open>image\<close> and \<open>~Driver\<close> in \<^verbatim>\<open>common/driver.cpp\<close>), \<open>getIncoming\<close> takes one for the call it looks
  a script up for, and the interpreter of a timeslot one while it runs the script (\<^verbatim>\<open>sipw/timeslot.cpp\<close>,
  \<^verbatim>\<open>common/timeslot.cpp\<close>). Calls on all timeslots and reloads of the configuration take their steps in any order; what
  excludes them is only the lock of the driver, shared for readers, exclusive for \<open>commit\<close>.
\<close>

section \<open>Steps\<close>

text \<open>
  Where the thread that serves a call is: not in one; in \<open>getIncoming\<close> with the driver it got, with a script it has
  retained, with the lock given back; returned with the script; with the interpreter attached; and a timeslot
  whose interpreter runs it.
\<close>

datatype call_pc =
  NoCall | Reading driver_config | Holding nat | Found nat | Getting nat | Attached nat | Playing nat

text \<open>Where the reload is: none; with the new driver; with the exclusive lock; with the old driver to delete.\<close>

datatype reload_pc = NoReload | Built driver_config | Swapping driver_config | Dropping driver_config

text \<open>\<open>sy_bad\<close> is set when a script without a reference, one that was freed or never made, is retained or released.\<close>

record script_sys =
  sy_count :: nat
  sy_refs :: "nat \<Rightarrow> nat"
  sy_bad :: bool
  sy_active :: "driver_config option"
  sy_calls :: "nat \<Rightarrow> call_pc"
  sy_reload :: reload_pc

definition scripts_init :: "nat \<Rightarrow> script_sys" where
  "scripts_init n = \<lparr>sy_count = n, sy_refs = (\<lambda>_. 0), sy_bad = False, sy_active = None, sy_calls = (\<lambda>_. NoCall),
     sy_reload = NoReload\<rparr>"

text \<open>Taking a reference to a script that has one, giving one up, and the first reference to a new script.\<close>

definition retain :: "nat \<Rightarrow> script_sys \<Rightarrow> script_sys" where
  "retain x s = s\<lparr>sy_refs := (sy_refs s)(x := sy_refs s x + 1), sy_bad := sy_bad s \<or> sy_refs s x = 0\<rparr>"

definition unretain :: "nat \<Rightarrow> script_sys \<Rightarrow> script_sys" where
  "unretain x s = s\<lparr>sy_refs := (sy_refs s)(x := sy_refs s x - 1), sy_bad := sy_bad s \<or> sy_refs s x = 0\<rparr>"

definition adopt :: "nat \<Rightarrow> script_sys \<Rightarrow> script_sys" where
  "adopt x s = s\<lparr>sy_refs := (sy_refs s)(x := sy_refs s x + 1)\<rparr>"

definition call_at :: "nat \<Rightarrow> call_pc \<Rightarrow> script_sys \<Rightarrow> script_sys" where
  "call_at i pc s = s\<lparr>sy_calls := (sy_calls s)(i := pc)\<rparr>"

definition is_reading :: "call_pc \<Rightarrow> bool" where
  "is_reading pc = (case pc of Reading _ \<Rightarrow> True | Holding _ \<Rightarrow> True | _ \<Rightarrow> False)"

definition is_swapping :: "reload_pc \<Rightarrow> bool" where
  "is_swapping pc = (case pc of Swapping _ \<Rightarrow> True | _ \<Rightarrow> False)"

text \<open>
  The next step on timeslot \<open>i\<close>, for a call that asks for the script \<open>nm\<close>; \<open>attaches\<close> tells whether the interpreter can
  start it. The step from \<open>Playing\<close> is the end of the call, in \<open>Timeslot::release\<close>.
\<close>

definition call_access :: "ucommon \<Rightarrow> script_lib \<Rightarrow> nat \<Rightarrow> string \<Rightarrow> bool \<Rightarrow> script_sys \<Rightarrow> script_sys" where
  "call_access u sl i nm attaches s =
     (case sy_calls s i of
        NoCall \<Rightarrow> if is_swapping (sy_reload s) then s
                  else (case sy_active s of None \<Rightarrow> s | Some d \<Rightarrow> call_at i (Reading d) s)
      | Reading d \<Rightarrow> (case find_image u (dc_images d) nm (dc_services d) of
                        None \<Rightarrow> call_at i NoCall s
                      | Some x \<Rightarrow> call_at i (Holding x) (retain x s))
      | Holding x \<Rightarrow> call_at i (Found x) s
      | Found x \<Rightarrow> if sl_find sl x ''@incoming'' then call_at i (Getting x) s else call_at i NoCall (unretain x s)
      | Getting x \<Rightarrow> if attaches then call_at i (Attached x) (retain x s) else call_at i NoCall (unretain x s)
      | Attached x \<Rightarrow> call_at i (Playing x) (unretain x s)
      | Playing x \<Rightarrow> call_at i NoCall (unretain x s))"

definition image_scripts :: "driver_config \<Rightarrow> nat list" where
  "image_scripts d = map im_script (dc_images d)"

text \<open>The next step of a reload; \<open>sections\<close>, \<open>defs\<close> and \<open>scripts\<close> are the files as the new driver finds them.\<close>

definition reload_access ::
    "ucommon \<Rightarrow> script_lib \<Rightarrow> (string \<Rightarrow> (string \<times> string) list option) \<Rightarrow> (string \<times> string list) option \<Rightarrow>
     (string \<times> string list) option \<Rightarrow> script_sys \<Rightarrow> script_sys"
where
  "reload_access u sl sections defs scripts s =
     (case sy_reload s of
        NoReload \<Rightarrow> let d = Driver_construct u sl sections defs scripts
                    in fold adopt (image_scripts d) (s\<lparr>sy_reload := Built d\<rparr>)
      | Built d \<Rightarrow> if list_ex (\<lambda>i. is_reading (sy_calls s i)) [0..<sy_count s] then s else s\<lparr>sy_reload := Swapping d\<rparr>
      | Swapping d \<Rightarrow> s\<lparr>sy_active := Some d,
            sy_reload := (case sy_active s of None \<Rightarrow> NoReload | Some orig \<Rightarrow> Dropping orig)\<rparr>
      | Dropping d \<Rightarrow> fold unretain (image_scripts d) (s\<lparr>sy_reload := NoReload\<rparr>))"

datatype script_op =
    CallStep nat string bool
  | ReloadStep "string \<Rightarrow> (string \<times> string) list option" "(string \<times> string list) option" "(string \<times> string list) option"

fun script_step :: "ucommon \<Rightarrow> script_lib \<Rightarrow> script_sys \<Rightarrow> script_op \<Rightarrow> script_sys" where
  "script_step u sl s (CallStep i nm attaches) = call_access u sl i nm attaches s"
| "script_step u sl s (ReloadStep sections defs scripts) = reload_access u sl sections defs scripts s"

fun script_guard :: "script_sys \<Rightarrow> script_op \<Rightarrow> bool" where
  "script_guard s (CallStep i nm attaches) \<longleftrightarrow> i < sy_count s"
| "script_guard s (ReloadStep sections defs scripts) \<longleftrightarrow> True"

section \<open>Who holds a reference\<close>

definition config_refs :: "driver_config option \<Rightarrow> nat \<Rightarrow> nat" where
  "config_refs d x = (case d of None \<Rightarrow> 0 | Some c \<Rightarrow> count_list (image_scripts c) x)"

definition reload_config :: "reload_pc \<Rightarrow> driver_config option" where
  "reload_config pc = (case pc of NoReload \<Rightarrow> None | Built d \<Rightarrow> Some d | Swapping d \<Rightarrow> Some d | Dropping d \<Rightarrow> Some d)"

definition call_refs :: "call_pc \<Rightarrow> nat \<Rightarrow> nat" where
  "call_refs pc x = (case pc of NoCall \<Rightarrow> 0 | Reading _ \<Rightarrow> 0
     | Holding y \<Rightarrow> if x = y then 1 else 0 | Found y \<Rightarrow> if x = y then 1 else 0 | Getting y \<Rightarrow> if x = y then 1 else 0
     | Attached y \<Rightarrow> if x = y then 2 else 0 | Playing y \<Rightarrow> if x = y then 1 else 0)"

definition holders :: "script_sys \<Rightarrow> nat \<Rightarrow> nat" where
  "holders s x = config_refs (sy_active s) x + config_refs (reload_config (sy_reload s)) x +
     (\<Sum>i < sy_count s. call_refs (sy_calls s i) x)"

definition services_in :: "driver_config \<Rightarrow> bool" where
  "services_in d \<longleftrightarrow> set (dc_services d) \<subseteq> {..<length (dc_images d)}"

text \<open>
  The invariant: nothing freed is touched, the references are those of the holders, a reader reads the active
  driver, and nobody reads while the drivers are exchanged.
\<close>

definition script_inv :: "script_sys \<Rightarrow> bool" where
  "script_inv s \<longleftrightarrow> \<not> sy_bad s \<and> (\<forall>x. sy_refs s x = holders s x) \<and>
     (\<forall>d. sy_active s = Some d \<longrightarrow> services_in d) \<and>
     (\<forall>d. reload_config (sy_reload s) = Some d \<longrightarrow> services_in d) \<and>
     (\<forall>i < sy_count s. is_reading (sy_calls s i) \<longrightarrow> \<not> is_swapping (sy_reload s)) \<and>
     (\<forall>i < sy_count s. \<forall>d. sy_calls s i = Reading d \<longrightarrow> sy_active s = Some d)"

section \<open>Lemmas\<close>

lemma pc_simps [simp]:
  "call_refs NoCall x = 0" "call_refs (Reading d) x = 0" "call_refs (Holding y) x = (if x = y then 1 else 0)"
  "call_refs (Found y) x = (if x = y then 1 else 0)" "call_refs (Getting y) x = (if x = y then 1 else 0)"
  "call_refs (Attached y) x = (if x = y then 2 else 0)" "call_refs (Playing y) x = (if x = y then 1 else 0)"
  "\<not> is_reading NoCall" "is_reading (Reading d)" "is_reading (Holding y)" "\<not> is_reading (Found y)"
  "\<not> is_reading (Getting y)" "\<not> is_reading (Attached y)" "\<not> is_reading (Playing y)"
  "\<not> is_swapping NoReload" "\<not> is_swapping (Built d)" "is_swapping (Swapping d)" "\<not> is_swapping (Dropping d)"
  "reload_config NoReload = None" "reload_config (Built d) = Some d" "reload_config (Swapping d) = Some d"
  "reload_config (Dropping d) = Some d"
  by (simp_all add: call_refs_def is_reading_def is_swapping_def reload_config_def)

lemma construct_services:
  assumes "ucommon_ok u"
  shows "services_in (Driver_construct u sl sections defs scripts)"
proof -
  have "services_in d \<Longrightarrow> services_in (compile_service u sl path n d)" for path n d
    using assms by (auto simp: compile_service_def services_in_def Let_def split: option.split)
  then have "services_in d \<Longrightarrow> services_in (fold (compile_service u sl path) names d)" for path names d
    by (induction names arbitrary: d) simp_all
  then show ?thesis by (auto simp: Driver_construct_def Let_def services_in_def split: option.split)
qed

lemma find_image_held:
  assumes "services_in d" and "find_image u (dc_images d) nm (dc_services d) = Some x"
  shows "0 < count_list (image_scripts d) x"
proof -
  have "find_image u imgs nm ks = Some x \<Longrightarrow> set ks \<subseteq> {..<length imgs} \<Longrightarrow> x \<in> set (map im_script imgs)" for imgs ks
    by (induction ks) (auto split: if_splits)
  with assms have "x \<in> set (image_scripts d)" by (simp add: services_in_def image_scripts_def)
  then show ?thesis using count_list_0_iff [of "image_scripts d" x] by (simp add: neq0_conv [symmetric] del: neq0_conv)
qed

lemma sum_call_at:
  fixes i n x :: nat
  assumes "i < n"
  shows "(\<Sum>j < n. call_refs ((c(i := v)) j) x) + call_refs (c i) x = (\<Sum>j < n. call_refs (c j) x) + call_refs v x"
proof -
  have i: "i \<in> {..<n}" using assms by simp
  have "(\<Sum>j \<in> {..<n} - {i}. call_refs ((c(i := v)) j) x) = (\<Sum>j \<in> {..<n} - {i}. call_refs (c j) x)"
    by (rule sum.cong) simp_all
  then show ?thesis by (simp add: sum.remove [OF _ i] del: fun_upd_apply) simp
qed

lemma adopt_all:
  "fold adopt xs s = s\<lparr>sy_refs := (\<lambda>x. sy_refs s x + count_list xs x)\<rparr>"
  by (induction xs arbitrary: s) (auto simp: adopt_def fun_eq_iff)

lemma unretain_all:
  assumes "\<And>x. count_list xs x \<le> sy_refs s x"
  shows "fold unretain xs s = s\<lparr>sy_refs := (\<lambda>x. sy_refs s x - count_list xs x)\<rparr>"
  using assms
proof (induction xs arbitrary: s)
  case (Cons y ys)
  have y: "sy_refs s y \<noteq> 0" using Cons.prems [of y] by simp
  have "count_list ys x \<le> sy_refs (unretain y s) x" for x
    using Cons.prems [of x] by (auto simp: unretain_def split: if_splits)
  from Cons.IH [OF this] y show ?case by (auto simp: unretain_def fun_eq_iff)
qed simp

text \<open>A move of one call, with the references it gives up or takes.\<close>

lemma call_refs_held:
  assumes "script_inv s" and "i < sy_count s"
  shows "call_refs (sy_calls s i) x \<le> sy_refs s x"
proof -
  have "call_refs (sy_calls s i) x \<le> (\<Sum>j < sy_count s. call_refs (sy_calls s j) x)"
    by (rule member_le_sum) (use assms(2) in simp_all)
  then show ?thesis using assms(1) by (simp add: script_inv_def holders_def)
qed

lemma call_move_inv:
  assumes inv: "script_inv s" and i: "i < sy_count s"
    and refs: "\<And>x. f x + call_refs (sy_calls s i) x = sy_refs s x + call_refs pc x"
    and reading: "is_reading pc \<Longrightarrow> \<not> is_swapping (sy_reload s)" "\<And>d. pc = Reading d \<Longrightarrow> sy_active s = Some d"
  shows "script_inv (call_at i pc (s\<lparr>sy_refs := f\<rparr>))"
proof -
  have "f x = holders (call_at i pc (s\<lparr>sy_refs := f\<rparr>)) x" for x
    using refs [of x] sum_call_at [OF i, of "sy_calls s" pc x] inv
    by (simp add: script_inv_def holders_def call_at_def del: fun_upd_apply)
  with inv reading show ?thesis by (simp add: script_inv_def call_at_def)
qed

lemma call_access_inv:
  assumes inv: "script_inv s" and i: "i < sy_count s"
  shows "script_inv (call_access u sl i nm attaches s)"
proof -
  note held = call_refs_held [OF inv i]
  have b: "\<not> sy_bad s" using inv by (simp add: script_inv_def)
  have same: "s = s\<lparr>sy_refs := sy_refs s\<rparr>" by simp
  have keep: "script_inv (call_at i pc s)"
    if "\<And>x. call_refs pc x = call_refs (sy_calls s i) x" "is_reading pc \<Longrightarrow> \<not> is_swapping (sy_reload s)"
      "\<And>d. pc = Reading d \<Longrightarrow> sy_active s = Some d" for pc
    using call_move_inv [OF inv i, of "sy_refs s" pc] that by simp
  have drop: "script_inv (call_at i pc (unretain x s))"
    if "\<And>y. call_refs (sy_calls s i) y = call_refs pc y + (if y = x then 1 else 0)" "\<not> is_reading pc" for pc x
  proof -
    have x: "0 < sy_refs s x" using held [of x] that(1) [of x] by simp
    then have "unretain x s = s\<lparr>sy_refs := (sy_refs s)(x := sy_refs s x - 1)\<rparr>" using b by (simp add: unretain_def)
    moreover have "script_inv (call_at i pc (s\<lparr>sy_refs := (sy_refs s)(x := sy_refs s x - 1)\<rparr>))"
      by (rule call_move_inv [OF inv i]) (use that x in \<open>auto\<close>)
    ultimately show ?thesis by simp
  qed
  have take: "script_inv (call_at i pc (retain x s))"
    if "\<And>y. call_refs pc y = call_refs (sy_calls s i) y + (if y = x then 1 else 0)" "0 < sy_refs s x"
      "is_reading pc \<Longrightarrow> \<not> is_swapping (sy_reload s)" "\<And>d. pc \<noteq> Reading d" for pc x
  proof -
    have "retain x s = s\<lparr>sy_refs := (sy_refs s)(x := sy_refs s x + 1)\<rparr>" using b that(2) by (simp add: retain_def)
    moreover have "script_inv (call_at i pc (s\<lparr>sy_refs := (sy_refs s)(x := sy_refs s x + 1)\<rparr>))"
      by (rule call_move_inv [OF inv i]) (use that in simp_all)
    ultimately show ?thesis by simp
  qed
  show ?thesis
  proof (cases "sy_calls s i")
    case NoCall
    have "script_inv (call_at i (Reading d) s)" if "sy_active s = Some d" "\<not> is_swapping (sy_reload s)" for d
      by (rule keep) (use that NoCall in simp_all)
    with inv NoCall show ?thesis by (simp add: call_access_def split: option.split)
  next
    case (Reading d)
    then have act: "sy_active s = Some d" and sw: "\<not> is_swapping (sy_reload s)" and svc: "services_in d"
      using inv i by (auto simp: script_inv_def split: call_pc.splits)
    show ?thesis
    proof (cases "find_image u (dc_images d) nm (dc_services d)")
      case None
      with Reading keep [of NoCall] show ?thesis by (simp add: call_access_def)
    next
      case (Some x)
      have "config_refs (sy_active s) x \<le> sy_refs s x" using inv by (simp add: script_inv_def holders_def)
      with find_image_held [OF svc Some] act have "0 < sy_refs s x" by (simp add: config_refs_def)
      with Reading Some sw take [of "Holding x" x] show ?thesis by (simp add: call_access_def)
    qed
  next
    case (Holding x)
    with keep [of "Found x"] show ?thesis by (simp add: call_access_def)
  next
    case (Found x)
    with keep [of "Getting x"] drop [of NoCall x] show ?thesis by (simp add: call_access_def)
  next
    case (Getting x)
    moreover from this held [of x] have "0 < sy_refs s x" by simp
    ultimately show ?thesis using take [of "Attached x" x] drop [of NoCall x] by (simp add: call_access_def)
  next
    case (Attached x)
    with drop [of "Playing x" x] show ?thesis by (simp add: call_access_def)
  next
    case (Playing x)
    with drop [of NoCall x] show ?thesis by (simp add: call_access_def)
  qed
qed

lemma reload_access_inv:
  assumes u: "ucommon_ok u" and inv: "script_inv s"
  shows "script_inv (reload_access u sl sections defs scripts s)"
proof (cases "sy_reload s")
  case NoReload
  then show ?thesis
    using inv construct_services [OF u, of sl sections defs scripts]
    by (simp add: reload_access_def adopt_all script_inv_def holders_def config_refs_def   Let_def)
next
  case (Built d)
  have "script_inv (s\<lparr>sy_reload := Swapping d\<rparr>)" if "\<not> list_ex (\<lambda>i. is_reading (sy_calls s i)) [0..<sy_count s]"
    using that inv Built by (auto simp: script_inv_def holders_def  list_ex_iff)
  with inv Built show ?thesis by (simp add: reload_access_def)
next
  case (Swapping d)
  with inv have nr: "\<not> is_reading (sy_calls s i)" if "i < sy_count s" for i
    using that by (auto simp: script_inv_def)
  have "sy_calls s i \<noteq> Reading e" if "i < sy_count s" for i e
    using nr [OF that] by (cases "sy_calls s i") simp_all
  with inv Swapping show ?thesis
    by (auto simp: reload_access_def script_inv_def holders_def config_refs_def  
        split: option.split)
next
  case (Dropping d)
  have "count_list (image_scripts d) x \<le> sy_refs (s\<lparr>sy_reload := NoReload\<rparr>) x" for x
    using inv Dropping by (simp add: script_inv_def holders_def config_refs_def)
  from unretain_all [OF this] inv Dropping show ?thesis
    by (simp add: reload_access_def script_inv_def holders_def config_refs_def)
qed

sublocale ucommon_lib < scripts: machine "script_step u sl" script_guard script_inv for sl
proof
  fix s x
  assume "script_inv s" "script_guard s x"
  then show "script_inv (script_step u sl s x)" by (cases x) (simp_all add: call_access_inv reload_access_inv [OF lib])
qed

lemma scripts_init_inv: "script_inv (scripts_init n)"
  by (simp add: script_inv_def scripts_init_def holders_def config_refs_def)

context ucommon_lib
begin

lemma scripts_run:
  "guarded_ops (script_step u sl) script_guard (scripts_init n) ops \<Longrightarrow>
     script_inv (run_ops (script_step u sl) (scripts_init n) ops)"
  by (rule scripts.run_inv [OF scripts_init_inv])

end

lemma fold_count: "(\<And>x v. sy_count (f x v) = sy_count v) \<Longrightarrow> sy_count (fold f xs v) = sy_count v"
  by (induction xs arbitrary: v) simp_all

lemma step_count [simp]: "sy_count (script_step u sl s x) = sy_count s"
proof (cases x)
  case (CallStep i nm attaches)
  then show ?thesis
    by (cases "sy_calls s i") (simp_all add: call_access_def call_at_def retain_def unretain_def split: option.split)
next
  case (ReloadStep sections defs scripts)
  have "sy_count (fold adopt xs v) = sy_count v" "sy_count (fold unretain xs v) = sy_count v" for xs v
    by (simp_all add: fold_count adopt_def unretain_def)
  with ReloadStep show ?thesis by (cases "sy_reload s") (simp_all add: reload_access_def Let_def)
qed

lemma steps_count: "sy_count (run_ops (script_step u sl) s ops) = sy_count s"
  by (induction ops arbitrary: s) (simp_all del: script_step.simps)

lemma static_guarded:
  "guarded_ops (script_step u sl) script_guard s ops \<longleftrightarrow> list_all (script_guard s) ops"
proof (induction ops arbitrary: s)
  case (Cons x ops)
  have "script_guard (script_step u sl s x) y = script_guard s y" for y by (cases y) (simp_all del: script_step.simps)
  then have "script_guard (script_step u sl s x) = script_guard s" by blast
  with Cons show ?case by simp
qed simp

section \<open>Properties\<close>

text \<open>
  C8. Scripts live exactly as long as they are used, however calls and reloads are interleaved: nothing that was
  freed is ever retained or released, and the references of every script are at every moment those of the active
  configuration, of the one that is coming or going, and of the calls that look it up or run it. So a call keeps its
  script through any number of reloads, and a script that the configuration no longer has is freed when its last call
  ends.
\<close>

theorem scripts_counted:
  assumes "ucommon_ok u" and "guarded_ops (script_step u sl) script_guard (scripts_init n) ops"
    and "s = run_ops (script_step u sl) (scripts_init n) ops"
  shows "\<not> sy_bad s \<and> (\<forall>x. sy_refs s x = holders s x)"
  using ucommon_lib.scripts_run [OF ucommon_lib.intro [OF assms(1)] assms(2)] assms(3) by (simp add: script_inv_def)

text \<open>One service; a call runs it, and a reload finds the directory of scripts gone.\<close>

definition one_script :: script_lib where
  "one_script = \<lparr>sl_define = (\<lambda>_ _. None), sl_compile = (\<lambda>_ _. Some 0), sl_errors = (\<lambda>_. 0), sl_filename = (\<lambda>_. []), sl_listing = (\<lambda>_. []), sl_find = (\<lambda>_ _. True)\<rparr>"

definition reload_during_call :: "script_op list" where
  "reload_during_call = replicate 3 (ReloadStep (\<lambda>_. None) None (Some (''/etc'', [''main.bcs'']))) @
     replicate 6 (CallStep 0 ''main'' True) @ replicate 4 (ReloadStep (\<lambda>_. None) None None)"

theorem scripts_counted_witness:
  "\<not> sy_bad (run_ops (script_step ucommon_ref one_script) (scripts_init 1) reload_during_call) \<and>
   sy_calls (run_ops (script_step ucommon_ref one_script) (scripts_init 1) reload_during_call) 0 = Playing 0 \<and>
   sy_refs (run_ops (script_step ucommon_ref one_script) (scripts_init 1) reload_during_call) 0 = 1"
proof -
  let ?s = "run_ops (script_step ucommon_ref one_script) (scripts_init 1) reload_during_call"
  let ?d = "\<lparr>dc_sections = (\<lambda>_. None), dc_definitions = None, dc_images = [\<lparr>im_id = ''main'', im_script = 0\<rparr>], dc_services = [0],
    dc_log = [''cannot compile definitions from %s'']\<rparr>"
  have f: "script_file ucommon_ref ''main.bcs''" "script_id ''main.bcs'' = ''main''"
    by (simp_all add: script_file_def script_id_def ucommon_ref_def)
  have d: "Driver_construct ucommon_ref one_script (\<lambda>_. None) None (Some (''/etc'', [''main.bcs''])) = ?d"
    by (simp add: Driver_construct_def compile_service_def Driver_errors_def f one_script_def Let_def)
  have e: "Driver_construct ucommon_ref one_script (\<lambda>_. None) None None = empty" if
    "empty = \<lparr>dc_sections = (\<lambda>_. None), dc_definitions = None, dc_images = [], dc_services = [],
    dc_log = [''cannot compile definitions from %s'', ''cannot compile from %s'']\<rparr>" for empty
    using that by (simp add: Driver_construct_def)
  have g: "guarded_ops (script_step ucommon_ref one_script) script_guard (scripts_init 1) reload_during_call"
    by (simp only: static_guarded) (simp add: reload_during_call_def numeral_eq_Suc scripts_init_def)
  let ?step = "script_step ucommon_ref one_script"
  let ?e = "\<lparr>dc_sections = (\<lambda>_. None), dc_definitions = None, dc_images = [], dc_services = [],
    dc_log = [''cannot compile definitions from %s'', ''cannot compile from %s'']\<rparr>"
  note step = numeral_eq_Suc reload_access_def call_access_def call_at_def retain_def unretain_def adopt_def image_scripts_def
    Let_def d e [OF refl]
  have [simp]: "sl_find one_script x y" for x y by (simp add: one_script_def)
  have 1: "run_ops ?step (scripts_init 1) (replicate 3 (ReloadStep (\<lambda>_. None) None (Some (''/etc'', [''main.bcs''])))) =
      \<lparr>sy_count = 1, sy_refs = (\<lambda>_. 0)(0 := 1), sy_bad = False, sy_active = Some ?d, sy_calls = (\<lambda>_. NoCall), sy_reload = NoReload\<rparr>"
    by (simp add: scripts_init_def step)
  have 2: "run_ops ?step \<lparr>sy_count = 1, sy_refs = (\<lambda>_. 0)(0 := 1), sy_bad = False, sy_active = Some ?d,
        sy_calls = (\<lambda>_. NoCall), sy_reload = NoReload\<rparr> (replicate 6 (CallStep 0 ''main'' True)) =
      \<lparr>sy_count = 1, sy_refs = (\<lambda>_. 0)(0 := 2), sy_bad = False, sy_active = Some ?d,
        sy_calls = (\<lambda>_. NoCall)(0 := Playing 0), sy_reload = NoReload\<rparr>"
    by (simp add: step)
  have 3: "run_ops ?step \<lparr>sy_count = 1, sy_refs = (\<lambda>_. 0)(0 := 2), sy_bad = False, sy_active = Some ?d,
        sy_calls = (\<lambda>_. NoCall)(0 := Playing 0), sy_reload = NoReload\<rparr> (replicate 4 (ReloadStep (\<lambda>_. None) None None)) =
      \<lparr>sy_count = 1, sy_refs = (\<lambda>_. 0)(0 := 1), sy_bad = False, sy_active = Some ?e,
        sy_calls = (\<lambda>_. NoCall)(0 := Playing 0), sy_reload = NoReload\<rparr>"
    by (simp add: step)
  have p: "sy_calls ?s 0 = Playing 0" "sy_active ?s = Some ?e" "sy_reload ?s = NoReload" "sy_count ?s = 1"
    unfolding reload_during_call_def by (simp_all only: run_ops_simps(3) 1 2 3) simp_all
  then have "holders ?s 0 = 1" by (simp add: holders_def config_refs_def image_scripts_def)
  with scripts_counted [OF ucommon_ref_ok g refl] p show ?thesis by simp
qed

end
