(* ===== verification/Startup.thy ===== *)
theory Startup
  imports Setup
begin

text \<open>
  \<open>server::startup\<close> (\<^verbatim>\<open>common/server.cpp\<close>): the order in which the server takes its identity, makes its
  directories, goes into the background, loads its modules, makes its control pipe and gives up the rights of
  the superuser. The operating system is a parameter: the entries of the password and group files and
  whether a change of identity is granted.
\<close>

section \<open>Calls of the system\<close>

datatype start_call =
    SetConcurrency int | SetPriority int | SetPolicyRR | Umask nat | SetGid nat | SetUid nat | SetupSignals
  | CreateDir string | ChangeDir string | DetachProcess | OpenLog "32 word" bool | LoadModules "string list"
  | MakePipe string | RestartProcess

text \<open>
  The options that were given (\<open>None\<close> where \<open>is(...)\<close> is false) and the system. \<open>se_pw_id\<close> and
  \<open>se_pw_name\<close> look up user and group id of a user, \<open>se_gr_id\<close> and \<open>se_gr_name\<close> a group;
  \<open>se_may_uid\<close> and \<open>se_may_gid\<close> tell whether a process of a user may take an identity.
\<close>

record start_env =
  se_uid :: nat
  se_user :: "string option"
  se_group :: "string option"
  se_pw_id :: "32 word \<Rightarrow> (nat \<times> nat) option"
  se_pw_name :: "string \<Rightarrow> (nat \<times> nat) option"
  se_gr_id :: "32 word \<Rightarrow> nat option"
  se_gr_name :: "string \<Rightarrow> nat option"
  se_may_uid :: "nat \<Rightarrow> nat \<Rightarrow> bool"
  se_may_gid :: "nat \<Rightarrow> nat \<Rightarrow> bool"
  se_concurrency :: int
  se_priority :: int
  se_back :: bool
  se_fore :: bool
  se_service :: bool
  se_restart :: bool
  se_level :: "32 word"
  se_prefix_ok :: bool

record process =
  pr_uid :: nat
  pr_gid :: nat
  pr_calls :: "start_call list"

definition sys_call :: "start_env \<Rightarrow> start_call \<Rightarrow> process \<Rightarrow> process" where
  "sys_call e c p =
     (let p1 = p\<lparr>pr_calls := pr_calls p @ [c]\<rparr>
      in case c of
           SetGid g \<Rightarrow> if se_may_gid e (pr_uid p) g then p1\<lparr>pr_gid := g\<rparr> else p1
         | SetUid n \<Rightarrow> if se_may_uid e (pr_uid p) n then p1\<lparr>pr_uid := n\<rparr> else p1
         | _ \<Rightarrow> p1)"

definition sys_calls :: "start_env \<Rightarrow> start_call list \<Rightarrow> process \<Rightarrow> process" where
  "sys_calls e cs p = fold (sys_call e) cs p"

section \<open>The identity of the server\<close>

text \<open>
  Only the superuser looks at the option for the user, everybody at that for the group. A name that
  begins like a number other than 0 is taken for a number. \<open>None\<close> is the exit with status 2.
\<close>

definition find_user :: "start_env \<Rightarrow> (nat \<times> nat) option option" where
  "find_user e =
     (if se_uid e \<noteq> 0 then Some None
      else case se_user e of
             None \<Rightarrow> Some None
           | Some n \<Rightarrow> (case (if atoi n \<noteq> 0 then se_pw_id e (atoi n) else se_pw_name e n) of
                          None \<Rightarrow> None
                        | Some p \<Rightarrow> Some (Some p)))"

definition find_group :: "start_env \<Rightarrow> nat option option" where
  "find_group e =
     (case se_group e of
        None \<Rightarrow> Some None
      | Some n \<Rightarrow> (case (if atoi n \<noteq> 0 then se_gr_id e (atoi n) else se_gr_name e n) of
                     None \<Rightarrow> None
                   | Some g \<Rightarrow> Some (Some g)))"

text \<open>The calls that take the group; the user id is kept for the end, 0 for none.\<close>

definition identity_calls :: "(nat \<times> nat) option \<Rightarrow> nat option \<Rightarrow> start_call list" where
  "identity_calls pwd grp =
     (case grp of None \<Rightarrow> [] | Some g \<Rightarrow> [Umask 7, SetGid g]) @
     (case pwd of None \<Rightarrow> [] | Some (_, g) \<Rightarrow> Umask 7 # (if grp = None then [SetGid g] else []))"

definition identity_uid :: "(nat \<times> nat) option \<Rightarrow> nat" where
  "identity_uid pwd = (case pwd of None \<Rightarrow> 0 | Some (n, _) \<Rightarrow> n)"

section \<open>Startup\<close>

text \<open>\<open>daemon_flag\<close> after the options, and the calls before the identity.\<close>

definition runs_as_daemon :: "start_env \<Rightarrow> server_setup \<Rightarrow> bool" where
  "runs_as_daemon e su = (if se_fore e then False else if se_back e then True else su_daemon su)"

definition scheduling_calls :: "start_env \<Rightarrow> start_call list" where
  "scheduling_calls e =
     (if se_concurrency e > 0 then [SetConcurrency (se_concurrency e)] else []) @ [SetPriority (se_priority e)] @
     (if se_priority e > 0 then [SetPolicyRR] else [])"

text \<open>A server that runs as a daemon leaves the terminal, unless told not to, and logs to the console.\<close>

definition logging_calls :: "start_env \<Rightarrow> bool \<Rightarrow> server_setup \<Rightarrow> start_call list" where
  "logging_calls e detached su =
     (if runs_as_daemon e su \<and> \<not> (detached \<or> se_service e) then [DetachProcess] else []) @
     [OpenLog (se_level e) (runs_as_daemon e su)]"

datatype start_result = ExitStart nat process | Started process

text \<open>
  \<open>modules\<close> are the files that \<open>load\<close> tries (\<open>server_load\<close>) and \<open>pipe\<close> is the result of \<open>attach\<close>
  (\<open>server_attach\<close>).
\<close>

definition server_startup ::
    "start_env \<Rightarrow> bool \<Rightarrow> server_setup \<Rightarrow> string list \<Rightarrow> string option \<Rightarrow> process \<Rightarrow> start_result"
where
  "server_startup e detached su modules pipe p0 =
     (let p1 = sys_calls e (scheduling_calls e) p0
      in case (find_user e, find_group e) of
           (Some pwd, Some grp) \<Rightarrow>
             (let p2 = sys_calls e (identity_calls pwd grp) p1;
                  p3 = sys_calls e [SetupSignals, CreateDir (su_rundir su), CreateDir (su_prefix su), ChangeDir (su_prefix su)] p2
              in if \<not> se_prefix_ok e then ExitStart 3 p3
                 else let p4 = sys_calls e (logging_calls e detached su @ [LoadModules modules]) p3
                      in case pipe of
                           None \<Rightarrow> ExitStart 1 p4
                         | Some path \<Rightarrow>
                             Started (sys_calls e
                               ((if identity_uid pwd \<noteq> 0 then [SetUid (identity_uid pwd)] else []) @
                                (if se_restart e then [RestartProcess] else []))
                               (sys_call e (MakePipe path) p4)))
         | _ \<Rightarrow> ExitStart 2 p1)"

section \<open>Lemmas\<close>

lemma sys_calls_append [simp]: "sys_calls e (a @ b) p = sys_calls e b (sys_calls e a p)"
  by (simp add: sys_calls_def)

lemma sys_calls_simps [simp]:
  "sys_calls e [] p = p" "sys_calls e (c # cs) p = sys_calls e cs (sys_call e c p)"
  by (simp_all add: sys_calls_def)

lemma sys_call_trace [simp]: "pr_calls (sys_call e c p) = pr_calls p @ [c]"
  by (simp add: sys_call_def Let_def split: start_call.split)

lemma sys_calls_trace [simp]: "pr_calls (sys_calls e cs p) = pr_calls p @ cs"
  by (induction cs arbitrary: p) simp_all

text \<open>Calls that do not change the identity.\<close>

fun plain_call :: "start_call \<Rightarrow> bool" where
  "plain_call (SetGid g) = False"
| "plain_call (SetUid n) = False"
| "plain_call c = True"

lemma sys_call_plain:
  "plain_call c \<Longrightarrow> pr_uid (sys_call e c p) = pr_uid p \<and> pr_gid (sys_call e c p) = pr_gid p"
  by (cases c) (simp_all add: sys_call_def)

lemma sys_calls_plain:
  "list_all plain_call cs \<Longrightarrow> pr_uid (sys_calls e cs p) = pr_uid p \<and> pr_gid (sys_calls e cs p) = pr_gid p"
  by (induction cs arbitrary: p) (simp_all add: sys_call_plain)

lemma startup_calls_plain [simp]:
  "list_all plain_call (scheduling_calls e)" "list_all plain_call (logging_calls e d su)"
  by (simp_all add: scheduling_calls_def logging_calls_def)

text \<open>Taking the group as the superuser leaves the user as it is.\<close>

lemma identity_calls_root:
  assumes "pr_uid p = 0" and "\<And>g. se_may_gid e 0 g"
  shows "pr_uid (sys_calls e (identity_calls pwd grp) p) = 0 \<and>
    pr_gid (sys_calls e (identity_calls pwd grp) p) =
      (case grp of Some g \<Rightarrow> g | None \<Rightarrow> (case pwd of Some (_, g) \<Rightarrow> g | None \<Rightarrow> pr_gid p))"
  using assms by (auto simp: identity_calls_def sys_call_def split: option.split)

text \<open>What a successful start comes to.\<close>

lemma started_cases:
  assumes "server_startup e detached su modules pipe p0 = Started p"
  obtains pwd grp path where "find_user e = Some pwd" "find_group e = Some grp" "pipe = Some path"
    "p = sys_calls e
       (scheduling_calls e @ identity_calls pwd grp @
        [SetupSignals, CreateDir (su_rundir su), CreateDir (su_prefix su), ChangeDir (su_prefix su)] @
        logging_calls e detached su @ [LoadModules modules, MakePipe path] @
        (if identity_uid pwd \<noteq> 0 then [SetUid (identity_uid pwd)] else []) @
        (if se_restart e then [RestartProcess] else [])) p0"
  using assms by (auto simp: server_startup_def Let_def split: option.splits if_splits)

section \<open>Properties\<close>

text \<open>
  C27. A server that the superuser starts for another user gives up his rights: once it is up it has that user's
  identity, and his group or the one that was asked for. It does so last: it loads its modules
  and makes its pipe as the superuser, and after the change does nothing but start itself anew, if
  it is to be restartable.
\<close>

theorem startup_drops_root:
  assumes "se_uid e = 0" and "find_user e = Some (Some (uid, gid))" and "uid \<noteq> 0" and "find_group e = Some grp"
    and "pr_uid p0 = 0" and "\<And>n. se_may_uid e 0 n" and "\<And>g. se_may_gid e 0 g"
    and "server_startup e detached su modules pipe p0 = Started p"
  shows "pr_uid p = uid \<and> pr_gid p = (case grp of None \<Rightarrow> gid | Some g \<Rightarrow> g) \<and>
    (\<exists>cs path. pipe = Some path \<and>
       pr_calls p = cs @ [LoadModules modules, MakePipe path, SetUid uid] @ (if se_restart e then [RestartProcess] else []))"
proof -
  obtain pwd grp' path where p: "find_user e = Some pwd" "find_group e = Some grp'" "pipe = Some path"
    "p = sys_calls e
       (scheduling_calls e @ identity_calls pwd grp' @
        [SetupSignals, CreateDir (su_rundir su), CreateDir (su_prefix su), ChangeDir (su_prefix su)] @
        logging_calls e detached su @ [LoadModules modules, MakePipe path] @
        (if identity_uid pwd \<noteq> 0 then [SetUid (identity_uid pwd)] else []) @
        (if se_restart e then [RestartProcess] else [])) p0"
    using assms(8) by (rule started_cases)
  have d: "pwd = Some (uid, gid)" "grp' = grp" using p(1,2) assms(2,4) by simp_all
  let ?p1 = "sys_calls e (scheduling_calls e) p0"
  let ?p2 = "sys_calls e (identity_calls (Some (uid, gid)) grp) ?p1"
  let ?cs = "[SetupSignals, CreateDir (su_rundir su), CreateDir (su_prefix su), ChangeDir (su_prefix su)] @
        logging_calls e detached su @ [LoadModules modules, MakePipe path]"
  let ?p3 = "sys_calls e ?cs ?p2"
  have "pr_uid ?p1 = 0" using sys_calls_plain [of "scheduling_calls e" e p0] assms(5) by simp
  from identity_calls_root [of ?p1 e "Some (uid, gid)" grp, OF this assms(7)]
  have p2: "pr_uid ?p2 = 0" "pr_gid ?p2 = (case grp of None \<Rightarrow> gid | Some g \<Rightarrow> g)"
    by (simp_all split: option.split)
  have "list_all plain_call ?cs" by simp
  from sys_calls_plain [OF this, of e ?p2] p2
  have p3: "pr_uid ?p3 = 0" "pr_gid ?p3 = (case grp of None \<Rightarrow> gid | Some g \<Rightarrow> g)" by simp_all
  have p4: "p = sys_calls e (if se_restart e then [RestartProcess] else []) (sys_call e (SetUid uid) ?p3)"
    using assms(3) p(4) by (simp add: d identity_uid_def)
  have "pr_uid p = uid" "pr_gid p = (case grp of None \<Rightarrow> gid | Some g \<Rightarrow> g)"
    using p3 assms(6) by (simp_all add: p4 sys_call_def)
  moreover have "\<exists>cs. pr_calls p = cs @ [LoadModules modules, MakePipe path, SetUid uid] @
      (if se_restart e then [RestartProcess] else [])"
    by (rule exI [of _ "pr_calls p0 @ scheduling_calls e @ identity_calls (Some (uid, gid)) grp @
        [SetupSignals, CreateDir (su_rundir su), CreateDir (su_prefix su), ChangeDir (su_prefix su)] @
        logging_calls e detached su"]) (simp add: p4)
  ultimately show ?thesis using p(3) by simp
qed

text \<open>A superuser that starts the server for the user 33 of group 34.\<close>

definition root_env :: start_env where
  "root_env = \<lparr>se_uid = 0, se_user = Some ''bayonne'', se_group = None, se_pw_id = (\<lambda>_. None),
     se_pw_name = (\<lambda>n. if n = ''bayonne'' then Some (33, 34) else None), se_gr_id = (\<lambda>_. None), se_gr_name = (\<lambda>_. None),
     se_may_uid = (\<lambda>c n. c = 0 \<or> c = n), se_may_gid = (\<lambda>c n. c = 0), se_concurrency = 0, se_priority = 0, se_back = False,
     se_fore = False, se_service = False, se_restart = False, se_level = 3, se_prefix_ok = True\<rparr>"

definition root_setup :: server_setup where
  "root_setup = \<lparr>su_env = (\<lambda>_. None), su_daemon = True, su_prefix = ''/var/lib/bayonne'',
     su_rundir = ''/var/run/bayonne'', su_plugins = None\<rparr>"

definition root_process :: process where
  "root_process = \<lparr>pr_uid = 0, pr_gid = 0, pr_calls = []\<rparr>"

lemma root_env_user: "find_user root_env = Some (Some (33, 34))" "find_group root_env = Some None"
  by (simp_all add: find_user_def find_group_def root_env_def atoi_def strtol10_def c_isspace_def c_isdigit_def)

theorem startup_drops_root_witness:
  "\<exists>p. server_startup root_env False root_setup [] (Some ''/var/run/bayonne/control'') root_process = Started p \<and>
     pr_uid p = 33 \<and> pr_gid p = 34"
proof -
  obtain p where p: "server_startup root_env False root_setup [] (Some ''/var/run/bayonne/control'') root_process = Started p"
    by (simp add: server_startup_def root_env_user Let_def) (simp add: root_env_def)
  have "se_uid root_env = 0" "pr_uid root_process = 0" "\<And>n. se_may_uid root_env 0 n" "\<And>g. se_may_gid root_env 0 g"
    by (simp_all add: root_env_def root_process_def)
  from startup_drops_root [OF this(1) root_env_user(1) _ root_env_user(2) this(2,3,4) p] p show ?thesis by simp
qed

lemma keeps_root:
  assumes "pr_uid p0 = 0" and "server_startup e detached su modules pipe p0 = Started p"
    and "(\<forall>n. \<not> se_may_uid e 0 n) \<or> se_user e = None"
  shows "pr_uid p = 0"
proof -
  obtain pwd grp path where p: "find_user e = Some pwd"
    "p = sys_calls e
       (scheduling_calls e @ identity_calls pwd grp @
        [SetupSignals, CreateDir (su_rundir su), CreateDir (su_prefix su), ChangeDir (su_prefix su)] @
        logging_calls e detached su @ [LoadModules modules, MakePipe path] @
        (if identity_uid pwd \<noteq> 0 then [SetUid (identity_uid pwd)] else []) @
        (if se_restart e then [RestartProcess] else [])) p0"
    using assms(2) by (rule started_cases) blast
  have keep: "pr_uid (sys_calls e cs q) = 0"
    if "pr_uid q = 0" "\<And>n. SetUid n \<in> set cs \<Longrightarrow> \<not> se_may_uid e 0 n" for cs q
    using that
  proof (induction cs arbitrary: q)
    case (Cons c cs)
    have "pr_uid (sys_call e c q) = 0"
      using Cons.prems by (cases c) (auto simp: sys_call_def Let_def)
    with Cons.IH Cons.prems(2) show ?case by simp
  qed simp
  have "identity_uid pwd = 0" if "se_user e = None"
    using p(1) that by (auto simp: find_user_def identity_uid_def split: if_splits)
  moreover have "SetUid n \<notin> set (scheduling_calls e) \<union> set (identity_calls pwd grp) \<union> set (logging_calls e detached su)" for n
    by (auto simp: scheduling_calls_def identity_calls_def logging_calls_def split: option.split)
  ultimately show ?thesis
    unfolding p(2) using assms(3) by (intro keep [OF assms(1)]) (auto split: if_splits)
qed

text \<open>
  The rights of the superuser can stay with the server unnoticed: the result of giving them up is not looked at,
  so where the system refuses the change the server comes up as the superuser; and without the option
  for the user it never gives them up, although the help text names \<^verbatim>\<open>nobody\<close> as the default.
\<close>

theorem startup_keeps_root:
  assumes "pr_uid p0 = 0" and "server_startup e detached su modules pipe p0 = Started p"
    and "(\<forall>n. \<not> se_may_uid e 0 n) \<or> se_user e = None"
  shows "pr_uid p = 0"
  using assms by (rule keeps_root)

theorem startup_keeps_root_witness:
  "\<exists>p. server_startup (root_env\<lparr>se_user := None\<rparr>) False root_setup [] (Some ''/var/run/bayonne/control'') root_process =
     Started p \<and> pr_uid p = 0"
proof -
  have "find_user (root_env\<lparr>se_user := None\<rparr>) = Some None" "find_group (root_env\<lparr>se_user := None\<rparr>) = Some None"
    by (simp_all add: find_user_def find_group_def root_env_def)
  then obtain p where p: "server_startup (root_env\<lparr>se_user := None\<rparr>) False root_setup [] (Some ''/var/run/bayonne/control'') root_process = Started p"
    by (simp add: server_startup_def Let_def) (simp add: root_env_def)
  from startup_keeps_root [OF _ p] p show ?thesis by (simp add: root_process_def root_env_def)
qed

text \<open>
  A user whose name begins like a number is not looked up by his name: the server takes the
  number for a user id and runs as that user, or refuses to start.
\<close>

theorem startup_numeric_user:
  assumes "se_uid e = 0" and "se_user e = Some n" and "atoi n \<noteq> 0"
  shows "find_user e = (case se_pw_id e (atoi n) of None \<Rightarrow> None | Some p \<Rightarrow> Some (Some p)) \<and>
    find_user (e\<lparr>se_pw_name := f\<rparr>) = find_user e"
  using assms by (simp add: find_user_def)

theorem startup_numeric_user_witness:
  "find_user (root_env\<lparr>se_user := Some ''3com'', se_pw_name := (\<lambda>_. Some (500, 500)), se_pw_id := (\<lambda>_. Some (3, 4))\<rparr>) =
     Some (Some (3, 4))"
  using startup_numeric_user [of "root_env\<lparr>se_user := Some ''3com'', se_pw_id := (\<lambda>_. Some (3, 4))\<rparr>" "''3com''"
      "\<lambda>_. Some (500, 500)"]
  by (simp add: root_env_def atoi_def strtol10_def c_isspace_def c_isdigit_def digit_value_def)

text \<open>A server that runs in the background logs to the console, one in the foreground to the system's log.\<close>

lemma startup_log_inverted:
  assumes "server_startup e detached su modules pipe p0 = Started p"
  shows "OpenLog (se_level e) (runs_as_daemon e su) \<in> set (pr_calls p)"
  using assms by (rule started_cases) (simp add: logging_calls_def)

end
