(* ===== verification/Options.thy ===== *)
theory Options
  imports Startup
begin

text \<open>
  The end of \<open>server::parse\<close> (\<^verbatim>\<open>common/server.cpp\<close>): the options of the command line and the variables of the
  environment that stand in for those that were not given; also the branches of the function for Windows and for a
  debug build. The library that reads the command line is not part of the repository: an option that it has read
  is given, with a value. Whether \<open>set\<close> makes an option count as given from then on is left open (\<open>marks\<close>).
\<close>

section \<open>Options\<close>

record 'a opt =
  op_given :: bool
  op_value :: 'a

definition opt_set :: "bool \<Rightarrow> 'a \<Rightarrow> 'a opt \<Rightarrow> 'a opt" where
  "opt_set marks v o1 = o1\<lparr>op_given := op_given o1 \<or> marks, op_value := v\<rparr>"

text \<open>\<open>if(cp && *cp && !is(option)) option.set(cp)\<close>\<close>

definition opt_env :: "bool \<Rightarrow> (string \<Rightarrow> 'a) \<Rightarrow> string option \<Rightarrow> 'a opt \<Rightarrow> 'a opt" where
  "opt_env marks conv cp o1 =
     (case cp of
        None \<Rightarrow> o1
      | Some c \<Rightarrow> if c \<noteq> [] \<and> \<not> op_given o1 then opt_set marks (conv c) o1 else o1)"

text \<open>The options that \<open>parse\<close> looks at; \<open>cl_words\<close> is the number of words that are no options.\<close>

record command_line =
  cl_help :: bool
  cl_althelp :: bool
  cl_version :: bool
  cl_words :: nat
  cl_group :: "string opt"
  cl_user :: "string opt"
  cl_concurrency :: "int opt"
  cl_priority :: "int opt"
  cl_loglevel :: "string opt"
  cl_loading :: "string opt"

definition environment_options :: "bool \<Rightarrow> environment \<Rightarrow> command_line \<Rightarrow> command_line" where
  "environment_options marks e cl =
     (let cl1 = cl\<lparr>cl_group := opt_env marks (\<lambda>c. c) (e ''GROUP'') (cl_group cl),
                   cl_user := opt_env marks (\<lambda>c. c) (e ''USER'') (cl_user cl),
                   cl_concurrency := opt_env marks strtol10 (e ''CONCURRENCY'') (cl_concurrency cl),
                   cl_priority := opt_env marks strtol10 (e ''PRIORITY'') (cl_priority cl)\<rparr>;
          cl2 = cl1\<lparr>cl_loglevel := opt_env marks (\<lambda>c. c) (e ''VERBOSE'') (cl_loglevel cl1)\<rparr>;
          cl3 = cl2\<lparr>cl_loglevel := opt_env marks (\<lambda>c. c) (e ''LOGGING'') (cl_loglevel cl2)\<rparr>;
          cp = (case e ''MODULES'' of None \<Rightarrow> e ''PLUGINS'' | Some m \<Rightarrow> Some m)
      in cl3\<lparr>cl_loading := opt_env marks (\<lambda>c. c) cp (cl_loading cl3)\<rparr>)"

text \<open>Help, the version and a negative level of concurrency end the process, the last with status 1.\<close>

datatype parse_end = ShowUsage | ShowVersion | BadConcurrency int | Parsed command_line

text \<open>
  The texts for these, not translated. \<open>help\<close> is what the library prints of the options; a build for debugging names
  its own options too.
\<close>

definition debug_usage :: "string list" where
  "debug_usage =
     [[], ''Debug Options:'',
      ''  --dbg            execute command in debugger'',
      ''  --memcheck       execute with valgrind memory check'',
      ''  --memleak        execute with valgrind leak detection'', []]"

definition server_usage :: "bool \<Rightarrow> string \<Rightarrow> string" where
  "server_usage debugging help =
     (let line = (\<lambda>l. l @ [CHR 0x0A])
      in line (if debugging then ''Usage: bayonne-daemon [debug] [options]'' else ''Usage: bayonne-daemon [options]'') @
         line ''Start bayonne service'' @ line [] @ help @
         (if debugging then concat (map line debug_usage) else []) @
         line [] @ line ''Report bugs to bayonne-devel@gnu.org'')"

definition server_versioninfo :: "string \<Rightarrow> string" where
  "server_versioninfo ver = concat (map (\<lambda>l. l @ [CHR 0x0A])
     [''Bayonne '' @ ver,
      ''Copyright (C) 2008,2009 David Sugar, Tycho Softworks'',
      ''License GPLv3+: GNU GPL version 3 or later <http://gnu.org/licenses/gpl.html>'',
      ''This is free software: you are free to change and redistribute it.'',
      ''There is NO WARRANTY, to the extent permitted by law.''])"

definition parse_options :: "bool \<Rightarrow> environment \<Rightarrow> command_line \<Rightarrow> parse_end" where
  "parse_options marks e cl =
     (if cl_help cl \<or> cl_althelp cl \<or> cl_words cl > 0 then ShowUsage
      else let cl1 = environment_options marks e cl
           in if cl_version cl1 then ShowVersion
              else if op_value (cl_concurrency cl1) < 0 then BadConcurrency (op_value (cl_concurrency cl1))
              else Parsed cl1)"

text \<open>What \<open>startup\<close> makes of them: the user and the group count only where they are given.\<close>

definition given_value :: "'a opt \<Rightarrow> 'a option" where
  "given_value o1 = (if op_given o1 then Some (op_value o1) else None)"

definition start_env_of :: "command_line \<Rightarrow> start_env \<Rightarrow> start_env" where
  "start_env_of cl e = e\<lparr>se_user := given_value (cl_user cl), se_group := given_value (cl_group cl),
     se_concurrency := op_value (cl_concurrency cl), se_priority := op_value (cl_priority cl)\<rparr>"

section \<open>Other builds\<close>

text \<open>
  A debug build starts itself anew under a debugger or a memory checker if the first argument asks for it; the
  result is the command and the arguments passed on (\<open>argv\<close> are the arguments behind the name of the program).
\<close>

definition debug_restart :: "ucommon \<Rightarrow> environment \<Rightarrow> string list \<Rightarrow> (string list \<times> string list) option" where
  "debug_restart u e argv =
     (case argv of
        [] \<Rightarrow> None
      | a # rest \<Rightarrow>
          let is = list_ex (u_eq u a)
          in if is [''-gdb'', ''--gdb'', ''-dbg'', ''--dbg'']
             then Some ([(case e ''DEBUGGER'' of Some cp \<Rightarrow> if cp \<noteq> [] then cp else ''gdb'' | None \<Rightarrow> ''gdb''), ''--args''], rest)
             else if is [''-memcheck'', ''--memcheck''] then Some ([''valgrind'', ''--tool=memcheck''], rest)
             else if is [''-memleak'', ''--memleak'']
             then Some ([''valgrind'', ''--tool=memcheck'', ''--leak-check=yes''], rest)
             else None)"

text \<open>The settings on Windows, with a backslash \<open>bs\<close> where the source has one; any argument keeps the server in the foreground.\<close>

definition windows_settings :: "string \<Rightarrow> string \<Rightarrow> (string \<times> string) list" where
  "windows_settings appdata dname =
     (let bs = [CHR 0x5C]; rundir = appdata @ ''/bayonne''; prefix = ''C:'' @ bs @ ''Program Files'' @ bs @ ''bayonne''
      in [(''users'', prefix @ ''/users.ini''), (''config'', prefix @ ''/bayonne.ini''), (''configs'', prefix @ ''/config''),
          (''drivers'', prefix @ ''/'' @ dname @ ''.ini''), (''scripts'', prefix @ ''/scripts-enabled''),
          (''controls'', rundir), (''control'', bs @ bs @ ''.'' @ bs @ ''mailslot'' @ bs @ ''bayonne_ctrl''),
          (''snapshot'', rundir @ ''/snapshot.log''), (''boards'', rundir @ ''/boards.log''), (''spans'', rundir @ ''/spans.log''),
          (''logfiles'', prefix @ ''/logs''), (''logfile'', prefix @ ''/logs/bayonne.log''),
          (''calls'', prefix @ ''/logs/bayonne.calls''), (''stats'', prefix @ ''/logs/bayonne.stats''),
          (''prefix'', rundir), (''definitions'', prefix @ ''/definitions''), (''shell'', ''cmd.exe'')])"

definition windows_parse :: "string \<Rightarrow> string \<Rightarrow> string list \<Rightarrow> environment \<Rightarrow> server_setup" where
  "windows_parse appdata dname argv e =
     (let bs = [CHR 0x5C]; rundir = appdata @ ''/bayonne''; prefix = ''C:'' @ bs @ ''Program Files'' @ bs @ ''bayonne''
      in \<lparr>su_env = set_env (windows_settings appdata dname) e, su_daemon = (argv = []), su_prefix = rundir, su_rundir = rundir,
          su_plugins = Some (prefix @ bs @ ''plugins'')\<rparr>)"

section \<open>Precedence\<close>

lemma opt_env_given [simp]: "op_given o1 \<Longrightarrow> opt_env marks conv cp o1 = o1"
  by (simp add: opt_env_def split: option.split)

lemma opt_env_none [simp]: "opt_env marks conv None o1 = o1" "opt_env marks conv (Some []) o1 = o1"
  by (simp_all add: opt_env_def)

lemma opt_env_value:
  "\<not> op_given o1 \<Longrightarrow> c \<noteq> [] \<Longrightarrow> opt_env marks conv (Some c) o1 = o1\<lparr>op_given := marks, op_value := conv c\<rparr>"
  by (simp add: opt_env_def opt_set_def)

lemma opt_env_unmarked: "op_given (opt_env False conv cp o1) = op_given o1"
  by (simp add: opt_env_def opt_set_def split: option.split)

lemma environment_options_fields:
  "cl_group (environment_options marks e cl) = opt_env marks (\<lambda>c. c) (e ''GROUP'') (cl_group cl)"
  "cl_user (environment_options marks e cl) = opt_env marks (\<lambda>c. c) (e ''USER'') (cl_user cl)"
  "cl_concurrency (environment_options marks e cl) = opt_env marks strtol10 (e ''CONCURRENCY'') (cl_concurrency cl)"
  "cl_priority (environment_options marks e cl) = opt_env marks strtol10 (e ''PRIORITY'') (cl_priority cl)"
  "cl_loglevel (environment_options marks e cl) =
     opt_env marks (\<lambda>c. c) (e ''LOGGING'') (opt_env marks (\<lambda>c. c) (e ''VERBOSE'') (cl_loglevel cl))"
  "cl_loading (environment_options marks e cl) =
     opt_env marks (\<lambda>c. c) (case e ''MODULES'' of None \<Rightarrow> e ''PLUGINS'' | Some m \<Rightarrow> Some m) (cl_loading cl)"
  by (simp_all add: environment_options_def Let_def)

section \<open>Properties\<close>

text \<open>
  The command line comes first: what it gives, the environment does not change, and an option that it does not give has
  the value of its variable, if that is set and not empty, else the value it had.
\<close>

theorem options_precedence:
  "op_value (cl_user (environment_options marks e cl)) =
     (if op_given (cl_user cl) then op_value (cl_user cl)
      else case e ''USER'' of Some (c # cs) \<Rightarrow> c # cs | _ \<Rightarrow> op_value (cl_user cl)) \<and>
   op_value (cl_loading (environment_options marks e cl)) =
     (if op_given (cl_loading cl) then op_value (cl_loading cl)
      else case (case e ''MODULES'' of None \<Rightarrow> e ''PLUGINS'' | Some m \<Rightarrow> Some m) of
             Some (c # cs) \<Rightarrow> c # cs | _ \<Rightarrow> op_value (cl_loading cl))"
  by (simp add: environment_options_fields opt_env_def opt_set_def split: option.split list.split)

text \<open>
  Of the two variables for the level of logging the one that is read last wins, unless setting an option makes it count
  as given.
\<close>

theorem options_logging_or_verbose:
  assumes "\<not> op_given (cl_loglevel cl)" and "e ''VERBOSE'' = Some v" and "e ''LOGGING'' = Some l" and "v \<noteq> []" and "l \<noteq> []"
  shows "op_value (cl_loglevel (environment_options marks e cl)) = (if marks then v else l)"
  using assms by (cases marks) (simp_all add: environment_options_fields opt_env_value)

definition no_options :: command_line where
  "no_options = \<lparr>cl_help = False, cl_althelp = False, cl_version = False, cl_words = 0,
     cl_group = \<lparr>op_given = False, op_value = ''nobody''\<rparr>, cl_user = \<lparr>op_given = False, op_value = ''nobody''\<rparr>,
     cl_concurrency = \<lparr>op_given = False, op_value = 0\<rparr>, cl_priority = \<lparr>op_given = False, op_value = 0\<rparr>,
     cl_loglevel = \<lparr>op_given = False, op_value = ''err''\<rparr>, cl_loading = \<lparr>op_given = False, op_value = ''none''\<rparr>\<rparr>"

theorem options_logging_or_verbose_witness:
  "op_value (cl_loglevel (environment_options False [''VERBOSE'' \<mapsto> ''info'', ''LOGGING'' \<mapsto> ''debug2''] no_options)) = ''debug2''"
  using options_logging_or_verbose [of no_options "[''VERBOSE'' \<mapsto> ''info'', ''LOGGING'' \<mapsto> ''debug2'']" "''info''" "''debug2''" False]
  by (simp add: no_options_def)

lemma start_env_of_fields:
  "se_may_uid (start_env_of cl e) = se_may_uid e" "se_may_gid (start_env_of cl e) = se_may_gid e"
  "se_uid (start_env_of cl e) = se_uid e" "se_user (start_env_of cl e) = given_value (cl_user cl)"
  "se_pw_id (start_env_of cl e) = se_pw_id e" "se_pw_name (start_env_of cl e) = se_pw_name e"
  by (simp_all add: start_env_of_def)

text \<open>
  Whether the variable \<^verbatim>\<open>USER\<close> makes a server that the superuser starts without the option give up its rights depends on
  the library alone: where setting an option does not make it count as given, the variable is read but has no
  effect, and the server stays the superuser's whatever the environment says.
\<close>

theorem options_user_variable:
  assumes "parse_options marks env cl = Parsed cl'" and "\<not> op_given (cl_user cl)" and "pr_uid p0 = 0" and "se_uid e = 0"
    and "server_startup (start_env_of cl' e) detached su modules pipe p0 = Started p"
  shows "(\<not> marks \<longrightarrow> pr_uid p = 0) \<and>
    (marks \<longrightarrow> env ''USER'' = Some (c # cs) \<longrightarrow> se_user (start_env_of cl' e) = Some (c # cs))"
proof -
  have cl': "cl' = environment_options marks env cl"
    using assms(1) by (auto simp: parse_options_def Let_def split: if_splits)
  have "pr_uid p = 0" if "\<not> marks"
  proof (rule keeps_root [OF assms(3,5)])
    have "\<not> op_given (cl_user cl')" using assms(2) that by (simp add: cl' environment_options_fields opt_env_unmarked)
    then show "(\<forall>n. \<not> se_may_uid (start_env_of cl' e) 0 n) \<or> se_user (start_env_of cl' e) = None"
      by (simp add: start_env_of_fields given_value_def)
  qed
  moreover have "se_user (start_env_of cl' e) = Some (c # cs)" if "marks" "env ''USER'' = Some (c # cs)"
    using that assms(2) by (simp add: cl' environment_options_fields opt_env_value start_env_of_fields given_value_def)
  ultimately show ?thesis by blast
qed

text \<open>A windows service and a server on a terminal read their scripts from different variables.\<close>

lemma windows_sets_scripts: "''scripts'' \<in> fst ` set (windows_settings appdata dname)"
  "''services'' \<notin> fst ` set (windows_settings appdata dname)"
  by (simp_all add: windows_settings_def Let_def)

end
