(* ===== verification/Program.thy ===== *)
theory Program
  imports Typed ServerProps Options
begin

text \<open>
  The program as a whole: \<open>init\<close> of \<^verbatim>\<open>sipw/driver.cpp\<close>, from the command line to the exit status, with the running
  server in between as any interleaving of events of the SIP stack, ticks of the timer and requests of the operator.
  The invariants of the SIP driver (\<open>Accounting\<close>, \<open>Typed\<close>) are carried over the operator's requests here.
\<close>

section \<open>Requests keep the invariants\<close>

text \<open>What the control loop does beside posting events: the period of the counters, the settings of a reload.\<close>

definition same_current :: "sta_map \<Rightarrow> sta_map \<Rightarrow> bool" where
  "same_current m m' \<longleftrightarrow>
     (\<forall>n k. st_current (sm_stats (sta_nodes m' n) k) = st_current (sm_stats (sta_nodes m n) k))"

lemma sta_period_current: "same_current m (fst (sta_period fp m))"
proof -
  have "fst (statmap_period fp ss) = map node_period ss" for ss
    by (induction ss) (simp_all add: Let_def case_prod_unfold)
  then show ?thesis by (simp add: same_current_def sta_period_def Let_def case_prod_unfold)
qed

locale control_keeper = sip_keeper u I for u I +
  assumes counters_kept: "I w \<Longrightarrow> same_current (w_sta w) m \<Longrightarrow> I (w\<lparr>w_sta := m\<rparr>)"
    and settings_kept: "I (w\<lparr>w_out_context := a\<rparr>) = I w" "I (w\<lparr>w_stepping := n\<rparr>) = I w"
begin

definition kept :: "outcome \<Rightarrow> bool" where
  "kept out \<longleftrightarrow> (case out of Continue c \<Rightarrow> I (ct_world c) | Quit c \<Rightarrow> I (ct_world c) | Crash \<Rightarrow> True)"

lemma kept_simps [simp]:
  "kept (Continue c) = I (ct_world c)" "kept (Quit c) = I (ct_world c)" "kept Crash"
  "kept (command_error e c) = I (ct_world c)" "kept (invalid_argument c) = I (ct_world c)"
  by (simp_all add: kept_def command_error_def invalid_argument_def)

lemma control_do_world [simp]: "ct_world (control_do es c) = ct_world c"
  by (simp add: control_do_def)

lemma driver_command_kept:
  assumes "I (ct_world c)" and "server_ok (ct_world c)"
  shows "kept (driver_command u (sip_methods u stp) err argv c)"
proof -
  have "I (sip_release_reg r (ct_world c))" for r
    using registrar_kept [OF assms(1), of r Withdraw] assms(2) by (simp add: server_ok_def)
  then have "I (snd (Driver_dispatch u (dm_release (sip_methods u stp)) argv (ct_world c)))"
    using assms(1) by (simp add: Driver_dispatch_def sip_methods_def split: option.split)
  then show ?thesis using assms(1) by (simp add: driver_command_def Let_def case_prod_unfold split: option.split)
qed

lemma post_command_kept:
  assumes "I (ct_world c)" and "ev \<noteq> EvSHUTDOWN"
  shows "kept (post_command (sip_vtable u stp) ev a c)"
proof (cases "Driver_get (unat (atoi a)) (ct_world c)")
  case None
  with assms(1) show ?thesis by (simp add: post_command_def)
next
  case (Some ts)
  then have "ts < w_ts_count (ct_world c)" by (simp add: Driver_get_def split: if_splits)
  with assms have "I (snd (Timeslot_post (sip_vtable u stp) ts (ev, ct_world c)))"
    by (intro slots.post_kept) (simp_all add: shutdown_safe_def)
  with Some show ?thesis by (simp add: post_command_def Let_def case_prod_unfold)
qed

lemma slot_command_kept:
  assumes "I (ct_world c)" and "server_ok (ct_world c)" and "ev \<noteq> EvSHUTDOWN"
  shows "kept (slot_command u (sip_methods u stp) ev argv c)"
  using driver_command_kept [OF assms(1,2)] post_command_kept [OF assms(1,3)] assms(1)
  by (simp add: slot_command_def) (simp add: sip_methods_def)

lemma timeslot_command_kept:
  assumes "I (ct_world c)" and "server_ok (ct_world c)"
  shows "kept (timeslot_command u (sip_methods u stp) argv c)"
proof -
  have e: "slot_event u s = Some ev \<Longrightarrow> ev \<noteq> EvSHUTDOWN" for s ev
    by (auto simp: slot_event_def split: if_splits)
  show ?thesis
    using assms(1) by (auto simp: timeslot_command_def driver_command_kept [OF assms]
        intro!: slot_command_kept [OF assms] dest: e split: option.split)
qed

lemma command_words_kept:
  assumes "I (ct_world c)" and "control_ok c"
  shows "kept (command_words u (sip_methods u stp) ce argv c)"
proof -
  have ok: "server_ok (ct_world c)" using assms(2) by (simp add: control_ok_def)
  have b: "kept (board_command op argv c)" for op
    using assms by (simp add: board_command_def Driver_getBoard_def control_ok_def)
  have p: "server_period opens now n c = Some (v, c1) \<Longrightarrow> I (ct_world c1)" for opens now n v c1
    using assms(1) counters_kept [OF assms(1) sta_period_current]
    by (auto simp: server_period_def Let_def split: if_splits prod.splits) (metis fst_conv)
  have q: "kept (case server_period (ce_opens ce) (ce_now ce) n c of None \<Rightarrow> Crash
      | Some (True, c1) \<Rightarrow> Continue (control_do es c1) | Some (False, c1) \<Rightarrow> Continue c1)" for n es
    using p [of "ce_opens ce" "ce_now ce" n] by (auto split: option.split bool.split)
  show ?thesis
    unfolding command_words_def using assms(1) by (simp add: b q timeslot_command_kept [OF assms(1) ok])
qed

lemma update_keys_kept: "I (snd (snd (fold (update_key u) kvs (r, t, w)))) = I w"
proof (induction kvs arbitrary: r t w)
  case (Cons kv kvs)
  obtain r1 t1 w1 where k: "update_key u kv (r, t, w) = (r1, t1, w1)" by (rule prod_cases3)
  then have "I w1 = I w" by (auto simp: update_key_def settings_kept split: prod.splits if_splits)
  with Cons k show ?case by simp
qed simp

lemma sip_reload_kept: "I (snd (snd (sip_reload u d st h w))) = I w"
  using update_keys_kept [of "the (first_of (dc_sections d ''sip'') (dc_sections d ''sips''))" None None
      "w\<lparr>w_out_context := None\<rparr>"]
  by (cases "first_of (dc_sections d ''sip'') (dc_sections d ''sips'')")
    (simp_all add: sip_reload_def sip_new_def sip_update_def Let_def settings_kept case_prod_beta)

lemma server_command_kept:
  assumes "I (ct_world c)" and "control_ok c"
  shows "kept (server_command u (sip_methods u stp) ce cp c)"
proof -
  have r: "kept (let c1 = control_do es c;
        (h1, w1) = dm_reload (sip_methods u stp) (ce_fresh ce) (ct_hub c1) (ct_world c1)
      in if hb_fault h1 then Crash else Continue (c1\<lparr>ct_hub := h1, ct_world := w1\<rparr>))" for es
    using sip_reload_kept [of "ce_fresh ce" "sip_defaults []" "ct_hub c" "ct_world c"] assms(1)
    by (auto simp: sip_methods_def control_do_def Let_def split: prod.split)
  show ?thesis
    unfolding server_command_def using assms(1) r by (simp add: command_words_kept [OF assms] split: option.split)
qed

lemma server_receive_world: "ct_world (snd (snd (server_receive u ls c))) = ct_world c"
  by (simp add: server_receive_def Let_def split: prod.split option.split)

lemma server_dispatch_kept:
  "I (ct_world c) \<Longrightarrow> control_ok c \<Longrightarrow> kept (server_dispatch u (sip_methods u stp) ces ls c)"
proof (induction ces arbitrary: ls c)
  case (Cons ce ces)
  obtain cp rest c1 where v: "server_receive u ls c = (cp, rest, c1)" by (rule prod_cases3)
  then have w: "ct_world c1 = ct_world c" using server_receive_world [of ls c] by simp
  with Cons.prems have c1: "I (ct_world c1)" "control_ok c1" by (simp_all add: control_ok_def)
  from server_command_kept [OF c1, of stp ce cp] server_command_ok [OF lib c1(2), of stp ce cp] Cons.IH v
  show ?case by (cases "server_command u (sip_methods u stp) ce cp c1") simp_all
qed simp

end

sublocale ucommon_lib < books: control_keeper u accounted
proof
  show "accounted w \<Longrightarrow> same_current (w_sta w) m \<Longrightarrow> accounted (w\<lparr>w_sta := m\<rparr>)" for w m
    by (simp add: accounted_def stats_apart_def booked_def held_def same_current_def)
qed (simp_all add: accounted_def stats_apart_def booked_def held_def)

sublocale ucommon_lib < types: control_keeper u typed
  by unfold_locales (simp_all add: typed_def)

sublocale ucommon_lib < counted: control_keeper u "\<lambda>w. w_ts_count w = n" for n
  by unfold_locales simp_all

text \<open>Nor is there ever a board.\<close>

sublocale ucommon_lib < boardless: control_keeper u "\<lambda>w. w_board_count w = 0"
proof
  show "w_board_count w = 0 \<Longrightarrow> server_ok w \<Longrightarrow> 0 \<le> si_cid m \<Longrightarrow> w_board_count (invite u te req m w) = 0" for m te req w
    using invite_safe_always [OF lib, of w m te req] env_ofD [of "invite u te req m w" w] by (simp add: server_ok_def invite_safe_def)
qed (simp_all add: keeps_def sip_release_def sip_disconnect_def sip_hangup_def sip_disarm_def Timeslot_disconnect_def
    Timeslot_enable_def Timeslot_shutdown_def Timeslot_release_def Let_def release_lists_def delist_assigned_def
    env_ofD(9) [OF release_stats_effect(6)] env_ofD(9) [OF timer.setIdle_effect(10)] env_ofD(9) [OF release_record_effect(6)]
    env_ofD(9) [OF quietD(10) [OF sip_drop_quiet]] upd_reg_def)

section \<open>The running program\<close>

text \<open>
  What happens to the program: an event of the SIP stack on one of its threads, a tick of the timer for a timeslot, a
  line on the control pipe with what the loop finds outside while it serves it.
\<close>

datatype program_op = FromStack thread_env sip_event | FromTimer nat nat | FromOperator control_env string

record program =
  pg_control :: control
  pg_static :: sip_static

datatype program_state = Running program | Ended program | Crashed

definition on_world :: "(world \<Rightarrow> world) \<Rightarrow> program \<Rightarrow> program" where
  "on_world f p = p\<lparr>pg_control := (pg_control p)\<lparr>ct_world := f (ct_world (pg_control p))\<rparr>\<rparr>"

text \<open>A reload replaces the driver object, which resets the static settings too.\<close>

definition static_after :: "ucommon \<Rightarrow> control_env \<Rightarrow> string \<Rightarrow> program \<Rightarrow> sip_static" where
  "static_after u ce line p =
     (let (cp, _, c1) = server_receive u [line] (pg_control p)
      in if u_eq u cp ''reload'' then fst (sip_reload u (ce_fresh ce) (pg_static p) (ct_hub c1) (ct_world c1))
         else pg_static p)"

text \<open>
  What a step leaves behind. An access out of range or through a null pointer (\<open>w_fault\<close>) ends the process, and so does
  a failed assertion; a thread that follows registrations for ever (\<open>None\<close>) brings the program down all the same.
\<close>

definition settle :: "program \<Rightarrow> program_state" where
  "settle q = (if w_fault (ct_world (pg_control q)) then Crashed else Running q)"

fun program_step :: "ucommon \<Rightarrow> (nat \<Rightarrow> world \<Rightarrow> bool) \<Rightarrow> bool \<Rightarrow> program_op \<Rightarrow> program \<Rightarrow> program_state" where
  "program_step u stp legacy (FromStack te ev) p =
     (if event_aborts u te ev (ct_world (pg_control p)) then Crashed
      else case run_event u stp legacy te ev (ct_world (pg_control p)) of
             None \<Rightarrow> Crashed
           | Some w \<Rightarrow> settle (on_world (\<lambda>_. w) p))"
| "program_step u stp legacy (FromTimer i elapsed) p = settle (on_world (\<lambda>w. sip_step u stp legacy w (Tick i elapsed)) p)"
| "program_step u stp legacy (FromOperator ce line) p =
     (case server_dispatch u (sip_methods u stp) [ce] [line] (pg_control p) of
        Continue c \<Rightarrow> settle \<lparr>pg_control = c, pg_static = static_after u ce line p\<rparr>
      | Quit c \<Rightarrow> if w_fault (ct_world c) then Crashed else Ended (p\<lparr>pg_control := c\<rparr>)
      | Crash \<Rightarrow> Crashed)"

fun program_run :: "ucommon \<Rightarrow> (nat \<Rightarrow> world \<Rightarrow> bool) \<Rightarrow> bool \<Rightarrow> program_op list \<Rightarrow> program \<Rightarrow> program_state" where
  "program_run u stp legacy [] p = Running p"
| "program_run u stp legacy (x # xs) p =
     (case program_step u stp legacy x p of Running q \<Rightarrow> program_run u stp legacy xs q | r \<Rightarrow> r)"

text \<open>
  What the stack and the timer thread do not do, with \<open>n\<close> timeslots: call ids are not negative, and the timer runs
  over the timeslots there are.
\<close>

fun possible :: "nat \<Rightarrow> program_op \<Rightarrow> bool" where
  "possible n (FromStack te ev) \<longleftrightarrow> 0 \<le> si_cid (se_invite ev)"
| "possible n (FromTimer i elapsed) \<longleftrightarrow> i < n"
| "possible n (FromOperator ce line) \<longleftrightarrow> True"

section \<open>From the command line to the exit\<close>

text \<open>What the program is started with: its place in the system, its command line, its files, the libraries.\<close>

record launch =
  ln_paths :: build_paths
  ln_uid :: nat
  ln_passwd :: "passwd option"
  ln_env :: environment
  ln_now :: int
  ln_marks :: bool
  ln_line :: command_line
  ln_verbose :: "32 word option"
  ln_debug :: "32 word option"
  ln_levels :: log_levels
  ln_system :: start_env
  ln_eq_case :: "string \<Rightarrow> string \<Rightarrow> bool"
  ln_is_file :: "string \<Rightarrow> bool"
  ln_files :: "string \<Rightarrow> string list"
  ln_argv0 :: string
  ln_fifos :: "string \<Rightarrow> bool"
  ln_script :: script_lib
  ln_sections :: "string \<Rightarrow> (string \<times> string) list option"
  ln_defs :: "(string \<times> string list) option"
  ln_scripts :: "(string \<times> string list) option"
  ln_version :: string
  ln_debugging :: bool
  ln_help :: string
  ln_api :: sip_api
  ln_openssl :: bool
  ln_options :: sip_options
  ln_listens :: "transport \<Rightarrow> string option \<times> 32 word \<times> bool \<Rightarrow> int"
  ln_registry :: "(string \<times> (string \<Rightarrow> string option) \<times> reg_env) list"

text \<open>The driver, from its construction to the end of its \<open>start\<close>; memory and hub are those of a new process.\<close>

definition sip_boot :: "ucommon \<Rightarrow> launch \<Rightarrow> stack_state \<Rightarrow> hub \<Rightarrow> world \<Rightarrow> stack_state \<times> program" where
  "sip_boot u l stk h w =
     (let d = Driver_construct u (ln_script l) (ln_sections l) (ln_defs l) (ln_scripts l);
          (st, w1) = sip_new (sip_defaults (ln_version l)) w;
          (st1, _, w2) = sip_update u d st w1;
          h1 = Driver_commit u d h;
          (_, st2, stk1, h2, w3) =
            sip_start u (ln_api l) (ln_openssl l) (ln_options l) (ln_listens l) (ln_registry l) d st1 stk h1 w2
      in (stk1, \<lparr>pg_control = \<lparr>ct_world = w3, ct_hub = h2, ct_target = None, ct_driver = None, ct_periodic = ln_now l,
                   ct_exit = 0, ct_status = 0, ct_trace = []\<rparr>,
                 pg_static = st2\<rparr>))"

definition launch_env :: "ucommon \<Rightarrow> launch \<Rightarrow> command_line \<Rightarrow> start_env" where
  "launch_env u l cl = (start_env_of cl (ln_system l))\<lparr>se_uid := ln_uid l,
     se_level := startup_level u (ln_levels l) (ln_verbose l) (op_value (cl_loglevel cl)) (ln_debug l)\<rparr>"

text \<open>
  How it ends: with a text, before or after it has become a server; \<open>Serving\<close> is a program whose input has not ended
  it. The exit status is that of \<open>release\<close>.
\<close>

datatype main_end =
    TextShown string | Refused nat "process option" | Serving process program | Aborted process
  | Exited nat process stack_state hub world

definition sip_main ::
    "ucommon \<Rightarrow> (nat \<Rightarrow> world \<Rightarrow> bool) \<Rightarrow> bool \<Rightarrow> bool \<Rightarrow> launch \<Rightarrow> process \<Rightarrow> stack_state \<Rightarrow> hub \<Rightarrow> world \<Rightarrow> program_op list \<Rightarrow>
     main_end"
where
  "sip_main u stp legacy detached l p0 stk h w ops =
     (let su = server_parse u (ln_paths l) ''sip'' (ln_uid l) (ln_passwd l) (ln_env l)
      in case parse_options (ln_marks l) (su_env su) (ln_line l) of
           ShowUsage \<Rightarrow> TextShown (server_usage (ln_debugging l) (ln_help l))
         | ShowVersion \<Rightarrow> TextShown (server_versioninfo (ln_version l))
         | BadConcurrency n \<Rightarrow> Refused 1 None
         | Parsed cl \<Rightarrow>
             (let modules = server_load u (ln_eq_case l) (ln_is_file l) (ln_files l) (ln_paths l) (ln_argv0 l)
                    (op_value (cl_loading cl))
              in case server_startup (launch_env u l cl) detached su modules (server_attach u (ln_fifos l) (su_env su)) p0 of
                   ExitStart n p \<Rightarrow> Refused n (Some p)
                 | Started p \<Rightarrow>
                     (let (stk1, pg) = sip_boot u l stk h w
                      in case program_run u stp legacy ops pg of
                           Running q \<Rightarrow> Serving p q
                         | Crashed \<Rightarrow> Aborted p
                         | Ended q \<Rightarrow>
                             (let c = pg_control q;
                                  (stk2, h2, w2) = sip_stop u stp (ln_api l) (pg_static q) stk1 (ct_hub c) (ct_world c)
                              in Exited (ct_status c) p stk2 h2 w2))))"

section \<open>A booted program is consistent\<close>

text \<open>The memory of a new process.\<close>

definition cleared :: "world \<Rightarrow> bool" where
  "cleared w \<longleftrightarrow> w_idle w = [] \<and> w_assigned w = (\<lambda>_. []) \<and> w_trace w = [] \<and> w_clock w \<noteq> 0 \<and> \<not> w_fault w \<and>
     sta_used (w_sta w) = 0 \<and> w_board_count w = 0 \<and>
     (\<forall>j. rg_fwd (w_regs w j) = None \<and> rg_stats (w_regs w j) = None \<and>
       sg_stats (w_boards w j) = None \<and> sg_stats (w_spans w j) = None)"

lemma sip_update_world:
  assumes "sip_update u d st w = (st', t, w')"
  shows "\<exists>n. w' = w\<lparr>w_stepping := n\<rparr>"
proof -
  have same: "\<exists>n. v = v\<lparr>w_stepping := n\<rparr>" for v :: world by (rule exI [of _ "w_stepping v"]) simp
  have f: "\<exists>n. snd (snd (fold (update_key u) kvs (r, t, v))) = v\<lparr>w_stepping := n\<rparr>" for kvs r t v
  proof (induction kvs arbitrary: r t v)
    case Nil
    then show ?case by (simp add: same)
  next
    case (Cons kv kvs)
    obtain r1 t1 v1 where k: "update_key u kv (r, t, v) = (r1, t1, v1)" by (rule prod_cases3)
    then have "\<exists>m. v1 = v\<lparr>w_stepping := m\<rparr>"
      by (auto simp: update_key_def intro: exI [of _ "w_stepping v"] split: prod.splits if_splits)
    with Cons.IH [of r1 t1 v1] k show ?case by auto
  qed
  show ?thesis
    using assms same [of w] f [of "the (first_of (dc_sections d ''sip'') (dc_sections d ''sips''))" None None w]
    by (cases "first_of (dc_sections d ''sip'') (dc_sections d ''sips'')")
      (auto simp: sip_update_def Let_def split: prod.splits)
qed

lemma activate_all_boards: "w_board_count (snd (sip_activate_all u ex port r secs w)) = w_board_count w"
proof (induction secs arbitrary: r w)
  case (Cons sec secs)
  obtain name keys env where sec: "sec = (name, keys, env)" by (rule prod_cases3)
  obtain err w1 where a: "sip_activate u env r name keys ex port w = (err, w1)" by (rule prod.exhaust)
  have upd: "w_board_count (upd_reg q f v) = w_board_count v" for q f v by (simp add: upd_reg_def)
  have c: "w_board_count (Registration_construct u r name keys sid v) = w_board_count v" for sid v
    by (simp add: Registration_construct_def upd Let_def split: prod.split)
  have w1: "w1 = sip_registration u env r name keys ex port (upd_reg r (\<lambda>_. blank_registration) w)"
    using a by (auto simp: sip_activate_def Let_def split: if_splits)
  have "w_board_count w1 = w_board_count w"
    by (simp add: w1 sip_registration_def Let_def c upd split: option.split prod.split)
  with Cons.IH [of "r + 1" w1] a sec show ?case by (simp add: Let_def case_prod_beta)
qed simp

lemma sip_start_counts:
  assumes "sip_start u api openssl opts listens secs drv st stk h w = (ports, st', stk', h', w')"
  shows "w_board_count w' = w_board_count w" and "w_ts_count w' = unat (ss_count st')"
proof -
  let ?st1 = "sip_settings u opts (dc_sections drv ''sip'') st"
  obtain st2 stk1 where c: "sip_contexts api openssl ?st1 stk = (st2, stk1)" by (rule prod.exhaust)
  let ?w1 = "sip_start_stats st2 (w\<lparr>w_ts_count := unat (ss_count st2), w_out_context := ss_out st2\<rparr>)"
  let ?w2 = "sip_construct_all u (w_ts_count ?w1) ?w1"
  have "w' = snd (sip_activate_all u (ss_expires st2) (ss_port st2) 0 secs (?w2\<lparr>w_dbi := dbi_start (w_dbi ?w2)\<rparr>))"
    and "st' = st2\<lparr>ss_started := True\<rparr>"
    using assms c by (auto simp: sip_start_def Driver_start_def Let_def)
  moreover have "w_board_count ?w1 = w_board_count w" "w_ts_count ?w1 = unat (ss_count st2)"
    by (simp_all add: sip_start_stats_def split: option.split)
  ultimately show "w_board_count w' = w_board_count w" "w_ts_count w' = unat (ss_count st')"
    using construct_all_books [of u "w_ts_count ?w1" ?w1] env_ofD(9) [of ?w2 ?w1]
    by (simp_all add: activate_all_boards activate_all_slots)
qed

text \<open>The hub of a program that has committed its driver: a reload finds one.\<close>

definition hub_fine :: "hub \<Rightarrow> bool" where
  "hub_fine h \<longleftrightarrow> hb_active h \<noteq> None \<and> \<not> hb_fault h"

lemma hub_fine_simps [simp]:
  "hub_fine (hub_do es h) = hub_fine h" "hub_fine (Driver_release_driver d h) = hub_fine h"
  "hub_fine (snd (Driver_active h)) = hub_fine h" "\<not> hb_fault h \<Longrightarrow> hub_fine (Driver_commit u c h)"
  by (simp_all add: hub_fine_def hub_do_def Driver_release_driver_def Driver_active_def Driver_commit_def Let_def
      split: option.split)

lemma hub_fine_reload: "hub_fine h \<Longrightarrow> hub_fine (Driver_reload u c h)"
  by (auto simp: hub_fine_def hub_do_def Driver_reload_def Driver_commit_def Let_def split: option.split)

definition program_ok :: "nat \<Rightarrow> program \<Rightarrow> bool" where
  "program_ok n p \<longleftrightarrow> control_ok (pg_control p) \<and> accounted (ct_world (pg_control p)) \<and> typed (ct_world (pg_control p)) \<and>
     w_ts_count (ct_world (pg_control p)) = n"

lemma boot_ok:
  assumes u: "ucommon_ok u" and w: "cleared w"
    and boot: "sip_boot u l stk h w = (stk', p)"
    and size: "ss_registries (pg_static p) \<noteq> - 1" "unat (ss_count (pg_static p)) < 65535"
  shows "program_ok (unat (ss_count (pg_static p))) p"
proof -
  let ?d = "Driver_construct u (ln_script l) (ln_sections l) (ln_defs l) (ln_scripts l)"
  obtain st w1 where n: "sip_new (sip_defaults (ln_version l)) w = (st, w1)" by (rule prod.exhaust)
  obtain st1 t w2 where v: "sip_update u ?d st w1 = (st1, t, w2)" by (rule prod_cases3)
  obtain ports st2 stk1 h2 w3 where s: "sip_start u (ln_api l) (ln_openssl l) (ln_options l) (ln_listens l) (ln_registry l) ?d
      st1 stk (Driver_commit u ?d h) w2 = (ports, st2, stk1, h2, w3)" by (rule prod_cases5)
  have p: "ct_world (pg_control p) = w3" "pg_static p = st2"
    using boot n v s by (auto simp: sip_boot_def Let_def)
  from n have "w1 = w\<lparr>w_out_context := None\<rparr>" by (simp add: sip_new_def)
  with sip_update_world [OF v] obtain m where w2: "w2 = w\<lparr>w_out_context := None, w_stepping := m\<rparr>" by auto
  have c: "w_idle w2 = []" "w_assigned w2 = (\<lambda>_. [])" "w_trace w2 = []" "w_clock w2 \<noteq> 0" "\<not> w_fault w2"
    "sta_used (w_sta w2) = 0" "w_board_count w2 = 0" "\<And>r. rg_fwd (w_regs w2 r) = None" "\<And>r. rg_stats (w_regs w2 r) = None"
    "\<And>j. sg_stats (w_boards w2 j) = None" "\<And>j. sg_stats (w_spans w2 j) = None"
    using w by (simp_all add: w2 cleared_def)
  have z: "ss_registries st2 \<noteq> - 1" "unat (ss_count st2) < 65535" using size p by simp_all
  have "server_ok w3" by (rule started_ok [OF u c(1-4,8,5,6) s z(1)])
  moreover have "accounted w3" by (rule sip_start_accounted [OF c(9-11,6) s z])
  moreover have "typed w3" by (rule sip_start_typed [OF u s])
  moreover have "w_board_count w3 = 0" "w_ts_count w3 = unat (ss_count st2)" using sip_start_counts [OF s] c(7) by simp_all
  ultimately show ?thesis by (simp add: program_ok_def control_ok_def p)
qed

lemma boot_hub:
  assumes "sip_boot u l stk h w = (stk', p)"
  shows "\<not> hb_fault h \<Longrightarrow> hub_fine (ct_hub (pg_control p))" and "ct_status (pg_control p) = 0"
  using assms by (auto simp: sip_boot_def sip_start_def Driver_start_def Let_def split: prod.splits)

section \<open>Everything that happens keeps it so\<close>

definition ended_with :: "(program \<Rightarrow> bool) \<Rightarrow> program_state \<Rightarrow> bool" where
  "ended_with P r \<longleftrightarrow> (case r of Running p \<Rightarrow> P p | Ended p \<Rightarrow> P p | Crashed \<Rightarrow> True)"

lemma ended_settle: "ended_with P (settle q) \<longleftrightarrow> w_fault (ct_world (pg_control q)) \<or> P q"
  by (simp add: ended_with_def settle_def)

text \<open>An event or a tick that does not end the program is a step of the driver.\<close>

fun driver_op :: "program_op \<Rightarrow> sip_op" where
  "driver_op (FromStack te ev) = Stack te ev"
| "driver_op (FromTimer i elapsed) = Tick i elapsed"
| "driver_op (FromOperator ce line) = Tick 0 0"

fun from_operator :: "program_op \<Rightarrow> bool" where
  "from_operator (FromOperator ce line) = True"
| "from_operator _ = False"

lemma driver_step_cases:
  assumes "\<not> from_operator x"
  shows "program_step u stp legacy x p = Crashed \<or>
    program_step u stp legacy x p = Running (on_world (\<lambda>w. sip_step u stp legacy w (driver_op x)) p)"
  using assms by (cases x) (auto simp: settle_def on_world_def split: option.split)

lemma driver_step_keeps:
  "\<not> from_operator x \<Longrightarrow> P (on_world (\<lambda>w. sip_step u stp legacy w (driver_op x)) p) \<Longrightarrow> ended_with P (program_step u stp legacy x p)"
  using driver_step_cases [of x u stp legacy p] by (auto simp: ended_with_def)

context ucommon_lib
begin

lemma event_step_ok:
  assumes "program_ok n p" and "sip_guard (ct_world (pg_control p)) x"
  shows "program_ok n (on_world (\<lambda>w. sip_step u stp legacy w x) p)"
proof -
  let ?w = "ct_world (pg_control p)"
  have w: "server_ok ?w" "accounted ?w" "typed ?w" "w_ts_count ?w = n" "w_board_count ?w = 0"
    using assms(1) by (simp_all add: program_ok_def control_ok_def)
  have g: "guarded_ops (sip_step u stp legacy) sip_guard ?w [x]" using assms(2) by simp
  show ?thesis
    using server_run [OF w(1) g] books_run [OF w(1,2) g] types_run [OF w(1,3) g] count_run [OF w(1) g]
      boardless.run_kept [OF w(1,5) g] w(4)
    by (simp add: program_ok_def control_ok_def on_world_def)
qed

lemma request_step_ok:
  assumes "program_ok n p"
  shows "ended_with (program_ok n) (program_step u stp legacy (FromOperator ce line) p)"
proof -
  let ?c = "pg_control p"
  have c: "control_ok ?c" "accounted (ct_world ?c)" "typed (ct_world ?c)" "w_ts_count (ct_world ?c) = n"
    using assms by (simp_all add: program_ok_def)
  note k = books.server_dispatch_kept [OF c(2,1), of stp "[ce]" "[line]"]
    types.server_dispatch_kept [OF c(3,1), of stp "[ce]" "[line]"]
    counted.server_dispatch_kept [OF c(4,1), of stp "[ce]" "[line]"]
    dispatch_keeps_control [OF lib c(1), of stp "[ce]" "[line]"]
  show ?thesis
    using k by (auto simp: ended_with_def settle_def program_ok_def books.kept_def types.kept_def counted.kept_def keeps_ok_def
        split: outcome.split)
qed

lemma step_ok:
  assumes "program_ok n p" and "possible n x"
  shows "ended_with (program_ok n) (program_step u stp legacy x p)"
proof (cases x)
  case (FromStack te ev)
  with assms(2) have "sip_guard (ct_world (pg_control p)) (driver_op x)" by simp
  note k = event_step_ok [OF assms(1) this, of stp legacy]
  show ?thesis by (rule driver_step_keeps [where P = "program_ok n", OF _ k]) (simp add: FromStack)
next
  case (FromTimer i e)
  with assms have "sip_guard (ct_world (pg_control p)) (driver_op x)" by (simp add: program_ok_def)
  note k = event_step_ok [OF assms(1) this, of stp legacy]
  show ?thesis by (rule driver_step_keeps [where P = "program_ok n", OF _ k]) (simp add: FromTimer)
next
  case (FromOperator ce line)
  with request_step_ok [OF assms(1)] show ?thesis by (simp only:)
qed

lemma program_run_ok:
  "program_ok n p \<Longrightarrow> list_all (possible n) ops \<Longrightarrow> ended_with (program_ok n) (program_run u stp legacy ops p)"
proof (induction ops arbitrary: p)
  case (Cons x ops)
  have "ended_with (program_ok n) (program_step u stp legacy x p)"
    using Cons.prems by (intro step_ok) simp_all
  with Cons show ?case by (cases "program_step u stp legacy x p") (simp_all add: ended_with_def)
qed (simp add: ended_with_def)

end

section \<open>What can bring the program down\<close>

text \<open>
  The requests that end the process without the loop: \<^verbatim>\<open>abort\<close>, which is meant to, a snapshot where its file cannot be
  opened, and a period of no length.
\<close>

definition fatal_command :: "ucommon \<Rightarrow> control_env \<Rightarrow> string \<Rightarrow> bool" where
  "fatal_command u ce cp \<longleftrightarrow> cp = ''abort'' \<or> cp = ''snapshot'' \<and> \<not> ce_opens ce \<or>
     (let argv = take 64 (u_tokens u cp ('' '' @ [CHR 0x09]) ''{}'')
      in length argv = 2 \<and> arg argv 0 = ''period'' \<and> strtol10 (arg argv 1) = 0)"

text \<open>And the invitations: those with credentials that name a user and a response but lack the uri or the nonce.\<close>

definition fatal_event :: "thread_env \<Rightarrow> sip_event \<Rightarrow> bool" where
  "fatal_event te ev \<longleftrightarrow> se_type ev = CALL_INVITE \<and>
     (case se_request ev of None \<Rightarrow> False | Some req \<Rightarrow> auth_asserts (te_realm te) (sr_auth req))"

lemma aborts_fatal: "event_aborts u te ev w \<Longrightarrow> fatal_event te ev"
  by (cases "se_type ev"; cases "se_request ev")
    (auto simp: event_aborts_def fatal_event_def invite_aborts_def split: invite_stage.splits)

fun fatal :: "ucommon \<Rightarrow> program_op \<Rightarrow> bool" where
  "fatal u (FromOperator ce line) \<longleftrightarrow> fatal_command u ce (snd (fst (receive_line u [line])))"
| "fatal u (FromStack te ev) \<longleftrightarrow> fatal_event te ev"
| "fatal u (FromTimer i elapsed) \<longleftrightarrow> False"

definition survives :: "outcome \<Rightarrow> bool" where
  "survives out \<longleftrightarrow> (case out of Continue c \<Rightarrow> hub_fine (ct_hub c) | Quit c \<Rightarrow> hub_fine (ct_hub c) | Crash \<Rightarrow> False)"

lemma control_do_hub [simp]: "ct_hub (control_do es c) = ct_hub c"
  by (simp add: control_do_def)

lemma survives_simps [simp]:
  "survives (Continue c) = hub_fine (ct_hub c)" "survives (Quit c) = hub_fine (ct_hub c)" "\<not> survives Crash"
  "survives (command_error e c) = hub_fine (ct_hub c)" "survives (invalid_argument c) = hub_fine (ct_hub c)"
  by (simp_all add: survives_def command_error_def invalid_argument_def)

lemma driver_command_survives: "hub_fine (ct_hub c) \<Longrightarrow> survives (driver_command u dm err argv c)"
  using hub_fine_simps(3) [of "ct_hub c"]
  by (auto simp: driver_command_def case_prod_unfold Let_def split: option.split)

lemma post_command_survives: "hub_fine (ct_hub c) \<Longrightarrow> survives (post_command vt ev a c)"
  by (simp add: post_command_def case_prod_unfold Let_def split: option.split)

lemma board_command_survives: "hub_fine (ct_hub c) \<Longrightarrow> survives (board_command op argv c)"
  by (simp add: board_command_def case_prod_unfold Let_def split: option.split)

lemma slot_command_survives: "hub_fine (ct_hub c) \<Longrightarrow> survives (slot_command u dm ev argv c)"
  by (simp add: slot_command_def driver_command_survives post_command_survives)

lemma timeslot_command_survives: "hub_fine (ct_hub c) \<Longrightarrow> survives (timeslot_command u dm argv c)"
  by (simp add: timeslot_command_def driver_command_survives slot_command_survives split: option.split)

lemma command_words_survives:
  assumes u: "ucommon_ok u" and h: "hub_fine (ct_hub c)"
  shows "survives (command_words u dm ce argv c) \<or> command_words u dm ce argv c = Crash \<and>
    length argv = 2 \<and> arg argv 0 = ''period'' \<and> strtol10 (arg argv 1) = 0"
proof (cases "length argv = 2 \<and> arg argv 0 = ''period''")
  case True
  then have "command_words u dm ce argv c =
      (case server_period (ce_opens ce) (ce_now ce) (strtol10 (arg argv 1)) c of None \<Rightarrow> Crash
       | Some (True, c1) \<Rightarrow> Continue (control_do [Notice ''server period %s''] c1) | Some (False, c1) \<Rightarrow> Continue c1)"
    using u by (auto simp: command_words_def)
  with True h show ?thesis
    by (cases "strtol10 (arg argv 1) = 0") (simp_all add: server_period_def case_prod_unfold Let_def)
next
  case False
  have "survives (command_words u dm ce argv c)" unfolding command_words_def
    using u h False by (auto simp: board_command_survives timeslot_command_survives)
  then show ?thesis ..
qed

lemma server_command_survives:
  assumes u: "ucommon_ok u" and h: "hub_fine (ct_hub c)"
  shows "survives (server_command u (sip_methods u stp) ce cp c) \<or>
    server_command u (sip_methods u stp) ce cp c = Crash \<and> fatal_command u ce cp"
proof -
  let ?argv = "take 64 (u_tokens u cp ('' '' @ [CHR 0x09]) ''{}'')"
  have words: "survives (command_words u (sip_methods u stp) ce ?argv c) \<or>
      command_words u (sip_methods u stp) ce ?argv c = Crash \<and> fatal_command u ce cp"
    unfolding fatal_command_def Let_def using command_words_survives [OF u h, of "sip_methods u stp" ce ?argv] by blast
  have reload: "survives (let c1 = control_do es c;
        (h1, w1) = dm_reload (sip_methods u stp) (ce_fresh ce) (ct_hub c1) (ct_world c1)
      in if hb_fault h1 then Crash else Continue (c1\<lparr>ct_hub := h1, ct_world := w1\<rparr>))" for es
    using hub_fine_reload [OF h, of u "ce_fresh ce"]
    by (auto simp: sip_methods_def sip_reload_def hub_fine_def Let_def case_prod_unfold)
  have other: "server_command u (sip_methods u stp) ce cp c = command_words u (sip_methods u stp) ce ?argv c"
    if "cp \<notin> {''stop'', ''down'', ''exit'', ''check'', ''restart'', ''reload'', ''snapshot'', ''abort''}"
    using that u by (simp add: server_command_def)
  consider "cp = ''stop'' \<or> cp = ''down'' \<or> cp = ''exit'' \<or> cp = ''check'' \<or> cp = ''restart''" | "cp = ''reload''"
    | "cp = ''snapshot''" | "cp = ''abort''"
    | "cp \<notin> {''stop'', ''down'', ''exit'', ''check'', ''restart'', ''reload'', ''snapshot'', ''abort''}"
    by (unfold insert_iff empty_iff) argo
  then show ?thesis
  proof cases
    case 2
    with reload u show ?thesis by (simp add: server_command_def)
  next
    case 3
    with u h show ?thesis by (cases "ce_opens ce") (simp_all add: server_command_def server_snapshot_def fatal_command_def)
  next
    case 5
    with words other show ?thesis by simp
  qed (use u h in \<open>auto simp: server_command_def fatal_command_def\<close>)
qed

lemma step_hub:
  assumes "ucommon_ok u" and "hub_fine (ct_hub (pg_control p))"
  shows "ended_with (\<lambda>q. hub_fine (ct_hub (pg_control q))) (program_step u stp legacy x p)"
proof (cases "from_operator x")
  case True
  then obtain ce line where x: "x = FromOperator ce line" by (cases x) simp_all
  obtain cp rest c1 where v: "server_receive u [line] (pg_control p) = (cp, rest, c1)" by (rule prod_cases3)
  then have "ct_hub c1 = ct_hub (pg_control p)"
    by (auto simp: server_receive_def Let_def split: prod.splits option.splits)
  with assms server_command_survives [of u c1 stp ce cp] v x show ?thesis
    by (cases "server_command u (sip_methods u stp) ce cp c1") (auto simp: settle_def ended_with_def)
next
  case False
  then show ?thesis by (rule driver_step_keeps) (use assms(2) in \<open>simp add: on_world_def\<close>)
qed

lemma run_hub:
  assumes "ucommon_ok u"
  shows "hub_fine (ct_hub (pg_control p)) \<Longrightarrow>
    ended_with (\<lambda>q. hub_fine (ct_hub (pg_control q))) (program_run u stp legacy ops p)"
proof (induction ops arbitrary: p)
  case (Cons x ops)
  from step_hub [OF assms Cons.prems, of stp legacy x] Cons.IH show ?case
    by (cases "program_step u stp legacy x p") (simp_all add: ended_with_def)
qed (simp add: ended_with_def)

text \<open>In a consistent program nothing else does: no access fails, and every event is dealt with.\<close>

lemma settle_fine: "program_ok n q \<Longrightarrow> settle q \<noteq> Crashed"
  by (simp add: settle_def program_ok_def control_ok_def server_ok_def)

lemma crash_fatal:
  assumes u: "ucommon_ok u" and p: "program_ok n p" and x: "possible n x" and h: "hub_fine (ct_hub (pg_control p))"
    and crash: "program_step u stp legacy x p = Crashed"
  shows "fatal u x"
proof (cases x)
  case (FromStack te ev)
  let ?w = "ct_world (pg_control p)"
  have ok: "server_ok ?w" using p by (simp add: program_ok_def control_ok_def)
  have cid: "0 \<le> si_cid (se_invite ev)" using x FromStack by simp
  from ucommon_lib.run_event_step [OF ucommon_lib.intro [OF u] ok cid, of stp legacy te] obtain w' where
    w': "run_event u stp legacy te ev ?w = Some w'" by blast
  have "program_ok n (on_world (\<lambda>w. sip_step u stp legacy w (Stack te ev)) p)"
    by (rule ucommon_lib.event_step_ok [OF ucommon_lib.intro [OF u] p]) (use cid in simp)
  with w' have "program_ok n (on_world (\<lambda>_. w') p)" by (simp add: on_world_def)
  with settle_fine crash w' FromStack have "event_aborts u te ev ?w" by (auto split: if_splits)
  with FromStack show ?thesis by (simp add: aborts_fatal)
next
  case (FromTimer i e)
  have "program_ok n (on_world (\<lambda>w. sip_step u stp legacy w (Tick i e)) p)"
    by (rule ucommon_lib.event_step_ok [OF ucommon_lib.intro [OF u] p]) (use p x FromTimer in \<open>simp add: program_ok_def\<close>)
  with settle_fine crash FromTimer show ?thesis by simp
next
  case (FromOperator ce line)
  have "control_ok (pg_control p)" using p by (simp add: program_ok_def)
  note k = dispatch_keeps_control [OF u this, of stp "[ce]" "[line]"]
  obtain cp rest c1 where v: "server_receive u [line] (pg_control p) = (cp, rest, c1)" by (rule prod_cases3)
  then have "cp = snd (fst (receive_line u [line]))" and "ct_hub c1 = ct_hub (pg_control p)"
    by (auto simp: server_receive_def Let_def split: prod.splits option.splits)
  with u h server_command_survives [of u c1 stp ce cp] v FromOperator crash k show ?thesis
    by (cases "server_command u (sip_methods u stp) ce cp c1")
      (auto simp: settle_def keeps_ok_def control_ok_def server_ok_def split: if_splits)
qed


lemma events_run_on:
  assumes u: "ucommon_ok u"
  shows "program_ok n p \<Longrightarrow> hub_fine (ct_hub (pg_control p)) \<Longrightarrow> list_all (possible n) ops \<Longrightarrow>
    list_all (\<lambda>x. \<not> from_operator x \<and> \<not> fatal u x) ops \<Longrightarrow> \<exists>q. program_run u stp legacy ops p = Running q"
proof (induction ops arbitrary: p)
  case (Cons x ops)
  have x: "possible n x" "\<not> from_operator x" "\<not> fatal u x" using Cons.prems(3,4) by simp_all
  note ok = ucommon_lib.step_ok [OF ucommon_lib.intro [OF u] Cons.prems(1) x(1), of stp legacy]
  note hub = step_hub [OF u Cons.prems(2), of stp legacy x]
  have "program_step u stp legacy x p \<noteq> Crashed" using crash_fatal [OF u Cons.prems(1) x(1) Cons.prems(2)] x(3) by blast
  then obtain q where q: "program_step u stp legacy x p = Running q" using driver_step_cases [OF x(2)] by blast
  with ok hub Cons.IH [of q] Cons.prems(3,4) show ?case by (simp add: ended_with_def del: program_step.simps)
qed simp

section \<open>The exit\<close>

lemma step_status:
  "ended_with (\<lambda>q. ct_status (pg_control q) = ct_status (pg_control p)) (program_step u stp legacy x p)"
proof (cases "from_operator x")
  case True
  then obtain ce line where x: "x = FromOperator ce line" by (cases x) simp_all
  note d = dispatch_status [where u = u and dm = "sip_methods u stp" and ces = "[ce]" and ls = "[line]" and c = "pg_control p"]
  with x show ?thesis
    by (cases "server_dispatch u (sip_methods u stp) [ce] [line] (pg_control p)")
      (simp_all add: ended_settle, simp_all add: ended_with_def)
next
  case False
  then show ?thesis by (rule driver_step_keeps) (simp add: on_world_def)
qed

lemma run_status:
  "ended_with (\<lambda>q. ct_status (pg_control q) = ct_status (pg_control p)) (program_run u stp legacy ops p)"
proof (induction ops arbitrary: p)
  case (Cons x ops)
  from step_status [of p u stp legacy x] Cons show ?case
    by (cases "program_step u stp legacy x p") (force simp: ended_with_def split: program_state.splits)+
qed (simp add: ended_with_def)

text \<open>Once a reload has dropped the contexts, nothing brings them back.\<close>

definition contextless :: "sip_static \<Rightarrow> bool" where
  "contextless st \<longleftrightarrow> ss_tcp st = None \<and> ss_udp st = None \<and> ss_tls st = None"

lemma reload_contextless: "hb_active h \<noteq> None \<Longrightarrow> contextless (fst (sip_reload u d st h w))"
  by (auto simp: contextless_def sip_reload_def sip_new_def sip_update_def Let_def case_prod_unfold)

lemma static_kept:
  assumes c: "contextless (pg_static p)"
  shows "ended_with (\<lambda>q. contextless (pg_static q)) (program_step u stp legacy x p)"
proof (cases "from_operator x")
  case True
  then obtain ce line where x: "x = FromOperator ce line" by (cases x) simp_all
  have s: "contextless (fst (sip_reload u d st h w))" if "contextless st" for d st h w
    using that reload_contextless [of h u d st w] by (cases "hb_active h = None") (simp_all add: sip_reload_def Let_def)
  with c have "contextless (static_after u ce line p)" by (simp add: static_after_def split: prod.split)
  with x c show ?thesis
    by (cases "server_dispatch u (sip_methods u stp) [ce] [line] (pg_control p)")
      (simp_all add: ended_settle, simp_all add: ended_with_def)
next
  case False
  then show ?thesis by (rule driver_step_keeps) (use c in \<open>simp add: on_world_def\<close>)
qed

lemma static_run:
  "contextless (pg_static p) \<Longrightarrow> ended_with (\<lambda>q. contextless (pg_static q)) (program_run u stp legacy ops p)"
proof (induction ops arbitrary: p)
  case (Cons x ops)
  from static_kept [OF Cons.prems, of u stp legacy x] Cons.IH show ?case
    by (cases "program_step u stp legacy x p") (simp_all add: ended_with_def)
qed (simp add: ended_with_def)

lemma reload_step:
  assumes u: "ucommon_ok u" and h: "hub_fine (ct_hub (pg_control q))" and r: "snd (fst (receive_line u [line])) = ''reload''"
  shows "\<exists>q'. program_step u stp legacy (FromOperator ce line) q = settle q' \<and> contextless (pg_static q')"
proof -
  obtain cp rest c1 where v: "server_receive u [line] (pg_control q) = (cp, rest, c1)" by (rule prod_cases3)
  then have cp: "cp = ''reload''" and c1: "ct_hub c1 = ct_hub (pg_control q)"
    using r by (auto simp: server_receive_def Let_def split: prod.splits option.splits)
  have f: "hub_fine (Driver_reload u (ce_fresh ce) (ct_hub c1))" using h by (simp add: c1 hub_fine_reload)
  have "fst (snd (sip_reload u d st h w)) = Driver_reload u d h" for d st h w
    by (simp add: sip_reload_def Let_def case_prod_unfold)
  with f u have "\<exists>c2. server_command u (sip_methods u stp) ce cp c1 = Continue c2"
    by (simp add: server_command_def cp sip_methods_def hub_fine_def Let_def case_prod_unfold)
  then obtain c2 where "server_command u (sip_methods u stp) ce cp c1 = Continue c2" ..
  moreover have "contextless (static_after u ce line q)"
    using u h reload_contextless [of "ct_hub c1"] by (simp add: static_after_def v cp c1 hub_fine_def)
  ultimately show ?thesis
    by (intro exI [of _ "\<lparr>pg_control = c2, pg_static = static_after u ce line q\<rparr>"]) (simp add: v)
qed

lemma release_contextless: "contextless st \<Longrightarrow> fst (sip_stop u stp api st stk h w) = stk"
  by (cases api) (simp_all add: contextless_def sip_stop_def voip_release_def legacy_release_def Let_def case_prod_unfold)

section \<open>The driver that the loop remembers\<close>

text \<open>
  A command that is left to the driver leaves the pointer to it in the loop; a reload deletes that driver; a later
  \<open>timeslot\<close> command with a bad number then works on the deleted object, whose registry file it releases.
\<close>

theorem reload_stale_driver:
  assumes u: "ucommon_ok u" and "\<not> isTimeslot a" and d: "hb_active (ct_hub c) = Some d" and "\<not> hb_fault (ct_hub c)"
    and dm: "dm = sip_methods u stp"
  shows "\<exists>c1 c2 c3. driver_command u dm err argv c = Continue c1 \<and> server_command u dm ce ''reload'' c1 = Continue c2 \<and>
    timeslot_command u dm [''timeslot'', a, b] c2 = Continue c3 \<and>
    ct_driver c2 = Some d \<and> Delete d \<in> set (hb_trace (ct_hub c2)) \<and> hb_active (ct_hub c2) = Some (ce_fresh ce) \<and>
    hb_trace (ct_hub c3) = hb_trace (ct_hub c2) @ [RegfileRelease, LockRelease]"
proof -
  obtain c1 where c1: "driver_command u dm err argv c = Continue c1" "ct_driver c1 = Some d"
    "hb_active (ct_hub c1) = Some d" "\<not> hb_fault (ct_hub c1)"
    using d assms(4) by (auto simp: driver_command_def Driver_active_def command_error_def Driver_release_driver_def hub_do_def
        Let_def case_prod_unfold)
  have r: "fst (snd (sip_reload u e st h w)) = Driver_reload u e h" for e st h w
    by (simp add: sip_reload_def Let_def case_prod_unfold)
  have h: "hb_active (Driver_reload u (ce_fresh ce) (ct_hub c1)) = Some (ce_fresh ce)"
    "Delete d \<in> set (hb_trace (Driver_reload u (ce_fresh ce) (ct_hub c1)))" "\<not> hb_fault (Driver_reload u (ce_fresh ce) (ct_hub c1))"
    using c1 by (simp_all add: Driver_reload_def Driver_commit_def hub_do_def Let_def)
  obtain c2 where c2: "server_command u dm ce ''reload'' c1 = Continue c2" "ct_driver c2 = Some d"
    "ct_hub c2 = Driver_reload u (ce_fresh ce) (ct_hub c1)"
    using u h(3) c1(2) by (auto simp: server_command_def dm sip_methods_def r control_do_def Let_def case_prod_unfold)
  have "\<exists>c3. timeslot_command u dm [''timeslot'', a, b] c2 = Continue c3 \<and>
      hb_trace (ct_hub c3) = hb_trace (ct_hub c2) @ [RegfileRelease, LockRelease]"
    using u assms(2) c2(2) by (simp add: timeslot_command_def slot_event_def arg_def command_error_def Driver_release_driver_def hub_do_def)
  with c1 c2 h show ?thesis by auto
qed

theorem reload_stale_driver_witness:
  "\<exists>c2 :: control. ct_driver c2 = Some empty_config \<and> Delete empty_config \<in> set (hb_trace (ct_hub c2))"
proof -
  have "\<not> isTimeslot ''x''" by (simp add: isTimeslot_def c_isdigit_def)
  moreover have "hb_active (ct_hub idle_control) = Some empty_config" "\<not> hb_fault (ct_hub idle_control)"
    by (simp_all add: idle_control_def empty_hub_def)
  ultimately show ?thesis
    using reload_stale_driver [OF ucommon_ref_ok _ _ _ refl, of "''x''" idle_control empty_config "\<lambda>_ _. True"
        "''unknown command''" "[''fnord'']" request_env "''drop''"] by blast
qed

section \<open>Properties\<close>

text \<open>
  C1. The program is correct from boot to end. From the memory of a new process, whatever its
  settings, its command line, its registry and its libraries are: at every moment of a run, for any interleaving of SIP
  events, ticks of the timer and requests of the operator, and when a request has ended it, every timeslot is on the list
  of its state and no mutex is held, each registration's count of calls is the number of
  timeslots that hold its calls, and every record of shared memory is well typed.
\<close>

theorem program_invariant:
  assumes "ucommon_ok u" and "cleared w" and "sip_boot u l stk h w = (stk', p)"
    and "ss_registries (pg_static p) \<noteq> - 1" and "unat (ss_count (pg_static p)) < 65535"
    and "list_all (possible (unat (ss_count (pg_static p)))) ops"
    and "program_run u stp legacy ops p = Running q \<or> program_run u stp legacy ops p = Ended q"
  shows "server_ok (ct_world (pg_control q)) \<and> accounted (ct_world (pg_control q)) \<and> typed (ct_world (pg_control q))"
proof -
  have "program_ok (unat (ss_count (pg_static p))) p" by (rule boot_ok [OF assms(1-5)])
  from ucommon_lib.program_run_ok [OF ucommon_lib.intro [OF assms(1)] this assms(6), of stp legacy] assms(7)
  show ?thesis by (auto simp: ended_with_def program_ok_def control_ok_def)
qed

text \<open>A launch with one registration, and what happens to it: a call, a look at the server, its end.\<close>

definition sample_launch :: launch where
  "sample_launch = \<lparr>ln_paths = \<lparr>bp_var = ''/var'', bp_cfg = ''/etc'', bp_data = ''/usr/share'', bp_lib = ''/usr/lib''\<rparr>,
     ln_uid = 0, ln_passwd = None, ln_env = (\<lambda>_. None), ln_now = 1000, ln_marks = False, ln_line = no_options,
     ln_verbose = None, ln_debug = None,
     ln_levels = \<lparr>lv_fail = 0, lv_err = 1, lv_warn = 2, lv_notify = 3, lv_info = 4, lv_debug0 = 5\<rparr>,
     ln_system = root_env, ln_eq_case = (=), ln_is_file = (\<lambda>_. True), ln_files = (\<lambda>_. []), ln_argv0 = ''/usr/sbin/bayonne'',
     ln_fifos = (\<lambda>_. True),
     ln_script = \<lparr>sl_define = (\<lambda>_ _. None), sl_compile = (\<lambda>_ _. None), sl_errors = (\<lambda>_. 0), sl_filename = (\<lambda>_. []), sl_listing = (\<lambda>_. []), sl_find = (\<lambda>_ _. True)\<rparr>,
     ln_sections = (\<lambda>_. None), ln_defs = None, ln_scripts = None, ln_version = ''2.3'', ln_debugging = False, ln_help = [], ln_api = API4, ln_openssl = False,
     ln_options = plain_options, ln_listens = (\<lambda>_ _. 0), ln_registry = [(''line'', line_keys, line_env)]\<rparr>"

definition new_hub :: hub where
  "new_hub = empty_hub\<lparr>hb_active := None\<rparr>"

definition sample_boot :: "stack_state \<times> program" where
  "sample_boot = sip_boot ucommon_ref sample_launch new_stack new_hub boot_world"

lemma sample_booted:
  assumes "sample_boot = (stk, p)"
  shows "cleared boot_world" "ss_registries (pg_static p) = 40" "ss_count (pg_static p) = 2"
    "\<not> hb_fault new_hub"
proof -
  show "cleared boot_world"
    by (simp add: cleared_def boot_world_def blank_world_def blank_registration_def blank_segment_def)
  show "\<not> hb_fault new_hub" by (simp add: new_hub_def empty_hub_def)
  have d: "dc_sections (Driver_construct ucommon_ref (ln_script sample_launch) (ln_sections sample_launch)
      (ln_defs sample_launch) (ln_scripts sample_launch)) = (\<lambda>_. None)"
    by (simp add: Driver_construct_def sample_launch_def)
  show r: "ss_registries (pg_static p) = 40" and c: "ss_count (pg_static p) = 2"
    using assms d by (auto simp: sample_boot_def sip_boot_def sip_start_def sip_settings_def sip_contexts_def sip_new_def
        sip_update_def sip_defaults_def sample_launch_def plain_options_def Let_def split: prod.splits)
qed

theorem program_invariant_witness:
  "\<exists>q. (program_run ucommon_ref (\<lambda>_ _. True) False
       [FromStack (sip_env None) (invite_event 5), FromTimer 1 0] (snd sample_boot) = Running q) \<and>
     server_ok (ct_world (pg_control q)) \<and> accounted (ct_world (pg_control q)) \<and> typed (ct_world (pg_control q))"
proof -
  obtain stk p where b: "sample_boot = (stk, p)" by (rule prod.exhaust)
  note s = sample_booted [OF b]
  let ?ops = "[FromStack (sip_env None) (invite_event 5), FromTimer 1 0]"
  have z: "ss_registries (pg_static p) \<noteq> - 1" "unat (ss_count (pg_static p)) < 65535" using s(2,3) by simp_all
  have o: "list_all (possible (unat (ss_count (pg_static p)))) ?ops"
    using s(3) by (simp add: invite_event_def plain_invite_def)
  have f: "list_all (\<lambda>x. \<not> from_operator x \<and> \<not> fatal ucommon_ref x) ?ops"
    by (simp add: fatal_event_def invite_event_def auth_asserts_def sip_env_def)
  obtain q where q: "program_run ucommon_ref (\<lambda>_ _. True) False ?ops p = Running q"
    using events_run_on [OF ucommon_ref_ok boot_ok [OF ucommon_ref_ok s(1) b [unfolded sample_boot_def] z]
        boot_hub(1) [OF b [unfolded sample_boot_def] s(4)] o f] by blast
  note i = program_invariant [OF ucommon_ref_ok s(1) b [unfolded sample_boot_def] z o disjI1 [OF q]]
  have p: "snd sample_boot = p" by (simp add: b)
  show ?thesis unfolding p by (rule exI [of _ q], rule conjI [OF q i])
qed

lemma run_append:
  "program_run u stp legacy (xs @ ys) p =
     (case program_run u stp legacy xs p of Running q \<Rightarrow> program_run u stp legacy ys q | r \<Rightarrow> r)"
  by (induction xs arbitrary: p) (simp_all split: program_state.split)

lemma sample_program_ok:
  assumes "sample_boot = (stk, p)"
  shows "program_ok 2 p" "hub_fine (ct_hub (pg_control p))"
proof -
  note s = sample_booted [OF assms]
  show "program_ok 2 p"
    using boot_ok [OF ucommon_ref_ok s(1) assms [unfolded sample_boot_def]] s(2,3) by simp
  show "hub_fine (ct_hub (pg_control p))" by (rule boot_hub(1) [OF assms [unfolded sample_boot_def] s(4)])
qed



text \<open>
  Anyone who knows the address of a line can end the server: where a realm is set, an invitation to a known user whose
  credentials have a user name and a response but no nonce gets as far as the assertion if there is room for the call.
\<close>

theorem invite_without_nonce_aborts:
  assumes "se_type ev = CALL_INVITE" and "se_request ev = Some req" and "1 \<le> si_cid (se_invite ev)"
    and "sr_parts req" and "sr_user req = Some uuid" and "uuid \<noteq> []"
    and "sip_contact u uuid (ct_world (pg_control p)) = Some r"
    and "Registration_attach r INCOMING (ct_world (pg_control p)) = (True, w1)" and "w_idle w1 \<noteq> []"
    and "te_realm te \<noteq> None" and "sr_auth req = Some a" and "sa_username a \<noteq> None" and "sa_response a \<noteq> None"
    and "sa_nonce a = None"
  shows "program_step u stp legacy (FromStack te ev) p = Crashed"
proof -
  obtain t w2 where "Timeslot_assign (sip_allocate u) (Some r) INCOMING (si_cid (se_invite ev)) w1 = (Some t, w2)"
    using assms(9) by (cases "w_idle w1") (auto simp: Timeslot_assign_def Let_def)
  then have "invite_place u te req (se_invite ev) (ct_world (pg_control p)) = InvitePlaced r t w2"
    using assms(4-8) by (simp add: invite_place_def Let_def)
  moreover have "auth_asserts (te_realm te) (sr_auth req)" using assms(10-14) by (auto simp: auth_asserts_def)
  ultimately show ?thesis using assms(1-3) by (simp add: event_aborts_def invite_aborts_def)
qed

text \<open>
  C39. A server that is told to reload its configuration never gives its SIP contexts back: when it exits later, whatever
  happened in between, the state of the stack is what it was after the start, with all of its sockets open. And
  whatever ended it, a restart included, it exits with status 0.
\<close>

theorem program_reload_leaks:
  assumes "ucommon_ok u" and "\<not> hb_fault h"
    and "sip_main u stp legacy detached l p0 stk h w xs = Serving p1 q"
    and "snd (fst (receive_line u [line])) = ''reload''"
    and "sip_main u stp legacy detached l p0 stk h w (xs @ FromOperator ce line # ys) = Exited n p2 stk2 h2 w2"
  shows "stk2 = fst (sip_boot u l stk h w) \<and> n = 0"
proof -
  obtain stk1 pg where b: "sip_boot u l stk h w = (stk1, pg)" by (rule prod.exhaust)
  have q: "program_run u stp legacy xs pg = Running q"
    using assms(3) b by (auto simp: sip_main_def Let_def split: parse_end.splits start_result.splits program_state.splits prod.splits)
  obtain e where e: "program_run u stp legacy (FromOperator ce line # ys) q = Ended e" and n: "n = ct_status (pg_control e)"
    and stk2: "stk2 = fst (sip_stop u stp (ln_api l) (pg_static e) stk1 (ct_hub (pg_control e)) (ct_world (pg_control e)))"
    using assms(5) b q by (auto simp: sip_main_def run_append Let_def
        split: parse_end.splits start_result.splits program_state.splits prod.splits)
  have "n = 0"
    using run_status [of pg u stp legacy xs] run_status [of q u stp legacy "FromOperator ce line # ys"] q e n boot_hub(2) [OF b]
    by (simp add: ended_with_def)
  moreover have "hub_fine (ct_hub (pg_control q))"
    using run_hub [OF assms(1) boot_hub(1) [OF b assms(2)], where stp = stp and legacy = legacy and ops = xs] q
    by (simp add: ended_with_def)
  from reload_step [OF assms(1) this assms(4), of stp legacy ce] obtain q' where
    st: "program_step u stp legacy (FromOperator ce line) q = settle q'" and c: "contextless (pg_static q')" by blast
  have "program_run u stp legacy ys q' = Ended e"
    using e by (simp add: st settle_def del: program_step.simps split: if_splits)
  with c static_run [of q' u stp legacy ys] have "contextless (pg_static e)" by (simp add: ended_with_def)
  ultimately show ?thesis using release_contextless [of "pg_static e"] by (simp add: stk2 b)
qed

lemma sample_main:
  assumes "sample_boot = (stk, p)"
  shows "\<exists>p1. \<forall>ops. sip_main ucommon_ref (\<lambda>_ _. True) False True sample_launch root_process new_stack new_hub boot_world ops =
    (case program_run ucommon_ref (\<lambda>_ _. True) False ops p of
      Running q \<Rightarrow> Serving p1 q | Crashed \<Rightarrow> Aborted p1
    | Ended q \<Rightarrow> (let c = pg_control q; (stk2, h2, w2) =
          sip_stop ucommon_ref (\<lambda>_ _. True) (ln_api sample_launch) (pg_static q) stk (ct_hub c) (ct_world c) in Exited (ct_status c) p1 stk2 h2 w2))"
proof -
  let ?su = "server_parse ucommon_ref (ln_paths sample_launch) ''sip'' (ln_uid sample_launch) (ln_passwd sample_launch) (ln_env sample_launch)"
  have su: "?su = \<lparr>su_env = set_env (system_settings (ln_paths sample_launch) ''sip'') (\<lambda>_. None), su_daemon = True,
      su_prefix = ''/var/lib/bayonne'', su_rundir = ''/var/run/bayonne'', su_plugins = Some ''/usr/lib/bayonne''\<rparr>"
    by (simp add: server_parse_def sample_launch_def)
  have v: "su_env ?su ''GROUP'' = None" "su_env ?su ''USER'' = None" "su_env ?su ''CONCURRENCY'' = None"
    "su_env ?su ''PRIORITY'' = None" "su_env ?su ''VERBOSE'' = None" "su_env ?su ''LOGGING'' = None"
    "su_env ?su ''MODULES'' = None" "su_env ?su ''PLUGINS'' = None"
    unfolding su by (simp_all add: system_settings_def)
  have line: "parse_options (ln_marks sample_launch) (su_env ?su) (ln_line sample_launch) = Parsed no_options"
    by (simp add: v parse_options_def environment_options_def Let_def) (simp add: sample_launch_def no_options_def)
  let ?e = "launch_env ucommon_ref sample_launch no_options"
  have "find_user ?e = Some None" "find_group ?e = Some None"
    by (simp_all add: find_user_def find_group_def launch_env_def start_env_of_def given_value_def no_options_def)
  moreover have "se_prefix_ok ?e" by (simp add: launch_env_def start_env_of_def sample_launch_def root_env_def)
  moreover have "\<exists>path. server_attach ucommon_ref (ln_fifos sample_launch) (su_env ?su) = Some path"
    unfolding su by (simp add: server_attach_def sample_launch_def system_settings_def)
  ultimately obtain p1 where "server_startup ?e True ?su (server_load ucommon_ref (ln_eq_case sample_launch) (ln_is_file sample_launch)
      (ln_files sample_launch) (ln_paths sample_launch) (ln_argv0 sample_launch) (op_value (cl_loading no_options)))
      (server_attach ucommon_ref (ln_fifos sample_launch) (su_env ?su)) root_process = Started p1"
    by (auto simp: server_startup_def Let_def)
  with assms line have "sip_main ucommon_ref (\<lambda>_ _. True) False True sample_launch root_process new_stack new_hub boot_world ops =
    (case program_run ucommon_ref (\<lambda>_ _. True) False ops p of
      Running q \<Rightarrow> Serving p1 q | Crashed \<Rightarrow> Aborted p1
    | Ended q \<Rightarrow> (let c = pg_control q; (stk2, h2, w2) =
          sip_stop ucommon_ref (\<lambda>_ _. True) (ln_api sample_launch) (pg_static q) stk (ct_hub c) (ct_world c)
        in Exited (ct_status c) p1 stk2 h2 w2))" for ops
    by (simp add: sip_main_def sample_boot_def Let_def)
  then show ?thesis by blast
qed

theorem program_reload_leaks_witness:
  "\<exists>n p2 stk2 h2 w2. (sip_main ucommon_ref (\<lambda>_ _. True) False True sample_launch root_process new_stack new_hub boot_world
       ([] @ FromOperator request_env ''reload'' # [FromOperator request_env ''restart'']) = Exited n p2 stk2 h2 w2) \<and>
     stk2 = fst sample_boot \<and> n = 0"
proof -
  obtain stk p where b: "sample_boot = (stk, p)" by (rule prod.exhaust)
  let ?run = "sip_main ucommon_ref (\<lambda>_ _. True) False True sample_launch root_process new_stack new_hub boot_world"
  let ?line = "receive_line ucommon_ref"
  have r: "snd (fst (?line [''reload''])) = ''reload''" "snd (fst (?line [''restart''])) = ''restart''"
    by (simp_all add: parse_request_def strip_chars_def starts_slash_def starts_digit_def c_isdigit_def c_isspace_def Let_def)
  obtain p1 where m: "?run ops = (case program_run ucommon_ref (\<lambda>_ _. True) False ops p of
      Running q \<Rightarrow> Serving p1 q | Crashed \<Rightarrow> Aborted p1
    | Ended q \<Rightarrow> (let c = pg_control q; (stk2, h2, w2) =
          sip_stop ucommon_ref (\<lambda>_ _. True) (ln_api sample_launch) (pg_static q) stk (ct_hub c) (ct_world c) in Exited (ct_status c) p1 stk2 h2 w2))"
    for ops
    using sample_main [OF b] by blast
  have z: "\<not> hb_fault new_hub" by (rule sample_booted(4) [OF b])
  have h: "hub_fine (ct_hub (pg_control p))" and ok: "program_ok 2 p" using sample_program_ok [OF b] by simp_all
  have pos: "possible 2 (FromOperator request_env line)" for line by simp
  from reload_step [OF ucommon_ref_ok h r(1)] obtain q where
    st: "program_step ucommon_ref (\<lambda>_ _. True) False (FromOperator request_env ''reload'') p = settle q" by blast
  have "\<not> fatal ucommon_ref (FromOperator request_env ''reload'')"
    by (simp add: r(1) fatal_command_def del: receive_line.simps) (simp add: ucommon_ref_def)
  with crash_fatal [OF ucommon_ref_ok ok pos h] st have q:
    "program_step ucommon_ref (\<lambda>_ _. True) False (FromOperator request_env ''reload'') p = Running q"
    by (metis settle_def)
  have qok: "program_ok 2 q"
    using ucommon_lib.step_ok [OF ucommon_lib.intro [OF ucommon_ref_ok] ok pos, of "\<lambda>_ _. True" False "''reload''"] q
    by (simp add: ended_with_def del: program_step.simps)
  obtain cp rest c1 where v: "server_receive ucommon_ref [''restart''] (pg_control q) = (cp, rest, c1)" by (rule prod_cases3)
  with r(2) have "cp = ''restart''" by (auto simp del: receive_line.simps simp: server_receive_def Let_def split: prod.splits)
  moreover have "ct_world c1 = ct_world (pg_control q)"
    using v by (auto simp: server_receive_def server_reply_def control_do_def Let_def simp del: receive_line.simps
        split: prod.splits option.splits if_splits)
  then have "\<not> w_fault (ct_world c1)" using qok by (simp add: program_ok_def control_ok_def server_ok_def)
  ultimately obtain e where "program_step ucommon_ref (\<lambda>_ _. True) False (FromOperator request_env ''restart'') q = Ended e"
    using v by (auto simp: server_command_def control_do_def)
  with q have "program_run ucommon_ref (\<lambda>_ _. True) False ([] @ FromOperator request_env ''reload'' # [FromOperator request_env ''restart'']) p = Ended e"
    by (simp del: program_step.simps)
  moreover obtain stk2 h2 w2 where "sip_stop ucommon_ref (\<lambda>_ _. True) (ln_api sample_launch) (pg_static e) stk
      (ct_hub (pg_control e)) (ct_world (pg_control e)) = (stk2, h2, w2)" by (rule prod_cases3)
  ultimately obtain n p2 where
    e: "?run ([] @ FromOperator request_env ''reload'' # [FromOperator request_env ''restart'']) = Exited n p2 stk2 h2 w2"
    using m by (simp add: Let_def del: program_run.simps)
  from m have s: "?run [] = Serving p1 p" by simp
  from program_reload_leaks [OF ucommon_ref_ok z s r(1) e] e show ?thesis unfolding sample_boot_def by blast
qed

end
