(* ===== verification/Spec2Isabelle.thy ===== *)
theory Spec2Isabelle
  imports Threads Background SetupProps Lint Vpb VoipLegacy Srv Mailslot Signals Spawn Logging Records Admission Endpoint SharedMaps VpbProgram Scripts Program
begin

text \<open>
  GNU Bayonne, the telephony server: a verification library.

  The program. The server runs one driver. A driver owns timeslots (the ports on which calls run), grouped
  into boards and spans, and a table of registrations (the lines and accounts through which calls come in). An event
  of the telephone network is posted to the timeslot it concerns; the handler of the timeslot, which
  is its state, decides what it means, and steps the script of the call. Timers are served by a background
  thread, the SIP stack by one thread for each SIP context, the operator's commands by the
  control loop, and reloading of the configuration by a command of that loop. Counters and the state of every
  timeslot are kept in shared memory, from which the control utility prints its reports.

  The theories, in the order of their imports, and the code they model. Every definition has the name it
  has in the source, with the class in front of it where the name is used twice.

  \<^item> \<open>Prelude\<close>: strings and numbers of the C library, the operations of uCommon as a record that every
    definition takes as its argument (\<open>ucommon\<close>, with what the code relies on in \<open>ucommon_ok\<close>),
    and the collections of simplification rules.
  \<^item> \<open>Stats\<close> (\<open>common/stats.cpp\<close>): the shared array of counters. A node is an index; the lemmas show how
    one assignment or release changes one node and frames all others.
  \<^item> \<open>Dbi\<close> (\<open>common/dbi.cpp\<close>): call detail records as a heap of records with the run list and free list of
    the code, allocation, posting, and the passes of the logging thread.
  \<^item> \<open>Core\<close> (\<open>inc/bayonne/timeslot.h\<close>, \<open>segment.h\<close>, \<open>registry.h\<close>): the state \<open>world\<close> of a running
    server, as one record, and the accessors of its parts with their frame rules.
  \<^item> \<open>Registry\<close> (\<open>common/registry.cpp\<close>): admission of calls under the limit of a registration.
  \<^item> \<open>Timeslot\<close> (\<open>common/timeslot.cpp\<close>): the handlers, the virtual methods through the record \<open>vtable\<close>,
    delivery of events, the index by call id. \<open>TimeslotLaws\<close> states the invariant \<open>slots_ok\<close>, the contract
    \<open>method_ok\<close> of a method and the locale \<open>slot_driver\<close>, in which delivery is proved safe for every
    driver that keeps the contracts. \<open>TimeslotProps\<close> interprets it on the base class and holds its properties, among
    them the refinement of an automaton of phases.
  \<^item> \<open>Segment\<close> (\<open>common/segment.cpp\<close>): boards and spans, suspended and resumed as a whole.
  \<^item> \<open>SipTimeslot\<close>, \<open>SipRegistry\<close>, \<open>SipThread\<close> (\<open>sipw/timeslot.cpp\<close>, \<open>sipw/registry.cpp\<close>, \<open>sipw/srv.cpp\<close>,
    \<open>sipw/thread.cpp\<close>): the SIP driver: what becomes of an incoming call, of the registrar's answers,
    of every event of the stack, and where an assertion ends the process. \<open>SipProps\<close> interprets \<open>slot_driver\<close> on it and shows that every operation of the
    driver keeps the invariant \<open>server_ok\<close>; \<open>SipCalls\<close> follows single calls.
  \<^item> \<open>Driver\<close> (\<open>common/driver.cpp\<close>), \<open>SipDriver\<close> (\<open>sipw/driver.cpp\<close>): configurations and scripts, reload,
    start and stop, with the errors that loading logs. \<open>Background\<close> (\<open>common/thread.cpp\<close>): the scan for timers that have run out, the
    passes of its loop and its shutdown over all interleavings. \<open>Threads\<close>: the threads of the SIP contexts and the four
    counters they share without a lock, over all interleavings of single reads and writes.
  \<^item> \<open>Voip\<close>, \<open>VoipLegacy\<close> (\<open>sipw/voip.cpp\<close>): the wrappers around the two interfaces of the eXosip
    library, as the calls they make; the two versions are proved to agree but for one lock, which the older keeps where a
    registration cannot be built.
  \<^item> \<open>Uri\<close>, \<open>Srv\<close> (\<open>common/uri.cpp\<close>): parsing and building of uris, reading the answers of the name
    system byte by byte into an array of the size that was allocated, the walk over the servers found.
  \<^item> \<open>Server\<close> (\<open>common/server.cpp\<close>, \<open>common/psignals.cpp\<close>): requests, replies, commands, the loop.
    \<open>ServerProps\<close> composes it with the SIP driver, and gives the table \<open>request_refused\<close> of the commands, by which the answers
    are judged. \<open>Mailslot\<close>, \<open>Setup\<close>, \<open>SetupProps\<close>, \<open>Startup\<close>: requests as built
    for Windows, the environment, modules and logging, and how the server gives up its rights. \<open>Pipe\<close> is the control pipe as a stream
    of bytes between those who write requests and the loop that reads them, which justifies that \<open>Server\<close> takes its
    requests as a list of lines; \<open>Endpoint\<close> makes, opens, writes and removes the pipe as a file with a name.
  \<^item> \<open>Control\<close>, \<open>ControlProps\<close> (\<open>utils/baycontrol.cpp\<close>): the control utility, and that what it sends arrives as
    meant. \<open>Lint\<close> (\<open>utils/baylint.cpp\<close>): the script checker. \<open>Vpb\<close>, \<open>VpbProgram\<close>
    (\<open>vpb/board.cpp\<close>, \<open>vpb/driver.cpp\<close>): the boards of the Voicetronix driver, and its \<open>main\<close>. \<open>SharedMaps\<close>: which process
    makes and removes the shared maps of statistics and timeslots, and what the utility then reports.
  \<^item> \<open>Keeping\<close>: the locales \<open>slot_keeper\<close>, \<open>registry_keeper\<close> and \<open>sip_keeper\<close> in which a further invariant of the running SIP server is
    proved once from what the pieces of the driver do to it. \<open>Accounting\<close> interprets them on the books (calls counted
    against timeslots held), \<open>Typed\<close> on the types of the shared map and on the number of timeslots,
    \<open>Records\<close> on the lists of call records, which the logging thread works on meanwhile. \<open>Admission\<close> states what
    the driver is for, an \<open>exchange\<close> of lines that are free, held by a call or off, and proves every event of the
    running server a step of it; its invariant \<open>registered\<close> is kept by the same locales.
  \<^item> \<open>Options\<close> (\<open>common/server.cpp\<close>): the command line and the variables that stand in for it, the settings on
    Windows and of a debug build. \<open>Signals\<close> (\<open>common/psignals.cpp\<close>): the signal thread access by access, and the states of the
    Windows service. \<open>Spawn\<close> (\<open>common/server.cpp\<close>): descriptors and processes of a shell command. \<open>Logging\<close>
    (\<open>common/dbi.cpp\<close>): the logging thread access by access. \<open>Scripts\<close> (\<open>common/driver.cpp\<close>, \<open>sipw/timeslot.cpp\<close>): the
    references to compiled scripts, while calls and reloads interleave.
  \<^item> \<open>Program\<close> (\<open>sipw/driver.cpp\<close>, \<open>init\<close>): all of it put together, from the command line to the exit status. What ends the
    process on the way (an assertion, an access that is not valid, a division by zero, a chain without end) is the state \<open>Crashed\<close>.

  What the groups of lemmas show.

  \<^item> Invariants. \<open>slots_ok\<close> says that every timeslot stands on exactly the list that its handler calls for;
    \<open>server_ok\<close> adds mutexes, registrations and the absence of accesses out of range; \<open>accounted\<close> that the counts
    are the calls there are; \<open>typed\<close> that shared memory holds what its readers expect;
    \<open>records_ok\<close> that every call record is in one place; \<open>program_ok\<close> joins them. Each is
    proved method by method, then for delivery of events in a locale, then for the driver, for the operator's
    requests and for the program.
  \<^item> Concurrency. \<open>Threads\<close>, \<open>Background\<close>, \<open>Signals\<close>, \<open>Logging\<close> and \<open>Scripts\<close> are step relations whose steps are single
    accesses to shared state; their invariants are proved over all runs, and progress by naming a schedule that reaches the end from
    every reachable state.
  \<^item> Specifications. \<open>sip_implements_exchange\<close> relates the running SIP server to the exchange of lines,
    \<open>pipe_requests_in_order\<close> the bytes of the control pipe to a queue of requests, \<open>timeslot_refines_phases\<close> and \<open>sip_registration_lifecycle\<close> relate the code to automata of three
    phases, \<open>voip_versions_agree\<close> and \<open>log_pass_agrees\<close> two forms of the same code to each other.
  \<^item> Faults. Where the code does not do what it means to, the theorem states what it does, with a concrete run as
    its witness.

  Interfaces. \<open>machine\<close> (an invariant kept by steps holds after a run), \<open>simulation\<close> (a machine whose steps are, seen
  through a view, steps of a specification), \<open>slot_timer\<close> and \<open>slot_driver\<close> (what the base class asks
  of the methods of a driver), \<open>ucommon_lib\<close> (what everything asks of uCommon), \<open>slot_keeper\<close>, \<open>registry_keeper\<close>,
  \<open>sip_keeper\<close> and \<open>control_keeper\<close> (what a further invariant must be kept by) are locales; each is interpreted on the definitions of
  the model, by interpretation or sublocale.

  Bounds and loops. Machine integers have the width of the source where it matters (16 bits for counts, 32 for
  numbers read with \<^verbatim>\<open>atoi\<close>). Loops that may not end are partial functions into option, so that not returning is
  the value \<open>None\<close>, and every claim that they return is proved as such: the search for a timeslot in a range
  (\<open>assign_scan\<close>), the walk over servers (\<open>uri_walk\<close>), the chain of registrations that pass on to one another
  (\<open>sip_confirm\<close> and its like), the passes of the logging thread (\<open>dbi_drain\<close>). No definition takes fuel; the runs of
  threads are bounded by the schedules that the theorems quantify over.

  Not modelled, and why. The library that parses the command line, the script compiler and interpreter, name
  resolution, the eXosip library and the drivers of the vendor are not in the repository: they are parameters,
  with the behaviour that the code relies on as named hypotheses. Debug messages and the texts of the script checker are output
  without effect on any state; constructors and destructors that only call those of the library are left out. The
  class of timeslots of \<^verbatim>\<open>vpb\<close> is declared there and not written. The remaining headers hold declarations, includes and macros.
\<close>

end
